(* ===== verification/Prelude.thy ===== *)
theory Prelude
  imports Complex_Main "HOL-Library.Word"
begin

text \<open>
  The language of the models.  A Python coroutine that talks to Postgres, Redis or a broker
  becomes an action \<open>world \<Rightarrow> (exn + 'a) \<times> world\<close>: it either raises or returns, and it leaves a
  new world.  Every \<open>await\<close> on an outside service goes through \<open>ext\<close>, which consumes one entry
  of the world's fault list, so the theorems hold whichever calls fail and in whichever of the
  two ways a remote call can fail: before it took effect, or after.  \<open>transaction\<close> is asyncpg's
  \<open>connection.transaction()\<close>: commit on return, roll back on an exception, and a commit that can
  itself fail.  The second half is the proof support: inversion rules for successful runs, and a
  rule per construct for invariants of the database.
\<close>

named_theorems keeps_rules
named_theorems ok_elims
named_theorems nofault_simps

lemma map_option_match:
  "map_option f x = map_option g y \<Longrightarrow> x = Some a \<Longrightarrow> \<exists>b. y = Some b \<and> f a = g b"
  by (cases y) auto

section \<open>Exceptions\<close>

datatype exn_class =
    UniqueViolationError | CheckViolationError | ForeignKeyViolationError | DataError
  | LockNotAvailableError | QueryCanceledError | ConnectionError
  | TimeoutError | RedisError | RedisTimeoutError | RabbitMQRelayError
  | ValueError | KeyError | TypeError | RuntimeError | OSError | TaskCancellationConflict
  | HTTPException int | HTTPError | ExpiredBearerToken
  | PyJWKError | ExpiredSignatureError | PyJWTError
  | OtherException

text \<open>\<open>except RedisError\<close> also catches its subclass \<open>redis.exceptions.TimeoutError\<close>.\<close>

definition is_redis_error :: "exn_class \<Rightarrow> bool" where
  "is_redis_error c \<longleftrightarrow> c = RedisError \<or> c = RedisTimeoutError"

datatype exn = Exn (exn_kind: exn_class) (exn_text: string)

section \<open>Worlds and actions\<close>

type_synonym uuid = "128 word"

text \<open>
  A remote call works, or raises before it took effect (\<open>FailBefore\<close>), or takes effect and then
  raises because the answer is lost (\<open>FailAfter\<close>).
\<close>

datatype fault = Fine | FailBefore exn | FailAfter exn

record ('d, 'k) world =
  pg :: 'd
  kv :: 'k
  clock :: int
  faults :: "fault list"
  entropy :: "uuid list"

type_synonym ('d, 'k, 'a) io = "('d, 'k) world \<Rightarrow> (exn + 'a) \<times> ('d, 'k) world"

definition returnM :: "'a \<Rightarrow> ('d, 'k, 'a) io" where
  "returnM a w = (Inr a, w)"

definition raiseM :: "exn_class \<Rightarrow> string \<Rightarrow> ('d, 'k, 'a) io" where
  "raiseM c msg w = (Inl (Exn c msg), w)"

definition bindE :: "('d, 'k, 'a) io \<Rightarrow> ('a \<Rightarrow> ('d, 'k, 'b) io) \<Rightarrow> ('d, 'k, 'b) io" where
  "bindE m f w = (case m w of (Inl e, w') \<Rightarrow> (Inl e, w') | (Inr a, w') \<Rightarrow> f a w')"

text \<open>\<open>try: x = m except ...\<close>: the outcome as a value, the effects kept.\<close>

definition attempt :: "('d, 'k, 'a) io \<Rightarrow> ('d, 'k, exn + 'a) io" where
  "attempt m w = (Inr (fst (m w)), snd (m w))"

definition liftE :: "exn + 'a \<Rightarrow> ('d, 'k, 'a) io" where
  "liftE r w = (r, w)"

text \<open>Sequencing inside a synchronous \<open>try\<close> block: the first exception wins.\<close>

definition then_ok :: "exn + 'a \<Rightarrow> ('a \<Rightarrow> exn + 'b) \<Rightarrow> exn + 'b" where
  "then_ok r f = (case r of Inl e \<Rightarrow> Inl e | Inr a \<Rightarrow> f a)"

lemma then_ok_simps [simp]: "then_ok (Inl e) f = Inl e" "then_ok (Inr a) f = f a"
  by (simp_all add: then_ok_def)

definition get_clock :: "('d, 'k, int) io" where
  "get_clock w = (Inr (clock w), w)"

text \<open>\<open>uuid7()\<close> and \<open>gen_random_uuid()\<close>: the next value of an arbitrary supply, repeats allowed.\<close>

definition fresh_uuid :: "('d, 'k, uuid) io" where
  "fresh_uuid w = (case entropy w of [] \<Rightarrow> (Inr 0, w) | u # us \<Rightarrow> (Inr u, w\<lparr>entropy := us\<rparr>))"

definition ext :: "('d, 'k, 'a) io \<Rightarrow> ('d, 'k, 'a) io" where
  "ext m w = (case faults w of
      [] \<Rightarrow> m w
    | Fine # fs \<Rightarrow> m (w\<lparr>faults := fs\<rparr>)
    | FailBefore e # fs \<Rightarrow> (Inl e, w\<lparr>faults := fs\<rparr>)
    | FailAfter e # fs \<Rightarrow> (Inl e, snd (m (w\<lparr>faults := fs\<rparr>))))"

text \<open>\<open>asyncio.sleep\<close> of so many microseconds.\<close>

definition sleepM :: "int \<Rightarrow> ('d, 'k, unit) io" where
  "sleepM n w = (Inr (), w\<lparr>clock := clock w + max 0 n\<rparr>)"

text \<open>The clock counts microseconds; sleeping times are floats in seconds.\<close>

definition microseconds :: "real \<Rightarrow> int" where
  "microseconds r = \<lfloor>r * 1000000\<rfloor>"

definition sleep_seconds :: "real \<Rightarrow> ('d, 'k, unit) io" where
  "sleep_seconds r = sleepM (microseconds r)"

text \<open>\<open>int(time.time())\<close>.\<close>

definition epoch :: "int \<Rightarrow> int" where
  "epoch now = now div 1000000"

text \<open>One SQL statement: a function of \<open>now()\<close> and the database; an error leaves the database alone.\<close>

definition sql :: "(int \<Rightarrow> 'd \<Rightarrow> exn + 'a \<times> 'd) \<Rightarrow> ('d, 'k, 'a) io" where
  "sql f = ext (\<lambda>w. case f (clock w) (pg w) of
      Inl e \<Rightarrow> (Inl e, w)
    | Inr (a, d) \<Rightarrow> (Inr a, w\<lparr>pg := d\<rparr>))"

definition sql_read :: "(int \<Rightarrow> 'd \<Rightarrow> 'a) \<Rightarrow> ('d, 'k, 'a) io" where
  "sql_read g = sql (\<lambda>t d. Inr (g t d, d))"

text \<open>One command to Redis, to the broker or to another outside service.\<close>

definition remote :: "(int \<Rightarrow> 'k \<Rightarrow> exn + 'a \<times> 'k) \<Rightarrow> ('d, 'k, 'a) io" where
  "remote f = ext (\<lambda>w. case f (clock w) (kv w) of
      Inl e \<Rightarrow> (Inl e, w)
    | Inr (a, k) \<Rightarrow> (Inr a, w\<lparr>kv := k\<rparr>))"

text \<open>\<open>async with pool.acquire()\<close>: waiting for a pooled connection can fail.\<close>

definition acquire :: "('d, 'k, 'a) io \<Rightarrow> ('d, 'k, 'a) io" where
  "acquire m = bindE (ext (returnM ())) (\<lambda>_. m)"

definition transaction :: "('d, 'k, 'a) io \<Rightarrow> ('d, 'k, 'a) io" where
  "transaction m w = (case m w of
      (Inl e, w') \<Rightarrow> (Inl e, w'\<lparr>pg := pg w\<rparr>)
    | (Inr a, w') \<Rightarrow> (case faults w' of
          [] \<Rightarrow> (Inr a, w')
        | Fine # fs \<Rightarrow> (Inr a, w'\<lparr>faults := fs\<rparr>)
        | FailBefore e # fs \<Rightarrow> (Inl e, w'\<lparr>pg := pg w, faults := fs\<rparr>)
        | FailAfter e # fs \<Rightarrow> (Inl e, w'\<lparr>faults := fs\<rparr>)))"

section \<open>Successful runs\<close>

lemma returnM_ok [simp]: "returnM a w = (Inr b, w') \<longleftrightarrow> b = a \<and> w' = w"
  by (auto simp: returnM_def)

lemma returnM_err [simp]: "returnM a w = (Inl e, w') \<longleftrightarrow> False"
  by (simp add: returnM_def)

lemma raiseM_ok [simp]: "raiseM c s w = (Inr b, w') \<longleftrightarrow> False"
  by (simp add: raiseM_def)

lemma liftE_ok [simp]: "liftE r w = (Inr b, w') \<longleftrightarrow> r = Inr b \<and> w' = w"
  by (auto simp: liftE_def)

lemma bindE_ok: "bindE m f w = (Inr b, w') \<longleftrightarrow> (\<exists>a w1. m w = (Inr a, w1) \<and> f a w1 = (Inr b, w'))"
  by (auto simp: bindE_def split: prod.splits sum.splits)

lemma bindE_okE [ok_elims]:
  assumes "bindE m f w = (Inr b, w')"
  obtains a w1 where "m w = (Inr a, w1)" "f a w1 = (Inr b, w')"
  using assms by (auto simp: bindE_ok)

lemma get_clock_ok [simp]: "get_clock w = (Inr t, w') \<longleftrightarrow> t = clock w \<and> w' = w"
  by (auto simp: get_clock_def)

lemma sleepM_ok [simp]:
  "sleepM n w = (Inr u, w') \<longleftrightarrow> w' = w\<lparr>clock := clock w + max 0 n\<rparr>"
  by (auto simp: sleepM_def)

lemma attempt_ok [simp]: "attempt m w = (Inr r, w') \<longleftrightarrow> m w = (r, w')"
  by (cases "m w") (auto simp: attempt_def)

lemma attempt_err [simp]: "attempt m w = (Inl e, w') \<longleftrightarrow> False"
  by (simp add: attempt_def)

lemma fresh_uuid_okE [ok_elims]:
  assumes "fresh_uuid w = (Inr u, w')"
  obtains "pg w' = pg w" "kv w' = kv w" "clock w' = clock w"
  using assms by (auto simp: fresh_uuid_def split: list.splits)

lemma ext_okE:
  assumes "ext m w = (Inr a, w')"
  obtains fs where "m (w\<lparr>faults := fs\<rparr>) = (Inr a, w')"
proof (cases "faults w")
  case Nil
  then have "w\<lparr>faults := []\<rparr> = w" by simp
  moreover from Nil assms have "m w = (Inr a, w')" by (simp add: ext_def)
  ultimately show ?thesis using that [of "[]"] by simp
next
  case (Cons f fs)
  with assms that show ?thesis by (cases f) (auto simp: ext_def)
qed

lemma sql_okE [ok_elims]:
  assumes "sql f w = (Inr a, w')"
  obtains "Inr (a, pg w') = f (clock w) (pg w)" "clock w' = clock w" "kv w' = kv w"
proof (rule ext_okE [OF assms [unfolded sql_def]])
  fix fs
  assume "(case f (clock (w\<lparr>faults := fs\<rparr>)) (pg (w\<lparr>faults := fs\<rparr>)) of
      Inl e \<Rightarrow> (Inl e, w\<lparr>faults := fs\<rparr>)
    | Inr (a, d) \<Rightarrow> (Inr a, w\<lparr>faults := fs, pg := d\<rparr>)) = (Inr a, w')"
  with that show thesis by (cases "f (clock w) (pg w)") (auto split: prod.splits)
qed

lemma sql_read_okE [ok_elims]:
  assumes "sql_read g w = (Inr a, w')"
  obtains "a = g (clock w) (pg w)" "pg w' = pg w" "clock w' = clock w" "kv w' = kv w"
proof (rule sql_okE [OF assms [unfolded sql_read_def]])
  assume r: "Inr (a, pg w') = Inr (g (clock w) (pg w), pg w)"
    and frame: "clock w' = clock w" "kv w' = kv w"
  from r have "a = g (clock w) (pg w)" and "pg w' = pg w" by auto
  then show thesis using frame by (rule that)
qed

lemma remote_okE [ok_elims]:
  assumes "remote f w = (Inr a, w')"
  obtains "Inr (a, kv w') = f (clock w) (kv w)" "clock w' = clock w" "pg w' = pg w"
proof (rule ext_okE [OF assms [unfolded remote_def]])
  fix fs
  assume "(case f (clock (w\<lparr>faults := fs\<rparr>)) (kv (w\<lparr>faults := fs\<rparr>)) of
      Inl e \<Rightarrow> (Inl e, w\<lparr>faults := fs\<rparr>)
    | Inr (a, k) \<Rightarrow> (Inr a, w\<lparr>faults := fs, kv := k\<rparr>)) = (Inr a, w')"
  with that show thesis by (cases "f (clock w) (kv w)") (auto split: prod.splits)
qed

lemma acquire_okE [ok_elims]:
  assumes "acquire m w = (Inr a, w')"
  obtains fs where "m (w\<lparr>faults := fs\<rparr>) = (Inr a, w')"
  using assms unfolding acquire_def by (elim bindE_okE ext_okE) auto

lemma transaction_okE [ok_elims]:
  assumes "transaction m w = (Inr a, w')"
  obtains w1 where "m w = (Inr a, w1)" "pg w' = pg w1" "clock w' = clock w1" "kv w' = kv w1"
  using assms unfolding transaction_def
  by (auto split: prod.splits sum.splits list.splits fault.splits)

section \<open>Outcomes of a transaction\<close>

text \<open>
  Whatever fails, a transaction is undone or its body ran to the end; in the second case the caller
  learns the result, or the commit's answer is lost and it gets an exception.
\<close>

lemma bindE_cases:
  assumes "bindE m f w = (r, w')"
  obtains (raised) e where "m w = (Inl e, w')" "r = Inl e"
    | (ran) a w1 where "m w = (Inr a, w1)" "f a w1 = (r, w')"
proof -
  obtain x w1 where m: "m w = (x, w1)" by fastforce
  show thesis
  proof (cases x)
    case (Inl e)
    with assms m show thesis by (intro raised [of e]) (auto simp: bindE_def)
  next
    case (Inr a)
    with assms m show thesis by (intro ran [of a w1]) (auto simp: bindE_def)
  qed
qed

lemma acquire_cases:
  assumes "acquire m w = (r, w')"
  obtains (refused) e where "r = Inl e" "pg w' = pg w"
    | (ran) fs where "m (w\<lparr>faults := fs\<rparr>) = (r, w')"
proof (cases "faults w")
  case Nil
  then have "w\<lparr>faults := []\<rparr> = w" by simp
  with Nil assms ran [of "[]"] show ?thesis
    by (simp add: acquire_def ext_def bindE_def returnM_def)
next
  case (Cons f fs)
  with assms refused ran show ?thesis
    by (cases f) (auto simp: acquire_def ext_def bindE_def returnM_def)
qed

lemma in_transaction:
  assumes "acquire (transaction m) w = (r, w')"
  obtains (undone) e where "r = Inl e" "pg w' = pg w"
    | (ran) a fs w1 where "m (w\<lparr>faults := fs\<rparr>) = (Inr a, w1)" "pg w' = pg w1"
      "r = Inr a \<or> (\<exists>e. r = Inl e)"
  using assms
proof (cases rule: acquire_cases)
  case (refused e)
  then show ?thesis by (rule undone)
next
  case (ran fs)
  note tx = ran
  obtain x w1 where m: "m (w\<lparr>faults := fs\<rparr>) = (x, w1)" by fastforce
  show ?thesis
  proof (cases x)
    case (Inl e)
    show ?thesis by (rule undone [of e]) (use tx m Inl in \<open>auto simp: transaction_def\<close>)
  next
    case (Inr a)
    have "(\<exists>e. r = Inl e \<and> pg w' = pg w) \<or> pg w' = pg w1 \<and> (r = Inr a \<or> (\<exists>e. r = Inl e))"
      using tx m Inr by (auto simp: transaction_def split: list.splits fault.splits)
    then show ?thesis using undone that(2) m Inr by blast
  qed
qed

lemma sql_cases:
  assumes "sql f w = (r, w')"
  obtains (undone) e where "r = Inl e" "pg w' = pg w"
    | (ran) a where "f (clock w) (pg w) = Inr (a, pg w')" "r = Inr a \<or> (\<exists>e. r = Inl e)"
proof -
  define g :: "('b, 'c) world \<Rightarrow> (exn + 'a) \<times> ('b, 'c) world" where
    "g = (\<lambda>w. case f (clock w) (pg w) of Inl e \<Rightarrow> (Inl e, w) | Inr (a, d) \<Rightarrow> (Inr a, w\<lparr>pg := d\<rparr>))"
  have body: "(\<exists>e. fst (g v) = Inl e \<and> pg (snd (g v)) = pg w) \<or>
      (\<exists>a. f (clock w) (pg w) = Inr (a, pg (snd (g v))) \<and> fst (g v) = Inr a)"
    if "clock v = clock w" "pg v = pg w" for v
    using that by (cases "f (clock w) (pg w)") (auto simp: g_def)
  have "(\<exists>e. r = Inl e \<and> pg w' = pg w) \<or>
      (\<exists>a. f (clock w) (pg w) = Inr (a, pg w') \<and> (r = Inr a \<or> (\<exists>e. r = Inl e)))"
  proof (cases "faults w")
    case Nil
    with assms have "g w = (r, w')" by (simp add: sql_def ext_def g_def)
    with body [of w] show ?thesis by auto
  next
    case (Cons x fs)
    with assms body [of "w\<lparr>faults := fs\<rparr>"] show ?thesis
      by (cases x) (auto simp: sql_def ext_def g_def [symmetric])
  qed
  with undone ran show thesis by blast
qed

lemma remote_cases:
  fixes f :: "int \<Rightarrow> 'k \<Rightarrow> exn + 'a \<times> 'k" and w :: "('d, 'k) world"
  assumes "remote f w = (r, w')"
  obtains (undone) e where "r = Inl e" "kv w' = kv w" "clock w' = clock w"
    | (ran) a where "f (clock w) (kv w) = Inr (a, kv w')" "r = Inr a \<or> (\<exists>e. r = Inl e)" "clock w' = clock w"
proof -
  define g :: "('d, 'k) world \<Rightarrow> (exn + 'a) \<times> ('d, 'k) world" where
    "g = (\<lambda>w. case f (clock w) (kv w) of Inl e \<Rightarrow> (Inl e, w) | Inr (a, k) \<Rightarrow> (Inr a, w\<lparr>kv := k\<rparr>))"
  have body: "clock (snd (g v)) = clock v \<and> ((\<exists>e. fst (g v) = Inl e \<and> kv (snd (g v)) = kv w) \<or>
      (\<exists>a. f (clock w) (kv w) = Inr (a, kv (snd (g v))) \<and> fst (g v) = Inr a))"
    if "clock v = clock w" "kv v = kv w" for v
    using that by (cases "f (clock w) (kv w)") (auto simp: g_def)
  have "clock w' = clock w \<and> ((\<exists>e. r = Inl e \<and> kv w' = kv w) \<or>
      (\<exists>a. f (clock w) (kv w) = Inr (a, kv w') \<and> (r = Inr a \<or> (\<exists>e. r = Inl e))))"
  proof (cases "faults w")
    case Nil
    with assms have "g w = (r, w')" by (simp add: remote_def ext_def g_def)
    with body [of w] show ?thesis by auto
  next
    case (Cons x fs)
    with assms body [of "w\<lparr>faults := fs\<rparr>"] show ?thesis
      by (cases x) (auto simp: remote_def ext_def g_def [symmetric])
  qed
  with undone ran show thesis by blast
qed

section \<open>Invariants of the database under arbitrary faults\<close>

definition keeps :: "('d \<Rightarrow> bool) \<Rightarrow> ('d, 'k, 'a) io \<Rightarrow> bool" where
  "keeps I m \<longleftrightarrow> (\<forall>w. I (pg w) \<longrightarrow> I (pg (snd (m w))))"

lemma keepsI: "(\<And>w. I (pg w) \<Longrightarrow> I (pg (snd (m w)))) \<Longrightarrow> keeps I m"
  by (simp add: keeps_def)

lemma keepsD: "keeps I m \<Longrightarrow> I (pg w) \<Longrightarrow> I (pg (snd (m w)))"
  by (simp add: keeps_def)

lemma keeps_returnM [keeps_rules]: "keeps I (returnM a)"
  by (simp add: keeps_def returnM_def)

lemma keeps_raiseM [keeps_rules]: "keeps I (raiseM c s)"
  by (simp add: keeps_def raiseM_def)

lemma keeps_liftE [keeps_rules]: "keeps I (liftE r)"
  by (simp add: keeps_def liftE_def)

lemma keeps_get_clock [keeps_rules]: "keeps I get_clock"
  by (simp add: keeps_def get_clock_def)

lemma keeps_sleepM [keeps_rules]: "keeps I (sleepM n)"
  by (simp add: keeps_def sleepM_def)

lemma keeps_sleep_seconds [keeps_rules]: "keeps I (sleep_seconds r)"
  by (simp add: sleep_seconds_def keeps_sleepM)

lemma keeps_fresh_uuid [keeps_rules]: "keeps I fresh_uuid"
  by (auto simp: keeps_def fresh_uuid_def split: list.splits)

lemma keeps_bindE [keeps_rules]:
  assumes "keeps I m" and "\<And>a. keeps I (f a)"
  shows "keeps I (bindE m f)"
  unfolding keeps_def
proof (intro allI impI)
  fix w :: "('a, 'b) world"
  assume "I (pg w)"
  with assms(1) have 1: "I (pg (snd (m w)))" by (rule keepsD)
  obtain r w1 where m: "m w = (r, w1)" by fastforce
  show "I (pg (snd (bindE m f w)))"
    using 1 m keepsD [OF assms(2)] by (cases r) (simp_all add: bindE_def)
qed

lemma keeps_attempt [keeps_rules]: "keeps I m \<Longrightarrow> keeps I (attempt m)"
  by (simp add: keeps_def attempt_def)

lemma keeps_ext [keeps_rules]: "keeps I m \<Longrightarrow> keeps I (ext m)"
  by (auto simp: keeps_def ext_def split: list.splits fault.splits)

lemma keeps_sql:
  assumes "\<And>t d a d'. I d \<Longrightarrow> f t d = Inr (a, d') \<Longrightarrow> I d'"
  shows "keeps I (sql f)"
  unfolding sql_def using assms
  by (intro keeps_ext) (auto simp: keeps_def split: sum.splits prod.splits)

lemma keeps_sql_read [keeps_rules]: "keeps I (sql_read g)"
  unfolding sql_read_def by (rule keeps_sql) auto

lemma keeps_remote [keeps_rules]: "keeps I (remote f)"
  unfolding remote_def
  by (intro keeps_ext) (auto simp: keeps_def split: sum.splits prod.splits)

lemma keeps_acquire [keeps_rules]: "keeps I m \<Longrightarrow> keeps I (acquire m)"
  unfolding acquire_def by (intro keeps_rules)

lemma keeps_transaction:
  assumes "\<And>w a w'. I (pg w) \<Longrightarrow> m w = (Inr a, w') \<Longrightarrow> I (pg w')"
  shows "keeps I (transaction m)"
  using assms
  by (auto simp: keeps_def transaction_def split: prod.splits sum.splits list.splits fault.splits)

lemma keeps_transaction_body [keeps_rules]: "keeps I m \<Longrightarrow> keeps I (transaction m)"
  by (rule keeps_transaction) (metis keepsD snd_conv)

lemma keeps_if [keeps_rules]: "(b \<Longrightarrow> keeps I m) \<Longrightarrow> (\<not> b \<Longrightarrow> keeps I n) \<Longrightarrow> keeps I (if b then m else n)"
  by simp

lemma keeps_option [keeps_rules]:
  "(x = None \<Longrightarrow> keeps I m) \<Longrightarrow> (\<And>a. x = Some a \<Longrightarrow> keeps I (f a)) \<Longrightarrow>
   keeps I (case x of None \<Rightarrow> m | Some a \<Rightarrow> f a)"
  by (simp split: option.split)

lemma keeps_sum [keeps_rules]:
  "(\<And>e. x = Inl e \<Longrightarrow> keeps I (f e)) \<Longrightarrow> (\<And>a. x = Inr a \<Longrightarrow> keeps I (g a)) \<Longrightarrow>
   keeps I (case x of Inl e \<Rightarrow> f e | Inr a \<Rightarrow> g a)"
  by (simp split: sum.split)

lemma keeps_prod [keeps_rules]:
  "(\<And>a b. x = (a, b) \<Longrightarrow> keeps I (f a b)) \<Longrightarrow> keeps I (case x of (a, b) \<Rightarrow> f a b)"
  by (simp split: prod.split)

lemma keeps_Let [keeps_rules]: "keeps I (f x) \<Longrightarrow> keeps I (let y = x in f y)"
  by simp

lemma keeps_pgD: "(\<And>d. keeps (\<lambda>x. x = d) m) \<Longrightarrow> m w = (r, w') \<Longrightarrow> pg w' = pg w"
  unfolding keeps_def by (metis snd_conv)

lemma keeps_pg: "(\<And>d. keeps (\<lambda>x. x = d) m) \<Longrightarrow> pg (snd (m w)) = pg w"
  by (simp add: keeps_def)

section \<open>Runs without faults\<close>

lemma ext_nofault [nofault_simps]: "faults w = [] \<Longrightarrow> ext m w = m w"
  by (simp add: ext_def)

lemma sql_nofault [nofault_simps]:
  "faults w = [] \<Longrightarrow> sql f w = (case f (clock w) (pg w) of
      Inl e \<Rightarrow> (Inl e, w) | Inr (a, d) \<Rightarrow> (Inr a, w\<lparr>pg := d\<rparr>))"
  by (simp add: sql_def ext_nofault)

lemma sql_read_nofault [nofault_simps]:
  "faults w = [] \<Longrightarrow> sql_read g w = (Inr (g (clock w) (pg w)), w)"
  by (simp add: sql_read_def sql_nofault)

lemma remote_nofault [nofault_simps]:
  "faults w = [] \<Longrightarrow> remote f w = (case f (clock w) (kv w) of
      Inl e \<Rightarrow> (Inl e, w) | Inr (a, k) \<Rightarrow> (Inr a, w\<lparr>kv := k\<rparr>))"
  by (simp add: remote_def ext_nofault)

lemma acquire_nofault [nofault_simps]: "faults w = [] \<Longrightarrow> acquire m w = m w"
  by (simp add: acquire_def bindE_def ext_nofault returnM_def)

lemma bindE_assoc [nofault_simps]: "bindE (bindE m f) g w = bindE m (\<lambda>a. bindE (f a) g) w"
  by (simp add: bindE_def split: prod.split sum.split)

lemma bindE_sql_nofault [nofault_simps]:
  "faults w = [] \<Longrightarrow> bindE (sql g) f w = (case g (clock w) (pg w) of
      Inl e \<Rightarrow> (Inl e, w) | Inr (a, d) \<Rightarrow> f a (w\<lparr>pg := d\<rparr>))"
  by (simp add: bindE_def sql_nofault split: sum.split prod.split)

lemma bindE_sql_read_nofault [nofault_simps]:
  "faults w = [] \<Longrightarrow> bindE (sql_read g) f w = f (g (clock w) (pg w)) w"
  by (simp add: bindE_def sql_read_nofault)

lemma bindE_remote_nofault [nofault_simps]:
  "faults w = [] \<Longrightarrow> bindE (remote g) f w = (case g (clock w) (kv w) of
      Inl e \<Rightarrow> (Inl e, w) | Inr (a, k) \<Rightarrow> f a (w\<lparr>kv := k\<rparr>))"
  by (simp add: bindE_def remote_nofault split: sum.split prod.split)

lemma bindE_pure [nofault_simps]:
  "bindE (returnM a) f w = f a w" "bindE get_clock g w = g (clock w) w"
  "bindE (sleepM n) h w = h () (w\<lparr>clock := clock w + max 0 n\<rparr>)"
  "bindE (liftE r) k w = (case r of Inl e \<Rightarrow> (Inl e, w) | Inr b \<Rightarrow> k b w)"
  by (simp_all add: bindE_def returnM_def get_clock_def sleepM_def liftE_def split: sum.split)

lemma bindE_fresh [nofault_simps]:
  "entropy w = u # us \<Longrightarrow> bindE fresh_uuid f w = f u (w\<lparr>entropy := us\<rparr>)"
  by (simp add: bindE_def fresh_uuid_def)

lemma bindE_acquire_nofault [nofault_simps]:
  "faults w = [] \<Longrightarrow> bindE (acquire m) f w = bindE m f w"
  by (simp add: bindE_def acquire_nofault)

lemma bindE_transaction:
  "bindE (transaction m) f w =
    (case transaction m w of (Inl e, w') \<Rightarrow> (Inl e, w') | (Inr a, w') \<Rightarrow> f a w')"
  by (simp add: bindE_def)

lemma bindE_attempt: "bindE (attempt m) f w = f (fst (m w)) (snd (m w))"
  by (simp add: bindE_def attempt_def)

lemma attempt_run: "attempt m w = (Inr (fst (m w)), snd (m w))"
  by (simp add: attempt_def)

lemma bindE_ran: "m w = (Inr a, w1) \<Longrightarrow> bindE m f w = f a w1"
  by (simp add: bindE_def)

lemma sql_read_frame: "pg (snd (sql_read g w)) = pg w" "kv (snd (sql_read g w)) = kv w"
  by (auto simp: sql_read_def sql_def ext_def split: list.splits fault.splits)

lemma sql_kv: "kv (snd (sql f w)) = kv w"
  by (auto simp: sql_def ext_def split: list.splits fault.splits sum.splits prod.splits)

lemma sql_clock: "clock (snd (sql f w)) = clock w"
  by (auto simp: sql_def ext_def split: list.splits fault.splits sum.splits prod.splits)

lemma sql_read_clock: "clock (snd (sql_read g w)) = clock w"
  by (simp add: sql_read_def sql_clock)

lemma remote_clock: "clock (snd (remote f w)) = clock w"
  by (auto simp: remote_def ext_def split: list.splits fault.splits sum.splits prod.splits)

lemma remote_pg: "pg (snd (remote f w)) = pg w"
  by (auto simp: remote_def ext_def split: list.splits fault.splits sum.splits prod.splits)

lemma sleep_seconds_run: "sleep_seconds r w = (Inr (), w\<lparr>clock := clock w + max 0 (microseconds r)\<rparr>)"
  by (simp add: sleep_seconds_def sleepM_def)

lemma bindE_sleep_seconds:
  "bindE (sleep_seconds r) f w = f () (w\<lparr>clock := clock w + max 0 (microseconds r)\<rparr>)"
  by (simp add: bindE_def sleep_seconds_run)

lemma transaction_nofault [nofault_simps]:
  "m w = (r, w1) \<Longrightarrow> faults w1 = [] \<Longrightarrow>
   transaction m w = (r, case r of Inl e \<Rightarrow> w1\<lparr>pg := pg w\<rparr> | Inr a \<Rightarrow> w1)"
  by (simp add: transaction_def split: sum.split)

section \<open>Integers of the schema\<close>

text \<open>Postgres \<open>INT\<close>: 32-bit two's complement, an out-of-range value is an error, not a wrap.\<close>

definition int4_ok :: "int \<Rightarrow> bool" where
  "int4_ok i \<longleftrightarrow> - 2147483648 \<le> i \<and> i \<le> 2147483647"

text \<open>\<open>timedelta(seconds=n)\<close> in the clock's unit, microseconds.\<close>

definition seconds :: "int \<Rightarrow> int" where
  "seconds n = 1000000 * n"

text \<open>Python's \<open>int(x)\<close> of a float truncates towards zero.\<close>

definition py_trunc :: "real \<Rightarrow> int" where
  "py_trunc x = (if 0 \<le> x then \<lfloor>x\<rfloor> else \<lceil>x\<rceil>)"

end
