(* ===== verification/Pydata.thy ===== *)
theory Pydata
  imports Prelude "HOL-Library.AList"
begin

text \<open>
  The part of Python's standard library the models rest on: \<open>str.strip\<close>, \<open>str.lower\<close>,
  \<open>str.isdigit\<close>, \<open>str(int)\<close> and \<open>int(str)\<close>, the text form of \<open>uuid.UUID\<close> with its lenient parser, and
  JSON values with the dictionary operations the code applies to them.  A character is a code
  point below 256; a dictionary is an association list in insertion order, without repeated keys.
  The lemmas are the two round trips every message rests on: decimal integers and UUIDs survive
  being printed and parsed again.
\<close>

section \<open>Characters and stripping\<close>

definition is_space_char :: "char \<Rightarrow> bool" where
  "is_space_char c = (let n = (of_char c :: nat) in
     (9 \<le> n \<and> n \<le> 13) \<or> (28 \<le> n \<and> n \<le> 32) \<or> n = 133 \<or> n = 160)"

text \<open>\<open>str.isdigit\<close> also accepts the superscripts of Latin-1, which \<open>int\<close> refuses.\<close>

definition is_digit_char :: "char \<Rightarrow> bool" where
  "is_digit_char c = (let n = (of_char c :: nat) in
     (48 \<le> n \<and> n \<le> 57) \<or> n = 178 \<or> n = 179 \<or> n = 185)"

definition isdigit :: "string \<Rightarrow> bool" where
  "isdigit s \<longleftrightarrow> s \<noteq> [] \<and> list_all is_digit_char s"

definition lower_char :: "char \<Rightarrow> char" where
  "lower_char c = (let n = (of_char c :: nat) in
     if (65 \<le> n \<and> n \<le> 90) \<or> (192 \<le> n \<and> n \<le> 222 \<and> n \<noteq> 215) then char_of (n + 32) else c)"

definition lower :: "string \<Rightarrow> string" where
  "lower s = map lower_char s"

definition rstrip_by :: "(char \<Rightarrow> bool) \<Rightarrow> string \<Rightarrow> string" where
  "rstrip_by p s = rev (dropWhile p (rev s))"

definition strip_by :: "(char \<Rightarrow> bool) \<Rightarrow> string \<Rightarrow> string" where
  "strip_by p s = rstrip_by p (dropWhile p s)"

definition strip :: "string \<Rightarrow> string" where
  "strip s = strip_by is_space_char s"

lemma strip_by_id: "(\<And>c. c \<in> set s \<Longrightarrow> \<not> p c) \<Longrightarrow> strip_by p s = s"
proof -
  assume clean: "\<And>c. c \<in> set s \<Longrightarrow> \<not> p c"
  have "dropWhile p t = t" if "set t \<subseteq> set s" for t
    using that clean by (cases t) auto
  then show ?thesis by (simp add: strip_by_def rstrip_by_def)
qed

lemma strip_no_space: "strip s = [] \<or> \<not> is_space_char (last (strip s))"
proof -
  let ?r = "dropWhile is_space_char (rev (dropWhile is_space_char s))"
  have "?r \<noteq> [] \<Longrightarrow> \<not> is_space_char (hd ?r)" by (rule hd_dropWhile)
  then show ?thesis by (auto simp: strip_def strip_by_def rstrip_by_def last_rev)
qed

text \<open>\<open>s.replace(p, "")\<close>.\<close>

function remove_all :: "string \<Rightarrow> string \<Rightarrow> string" where
  "remove_all p [] = []"
| "remove_all p (c # cs) =
     (if p \<noteq> [] \<and> take (length p) (c # cs) = p then remove_all p (drop (length p - 1) cs)
      else c # remove_all p cs)"
  by pat_completeness auto
termination
  by (relation "measure (\<lambda>(p, s). length s)") auto

lemma remove_all_absent: "p \<noteq> [] \<Longrightarrow> hd p \<notin> set s \<Longrightarrow> remove_all p s = s"
proof (induction s)
  case (Cons c cs)
  then have "take (length p) (c # cs) \<noteq> p" by (cases p) auto
  with Cons show ?case by simp
qed simp

lemma remove_all_char: "remove_all [c] s = filter (\<lambda>d. d \<noteq> c) s"
  by (induction s) auto

section \<open>Decimal and hexadecimal integers\<close>

definition digit_of :: "nat \<Rightarrow> char \<Rightarrow> nat option" where
  "digit_of b c = (let n = (of_char c :: nat);
       d = (if 48 \<le> n \<and> n \<le> 57 then n - 48
            else if 97 \<le> n \<and> n \<le> 122 then n - 87
            else if 65 \<le> n \<and> n \<le> 90 then n - 55 else b)
     in if d < b then Some d else None)"

text \<open>Digits of base \<open>b\<close> with single underscores between them; \<open>prev\<close>: the last character was a digit.\<close>

fun digits_val :: "nat \<Rightarrow> bool \<Rightarrow> nat \<Rightarrow> string \<Rightarrow> nat option" where
  "digits_val b prev acc [] = (if prev then Some acc else None)"
| "digits_val b prev acc (c # cs) =
     (if c = CHR ''_'' then (if prev then digits_val b False acc cs else None)
      else case digit_of b c of
          None \<Rightarrow> None
        | Some d \<Rightarrow> digits_val b True (acc * b + d) cs)"

definition split_sign :: "string \<Rightarrow> int \<times> string" where
  "split_sign s = (case s of
      [] \<Rightarrow> (1, [])
    | c # cs \<Rightarrow> if c = CHR ''-'' then (-1, cs) else if c = CHR ''+'' then (1, cs) else (1, s))"

definition drop_hex_prefix :: "string \<Rightarrow> string" where
  "drop_hex_prefix s = (if take 2 s = ''0x'' \<or> take 2 s = ''0X''
     then (case drop 2 s of [] \<Rightarrow> [] | c # cs \<Rightarrow> if c = CHR ''_'' then cs else c # cs)
     else s)"

definition py_int_base :: "nat \<Rightarrow> string \<Rightarrow> int option" where
  "py_int_base b s = (case split_sign (strip s) of (sg, u) \<Rightarrow>
     map_option (\<lambda>n. sg * int n)
       (digits_val b False 0 (if b = 16 then drop_hex_prefix u else u)))"

abbreviation py_int :: "string \<Rightarrow> int option" where
  "py_int \<equiv> py_int_base 10"

definition digit_char :: "nat \<Rightarrow> char" where
  "digit_char d = char_of (if d < 10 then 48 + d else 87 + d)"

fun str_of_nat :: "nat \<Rightarrow> string" where
  "str_of_nat n = (if n < 10 then [digit_char n] else str_of_nat (n div 10) @ [digit_char (n mod 10)])"

declare str_of_nat.simps [simp del]

definition str_of_int :: "int \<Rightarrow> string" where
  "str_of_int i = (if i < 0 then ''-'' @ str_of_nat (nat (- i)) else str_of_nat (nat i))"

fun hex_digits :: "nat \<Rightarrow> nat \<Rightarrow> string" where
  "hex_digits 0 n = []"
| "hex_digits (Suc k) n = hex_digits k (n div 16) @ [digit_char (n mod 16)]"

lemma of_char_digit_char: "d < 16 \<Longrightarrow> (of_char (digit_char d) :: nat) = (if d < 10 then 48 + d else 87 + d)"
  by (simp add: digit_char_def)

lemma digit_of_digit_char: "d < b \<Longrightarrow> b \<le> 16 \<Longrightarrow> digit_of b (digit_char d) = Some d"
  by (simp add: digit_of_def of_char_digit_char Let_def)

lemma digit_char_props:
  assumes "d < 16"
  shows "digit_char d \<noteq> CHR ''_''" "digit_char d \<noteq> CHR ''-''" "digit_char d \<noteq> CHR ''+''"
    "digit_char d \<noteq> CHR ''x''" "digit_char d \<noteq> CHR ''X''" "digit_char d \<noteq> CHR ''u''"
    "digit_char d \<noteq> CHR ''{''" "digit_char d \<noteq> CHR ''}''" "\<not> is_space_char (digit_char d)"
proof -
  have ne: "digit_char d \<noteq> c" if "(of_char c :: nat) \<notin> {48..57} \<union> {97..102}" for c
    using of_char_digit_char [OF assms] assms that by (auto split: if_splits)
  show "digit_char d \<noteq> CHR ''_''" "digit_char d \<noteq> CHR ''-''" "digit_char d \<noteq> CHR ''+''"
    "digit_char d \<noteq> CHR ''x''" "digit_char d \<noteq> CHR ''X''" "digit_char d \<noteq> CHR ''u''"
    "digit_char d \<noteq> CHR ''{''" "digit_char d \<noteq> CHR ''}''"
    by (rule ne, simp)+
  show "\<not> is_space_char (digit_char d)"
    using of_char_digit_char [OF assms] assms by (simp add: is_space_char_def Let_def)
qed

definition digit_string :: "nat \<Rightarrow> string \<Rightarrow> bool" where
  "digit_string b s \<longleftrightarrow> (\<forall>c\<in>set s. \<exists>d<b. c = digit_char d)"

lemma digit_char_mod: "0 < b \<Longrightarrow> \<exists>d<b. digit_char (n mod b) = digit_char d"
  by (rule exI [of _ "n mod b"]) simp

lemma digit_string_hex: "digit_string 16 (hex_digits k n)"
  by (induction k arbitrary: n) (auto simp: digit_string_def digit_char_mod)

lemma digit_string_nat: "digit_string 10 (str_of_nat n)"
proof (induction n rule: str_of_nat.induct)
  case (1 n)
  then show ?case
    by (subst str_of_nat.simps) (auto simp: digit_string_def digit_char_mod)
qed

lemma str_of_nat_nonempty [simp]: "str_of_nat n \<noteq> []"
  by (subst str_of_nat.simps) simp

lemma length_hex_digits [simp]: "length (hex_digits k n) = k"
  by (induction k arbitrary: n) auto

lemma digits_val_append:
  assumes "digit_string b s" and "b \<le> 16"
  shows "digits_val b p acc (s @ [digit_char d]) =
    (if d < b then map_option (\<lambda>v. v * b + d) (digits_val b True acc s) else
       digits_val b p acc (s @ [digit_char d]))"
  using assms
proof (induction s arbitrary: p acc)
  case Nil
  then show ?case by (auto simp: digit_of_digit_char digit_char_props)
next
  case (Cons c cs)
  then obtain e where "e < b" "c = digit_char e" by (auto simp: digit_string_def)
  with Cons show ?case
    by (auto simp: digit_string_def digit_of_digit_char digit_char_props)
qed

lemma digits_val_prev:
  assumes "digit_string b s" "b \<le> 16" "s \<noteq> []"
  shows "digits_val b p acc s = digits_val b True acc s"
proof (cases s)
  case (Cons c cs)
  with assms obtain e where "e < b" "c = digit_char e" by (auto simp: digit_string_def)
  with assms Cons show ?thesis by (simp add: digit_char_props digit_of_digit_char)
qed (use assms in simp)

lemma digits_val_hex: "n < 16 ^ k \<Longrightarrow> digits_val 16 True 0 (hex_digits k n) = Some n"
proof (induction k arbitrary: n)
  case (Suc k)
  then have "n div 16 < 16 ^ k" by (simp add: div_less_iff_less_mult mult.commute)
  with Suc.IH have "digits_val 16 True 0 (hex_digits k (n div 16)) = Some (n div 16)" by blast
  then show ?case by (simp add: digits_val_append [OF digit_string_hex])
qed simp

lemma digits_val_nat: "digits_val 10 True 0 (str_of_nat n) = Some n"
proof (induction n rule: str_of_nat.induct)
  case (1 n)
  show ?case
  proof (cases "n < 10")
    case True
    then show ?thesis
      by (subst str_of_nat.simps) (simp add: digit_char_props digit_of_digit_char)
  next
    case False
    with 1 have "digits_val 10 True 0 (str_of_nat (n div 10)) = Some (n div 10)" by blast
    with False show ?thesis
      by (subst str_of_nat.simps) (simp add: digits_val_append [OF digit_string_nat])
  qed
qed

lemma digit_string_clean:
  assumes "digit_string b s" "b \<le> 16" "c \<in> set s"
  shows "c \<noteq> CHR ''-''" "c \<noteq> CHR ''+''" "c \<noteq> CHR ''x''" "c \<noteq> CHR ''X''" "c \<noteq> CHR ''u''"
    "c \<noteq> CHR ''{''" "c \<noteq> CHR ''}''" "\<not> is_space_char c"
proof -
  from assms(1,3) obtain d where "d < b" "c = digit_char d" by (auto simp: digit_string_def)
  with assms(2) have "d < 16" "c = digit_char d" by simp_all
  then show "c \<noteq> CHR ''-''" "c \<noteq> CHR ''+''" "c \<noteq> CHR ''x''" "c \<noteq> CHR ''X''" "c \<noteq> CHR ''u''"
    "c \<noteq> CHR ''{''" "c \<noteq> CHR ''}''" "\<not> is_space_char c"
    by (simp_all add: digit_char_props)
qed

lemma strip_digit_string: "digit_string b s \<Longrightarrow> b \<le> 16 \<Longrightarrow> strip s = s"
  unfolding strip_def by (rule strip_by_id) (rule digit_string_clean(8))

lemma split_sign_digit_string: "digit_string b s \<Longrightarrow> b \<le> 16 \<Longrightarrow> split_sign s = (1, s)"
  using digit_string_clean(1,2) [of b s] by (cases s) (auto simp: split_sign_def)

lemma drop_hex_prefix_digit_string: "digit_string b s \<Longrightarrow> b \<le> 16 \<Longrightarrow> drop_hex_prefix s = s"
proof -
  assume s: "digit_string b s" "b \<le> 16"
  have "take 2 s \<noteq> ''0x''" "take 2 s \<noteq> ''0X''"
    using digit_string_clean(3,4) [OF s] set_take_subset [of 2 s] by force+
  then show ?thesis by (simp add: drop_hex_prefix_def)
qed

lemma py_int_digits:
  assumes "digit_string b s" "b \<le> 16" "s \<noteq> []" "digits_val b True 0 s = Some n"
  shows "py_int_base b s = Some (int n)"
proof -
  from assms digits_val_prev [OF assms(1-3), of False 0]
  have "digits_val b False 0 s = Some n" by simp
  moreover have "(if b = 16 then drop_hex_prefix s else s) = s"
    using assms by (simp add: drop_hex_prefix_digit_string)
  ultimately show ?thesis
    using assms by (simp add: py_int_base_def strip_digit_string split_sign_digit_string)
qed

lemma py_int_str_of_nat: "py_int (str_of_nat n) = Some (int n)"
  by (rule py_int_digits [OF digit_string_nat]) (simp_all add: digits_val_nat)

lemma py_int_str_of_int: "py_int (str_of_int i) = Some i"
proof (cases "i < 0")
  case True
  let ?s = "str_of_nat (nat (- i))"
  have "strip (CHR ''-'' # ?s) = CHR ''-'' # ?s"
    unfolding strip_def
    using digit_string_clean(8) [OF digit_string_nat]
    by (intro strip_by_id) (auto simp: is_space_char_def)
  with True show ?thesis
    using digits_val_prev [OF digit_string_nat, of "nat (- i)" False 0]
    by (simp add: str_of_int_def py_int_base_def split_sign_def digits_val_nat)
next
  case False
  then show ?thesis by (simp add: str_of_int_def py_int_str_of_nat)
qed

lemma isdigit_str_of_nat: "isdigit (str_of_nat n)"
proof -
  have "is_digit_char c" if "c \<in> set (str_of_nat n)" for c
  proof -
    from that digit_string_nat obtain d where "d < 10" "c = digit_char d"
      by (auto simp: digit_string_def)
    then show ?thesis by (simp add: is_digit_char_def of_char_digit_char Let_def)
  qed
  then show ?thesis by (simp add: isdigit_def list_all_iff)
qed

section \<open>UUIDs as text\<close>

definition uuid_str :: "uuid \<Rightarrow> string" where
  "uuid_str u = (let h = hex_digits 32 (unat u) in
     take 8 h @ ''-'' @ take 4 (drop 8 h) @ ''-'' @ take 4 (drop 12 h) @ ''-'' @
     take 4 (drop 16 h) @ ''-'' @ drop 20 h)"

definition uuid_of_str :: "string \<Rightarrow> exn + uuid" where
  "uuid_of_str s = (let hex = remove_all ''-'' (strip_by (\<lambda>c. c = CHR ''{'' \<or> c = CHR ''}'')
         (remove_all ''uuid:'' (remove_all ''urn:'' s)))
     in if length hex \<noteq> 32 then Inl (Exn ValueError ''badly formed hexadecimal UUID string'')
        else case py_int_base 16 hex of
            None \<Rightarrow> Inl (Exn ValueError ''invalid literal for int() with base 16'')
          | Some i \<Rightarrow> if 0 \<le> i \<and> i < 2 ^ 128 then Inr (of_int i)
                      else Inl (Exn ValueError ''int is out of range (need a 128-bit value)''))"

lemma uuid_str_set: "c \<in> set (uuid_str u) \<Longrightarrow> c = CHR ''-'' \<or> c \<in> set (hex_digits 32 (unat u))"
  by (auto simp: uuid_str_def Let_def dest: in_set_takeD in_set_dropD)

lemma uuid_str_filter: "filter (\<lambda>c. c \<noteq> CHR ''-'') (uuid_str u) = hex_digits 32 (unat u)"
proof -
  let ?h = "hex_digits 32 (unat u)"
  have keep: "filter (\<lambda>c. c \<noteq> CHR ''-'') s = s" if "set s \<subseteq> set ?h" for s
    using that digit_string_clean(1) [OF digit_string_hex] by (intro filter_True) fastforce
  have sub: "set (take m (drop n ?h)) \<subseteq> set ?h" "set (take m ?h) \<subseteq> set ?h"
    "set (drop n ?h) \<subseteq> set ?h" for m n
    by (auto dest: in_set_takeD in_set_dropD)
  have "take 8 ?h @ take 4 (drop 8 ?h) @ take 4 (drop 12 ?h) @ take 4 (drop 16 ?h) @ drop 20 ?h = ?h"
  proof -
    have "drop m ?h = take 4 (drop m ?h) @ drop (m + 4) ?h" for m
      using append_take_drop_id [of 4 "drop m ?h"] by (simp add: add.commute)
    from this [of 8] this [of 12] this [of 16]
    have "drop 8 ?h = take 4 (drop 8 ?h) @ take 4 (drop 12 ?h) @ take 4 (drop 16 ?h) @ drop 20 ?h"
      by simp
    then show ?thesis using append_take_drop_id [of 8 ?h] by simp
  qed
  then show ?thesis
    by (simp only: uuid_str_def Let_def filter_append keep [OF sub(1)] keep [OF sub(2)]
        keep [OF sub(3)]) simp
qed

lemma uuid_str_nonempty [simp]: "uuid_str u \<noteq> []"
  using uuid_str_filter [of u] length_hex_digits [of 32 "unat u"] by fastforce

lemma uuid_str_clean:
  assumes "c \<in> set (uuid_str u)"
  shows "c \<noteq> CHR ''u''" "c \<noteq> CHR ''{''" "c \<noteq> CHR ''}''"
  using uuid_str_set [OF assms] digit_string_clean [OF digit_string_hex, of c 32 "unat u"] by auto

lemma uuid_roundtrip: "uuid_of_str (uuid_str u) = Inr u"
proof -
  let ?h = "hex_digits 32 (unat u)"
  have "remove_all ''urn:'' (uuid_str u) = uuid_str u" "remove_all ''uuid:'' (uuid_str u) = uuid_str u"
    using uuid_str_clean(1) [of "CHR ''u''" u] by (auto intro!: remove_all_absent)
  moreover have "strip_by (\<lambda>c. c = CHR ''{'' \<or> c = CHR ''}'') (uuid_str u) = uuid_str u"
    using uuid_str_clean(2,3) by (intro strip_by_id) auto
  moreover have "remove_all ''-'' (uuid_str u) = ?h"
    by (simp add: remove_all_char uuid_str_filter)
  moreover have "py_int_base 16 ?h = Some (int (unat u))"
  proof (rule py_int_digits [OF digit_string_hex])
    have "unat u < 2 ^ 128" using unsigned_less [of u, where 'a = nat] by simp
    then show "digits_val 16 True 0 ?h = Some (unat u)" by (intro digits_val_hex) simp
    show "?h \<noteq> []" using length_hex_digits [of 32 "unat u"] by fastforce
  qed simp
  moreover have "int (unat u) < 2 ^ 128" using unsigned_less [of u, where 'a = int] by simp
  ultimately show ?thesis by (simp add: uuid_of_str_def Let_def)
qed

lemma uuid_str_inject: "uuid_str u = uuid_str v \<Longrightarrow> u = v"
  using uuid_roundtrip by (metis sum.inject(2))

section \<open>JSON values\<close>

datatype json =
    JNull | JBool bool | JInt int | JReal real | JStr string
  | JArr "json list" | JObj "(string \<times> json) list"

type_synonym dict = "(string \<times> json) list"

abbreviation dict_get :: "dict \<Rightarrow> string \<Rightarrow> json option" where
  "dict_get d k \<equiv> map_of d k"

abbreviation dict_set :: "dict \<Rightarrow> string \<Rightarrow> json \<Rightarrow> dict" where
  "dict_set d k v \<equiv> AList.update k v d"

definition dict_get_or :: "dict \<Rightarrow> string \<Rightarrow> json \<Rightarrow> json" where
  "dict_get_or d k v = (case dict_get d k of None \<Rightarrow> v | Some u \<Rightarrow> u)"

definition dict_setdefault :: "dict \<Rightarrow> string \<Rightarrow> json \<Rightarrow> dict" where
  "dict_setdefault d k v = (case dict_get d k of None \<Rightarrow> d @ [(k, v)] | Some _ \<Rightarrow> d)"

lemma dict_get_setdefault:
  "dict_get (dict_setdefault d k v) x =
    (if x = k then Some (case dict_get d k of None \<Rightarrow> v | Some u \<Rightarrow> u) else dict_get d x)"
  by (auto simp: dict_setdefault_def map_add_def map_of_append split: option.split)

lemma dict_get_set [simp]: "dict_get (dict_set d k v) x = (if x = k then Some v else dict_get d x)"
  by (simp add: AList.update_conv')

text \<open>Python truth of a value, for \<open>a or b\<close>.\<close>

fun truthy :: "json \<Rightarrow> bool" where
  "truthy JNull = False"
| "truthy (JBool b) = b"
| "truthy (JInt i) = (i \<noteq> 0)"
| "truthy (JReal r) = (r \<noteq> 0)"
| "truthy (JStr s) = (s \<noteq> [])"
| "truthy (JArr xs) = (xs \<noteq> [])"
| "truthy (JObj d) = (d \<noteq> [])"

text \<open>
  \<open>str(v)\<close>; \<open>repr_of\<close> is the text CPython prints for floats, lists and dictionaries, a parameter of
  every model that prints them.
\<close>

fun py_str :: "(json \<Rightarrow> string) \<Rightarrow> json \<Rightarrow> string" where
  "py_str repr_of JNull = ''None''"
| "py_str repr_of (JBool b) = (if b then ''True'' else ''False'')"
| "py_str repr_of (JInt i) = str_of_int i"
| "py_str repr_of (JStr s) = s"
| "py_str repr_of v = repr_of v"

text \<open>\<open>int(v)\<close>.\<close>

fun py_int_of :: "json \<Rightarrow> exn + int" where
  "py_int_of (JInt i) = Inr i"
| "py_int_of (JBool b) = Inr (if b then 1 else 0)"
| "py_int_of (JReal r) = Inr (py_trunc r)"
| "py_int_of (JStr s) = (case py_int s of
      None \<Rightarrow> Inl (Exn ValueError ''invalid literal for int() with base 10'') | Some i \<Rightarrow> Inr i)"
| "py_int_of _ = Inl (Exn TypeError ''int() argument must be a string or a number'')"

definition opt_str :: "string option \<Rightarrow> json" where
  "opt_str x = (case x of None \<Rightarrow> JNull | Some s \<Rightarrow> JStr s)"

text \<open>A text the code hands to \<open>json.loads\<close>: what the decoder makes of it.\<close>

datatype jtext = Undecodable | Decoded json

section \<open>Enumerations\<close>

text \<open>\<open>Enum(value)\<close>: the member with this value, or \<open>ValueError\<close>.\<close>

definition enum_of :: "('e \<Rightarrow> string) \<Rightarrow> 'e list \<Rightarrow> string \<Rightarrow> exn + 'e" where
  "enum_of val members s = (case find (\<lambda>e. val e = s) members of
      None \<Rightarrow> Inl (Exn ValueError s) | Some e \<Rightarrow> Inr e)"

lemma enum_of_Inr: "enum_of val members s = Inr e \<Longrightarrow> val e = s"
  by (auto simp: enum_of_def find_Some_iff split: option.splits)

section \<open>Calendar days\<close>

text \<open>
  \<open>date().isoformat()\<close> of a UTC time in microseconds since 1970, in the proleptic Gregorian calendar:
  \<open>doe\<close> is the day of the 400-year era that starts on 1 March, \<open>yoe\<close> its year, \<open>doy\<close> its day of that year.
\<close>

definition day_of :: "int \<Rightarrow> int" where
  "day_of now = now div 86400000000"

definition civil_of_day :: "int \<Rightarrow> int \<times> int \<times> int" where
  "civil_of_day day = (let z = day + 719468; era = z div 146097; doe = z mod 146097;
       yoe = (doe - doe div 1460 + doe div 36524 - doe div 146096) div 365;
       doy = doe - (365 * yoe + yoe div 4 - yoe div 100);
       mp = (5 * doy + 2) div 153; d = doy - (153 * mp + 2) div 5 + 1;
       m = (if mp < 10 then mp + 3 else mp - 9)
     in (yoe + era * 400 + (if m \<le> 2 then 1 else 0), m, d))"

definition pad_zeros :: "nat \<Rightarrow> string \<Rightarrow> string" where
  "pad_zeros n s = replicate (n - length s) CHR ''0'' @ s"

definition iso_day :: "int \<Rightarrow> string" where
  "iso_day now = (case civil_of_day (day_of now) of (y, m, d) \<Rightarrow>
     pad_zeros 4 (str_of_int y) @ ''-'' @ pad_zeros 2 (str_of_int m) @ ''-'' @ pad_zeros 2 (str_of_int d))"

end
