(* ===== verification/Urls.thy ===== *)
theory Urls
  imports Pydata
begin

text \<open>
  URLs and addresses as Python's \<open>urllib.parse\<close> and \<open>ipaddress\<close> read them: the scheme and the authority of a URL,
  its host and credentials, and the dotted text of IPv4 addresses with their classes.  Which texts are IPv6
  addresses, and of which class, is a parameter of the models.
\<close>

section \<open>URLs\<close>

text \<open>\<open>s.partition(c)\<close>: the text before the first \<open>c\<close>, and the text after it if there is one.\<close>

fun partition_at :: "char \<Rightarrow> string \<Rightarrow> string \<times> string option" where
  "partition_at c [] = ([], None)"
| "partition_at c (d # ds) = (if d = c then ([], Some ds)
     else (case partition_at c ds of (a, b) \<Rightarrow> (d # a, b)))"

text \<open>\<open>s.rpartition(c)[2]\<close>.\<close>

definition after_last :: "char \<Rightarrow> string \<Rightarrow> string" where
  "after_last c s = rev (takeWhile (\<lambda>d. d \<noteq> c) (rev s))"

definition ends_with :: "string \<Rightarrow> string \<Rightarrow> bool" where
  "ends_with s suffix \<longleftrightarrow> length suffix \<le> length s \<and> drop (length s - length suffix) s = suffix"

definition is_alpha :: "char \<Rightarrow> bool" where
  "is_alpha c = (let n = (of_char c :: nat) in (65 \<le> n \<and> n \<le> 90) \<or> (97 \<le> n \<and> n \<le> 122))"

definition is_ascii_digit :: "char \<Rightarrow> bool" where
  "is_ascii_digit c = (let n = (of_char c :: nat) in 48 \<le> n \<and> n \<le> 57)"

definition is_scheme_char :: "char \<Rightarrow> bool" where
  "is_scheme_char c \<longleftrightarrow> is_alpha c \<or> is_ascii_digit c \<or> List.member ''+-.'' c"

definition split_scheme :: "string \<Rightarrow> string \<times> string" where
  "split_scheme url = (case partition_at CHR '':'' url of
      (scheme, Some rest) \<Rightarrow>
        if scheme \<noteq> [] \<and> is_alpha (hd scheme) \<and> list_all is_scheme_char scheme
        then (lower scheme, rest) else ([], url)
    | (_, None) \<Rightarrow> ([], url))"

definition bracketed_host_ok :: "(string \<Rightarrow> bool option) \<Rightarrow> string \<Rightarrow> bool" where
  "bracketed_host_ok ip6 host = (case host of
      [] \<Rightarrow> False
    | c # cs \<Rightarrow> if c = CHR ''v'' then (case partition_at CHR ''.'' cs of
          (hex, Some rest) \<Rightarrow> hex \<noteq> [] \<and> rest \<noteq> [] \<and> list_all (\<lambda>d. digit_of 16 d \<noteq> None) hex
        | (_, None) \<Rightarrow> False)
      else ip6 host \<noteq> None)"

definition netloc_of :: "(string \<Rightarrow> bool option) \<Rightarrow> string \<Rightarrow> exn + string" where
  "netloc_of ip6 rest =
     (if take 2 rest \<noteq> ''//'' then Inr []
      else let netloc = takeWhile (\<lambda>c. \<not> List.member ''/?#'' c) (drop 2 rest);
               opens = List.member netloc CHR ''[''; closes = List.member netloc CHR '']'' in
        if opens \<noteq> closes then Inl (Exn ValueError ''Invalid IPv6 URL'')
        else if opens \<and> \<not> bracketed_host_ok ip6 (fst (partition_at CHR '']''
            (case snd (partition_at CHR ''['' netloc) of None \<Rightarrow> [] | Some s \<Rightarrow> s)))
          then Inl (Exn ValueError ''Invalid IPv6 URL'')
        else Inr netloc)"

definition hostname_of :: "string \<Rightarrow> string option" where
  "hostname_of netloc = (let hostinfo = after_last CHR ''@'' netloc;
       host = (case partition_at CHR ''['' hostinfo of
           (_, Some bracketed) \<Rightarrow> fst (partition_at CHR '']'' bracketed)
         | (_, None) \<Rightarrow> fst (partition_at CHR '':'' hostinfo))
     in if host = [] then None
        else (case partition_at CHR ''%'' host of
            (name, None) \<Rightarrow> Some (lower name)
          | (name, Some zone) \<Rightarrow> Some (lower name @ ''%'' @ zone)))"

text \<open>Scheme and host name of \<open>urlparse(url)\<close>.\<close>

definition urlparse :: "(string \<Rightarrow> bool option) \<Rightarrow> string \<Rightarrow> exn + string \<times> string option" where
  "urlparse ip6 url =
     (let cleaned = filter (\<lambda>c. (of_char c :: nat) \<notin> {9, 10, 13})
            (dropWhile (\<lambda>c. (of_char c :: nat) \<le> 32) url) in
      case split_scheme cleaned of (scheme, rest) \<Rightarrow>
        then_ok (netloc_of ip6 rest) (\<lambda>netloc. Inr (scheme, hostname_of netloc)))"

text \<open>Whether \<open>urlsplit(url)\<close> has a user name or a password that is not empty.\<close>

definition has_credentials :: "string \<Rightarrow> bool" where
  "has_credentials netloc \<longleftrightarrow> List.member netloc CHR ''@'' \<and>
     (case partition_at CHR '':'' (rev (drop 1 (dropWhile (\<lambda>d. d \<noteq> CHR ''@'') (rev netloc)))) of
        (username, password) \<Rightarrow> username \<noteq> [] \<or> (case password of None \<Rightarrow> False | Some p \<Rightarrow> p \<noteq> []))"

section \<open>Addresses\<close>

fun dot_words :: "string \<Rightarrow> string list" where
  "dot_words [] = [[]]"
| "dot_words (c # cs) = (if c = CHR ''.'' then [] # dot_words cs
     else (case dot_words cs of [] \<Rightarrow> [[c]] | w # ws \<Rightarrow> (c # w) # ws))"

definition octet_of :: "string \<Rightarrow> nat option" where
  "octet_of s = (if s = [] \<or> \<not> list_all is_ascii_digit s \<or> 3 < length s then None
     else if s \<noteq> ''0'' \<and> hd s = CHR ''0'' then None
     else case digits_val 10 False 0 s of
         Some n \<Rightarrow> if n \<le> 255 then Some n else None
       | None \<Rightarrow> None)"

definition ipv4_of :: "string \<Rightarrow> (nat \<times> nat \<times> nat \<times> nat) option" where
  "ipv4_of s = (case map octet_of (dot_words s) of
      [Some a, Some b, Some c, Some d] \<Rightarrow> Some (a, b, c, d)
    | _ \<Rightarrow> None)"

text \<open>\<open>IPv4Address.is_private\<close> and \<open>is_global\<close> of Python 3.12.\<close>

fun ipv4_is_private :: "nat \<times> nat \<times> nat \<times> nat \<Rightarrow> bool" where
  "ipv4_is_private (a, b, c, d) \<longleftrightarrow>
     (a = 0 \<or> a = 10 \<or> a = 127 \<or> (a = 169 \<and> b = 254) \<or> (a = 172 \<and> 16 \<le> b \<and> b \<le> 31) \<or>
      (a = 192 \<and> b = 0 \<and> c = 0 \<and> d \<noteq> 9 \<and> d \<noteq> 10) \<or> (a = 192 \<and> b = 0 \<and> c = 2) \<or> (a = 192 \<and> b = 168) \<or>
      (a = 198 \<and> (b = 18 \<or> b = 19)) \<or> (a = 198 \<and> b = 51 \<and> c = 100) \<or> (a = 203 \<and> b = 0 \<and> c = 113) \<or> 240 \<le> a)"

fun ipv4_is_global :: "nat \<times> nat \<times> nat \<times> nat \<Rightarrow> bool" where
  "ipv4_is_global (a, b, c, d) \<longleftrightarrow> \<not> (a = 100 \<and> 64 \<le> b \<and> b \<le> 127) \<and> \<not> ipv4_is_private (a, b, c, d)"

declare ipv4_is_private.simps [simp del] ipv4_is_global.simps [simp del]

end
