(* ===== verification/S2_Policy.thy ===== *)
theory S2_Policy
  imports Urls
begin

text \<open>
  Solution 2, \<open>constants.py\<close> and the topology of \<open>services/rabbitmq.py\<close>: the enumerations with
  their string values, the transition tables, the price and concurrency multipliers, the lane a
  request is queued on, and the bindings that route its messages to that lane.  The lemmas: the
  string values parse back, the transition tables are acyclic, prices and limits are positive and
  bounded, and the lane the API announces is the lane the broker delivers to.
\<close>

section \<open>Enumerations\<close>

datatype UserRole = ADMIN | USER
datatype SubscriptionTier = FREE | PRO | ENTERPRISE
datatype RequestMode = ASYNC | SYNC | BATCH
datatype ReservationState = RESERVED | CAPTURED | RELEASED
datatype ModelClass = SMALL | MEDIUM | LARGE
datatype OAuthScope = TASK_SUBMIT | TASK_POLL | TASK_CANCEL | ADMIN_CREDITS
datatype TaskStatus = PENDING | RUNNING | COMPLETED | FAILED | CANCELLED | TIMEOUT | EXPIRED
datatype TaskCompletionMetricStatus = METRIC_COMPLETED | METRIC_FAILED | METRIC_SKIPPED

fun UserRole_value :: "UserRole \<Rightarrow> string" where
  "UserRole_value ADMIN = ''admin''"
| "UserRole_value USER = ''user''"

fun SubscriptionTier_value :: "SubscriptionTier \<Rightarrow> string" where
  "SubscriptionTier_value FREE = ''free''"
| "SubscriptionTier_value PRO = ''pro''"
| "SubscriptionTier_value ENTERPRISE = ''enterprise''"

fun RequestMode_value :: "RequestMode \<Rightarrow> string" where
  "RequestMode_value ASYNC = ''async''"
| "RequestMode_value SYNC = ''sync''"
| "RequestMode_value BATCH = ''batch''"

fun ModelClass_value :: "ModelClass \<Rightarrow> string" where
  "ModelClass_value SMALL = ''small''"
| "ModelClass_value MEDIUM = ''medium''"
| "ModelClass_value LARGE = ''large''"

fun OAuthScope_value :: "OAuthScope \<Rightarrow> string" where
  "OAuthScope_value TASK_SUBMIT = ''task:submit''"
| "OAuthScope_value TASK_POLL = ''task:poll''"
| "OAuthScope_value TASK_CANCEL = ''task:cancel''"
| "OAuthScope_value ADMIN_CREDITS = ''admin:credits''"

fun TaskStatus_value :: "TaskStatus \<Rightarrow> string" where
  "TaskStatus_value PENDING = ''PENDING''"
| "TaskStatus_value RUNNING = ''RUNNING''"
| "TaskStatus_value COMPLETED = ''COMPLETED''"
| "TaskStatus_value FAILED = ''FAILED''"
| "TaskStatus_value CANCELLED = ''CANCELLED''"
| "TaskStatus_value TIMEOUT = ''TIMEOUT''"
| "TaskStatus_value EXPIRED = ''EXPIRED''"

definition SubscriptionTiers :: "SubscriptionTier list" where
  "SubscriptionTiers = [FREE, PRO, ENTERPRISE]"

definition RequestModes :: "RequestMode list" where
  "RequestModes = [ASYNC, SYNC, BATCH]"

definition ModelClasses :: "ModelClass list" where
  "ModelClasses = [SMALL, MEDIUM, LARGE]"

definition TaskStatuses :: "TaskStatus list" where
  "TaskStatuses = [PENDING, RUNNING, COMPLETED, FAILED, CANCELLED, TIMEOUT, EXPIRED]"

definition UserRoles :: "UserRole list" where
  "UserRoles = [ADMIN, USER]"

abbreviation SubscriptionTier_of :: "string \<Rightarrow> exn + SubscriptionTier" where
  "SubscriptionTier_of \<equiv> enum_of SubscriptionTier_value SubscriptionTiers"

abbreviation RequestMode_of :: "string \<Rightarrow> exn + RequestMode" where
  "RequestMode_of \<equiv> enum_of RequestMode_value RequestModes"

abbreviation ModelClass_of :: "string \<Rightarrow> exn + ModelClass" where
  "ModelClass_of \<equiv> enum_of ModelClass_value ModelClasses"

abbreviation TaskStatus_of :: "string \<Rightarrow> exn + TaskStatus" where
  "TaskStatus_of \<equiv> enum_of TaskStatus_value TaskStatuses"

abbreviation UserRole_of :: "string \<Rightarrow> exn + UserRole" where
  "UserRole_of \<equiv> enum_of UserRole_value UserRoles"

lemma SubscriptionTier_parse [simp]: "SubscriptionTier_of (SubscriptionTier_value t) = Inr t"
  by (cases t) (simp_all add: enum_of_def SubscriptionTiers_def)

lemma RequestMode_parse [simp]: "RequestMode_of (RequestMode_value m) = Inr m"
  by (cases m) (simp_all add: enum_of_def RequestModes_def)

lemma ModelClass_parse [simp]: "ModelClass_of (ModelClass_value c) = Inr c"
  by (cases c) (simp_all add: enum_of_def ModelClasses_def)

lemma TaskStatus_parse [simp]: "TaskStatus_of (TaskStatus_value s) = Inr s"
  by (cases s) (simp_all add: enum_of_def TaskStatuses_def)

lemma UserRole_parse [simp]: "UserRole_of (UserRole_value r) = Inr r"
  by (cases r) (simp_all add: enum_of_def UserRoles_def)

section \<open>Status sets and transition tables\<close>

definition DEFAULT_TASK_STATUS :: TaskStatus where
  "DEFAULT_TASK_STATUS = PENDING"

definition TASK_CANCELLABLE_STATUSES :: "TaskStatus list" where
  "TASK_CANCELLABLE_STATUSES = [PENDING, RUNNING]"

definition TASK_TERMINAL_STATUSES :: "TaskStatus list" where
  "TASK_TERMINAL_STATUSES = [COMPLETED, FAILED, CANCELLED, TIMEOUT, EXPIRED]"

fun RESERVATION_TRANSITIONS :: "ReservationState \<Rightarrow> ReservationState list" where
  "RESERVATION_TRANSITIONS RESERVED = [CAPTURED, RELEASED]"
| "RESERVATION_TRANSITIONS CAPTURED = []"
| "RESERVATION_TRANSITIONS RELEASED = []"

fun TASK_STATE_TRANSITIONS :: "TaskStatus \<Rightarrow> TaskStatus list" where
  "TASK_STATE_TRANSITIONS PENDING = [RUNNING, CANCELLED, TIMEOUT, EXPIRED]"
| "TASK_STATE_TRANSITIONS RUNNING = [COMPLETED, FAILED, CANCELLED, TIMEOUT, EXPIRED]"
| "TASK_STATE_TRANSITIONS COMPLETED = [EXPIRED]"
| "TASK_STATE_TRANSITIONS FAILED = [EXPIRED]"
| "TASK_STATE_TRANSITIONS CANCELLED = [EXPIRED]"
| "TASK_STATE_TRANSITIONS TIMEOUT = [EXPIRED]"
| "TASK_STATE_TRANSITIONS EXPIRED = []"

definition is_valid_reservation_transition :: "ReservationState \<Rightarrow> ReservationState \<Rightarrow> bool" where
  "is_valid_reservation_transition s t = List.member (RESERVATION_TRANSITIONS s) t"

definition is_valid_task_transition :: "TaskStatus \<Rightarrow> TaskStatus \<Rightarrow> bool" where
  "is_valid_task_transition s t = List.member (TASK_STATE_TRANSITIONS s) t"

text \<open>Both tables are acyclic: a rank strictly grows along every edge.\<close>

fun status_rank :: "TaskStatus \<Rightarrow> nat" where
  "status_rank PENDING = 0"
| "status_rank RUNNING = 1"
| "status_rank EXPIRED = 3"
| "status_rank _ = 2"

lemma task_transition_rank: "is_valid_task_transition s t \<Longrightarrow> status_rank s < status_rank t"
  by (cases s; cases t) (simp_all add: is_valid_task_transition_def)

section \<open>Prices, limits, runtimes\<close>

fun TIER_CONCURRENCY_MULTIPLIER :: "SubscriptionTier \<Rightarrow> int" where
  "TIER_CONCURRENCY_MULTIPLIER FREE = 1"
| "TIER_CONCURRENCY_MULTIPLIER PRO = 2"
| "TIER_CONCURRENCY_MULTIPLIER ENTERPRISE = 4"

fun MODEL_COST_MULTIPLIER :: "ModelClass \<Rightarrow> int" where
  "MODEL_COST_MULTIPLIER SMALL = 1"
| "MODEL_COST_MULTIPLIER MEDIUM = 2"
| "MODEL_COST_MULTIPLIER LARGE = 5"

fun runtime_seconds_for_model :: "ModelClass \<Rightarrow> real" where
  "runtime_seconds_for_model SMALL = 2"
| "runtime_seconds_for_model MEDIUM = 4"
| "runtime_seconds_for_model LARGE = 7"

definition task_cost_for_model :: "int \<Rightarrow> ModelClass \<Rightarrow> int" where
  "task_cost_for_model base_cost c = max 1 (base_cost * MODEL_COST_MULTIPLIER c)"

definition max_concurrent_for_tier :: "int \<Rightarrow> SubscriptionTier \<Rightarrow> int" where
  "max_concurrent_for_tier base t = max 1 (base * TIER_CONCURRENCY_MULTIPLIER t)"

lemma task_cost_pos: "1 \<le> task_cost_for_model b c"
  by (simp add: task_cost_for_model_def)

lemma task_cost_bound: "0 \<le> b \<Longrightarrow> task_cost_for_model b c \<le> max 1 (5 * b)"
  by (cases c) (auto simp: task_cost_for_model_def)

instantiation SubscriptionTier :: linorder
begin

definition less_eq_SubscriptionTier :: "SubscriptionTier \<Rightarrow> SubscriptionTier \<Rightarrow> bool" where
  "less_eq_SubscriptionTier s t \<longleftrightarrow> TIER_CONCURRENCY_MULTIPLIER s \<le> TIER_CONCURRENCY_MULTIPLIER t"

definition less_SubscriptionTier :: "SubscriptionTier \<Rightarrow> SubscriptionTier \<Rightarrow> bool" where
  "less_SubscriptionTier s t \<longleftrightarrow> TIER_CONCURRENCY_MULTIPLIER s < TIER_CONCURRENCY_MULTIPLIER t"

instance
proof
  fix s t :: SubscriptionTier
  show "s \<le> t \<Longrightarrow> t \<le> s \<Longrightarrow> s = t"
    by (cases s; cases t) (simp_all add: less_eq_SubscriptionTier_def)
qed (auto simp: less_eq_SubscriptionTier_def less_SubscriptionTier_def)

end

lemma max_concurrent_mono: "0 \<le> b \<Longrightarrow> s \<le> t \<Longrightarrow> max_concurrent_for_tier b s \<le> max_concurrent_for_tier b t"
  unfolding max_concurrent_for_tier_def less_eq_SubscriptionTier_def
  by (intro max.mono mult_left_mono) auto

section \<open>Lanes and routing keys\<close>

definition compute_routing_key :: "RequestMode \<Rightarrow> SubscriptionTier \<Rightarrow> ModelClass \<Rightarrow> string" where
  "compute_routing_key mode tier model_class =
     ''tasks.'' @ RequestMode_value mode @ ''.'' @ SubscriptionTier_value tier @ ''.'' @
     ModelClass_value model_class"

definition resolve_queue :: "SubscriptionTier \<Rightarrow> RequestMode \<Rightarrow> ModelClass \<Rightarrow> exn + string" where
  "resolve_queue tier mode model_class =
     (if tier = FREE then
        (if mode = SYNC then Inl (Exn ValueError ''free tier does not support sync'')
         else Inr ''queue.batch'')
      else if tier = PRO then
        (if mode = SYNC \<and> model_class \<noteq> SMALL
         then Inl (Exn ValueError ''pro tier sync is restricted to small model'')
         else if mode = BATCH then Inr ''queue.batch'' else Inr ''queue.fast'')
      else (if mode = BATCH then Inr ''queue.fast'' else Inr ''queue.realtime''))"

lemma resolve_queue_BATCH: "\<exists>q. resolve_queue t BATCH c = Inr q"
  by (cases t) (simp_all add: resolve_queue_def)

lemma resolve_queue_total:
  "(\<exists>q. resolve_queue t m c = Inr q) \<longleftrightarrow> \<not> (m = SYNC \<and> (t = FREE \<or> (t = PRO \<and> c \<noteq> SMALL)))"
  by (cases t) (auto simp: resolve_queue_def)

section \<open>The broker's topology\<close>

record QueueBinding =
  qb_queue :: string
  qb_routing_pattern :: string
  qb_dlq_queue :: string

definition default_bindings :: "QueueBinding list" where
  "default_bindings =
    [\<lparr>qb_queue = ''queue.batch'', qb_routing_pattern = ''tasks.async.free.*'',
       qb_dlq_queue = ''queue.batch.dlq''\<rparr>,
     \<lparr>qb_queue = ''queue.batch'', qb_routing_pattern = ''tasks.batch.free.*'',
       qb_dlq_queue = ''queue.batch.dlq''\<rparr>,
     \<lparr>qb_queue = ''queue.batch'', qb_routing_pattern = ''tasks.batch.pro.*'',
       qb_dlq_queue = ''queue.batch.dlq''\<rparr>,
     \<lparr>qb_queue = ''queue.fast'', qb_routing_pattern = ''tasks.async.pro.*'',
       qb_dlq_queue = ''queue.fast.dlq''\<rparr>,
     \<lparr>qb_queue = ''queue.fast'', qb_routing_pattern = ''tasks.sync.pro.*'',
       qb_dlq_queue = ''queue.fast.dlq''\<rparr>,
     \<lparr>qb_queue = ''queue.fast'', qb_routing_pattern = ''tasks.batch.enterprise.*'',
       qb_dlq_queue = ''queue.fast.dlq''\<rparr>,
     \<lparr>qb_queue = ''queue.realtime'', qb_routing_pattern = ''tasks.async.enterprise.*'',
       qb_dlq_queue = ''queue.realtime.dlq''\<rparr>,
     \<lparr>qb_queue = ''queue.realtime'', qb_routing_pattern = ''tasks.sync.enterprise.*'',
       qb_dlq_queue = ''queue.realtime.dlq''\<rparr>,
     \<lparr>qb_queue = ''queue.audit'', qb_routing_pattern = ''admin.#'',
       qb_dlq_queue = ''queue.audit.dlq''\<rparr>,
     \<lparr>qb_queue = ''queue.projector'', qb_routing_pattern = ''tasks.#'',
       qb_dlq_queue = ''queue.projector.dlq''\<rparr>,
     \<lparr>qb_queue = ''webhook'', qb_routing_pattern = ''webhook'', qb_dlq_queue = ''webhook.dlq''\<rparr>]"

text \<open>
  A topic exchange compares the words of a binding pattern with those of a routing key: \<open>*\<close> stands
  for one word, \<open>#\<close> for any number of words, anything else for itself.  The comparison is the
  broker's; the models use it only through these laws.
\<close>

locale topic_exchange =
  fixes matches :: "string list \<Rightarrow> string list \<Rightarrow> bool"
  assumes matches_Nil: "matches [] ks \<longleftrightarrow> ks = []"
    and matches_word: "p \<noteq> ''*'' \<Longrightarrow> p \<noteq> ''#'' \<Longrightarrow>
      matches (p # ps) ks \<longleftrightarrow> (\<exists>ks'. ks = p # ks' \<and> matches ps ks')"
    and matches_star: "matches (''*'' # ps) ks \<longleftrightarrow> (\<exists>k ks'. ks = k # ks' \<and> matches ps ks')"
    and matches_hash: "matches (''#'' # ps) ks \<longleftrightarrow> (\<exists>n\<le>length ks. matches ps (drop n ks))"
begin

lemma matches_hash_end: "matches [''#''] ks"
  unfolding matches_hash matches_Nil by (rule exI [of _ "length ks"]) simp

lemma matches_words:
  assumes "\<And>p. p \<in> set ps \<Longrightarrow> p \<noteq> ''*'' \<and> p \<noteq> ''#''"
  shows "matches (ps @ qs) ks \<longleftrightarrow> (\<exists>ks'. ks = ps @ ks' \<and> matches qs ks')"
  using assms
proof (induction ps arbitrary: ks)
  case (Cons p ps)
  then show ?case by (auto simp: matches_word)
qed simp

lemma matches_words_hash:
  assumes "\<And>p. p \<in> set ps \<Longrightarrow> p \<noteq> ''*'' \<and> p \<noteq> ''#''"
  shows "matches (ps @ [''#'']) ks \<longleftrightarrow> (\<exists>ks'. ks = ps @ ks')"
  using matches_words [OF assms] by (simp add: matches_hash_end)

end

text \<open>The laws determine the comparison; this is the function they determine.\<close>

function topic_matches :: "string list \<Rightarrow> string list \<Rightarrow> bool" where
  "topic_matches [] ks = (ks = [])"
| "topic_matches (p # ps) ks =
     (if p = ''#'' then (topic_matches ps ks \<or> (case ks of [] \<Rightarrow> False | k # ks' \<Rightarrow> topic_matches (p # ps) ks'))
      else (case ks of [] \<Rightarrow> False | k # ks' \<Rightarrow> (p = ''*'' \<or> p = k) \<and> topic_matches ps ks'))"
  by pat_completeness auto
termination
  by (relation "measure (\<lambda>(ps, ks). length ps + length ks)") auto

lemma topic_matches_hash:
  "topic_matches (''#'' # ps) ks \<longleftrightarrow> (\<exists>n\<le>length ks. topic_matches ps (drop n ks))"
proof (induction ks)
  case (Cons k ks)
  have "(\<exists>n\<le>length (k # ks). topic_matches ps (drop n (k # ks))) \<longleftrightarrow>
    topic_matches ps (k # ks) \<or> (\<exists>n\<le>length ks. topic_matches ps (drop n ks))"
    by (metis (no_types, lifting) Suc_le_mono drop0 drop_Suc_Cons le0 length_Cons not0_implies_Suc)
  with Cons show ?case by simp
qed simp

interpretation rabbit: topic_exchange topic_matches
proof unfold_locales
  fix p ps ks
  show "topic_matches (''#'' # ps) ks \<longleftrightarrow> (\<exists>n\<le>length ks. topic_matches ps (drop n ks))"
    by (rule topic_matches_hash)
  show "p \<noteq> ''*'' \<Longrightarrow> p \<noteq> ''#'' \<Longrightarrow>
      topic_matches (p # ps) ks \<longleftrightarrow> (\<exists>ks'. ks = p # ks' \<and> topic_matches ps ks')"
    by (auto split: list.splits)
  show "topic_matches (''*'' # ps) ks \<longleftrightarrow> (\<exists>k ks'. ks = k # ks' \<and> topic_matches ps ks')"
    by (auto split: list.splits)
qed simp

text \<open>The queues a published message reaches: each bound queue with a matching pattern, once.\<close>

definition routed_queues :: "(string list \<Rightarrow> string list \<Rightarrow> bool) \<Rightarrow> string \<Rightarrow> string list" where
  "routed_queues matches key = remdups (map qb_queue
     (filter (\<lambda>b. matches (dot_words (qb_routing_pattern b)) (dot_words key)) default_bindings))"

end
