(* ===== verification/Tables.thy ===== *)
theory Tables
  imports Prelude
begin

text \<open>
  SQL tables as lists of rows in insertion order.  \<open>lookup_row key x\<close> is
  \<open>SELECT ... WHERE key=x\<close> on a unique column, \<open>update_rows P f\<close> is \<open>UPDATE ... SET f WHERE P\<close>,
  \<open>count_rows P\<close> the number of rows it reports, \<open>delete_rows\<close> the bounded purges
  \<open>DELETE ... WHERE id IN (SELECT ... ORDER BY ts LIMIT n)\<close>.  The lemmas say what a lookup and a
  sum over the table return after each of them; the locale at the end states that contract for a
  table with a unique key, and every unique-keyed table of a model interprets it.
\<close>

section \<open>Statements on row lists\<close>

definition lookup_row :: "('r \<Rightarrow> 'k) \<Rightarrow> 'k \<Rightarrow> 'r list \<Rightarrow> 'r option" where
  "lookup_row key x t = find (\<lambda>r. key r = x) t"

definition update_rows :: "('r \<Rightarrow> bool) \<Rightarrow> ('r \<Rightarrow> 'r) \<Rightarrow> 'r list \<Rightarrow> 'r list" where
  "update_rows P f t = map (\<lambda>r. if P r then f r else r) t"

definition count_rows :: "('r \<Rightarrow> bool) \<Rightarrow> 'r list \<Rightarrow> nat" where
  "count_rows P t = length (filter P t)"

definition sum_rows :: "('r \<Rightarrow> int) \<Rightarrow> 'r list \<Rightarrow> int" where
  "sum_rows g t = sum_list (map g t)"

definition oldest_rows :: "('r \<Rightarrow> bool) \<Rightarrow> ('r \<Rightarrow> int) \<Rightarrow> nat \<Rightarrow> 'r list \<Rightarrow> 'r list" where
  "oldest_rows P ts n t = take n (sort_key ts (filter P t))"

definition delete_rows :: "('r \<Rightarrow> 'k) \<Rightarrow> 'k list \<Rightarrow> 'r list \<Rightarrow> 'r list" where
  "delete_rows key ks t = filter (\<lambda>r. \<not> List.member ks (key r)) t"

definition keyed :: "('r \<Rightarrow> 'k) \<Rightarrow> 'r list \<Rightarrow> bool" where
  "keyed key t \<longleftrightarrow> distinct (map key t)"

section \<open>Lookups\<close>

lemma lookup_row_Nil [simp]: "lookup_row key x [] = None"
  by (simp add: lookup_row_def)

lemma lookup_row_Cons [simp]:
  "lookup_row key x (r # t) = (if key r = x then Some r else lookup_row key x t)"
  by (simp add: lookup_row_def)

lemma lookup_row_append:
  "lookup_row key x (s @ t) = (case lookup_row key x s of None \<Rightarrow> lookup_row key x t | Some r \<Rightarrow> Some r)"
  by (induction s) auto

lemma lookup_row_Some: "lookup_row key x t = Some r \<Longrightarrow> r \<in> set t \<and> key r = x"
  by (induction t) (auto split: if_splits)

lemma lookup_row_None: "lookup_row key x t = None \<longleftrightarrow> (\<forall>r\<in>set t. key r \<noteq> x)"
  by (induction t) auto

lemma lookup_row_member: "keyed key t \<Longrightarrow> r \<in> set t \<Longrightarrow> lookup_row key (key r) t = Some r"
  by (induction t) (auto simp: keyed_def image_iff)

lemma lookup_row_update:
  assumes "\<And>r. key (f r) = key r"
  shows "lookup_row key x (update_rows (\<lambda>r. key r = y \<and> P r) f t) =
    (if x = y then map_option (\<lambda>r. if P r then f r else r) (lookup_row key x t)
     else lookup_row key x t)"
  using assms by (induction t) (auto simp: update_rows_def)

lemma lookup_row_update_key:
  assumes "\<And>r. key (f r) = key r"
  shows "lookup_row key x (update_rows (\<lambda>r. key r = y) f t) =
    (if x = y then map_option f (lookup_row key x t) else lookup_row key x t)"
  using lookup_row_update [of key f x y "\<lambda>_. True" t] assms by simp

section \<open>Unique keys\<close>

lemma keyed_Nil [simp]: "keyed key []"
  by (simp add: keyed_def)

lemma keyed_update [simp]:
  assumes "\<And>r. key (f r) = key r"
  shows "keyed key (update_rows P f t) = keyed key t"
proof -
  have "map key (update_rows P f t) = map key t"
    using assms by (induction t) (auto simp: update_rows_def)
  then show ?thesis by (simp add: keyed_def)
qed

lemma keyed_append: "keyed key (t @ [r]) \<longleftrightarrow> keyed key t \<and> lookup_row key (key r) t = None"
  by (auto simp: keyed_def lookup_row_None) (metis image_eqI)

lemma keyed_filter: "keyed key t \<Longrightarrow> keyed key (filter P t)"
  by (simp add: keyed_def distinct_map_filter)

lemma count_rows_keyed:
  assumes "keyed key t"
  shows "count_rows (\<lambda>r. key r = x \<and> P r) t =
    (case lookup_row key x t of None \<Rightarrow> 0 | Some r \<Rightarrow> if P r then 1 else 0)"
  using assms
proof (induction t)
  case (Cons r t)
  then have IH: "count_rows (\<lambda>r. key r = x \<and> P r) t =
    (case lookup_row key x t of None \<Rightarrow> 0 | Some r \<Rightarrow> if P r then 1 else 0)"
    by (simp add: keyed_def)
  show ?case
  proof (cases "key r = x")
    case True
    with Cons.prems have "lookup_row key x t = None"
      by (auto simp: keyed_def lookup_row_None) (metis image_eqI)
    with IH True show ?thesis by (simp add: count_rows_def)
  next
    case False
    with IH show ?thesis by (simp add: count_rows_def)
  qed
qed (simp add: count_rows_def)

lemma count_rows_keyed_one:
  assumes "keyed key t"
  shows "count_rows (\<lambda>r. key r = x \<and> P r) t = 1 \<longleftrightarrow> (\<exists>r. lookup_row key x t = Some r \<and> P r)"
  by (simp add: count_rows_keyed [OF assms] split: option.split)

lemma update_rows_missed:
  assumes "keyed key t" "count_rows (\<lambda>r. key r = x \<and> P r) t \<noteq> 1"
  shows "update_rows (\<lambda>r. key r = x \<and> P r) f t = t"
proof -
  have "\<not> (key r = x \<and> P r)" if "r \<in> set t" for r
    using count_rows_keyed_one [OF assms(1), of x P] assms lookup_row_member [OF assms(1) that] by metis
  then show ?thesis unfolding update_rows_def by (intro map_idI) auto
qed

lemma count_rows_key_one:
  assumes "keyed key t"
  shows "count_rows (\<lambda>r. key r = x) t = 1 \<longleftrightarrow> (\<exists>r. lookup_row key x t = Some r)"
  using count_rows_keyed_one [OF assms, of x "\<lambda>_. True"] by simp

section \<open>Sums\<close>

lemma sum_rows_Nil [simp]: "sum_rows g [] = 0"
  by (simp add: sum_rows_def)

lemma sum_rows_Cons [simp]: "sum_rows g (r # t) = g r + sum_rows g t"
  by (simp add: sum_rows_def)

lemma sum_rows_append [simp]: "sum_rows g (s @ t) = sum_rows g s + sum_rows g t"
  by (simp add: sum_rows_def)

lemma sum_rows_nonneg: "(\<And>r. r \<in> set t \<Longrightarrow> 0 \<le> g r) \<Longrightarrow> 0 \<le> sum_rows g t"
  by (induction t) (auto simp: add_nonneg_nonneg)

lemma sum_rows_member: "(\<And>r. r \<in> set t \<Longrightarrow> 0 \<le> g r) \<Longrightarrow> r \<in> set t \<Longrightarrow> g r \<le> sum_rows g t"
proof (induction t)
  case (Cons s t)
  have "0 \<le> sum_rows g t" using Cons.prems(1) by (intro sum_rows_nonneg) simp
  with Cons show ?case by (auto intro: order_trans)
qed simp

lemma sum_rows_update:
  assumes "keyed key t" and "lookup_row key x t = Some r"
  shows "sum_rows g (update_rows (\<lambda>r. key r = x \<and> P r) f t) =
    sum_rows g t + (if P r then g (f r) - g r else 0)"
  using assms
proof (induction t)
  case (Cons s t)
  show ?case
  proof (cases "key s = x")
    case True
    with Cons.prems have r: "r = s" and none: "\<forall>q\<in>set t. key q \<noteq> x"
      by (auto simp: keyed_def image_iff)
    from none have "update_rows (\<lambda>r. key r = x \<and> P r) f t = t"
      by (induction t) (auto simp: update_rows_def)
    with True r show ?thesis by (simp add: update_rows_def)
  next
    case False
    with Cons show ?thesis by (simp add: update_rows_def keyed_def)
  qed
qed simp

lemma sum_rows_update_key:
  assumes "keyed key t" and "lookup_row key x t = Some r"
  shows "sum_rows g (update_rows (\<lambda>r. key r = x) f t) = sum_rows g t + (g (f r) - g r)"
  using sum_rows_update [OF assms, of g "\<lambda>_. True" f] by simp

section \<open>The contract of a table with a unique key\<close>

locale unique_table =
  fixes key :: "'r \<Rightarrow> 'k"
    and lookup :: "'k \<Rightarrow> 't \<Rightarrow> 'r option"
    and insert :: "'r \<Rightarrow> 't \<Rightarrow> 't option"
    and modify :: "'k \<Rightarrow> ('r \<Rightarrow> 'r) \<Rightarrow> 't \<Rightarrow> 't"
  assumes lookup_insert: "insert r t = Some t' \<Longrightarrow>
      lookup x t' = (if x = key r then Some r else lookup x t)"
    and insert_fails: "insert r t = None \<longleftrightarrow> lookup (key r) t \<noteq> None"
    and lookup_modify: "(\<And>r. key (f r) = key r) \<Longrightarrow>
      lookup x (modify y f t) = (if x = y then map_option f (lookup x t) else lookup x t)"
begin

lemma insert_once: "insert r t = Some t' \<Longrightarrow> insert r t' = None"
  by (simp add: insert_fails lookup_insert)

lemma insert_frame: "insert r t = Some t' \<Longrightarrow> lookup x t = Some s \<Longrightarrow> lookup x t' = Some s"
  using insert_fails lookup_insert by (metis option.distinct(1))

lemma modify_frame: "(\<And>r. key (f r) = key r) \<Longrightarrow> x \<noteq> y \<Longrightarrow> lookup x (modify y f t) = lookup x t"
  by (simp add: lookup_modify)

end

definition insert_row :: "('r \<Rightarrow> 'k) \<Rightarrow> 'r \<Rightarrow> 'r list \<Rightarrow> 'r list option" where
  "insert_row key r t = (if lookup_row key (key r) t = None then Some (t @ [r]) else None)"

definition modify_row :: "('r \<Rightarrow> 'k) \<Rightarrow> 'k \<Rightarrow> ('r \<Rightarrow> 'r) \<Rightarrow> 'r list \<Rightarrow> 'r list" where
  "modify_row key x f t = update_rows (\<lambda>r. key r = x) f t"

lemma unique_table_rows:
  "unique_table key (lookup_row key) (insert_row key) (modify_row key)"
proof unfold_locales
  fix r :: 'a and t t' :: "'a list" and x
  assume "insert_row key r t = Some t'"
  then show "lookup_row key x t' = (if x = key r then Some r else lookup_row key x t)"
    by (auto simp: insert_row_def lookup_row_append split: if_splits option.splits)
qed (simp_all add: insert_row_def modify_row_def lookup_row_update_key)

end
