(* ===== verification/S2_Store.thy ===== *)
theory S2_Store
  imports S2_Policy Tables
begin

text \<open>
  Solution 2, \<open>models/domain.py\<close> and \<open>db/repository.py\<close>: the rows of the Postgres schema as
  records, the database as one record of tables, and one action per repository function.  The
  constraints of \<open>db/migrations\<close> that a statement can violate are its error branches: 32-bit
  columns, \<open>credits >= 0\<close>, primary keys, the unique \<open>(user_id, idempotency_key)\<close>, the foreign keys
  of reservations and dead letters, and the length of a varchar.
\<close>

section \<open>Rows\<close>

record UserRow =
  us_api_key :: string
  us_user_id :: uuid
  us_name :: string
  us_role :: UserRole
  us_tier :: SubscriptionTier
  us_credits :: int

record AuthUser =
  au_api_key :: string
  au_user_id :: uuid
  au_name :: string
  au_role :: UserRole
  au_credits :: int
  au_tier :: SubscriptionTier
  au_scopes :: "string list"

record TaskCommand =
  tc_task_id :: uuid
  tc_user_id :: uuid
  tc_tier :: SubscriptionTier
  tc_mode :: RequestMode
  tc_model_class :: ModelClass
  tc_status :: TaskStatus
  tc_x :: int
  tc_y :: int
  tc_cost :: int
  tc_callback_url :: "string option"
  tc_idempotency_key :: "string option"
  tc_created_at :: int
  tc_updated_at :: int

record CreditReservation =
  cr_reservation_id :: uuid
  cr_task_id :: uuid
  cr_user_id :: uuid
  cr_amount :: int
  cr_state :: ReservationState
  cr_expires_at :: int
  cr_created_at :: int
  cr_updated_at :: int

record OutboxEvent =
  oe_event_id :: uuid
  oe_aggregate_id :: uuid
  oe_event_type :: string
  oe_routing_key :: string
  oe_payload :: dict
  oe_published_at :: "int option"
  oe_created_at :: int

record TaskQueryView =
  tv_task_id :: uuid
  tv_user_id :: uuid
  tv_tier :: SubscriptionTier
  tv_mode :: RequestMode
  tv_model_class :: ModelClass
  tv_status :: TaskStatus
  tv_result :: "dict option"
  tv_error :: "string option"
  tv_queue_name :: "string option"
  tv_runtime_ms :: "int option"
  tv_created_at :: int
  tv_updated_at :: int

record CreditTransaction =
  ct_user_id :: uuid
  ct_task_id :: "uuid option"
  ct_delta :: int
  ct_reason :: string
  ct_created_at :: int

record WebhookSubscription =
  ws_user_id :: uuid
  ws_callback_url :: string
  ws_enabled :: bool
  ws_created_at :: int
  ws_updated_at :: int

record DeadLetter =
  dl_user_id :: uuid
  dl_task_id :: uuid
  dl_event_payload :: dict
  dl_last_error :: string

record RevokedToken =
  rt_jti :: string
  rt_user_id :: uuid
  rt_revoked_at :: int
  rt_expires_at :: int

text \<open>
  \<open>api_keys\<close>: the hash of a key and whether it is active.  \<open>legacy_tasks\<close>: the keys of the table \<open>tasks\<close> of the first migrations, which nothing in
  Solution 2 writes but the dead-letter table references.
\<close>

record s2db =
  users :: "UserRow list"
  task_commands :: "TaskCommand list"
  credit_reservations :: "CreditReservation list"
  outbox_events :: "OutboxEvent list"
  inbox_events :: "(uuid \<times> string) list"
  task_query_view :: "TaskQueryView list"
  credit_transactions :: "CreditTransaction list"
  webhook_subscriptions :: "WebhookSubscription list"
  webhook_dead_letters :: "DeadLetter list"
  token_revocations :: "RevokedToken list"
  api_keys :: "(string \<times> bool) list"
  legacy_tasks :: "uuid list"

definition find_user :: "s2db \<Rightarrow> uuid \<Rightarrow> UserRow option" where
  "find_user d u = lookup_row us_user_id u (users d)"

definition find_command :: "s2db \<Rightarrow> uuid \<Rightarrow> TaskCommand option" where
  "find_command d t = lookup_row tc_task_id t (task_commands d)"

definition find_reservation :: "s2db \<Rightarrow> uuid \<Rightarrow> CreditReservation option" where
  "find_reservation d t = lookup_row cr_task_id t (credit_reservations d)"

interpretation user_table: unique_table
  us_user_id "lookup_row us_user_id" "insert_row us_user_id" "modify_row us_user_id"
  by (rule unique_table_rows)

interpretation command_table: unique_table
  tc_task_id "lookup_row tc_task_id" "insert_row tc_task_id" "modify_row tc_task_id"
  by (rule unique_table_rows)

interpretation reservation_table: unique_table
  cr_task_id "lookup_row cr_task_id" "insert_row cr_task_id" "modify_row cr_task_id"
  by (rule unique_table_rows)

interpretation view_table: unique_table
  tv_task_id "lookup_row tv_task_id" "insert_row tv_task_id" "modify_row tv_task_id"
  by (rule unique_table_rows)

text \<open>The exceptions the server raises for a violated constraint.\<close>

abbreviation unique_violation :: exn where
  "unique_violation \<equiv> Exn UniqueViolationError ''duplicate key value violates unique constraint''"

abbreviation check_violation :: exn where
  "check_violation \<equiv> Exn CheckViolationError ''new row violates check constraint''"

abbreviation foreign_key_violation :: exn where
  "foreign_key_violation \<equiv> Exn ForeignKeyViolationError ''violates foreign key constraint''"

abbreviation data_error :: exn where
  "data_error \<equiv> Exn DataError ''value out of range''"

section \<open>Users and credits\<close>

definition fetch_user_by_api_key :: "string \<Rightarrow> (s2db, 'k, AuthUser option) io" where
  "fetch_user_by_api_key api_key = sql_read (\<lambda>_ d.
     map_option (\<lambda>u. \<lparr>au_api_key = us_api_key u, au_user_id = us_user_id u, au_name = us_name u,
         au_role = us_role u, au_credits = us_credits u, au_tier = us_tier u, au_scopes = []\<rparr>)
       (lookup_row us_api_key api_key (users d)))"

definition fetch_user_credits_by_api_key :: "string \<Rightarrow> (s2db, 'k, int option) io" where
  "fetch_user_credits_by_api_key api_key = sql_read (\<lambda>_ d.
     map_option us_credits (lookup_row us_api_key api_key (users d)))"

definition get_user_credits_for_update :: "uuid \<Rightarrow> (s2db, 'k, int option) io" where
  "get_user_credits_for_update user_id = sql_read (\<lambda>_ d. map_option us_credits (find_user d user_id))"

definition lock_user_for_admission :: "uuid \<Rightarrow> (s2db, 'k, bool) io" where
  "lock_user_for_admission user_id = sql_read (\<lambda>_ d. find_user d user_id \<noteq> None)"

definition set_credits :: "uuid \<Rightarrow> int \<Rightarrow> s2db \<Rightarrow> s2db" where
  "set_credits user_id n d =
     d\<lparr>users := update_rows (\<lambda>u. us_user_id u = user_id) (\<lambda>u. u\<lparr>us_credits := n\<rparr>) (users d)\<rparr>"

definition reserve_user_credits :: "uuid \<Rightarrow> int \<Rightarrow> (s2db, 'k, int option) io" where
  "reserve_user_credits user_id amount = sql (\<lambda>_ d.
     if \<not> int4_ok amount then Inl data_error
     else case find_user d user_id of
         None \<Rightarrow> Inr (None, d)
       | Some u \<Rightarrow>
           if us_credits u < amount then Inr (None, d)
           else if \<not> int4_ok (us_credits u - amount) then Inl data_error
           else Inr (Some (us_credits u - amount), set_credits user_id (us_credits u - amount) d))"

definition add_user_credits :: "uuid \<Rightarrow> int \<Rightarrow> (s2db, 'k, int option) io" where
  "add_user_credits user_id delta = sql (\<lambda>_ d.
     if \<not> int4_ok delta then Inl data_error
     else case find_user d user_id of
         None \<Rightarrow> Inr (None, d)
       | Some u \<Rightarrow>
           if \<not> int4_ok (us_credits u + delta) then Inl data_error
           else if us_credits u + delta < 0 then Inl check_violation
           else Inr (Some (us_credits u + delta), set_credits user_id (us_credits u + delta) d))"

definition insert_credit_transaction ::
  "uuid \<Rightarrow> uuid option \<Rightarrow> int \<Rightarrow> string \<Rightarrow> (s2db, 'k, unit) io" where
  "insert_credit_transaction user_id task_id delta reason = sql (\<lambda>now d.
     if \<not> int4_ok delta \<or> 64 < length reason then Inl data_error
     else if find_user d user_id = None then Inl foreign_key_violation
     else Inr ((), d\<lparr>credit_transactions := credit_transactions d @
       [\<lparr>ct_user_id = user_id, ct_task_id = task_id, ct_delta = delta, ct_reason = reason,
         ct_created_at = now\<rparr>]\<rparr>))"

definition admin_update_user_credits ::
  "string \<Rightarrow> int \<Rightarrow> string \<Rightarrow> (s2db, 'k, (uuid \<times> int \<times> int) option) io" where
  "admin_update_user_credits target_api_key delta reason = sql (\<lambda>now d.
     if \<not> int4_ok delta \<or> 64 < length reason then Inl data_error
     else case lookup_row us_api_key target_api_key (users d) of
         None \<Rightarrow> Inr (None, d)
       | Some u \<Rightarrow>
           if \<not> int4_ok (us_credits u + delta) then Inl data_error
           else if us_credits u + delta < 0 then Inl check_violation
           else Inr (Some (us_user_id u, us_credits u, us_credits u + delta),
             (set_credits (us_user_id u) (us_credits u + delta) d)
               \<lparr>credit_transactions := credit_transactions d @
                 [\<lparr>ct_user_id = us_user_id u, ct_task_id = None, ct_delta = delta,
                   ct_reason = reason, ct_created_at = now\<rparr>]\<rparr>))"

definition purge_old_credit_transactions :: "int \<Rightarrow> int \<Rightarrow> (s2db, 'k, nat) io" where
  "purge_old_credit_transactions older_than_seconds batch_size =
     (if older_than_seconds \<le> 0 \<or> batch_size \<le> 0 then returnM 0
      else sql (\<lambda>now d. let victims = oldest_rows (\<lambda>t. ct_created_at t \<le> now - seconds older_than_seconds)
             ct_created_at (nat batch_size) (credit_transactions d)
           in Inr (length victims,
             d\<lparr>credit_transactions := filter (\<lambda>t. \<not> List.member victims t) (credit_transactions d)\<rparr>)))"

text \<open>A lookup sees only its own table.\<close>

lemma find_user_frame [simp]:
  "find_user (d\<lparr>task_commands := a\<rparr>) u = find_user d u"
  "find_user (d\<lparr>credit_reservations := b\<rparr>) u = find_user d u"
  "find_user (d\<lparr>outbox_events := e\<rparr>) u = find_user d u"
  "find_user (d\<lparr>inbox_events := f\<rparr>) u = find_user d u"
  "find_user (d\<lparr>task_query_view := g\<rparr>) u = find_user d u"
  "find_user (d\<lparr>credit_transactions := h\<rparr>) u = find_user d u"
  by (simp_all add: find_user_def)

lemma find_command_frame [simp]:
  "find_command (d\<lparr>users := a\<rparr>) t = find_command d t"
  "find_command (d\<lparr>credit_reservations := b\<rparr>) t = find_command d t"
  "find_command (d\<lparr>outbox_events := e\<rparr>) t = find_command d t"
  "find_command (d\<lparr>inbox_events := f\<rparr>) t = find_command d t"
  "find_command (d\<lparr>task_query_view := g\<rparr>) t = find_command d t"
  "find_command (d\<lparr>credit_transactions := h\<rparr>) t = find_command d t"
  by (simp_all add: find_command_def)

lemma find_reservation_frame [simp]:
  "find_reservation (d\<lparr>users := a\<rparr>) t = find_reservation d t"
  "find_reservation (d\<lparr>task_commands := b\<rparr>) t = find_reservation d t"
  "find_reservation (d\<lparr>outbox_events := e\<rparr>) t = find_reservation d t"
  "find_reservation (d\<lparr>inbox_events := f\<rparr>) t = find_reservation d t"
  "find_reservation (d\<lparr>task_query_view := g\<rparr>) t = find_reservation d t"
  "find_reservation (d\<lparr>credit_transactions := h\<rparr>) t = find_reservation d t"
  by (simp_all add: find_reservation_def)

lemma set_credits_frame [simp]:
  "task_commands (set_credits u n d) = task_commands d"
  "credit_reservations (set_credits u n d) = credit_reservations d"
  "outbox_events (set_credits u n d) = outbox_events d"
  "inbox_events (set_credits u n d) = inbox_events d"
  "credit_transactions (set_credits u n d) = credit_transactions d"
  "find_command (set_credits u n d) t = find_command d t"
  "find_reservation (set_credits u n d) t = find_reservation d t"
  by (simp_all add: set_credits_def)

lemma users_set_credits:
  "users (set_credits u n d) =
    update_rows (\<lambda>r. us_user_id r = u) (\<lambda>r. r\<lparr>us_credits := n\<rparr>) (users d)"
  by (simp add: set_credits_def)

section \<open>Task commands\<close>

definition find_by_idempotency :: "s2db \<Rightarrow> uuid \<Rightarrow> string \<Rightarrow> TaskCommand option" where
  "find_by_idempotency d user_id key =
     find (\<lambda>c. tc_user_id c = user_id \<and> tc_idempotency_key c = Some key) (task_commands d)"

definition create_task_command ::
  "uuid \<Rightarrow> uuid \<Rightarrow> SubscriptionTier \<Rightarrow> RequestMode \<Rightarrow> ModelClass \<Rightarrow> int \<Rightarrow> int \<Rightarrow> int \<Rightarrow>
   string option \<Rightarrow> string option \<Rightarrow> (s2db, 'k, unit) io" where
  "create_task_command task_id user_id tier mode model_class x y cost callback_url idempotency_key =
    sql (\<lambda>now d.
      if \<not> (int4_ok x \<and> int4_ok y \<and> int4_ok cost) then Inl data_error
      else if (case idempotency_key of None \<Rightarrow> False | Some k \<Rightarrow> 128 < length k) then Inl data_error
      else if find_command d task_id \<noteq> None then Inl unique_violation
      else if (case idempotency_key of None \<Rightarrow> False | Some k \<Rightarrow> find_by_idempotency d user_id k \<noteq> None)
        then Inl unique_violation
      else Inr ((), d\<lparr>task_commands := task_commands d @
        [\<lparr>tc_task_id = task_id, tc_user_id = user_id, tc_tier = tier, tc_mode = mode,
          tc_model_class = model_class, tc_status = DEFAULT_TASK_STATUS, tc_x = x, tc_y = y,
          tc_cost = cost, tc_callback_url = callback_url, tc_idempotency_key = idempotency_key,
          tc_created_at = now, tc_updated_at = now\<rparr>]\<rparr>))"

definition get_task_command :: "uuid \<Rightarrow> (s2db, 'k, TaskCommand option) io" where
  "get_task_command task_id = sql_read (\<lambda>_ d. find_command d task_id)"

definition get_task_command_by_idempotency ::
  "uuid \<Rightarrow> string \<Rightarrow> (s2db, 'k, TaskCommand option) io" where
  "get_task_command_by_idempotency user_id key = sql_read (\<lambda>_ d. find_by_idempotency d user_id key)"

text \<open>\<open>UPDATE ... SET status=st WHERE task_id=... AND status IN (allowed)\<close>, and whether it hit one row.\<close>

definition set_status_where ::
  "(TaskStatus \<Rightarrow> bool) \<Rightarrow> TaskStatus \<Rightarrow> uuid \<Rightarrow> (s2db, 'k, bool) io" where
  "set_status_where allowed st task_id = sql (\<lambda>now d.
     let P = (\<lambda>c. tc_task_id c = task_id \<and> allowed (tc_status c))
     in Inr (count_rows P (task_commands d) = 1,
       d\<lparr>task_commands := update_rows P (\<lambda>c. c\<lparr>tc_status := st, tc_updated_at := now\<rparr>)
           (task_commands d)\<rparr>))"

definition update_task_command_status :: "uuid \<Rightarrow> TaskStatus \<Rightarrow> (s2db, 'k, bool) io" where
  "update_task_command_status task_id status = set_status_where (\<lambda>_. True) status task_id"

definition update_task_command_running :: "uuid \<Rightarrow> (s2db, 'k, bool) io" where
  "update_task_command_running task_id = set_status_where (\<lambda>s. s = PENDING) RUNNING task_id"

definition update_task_command_completed :: "uuid \<Rightarrow> (s2db, 'k, bool) io" where
  "update_task_command_completed task_id =
     set_status_where (\<lambda>s. s = PENDING \<or> s = RUNNING) COMPLETED task_id"

definition update_task_command_failed :: "uuid \<Rightarrow> (s2db, 'k, bool) io" where
  "update_task_command_failed task_id =
     set_status_where (\<lambda>s. s = PENDING \<or> s = RUNNING) FAILED task_id"

definition update_task_command_timed_out :: "uuid \<Rightarrow> (s2db, 'k, bool) io" where
  "update_task_command_timed_out task_id =
     set_status_where (\<lambda>s. s = PENDING \<or> s = RUNNING) TIMEOUT task_id"

definition update_task_command_cancelled :: "uuid \<Rightarrow> (s2db, 'k, bool) io" where
  "update_task_command_cancelled task_id =
     set_status_where (\<lambda>s. s = PENDING \<or> s = RUNNING) CANCELLED task_id"

section \<open>Reservations\<close>

definition create_reservation ::
  "uuid \<Rightarrow> uuid \<Rightarrow> int \<Rightarrow> int \<Rightarrow> (s2db, 'k, unit) io" where
  "create_reservation task_id user_id amount expires_at =
    bindE fresh_uuid (\<lambda>rid. sql (\<lambda>now d.
      if \<not> int4_ok amount then Inl data_error
      else if List.member (map cr_reservation_id (credit_reservations d)) rid then Inl unique_violation
      else if find_reservation d task_id \<noteq> None then Inl unique_violation
      else if find_command d task_id = None \<or> find_user d user_id = None
        then Inl foreign_key_violation
      else Inr ((), d\<lparr>credit_reservations := credit_reservations d @
        [\<lparr>cr_reservation_id = rid, cr_task_id = task_id, cr_user_id = user_id, cr_amount = amount,
          cr_state = RESERVED, cr_expires_at = expires_at, cr_created_at = now,
          cr_updated_at = now\<rparr>]\<rparr>)))"

definition settle_reservation :: "ReservationState \<Rightarrow> uuid \<Rightarrow> (s2db, 'k, bool) io" where
  "settle_reservation st task_id = sql (\<lambda>now d.
     let P = (\<lambda>r. cr_task_id r = task_id \<and> cr_state r = RESERVED)
     in Inr (count_rows P (credit_reservations d) = 1,
       d\<lparr>credit_reservations := update_rows P (\<lambda>r. r\<lparr>cr_state := st, cr_updated_at := now\<rparr>)
           (credit_reservations d)\<rparr>))"

definition capture_reservation :: "uuid \<Rightarrow> (s2db, 'k, bool) io" where
  "capture_reservation task_id = settle_reservation CAPTURED task_id"

definition release_reservation :: "uuid \<Rightarrow> (s2db, 'k, bool) io" where
  "release_reservation task_id = settle_reservation RELEASED task_id"

text \<open>\<open>FOR UPDATE\<close> only locks: transactions are atomic steps of the model.\<close>

definition get_credit_reservation :: "uuid \<Rightarrow> (s2db, 'k, CreditReservation option) io" where
  "get_credit_reservation task_id = sql_read (\<lambda>_ d. find_reservation d task_id)"

definition is_active_reservation :: "int \<Rightarrow> CreditReservation \<Rightarrow> bool" where
  "is_active_reservation now r \<longleftrightarrow> cr_state r = RESERVED \<and> now < cr_expires_at r"

definition count_active_reservations :: "uuid \<Rightarrow> (s2db, 'k, nat) io" where
  "count_active_reservations user_id = sql_read (\<lambda>now d.
     count_rows (\<lambda>r. cr_user_id r = user_id \<and> is_active_reservation now r) (credit_reservations d))"

definition count_total_active_reservations :: "(s2db, 'k, nat) io" where
  "count_total_active_reservations = sql_read (\<lambda>now d.
     count_rows (is_active_reservation now) (credit_reservations d))"

definition find_expired_reservations :: "int \<Rightarrow> (s2db, 'k, CreditReservation list) io" where
  "find_expired_reservations as_of = sql_read (\<lambda>_ d.
     sort_key cr_expires_at
       (filter (\<lambda>r. cr_state r = RESERVED \<and> cr_expires_at r \<le> as_of) (credit_reservations d)))"

section \<open>Outbox and inbox\<close>

definition create_outbox_event ::
  "uuid \<Rightarrow> string \<Rightarrow> string \<Rightarrow> dict \<Rightarrow> (s2db, 'k, uuid) io" where
  "create_outbox_event aggregate_id event_type routing_key payload =
    bindE fresh_uuid (\<lambda>event_id. sql (\<lambda>now d.
      if 64 < length event_type \<or> 128 < length routing_key then Inl data_error
      else if lookup_row oe_event_id event_id (outbox_events d) \<noteq> None then Inl unique_violation
      else Inr (event_id, d\<lparr>outbox_events := outbox_events d @
        [\<lparr>oe_event_id = event_id, oe_aggregate_id = aggregate_id, oe_event_type = event_type,
          oe_routing_key = routing_key, oe_payload = payload, oe_published_at = None,
          oe_created_at = now\<rparr>]\<rparr>)))"

definition list_unpublished_outbox_events :: "nat \<Rightarrow> (s2db, 'k, OutboxEvent list) io" where
  "list_unpublished_outbox_events limit = sql_read (\<lambda>_ d.
     oldest_rows (\<lambda>e. oe_published_at e = None) oe_created_at limit (outbox_events d))"

definition mark_outbox_event_published :: "uuid \<Rightarrow> (s2db, 'k, bool) io" where
  "mark_outbox_event_published event_id = sql (\<lambda>now d.
     let P = (\<lambda>e. oe_event_id e = event_id \<and> oe_published_at e = None)
     in Inr (count_rows P (outbox_events d) = 1,
       d\<lparr>outbox_events := update_rows P (\<lambda>e. e\<lparr>oe_published_at := Some now\<rparr>) (outbox_events d)\<rparr>))"

definition purge_old_outbox_events :: "int \<Rightarrow> int \<Rightarrow> (s2db, 'k, nat) io" where
  "purge_old_outbox_events older_than_seconds batch_size =
     (if older_than_seconds \<le> 0 \<or> batch_size \<le> 0 then returnM 0
      else sql (\<lambda>now d.
        let cutoff = now - seconds older_than_seconds;
            published = (\<lambda>e. case oe_published_at e of None \<Rightarrow> now | Some p \<Rightarrow> p);
            victims = oldest_rows (\<lambda>e. oe_published_at e \<noteq> None \<and> published e \<le> cutoff)
              published (nat batch_size) (outbox_events d)
        in Inr (length victims,
          d\<lparr>outbox_events := delete_rows oe_event_id (map oe_event_id victims) (outbox_events d)\<rparr>)))"

definition check_inbox_event :: "uuid \<Rightarrow> string \<Rightarrow> (s2db, 'k, bool) io" where
  "check_inbox_event event_id consumer_name = sql_read (\<lambda>_ d.
     List.member (inbox_events d) (event_id, consumer_name))"

definition record_inbox_event :: "uuid \<Rightarrow> string \<Rightarrow> (s2db, 'k, bool) io" where
  "record_inbox_event event_id consumer_name = sql (\<lambda>_ d.
     if List.member (inbox_events d) (event_id, consumer_name) then Inr (False, d)
     else Inr (True, d\<lparr>inbox_events := inbox_events d @ [(event_id, consumer_name)]\<rparr>))"

section \<open>Query view\<close>

definition upsert_task_query_view ::
  "uuid \<Rightarrow> uuid \<Rightarrow> SubscriptionTier \<Rightarrow> RequestMode \<Rightarrow> ModelClass \<Rightarrow> TaskStatus \<Rightarrow>
   dict option \<Rightarrow> string option \<Rightarrow> string option \<Rightarrow> int option \<Rightarrow> (s2db, 'k, unit) io" where
  "upsert_task_query_view task_id user_id tier mode model_class status result error queue_name
     runtime_ms = sql (\<lambda>now d.
      if (case runtime_ms of None \<Rightarrow> False | Some n \<Rightarrow> \<not> int4_ok n) then Inl data_error
      else if (case queue_name of None \<Rightarrow> False | Some q \<Rightarrow> 32 < length q) then Inl data_error
      else let new = (\<lambda>created. \<lparr>tv_task_id = task_id, tv_user_id = user_id, tv_tier = tier,
              tv_mode = mode, tv_model_class = model_class, tv_status = status, tv_result = result,
              tv_error = error, tv_queue_name = queue_name, tv_runtime_ms = runtime_ms,
              tv_created_at = created, tv_updated_at = now\<rparr>)
        in Inr ((), d\<lparr>task_query_view :=
             (if lookup_row tv_task_id task_id (task_query_view d) = None
              then task_query_view d @ [new now]
              else update_rows (\<lambda>v. tv_task_id v = task_id) (\<lambda>v. new (tv_created_at v))
                     (task_query_view d))\<rparr>))"

text \<open>\<open>_task_query_view_from_record\<close> reads a NULL result back as an empty dictionary.\<close>

definition task_query_view_from_record :: "TaskQueryView \<Rightarrow> TaskQueryView" where
  "task_query_view_from_record v =
     v\<lparr>tv_result := Some (case tv_result v of None \<Rightarrow> [] | Some d \<Rightarrow> d)\<rparr>"

definition get_task_query_view :: "uuid \<Rightarrow> (s2db, 'k, TaskQueryView option) io" where
  "get_task_query_view task_id = sql_read (\<lambda>_ d.
     map_option task_query_view_from_record (lookup_row tv_task_id task_id (task_query_view d)))"

definition bulk_expire_query_results :: "int \<Rightarrow> (s2db, 'k, nat) io" where
  "bulk_expire_query_results older_than_seconds = sql (\<lambda>now d.
     let P = (\<lambda>v. List.member TASK_TERMINAL_STATUSES (tv_status v) \<and>
                  tv_updated_at v < now - seconds older_than_seconds)
     in Inr (count_rows P (task_query_view d),
             d\<lparr>task_query_view := filter (\<lambda>v. \<not> P v) (task_query_view d)\<rparr>))"

section \<open>Webhooks and token revocations\<close>

definition upsert_webhook_subscription ::
  "uuid \<Rightarrow> string \<Rightarrow> bool \<Rightarrow> (s2db, 'k, WebhookSubscription) io" where
  "upsert_webhook_subscription user_id callback_url enabled = sql (\<lambda>now d.
     if find_user d user_id = None then Inl foreign_key_violation
     else if \<not> (1 \<le> length callback_url \<and> length callback_url \<le> 2048) then Inl check_violation
     else case lookup_row ws_user_id user_id (webhook_subscriptions d) of
         None \<Rightarrow> let row = \<lparr>ws_user_id = user_id, ws_callback_url = callback_url,
                  ws_enabled = enabled, ws_created_at = now, ws_updated_at = now\<rparr>
           in Inr (row, d\<lparr>webhook_subscriptions := webhook_subscriptions d @ [row]\<rparr>)
       | Some old \<Rightarrow> let row = old\<lparr>ws_callback_url := callback_url, ws_enabled := enabled,
                  ws_updated_at := now\<rparr>
           in Inr (row, d\<lparr>webhook_subscriptions :=
                modify_row ws_user_id user_id (\<lambda>_. row) (webhook_subscriptions d)\<rparr>))"

definition get_webhook_subscription :: "uuid \<Rightarrow> (s2db, 'k, WebhookSubscription option) io" where
  "get_webhook_subscription user_id = sql_read (\<lambda>_ d.
     lookup_row ws_user_id user_id (webhook_subscriptions d))"

definition disable_webhook_subscription :: "uuid \<Rightarrow> (s2db, 'k, WebhookSubscription option) io" where
  "disable_webhook_subscription user_id = sql (\<lambda>now d.
     let f = (\<lambda>s. s\<lparr>ws_enabled := False, ws_updated_at := now\<rparr>)
     in Inr (map_option f (lookup_row ws_user_id user_id (webhook_subscriptions d)),
       d\<lparr>webhook_subscriptions := modify_row ws_user_id user_id f (webhook_subscriptions d)\<rparr>))"

definition insert_webhook_dead_letter ::
  "uuid \<Rightarrow> uuid \<Rightarrow> dict \<Rightarrow> string \<Rightarrow> (s2db, 'k, unit) io" where
  "insert_webhook_dead_letter user_id task_id event_payload last_error = sql (\<lambda>_ d.
     if find_user d user_id = None \<or> \<not> List.member (legacy_tasks d) task_id
     then Inl foreign_key_violation
     else Inr ((), d\<lparr>webhook_dead_letters := webhook_dead_letters d @
       [\<lparr>dl_user_id = user_id, dl_task_id = task_id, dl_event_payload = event_payload,
         dl_last_error = last_error\<rparr>]\<rparr>))"

definition insert_revoked_jti :: "string \<Rightarrow> uuid \<Rightarrow> int \<Rightarrow> (s2db, 'k, unit) io" where
  "insert_revoked_jti jti user_id expires_at = sql (\<lambda>now d.
     if find_user d user_id = None then Inl foreign_key_violation
     else if list_ex (\<lambda>t. rt_jti t = jti \<and> rt_revoked_at t = now) (token_revocations d)
       then Inl unique_violation
     else Inr ((), d\<lparr>token_revocations := token_revocations d @
       [\<lparr>rt_jti = jti, rt_user_id = user_id, rt_revoked_at = now, rt_expires_at = expires_at\<rparr>]\<rparr>))"

text \<open>\<open>sha256\<close> is the hex digest of the library.\<close>

definition is_active_api_key_hash :: "(string \<Rightarrow> string) \<Rightarrow> string \<Rightarrow> (s2db, 'k, bool) io" where
  "is_active_api_key_hash sha256 api_key = sql_read (\<lambda>_ d.
     list_ex (\<lambda>k. fst k = sha256 api_key \<and> snd k) (api_keys d))"

definition load_active_revoked_jtis :: "int \<Rightarrow> (s2db, 'k, (string \<times> uuid \<times> string) list) io" where
  "load_active_revoked_jtis since = sql_read (\<lambda>now d.
     map (\<lambda>t. (rt_jti t, rt_user_id t, iso_day (rt_revoked_at t)))
       (rev (sort_key rt_revoked_at
         (filter (\<lambda>t. since \<le> rt_revoked_at t \<and> now < rt_expires_at t) (token_revocations d)))))"

definition is_jti_revoked :: "string \<Rightarrow> (s2db, 'k, bool) io" where
  "is_jti_revoked jti = sql_read (\<lambda>now d.
     list_ex (\<lambda>t. rt_jti t = jti \<and> now < rt_expires_at t) (token_revocations d))"

end
