(* ===== verification/Ledger.thy ===== *)
theory Ledger
  imports Main
begin

text \<open>
  What every solution of the repository promises about money, as an interface.  A metered ledger
  has, per account, the credits that can still be spent, the credits held for tasks in flight and
  the credits charged for finished tasks; a step of the program moves credits between the three
  and neither creates nor destroys any.  The lemmas draw the consequences for whole runs; each
  solution's model interprets the locale on its own state and its own step relation.
\<close>

locale metered_ledger =
  fixes inv :: "'s \<Rightarrow> bool"
    and step :: "'s \<Rightarrow> 's \<Rightarrow> bool"
    and spendable :: "'s \<Rightarrow> 'u \<Rightarrow> int"
    and held :: "'s \<Rightarrow> 'u \<Rightarrow> int"
    and charged :: "'s \<Rightarrow> 'u \<Rightarrow> int"
  assumes step_inv: "inv s \<Longrightarrow> step s t \<Longrightarrow> inv t"
    and step_worth: "inv s \<Longrightarrow> step s t \<Longrightarrow>
      spendable t u + held t u + charged t u = spendable s u + held s u + charged s u"
    and spendable_nonneg: "inv s \<Longrightarrow> 0 \<le> spendable s u"
    and held_nonneg: "inv s \<Longrightarrow> 0 \<le> held s u"
    and charged_mono: "inv s \<Longrightarrow> step s t \<Longrightarrow> charged s u \<le> charged t u"
begin

lemma run_inv: "step\<^sup>*\<^sup>* s t \<Longrightarrow> inv s \<Longrightarrow> inv t"
  by (induction rule: rtranclp_induct) (auto intro: step_inv)

lemma run_worth: "step\<^sup>*\<^sup>* s t \<Longrightarrow> inv s \<Longrightarrow>
    spendable t u + held t u + charged t u = spendable s u + held s u + charged s u"
proof (induction rule: rtranclp_induct)
  case (step t t')
  then have "inv t" by (blast intro: run_inv)
  with step show ?case using step_worth [of t t' u] by auto
qed simp

lemma run_charged: "step\<^sup>*\<^sup>* s t \<Longrightarrow> inv s \<Longrightarrow> charged s u \<le> charged t u"
proof (induction rule: rtranclp_induct)
  case (step t t')
  then have "inv t" by (blast intro: run_inv)
  with step show ?case using charged_mono [of t t' u] by auto
qed simp

text \<open>An account is never charged more than it had, and what it spends it is charged or holds.\<close>

lemma run_no_overcharge:
  assumes "step\<^sup>*\<^sup>* s t" "inv s"
  shows "charged t u - charged s u \<le> spendable s u + held s u"
  using run_worth [OF assms] spendable_nonneg held_nonneg run_inv [OF assms] by (smt (verit))

lemma run_spent:
  assumes "step\<^sup>*\<^sup>* s t" "inv s"
  shows "spendable s u - spendable t u = (held t u - held s u) + (charged t u - charged s u)"
  using run_worth [OF assms] by (smt (verit))

end

text \<open>
  An operator may also adjust an account from outside.  \<open>ledger_run step adjust l\<close> is a run in which the
  adjustments \<open>l\<close> were made, in this order, between the steps of the program.
\<close>

inductive ledger_run :: "('s \<Rightarrow> 's \<Rightarrow> bool) \<Rightarrow> ('u \<Rightarrow> int \<Rightarrow> 's \<Rightarrow> 's \<Rightarrow> bool) \<Rightarrow> ('u \<times> int) list \<Rightarrow> 's \<Rightarrow> 's \<Rightarrow> bool"
  for step adjust where
  start: "ledger_run step adjust [] s s"
| step: "ledger_run step adjust l s t \<Longrightarrow> step t t' \<Longrightarrow> ledger_run step adjust l s t'"
| adjust: "ledger_run step adjust l s t \<Longrightarrow> adjust u n t t' \<Longrightarrow> ledger_run step adjust (l @ [(u, n)]) s t'"

definition adjustments :: "'u \<Rightarrow> ('u \<times> int) list \<Rightarrow> int" where
  "adjustments u l = (\<Sum>(v, n)\<leftarrow>l. if v = u then n else 0)"

lemma adjustments_simps [simp]:
  "adjustments u [] = 0" "adjustments u (l @ [(v, n)]) = adjustments u l + (if v = u then n else 0)"
  by (simp_all add: adjustments_def)

lemma ledger_run_steps: "step\<^sup>*\<^sup>* s t \<Longrightarrow> ledger_run step adjust [] s t"
  by (induction rule: rtranclp_induct) (auto intro: ledger_run.intros)

lemma ledger_run_trans:
  "ledger_run step adjust l' t t' \<Longrightarrow> ledger_run step adjust l s t \<Longrightarrow> ledger_run step adjust (l @ l') s t'"
  by (induction rule: ledger_run.induct) (auto intro: ledger_run.intros simp flip: append_assoc)

locale adjustable_ledger = metered_ledger +
  fixes adjust :: "'u \<Rightarrow> int \<Rightarrow> 's \<Rightarrow> 's \<Rightarrow> bool"
  assumes adjust_inv: "inv s \<Longrightarrow> adjust u n s t \<Longrightarrow> inv t"
    and adjust_spendable: "inv s \<Longrightarrow> adjust u n s t \<Longrightarrow> spendable t v = spendable s v + (if v = u then n else 0)"
    and adjust_held: "inv s \<Longrightarrow> adjust u n s t \<Longrightarrow> held t v = held s v"
    and adjust_charged: "inv s \<Longrightarrow> adjust u n s t \<Longrightarrow> charged t v = charged s v"
begin

lemma ledger_run_account:
  "ledger_run step adjust l s t \<Longrightarrow> inv s \<Longrightarrow> inv t \<and> charged s u \<le> charged t u \<and>
    spendable t u + held t u + charged t u = spendable s u + held s u + charged s u + adjustments u l"
proof (induction rule: ledger_run.induct)
  case (step l s t t')
  then have t: "inv t" by simp
  with step show ?case using step_inv [OF t step.hyps(2)] step_worth [OF t step.hyps(2), of u]
      charged_mono [OF t step.hyps(2), of u] by auto
next
  case (adjust l s t v n t')
  then have t: "inv t" by simp
  with adjust show ?case using adjust_inv [OF t adjust.hyps(2)] adjust_spendable [OF t adjust.hyps(2), of u]
      adjust_held [OF t adjust.hyps(2), of u] adjust_charged [OF t adjust.hyps(2), of u] by auto
qed simp

text \<open>What an account is charged never exceeds what it started with and what it was given.\<close>

lemma ledger_run_no_overcharge:
  assumes "ledger_run step adjust l s t" "inv s"
  shows "charged t u - charged s u \<le> spendable s u + held s u + adjustments u l"
  using ledger_run_account [OF assms, of u] spendable_nonneg [of t u] held_nonneg [of t u] by auto

end

text \<open>
  The second interface: a consumer of an at-least-once queue.  A message carries an identifier, the
  state remembers which identifiers were handled, and handling has its effect only together with
  remembering.  The client lemma is exactly-once in the only form such a queue allows: whatever is
  redelivered and whatever fails, the effect of one identifier happens at most once.
\<close>

primrec effect_count :: "('m \<Rightarrow> 's \<Rightarrow> 's) \<Rightarrow> ('s \<Rightarrow> 's \<Rightarrow> bool) \<Rightarrow> ('m \<Rightarrow> 'i) \<Rightarrow> 'i \<Rightarrow> 'm list \<Rightarrow> 's \<Rightarrow> nat" where
  "effect_count handle effect ident i [] s = 0"
| "effect_count handle effect ident i (m # ms) s =
     (if ident m = i \<and> effect s (handle m s) then 1 else 0) +
     effect_count handle effect ident i ms (handle m s)"

locale deduplicated =
  fixes inv :: "'s \<Rightarrow> bool"
    and handle :: "'m \<Rightarrow> 's \<Rightarrow> 's"
    and effect :: "'s \<Rightarrow> 's \<Rightarrow> bool"
    and ident :: "'m \<Rightarrow> 'i"
    and seen :: "'s \<Rightarrow> 'i \<Rightarrow> bool"
  assumes handle_inv: "inv s \<Longrightarrow> inv (handle m s)"
    and handle_seen: "inv s \<Longrightarrow> seen s i \<Longrightarrow> seen (handle m s) i"
    and effect_new: "inv s \<Longrightarrow> effect s (handle m s) \<Longrightarrow> \<not> seen s (ident m)"
    and effect_seen: "inv s \<Longrightarrow> effect s (handle m s) \<Longrightarrow> seen (handle m s) (ident m)"
begin

lemma seen_no_effect: "inv s \<Longrightarrow> seen s i \<Longrightarrow> effect_count handle effect ident i ms s = 0"
proof (induction ms arbitrary: s)
  case (Cons m ms)
  then have "effect_count handle effect ident i ms (handle m s) = 0"
    using handle_inv handle_seen by blast
  moreover have "ident m = i \<Longrightarrow> \<not> effect s (handle m s)"
    using Cons.prems effect_new [of s m] by auto
  ultimately show ?case by auto
qed simp

lemma effect_at_most_once: "inv s \<Longrightarrow> effect_count handle effect ident i ms s \<le> 1"
proof (induction ms arbitrary: s)
  case (Cons m ms)
  show ?case
  proof (cases "ident m = i \<and> effect s (handle m s)")
    case True
    then have "seen (handle m s) i" using Cons.prems effect_seen [of s m] by auto
    then have "effect_count handle effect ident i ms (handle m s) = 0"
      by (rule seen_no_effect [OF handle_inv [OF Cons.prems]])
    with True show ?thesis by simp
  next
    case False
    then show ?thesis using Cons.IH [OF handle_inv [OF Cons.prems]] by auto
  qed
qed simp

end

end
