(* ===== verification/S2_Ledger.thy ===== *)
theory S2_Ledger
  imports S2_Store Ledger
begin

text \<open>
  The ledger that Solution 2 spreads over three tables.  A reservation is determined by its task's
  command row: same owner, same amount, and a state that is a function of the command's status.
  That gluing condition, together with unique keys and non-negative credits, is \<open>ledger_ok\<close>; the
  lemmas say which changes of the three tables keep it and what they do to the credits an account
  can spend, has held in reservations, and was charged.
\<close>

section \<open>The invariant\<close>

fun reservation_state_of :: "TaskStatus \<Rightarrow> ReservationState" where
  "reservation_state_of PENDING = RESERVED"
| "reservation_state_of RUNNING = RESERVED"
| "reservation_state_of COMPLETED = CAPTURED"
| "reservation_state_of _ = RELEASED"

definition task_active :: "TaskStatus \<Rightarrow> bool" where
  "task_active s \<longleftrightarrow> s = PENDING \<or> s = RUNNING"

lemma reservation_state_of_RESERVED: "reservation_state_of s = RESERVED \<longleftrightarrow> task_active s"
  by (cases s) (simp_all add: task_active_def)

definition reserved_as :: "CreditReservation \<Rightarrow> uuid \<times> int \<times> ReservationState" where
  "reserved_as r = (cr_user_id r, cr_amount r, cr_state r)"

definition commanded_as :: "TaskCommand \<Rightarrow> uuid \<times> int \<times> ReservationState" where
  "commanded_as c = (tc_user_id c, tc_cost c, reservation_state_of (tc_status c))"

lemma reserved_commanded: "reserved_as r = commanded_as c \<longleftrightarrow> cr_user_id r = tc_user_id c \<and>
    cr_amount r = tc_cost c \<and> cr_state r = reservation_state_of (tc_status c)"
  by (simp add: reserved_as_def commanded_as_def)

definition ledger_ok :: "UserRow list \<Rightarrow> TaskCommand list \<Rightarrow> CreditReservation list \<Rightarrow> bool" where
  "ledger_ok us cs rs \<longleftrightarrow>
     keyed us_user_id us \<and> keyed tc_task_id cs \<and> keyed cr_task_id rs \<and>
     (\<forall>u\<in>set us. 0 \<le> us_credits u) \<and>
     (\<forall>r\<in>set rs. 0 \<le> cr_amount r \<and> lookup_row us_user_id (cr_user_id r) us \<noteq> None) \<and>
     (\<forall>t. map_option reserved_as (lookup_row cr_task_id t rs) =
          map_option commanded_as (lookup_row tc_task_id t cs))"

definition idempotency_pair :: "TaskCommand \<Rightarrow> uuid \<times> string option" where
  "idempotency_pair c = (tc_user_id c, tc_idempotency_key c)"

definition idempotency_ok :: "TaskCommand list \<Rightarrow> bool" where
  "idempotency_ok cs \<longleftrightarrow> keyed idempotency_pair (filter (\<lambda>c. tc_idempotency_key c \<noteq> None) cs)"

definition s2_inv :: "s2db \<Rightarrow> bool" where
  "s2_inv d \<longleftrightarrow> ledger_ok (users d) (task_commands d) (credit_reservations d) \<and>
     idempotency_ok (task_commands d) \<and> keyed oe_event_id (outbox_events d) \<and>
     distinct (inbox_events d)"

section \<open>What an account can spend, holds and was charged\<close>

definition spendable :: "s2db \<Rightarrow> uuid \<Rightarrow> int" where
  "spendable d u = (case find_user d u of None \<Rightarrow> 0 | Some r \<Rightarrow> us_credits r)"

definition sum_in :: "ReservationState \<Rightarrow> uuid \<Rightarrow> CreditReservation list \<Rightarrow> int" where
  "sum_in st u rs = sum_rows (\<lambda>r. if cr_user_id r = u \<and> cr_state r = st then cr_amount r else 0) rs"

definition held :: "s2db \<Rightarrow> uuid \<Rightarrow> int" where
  "held d u = sum_in RESERVED u (credit_reservations d)"

definition charged :: "s2db \<Rightarrow> uuid \<Rightarrow> int" where
  "charged d u = sum_in CAPTURED u (credit_reservations d)"

definition worth :: "s2db \<Rightarrow> uuid \<Rightarrow> int" where
  "worth d u = spendable d u + held d u + charged d u"

section \<open>The abstract book\<close>

text \<open>
  What the three tables are meant to be together: a balance per account and, per task, its owner,
  its price and its status.  The operations of the book are the specification the transactions
  are proved to implement.
\<close>

type_synonym book = "(uuid \<Rightarrow> int) \<times> (uuid \<Rightarrow> (uuid \<times> int \<times> TaskStatus) option)"

definition task_state :: "s2db \<Rightarrow> uuid \<Rightarrow> (uuid \<times> int \<times> TaskStatus) option" where
  "task_state d t = map_option (\<lambda>c. (tc_user_id c, tc_cost c, tc_status c)) (find_command d t)"

definition book_of :: "s2db \<Rightarrow> book" where
  "book_of d = (spendable d, task_state d)"

definition book_admit :: "uuid \<Rightarrow> uuid \<Rightarrow> int \<Rightarrow> book \<Rightarrow> book" where
  "book_admit u t n b = ((fst b)(u := fst b u - n), (snd b)(t := Some (u, n, PENDING)))"

definition book_settle :: "TaskStatus \<Rightarrow> uuid \<Rightarrow> book \<Rightarrow> book" where
  "book_settle st t b = (case snd b t of
      None \<Rightarrow> b
    | Some (u, n, s) \<Rightarrow> (if st = COMPLETED then fst b else (fst b)(u := fst b u + n),
        (snd b)(t := Some (u, n, st))))"

definition book_start :: "uuid \<Rightarrow> book \<Rightarrow> book" where
  "book_start t b = (case snd b t of
      None \<Rightarrow> b
    | Some (u, n, s) \<Rightarrow> (fst b, (snd b)(t := Some (u, n, RUNNING))))"

lemma task_state_None [simp]: "task_state d t = None \<longleftrightarrow> find_command d t = None"
  by (simp add: task_state_def)

section \<open>Changes that keep the ledger\<close>

lemma ledger_okD:
  assumes "ledger_ok us cs rs"
  shows "keyed us_user_id us" "keyed tc_task_id cs" "keyed cr_task_id rs"
    "u \<in> set us \<Longrightarrow> 0 \<le> us_credits u"
    "r \<in> set rs \<Longrightarrow> 0 \<le> cr_amount r"
    "r \<in> set rs \<Longrightarrow> lookup_row us_user_id (cr_user_id r) us \<noteq> None"
    "map_option reserved_as (lookup_row cr_task_id t rs) =
     map_option commanded_as (lookup_row tc_task_id t cs)"
  using assms by (simp_all add: ledger_ok_def)

lemma ledger_task:
  assumes "ledger_ok us cs rs" "lookup_row tc_task_id t cs = Some c"
  obtains r where "lookup_row cr_task_id t rs = Some r" "cr_user_id r = tc_user_id c"
    "cr_amount r = tc_cost c" "cr_state r = reservation_state_of (tc_status c)"
proof -
  have "\<exists>r. lookup_row cr_task_id t rs = Some r \<and> reserved_as r = commanded_as c"
    using map_option_match [OF ledger_okD(7) [OF assms(1), of t, symmetric] assms(2)] by metis
  then obtain r where "lookup_row cr_task_id t rs = Some r" "reserved_as r = commanded_as c" by blast
  then show thesis using that unfolding reserved_commanded by blast
qed

lemma ledger_reservation:
  assumes "ledger_ok us cs rs" "lookup_row cr_task_id t rs = Some r"
  obtains c u where "lookup_row tc_task_id t cs = Some c" "cr_user_id r = tc_user_id c"
    "cr_amount r = tc_cost c" "cr_state r = reservation_state_of (tc_status c)"
    "lookup_row us_user_id (cr_user_id r) us = Some u" "0 \<le> cr_amount r"
proof -
  have r: "r \<in> set rs" using lookup_row_Some [OF assms(2)] by simp
  have "\<exists>c. lookup_row tc_task_id t cs = Some c \<and> reserved_as r = commanded_as c"
    using map_option_match [OF ledger_okD(7) [OF assms(1), of t] assms(2)] .
  then obtain c where "lookup_row tc_task_id t cs = Some c" "reserved_as r = commanded_as c" by blast
  moreover obtain u where "lookup_row us_user_id (cr_user_id r) us = Some u"
    using ledger_okD(6) [OF assms(1) r] by blast
  ultimately show thesis
    using ledger_okD(5) [OF assms(1) r]
      that unfolding reserved_commanded by blast
qed

lemma lookup_user_credits:
  "lookup_row us_user_id x (update_rows (\<lambda>u. us_user_id u = y) (\<lambda>u. u\<lparr>us_credits := n\<rparr>) us) =
    (if x = y then map_option (\<lambda>u. u\<lparr>us_credits := n\<rparr>) (lookup_row us_user_id x us)
     else lookup_row us_user_id x us)"
  by (rule lookup_row_update_key) simp

lemma ledger_ok_credits:
  assumes "ledger_ok us cs rs" "0 \<le> n"
  shows "ledger_ok (update_rows (\<lambda>u. us_user_id u = x) (\<lambda>u. u\<lparr>us_credits := n\<rparr>) us) cs rs"
proof -
  have "\<forall>u\<in>set (update_rows (\<lambda>u. us_user_id u = x) (\<lambda>u. u\<lparr>us_credits := n\<rparr>) us). 0 \<le> us_credits u"
    using assms by (auto simp: ledger_ok_def update_rows_def)
  moreover have "lookup_row us_user_id y
      (update_rows (\<lambda>u. us_user_id u = x) (\<lambda>u. u\<lparr>us_credits := n\<rparr>) us) = None \<longleftrightarrow>
      lookup_row us_user_id y us = None" for y
    by (simp add: lookup_user_credits)
  ultimately show ?thesis using assms(1) by (simp only: ledger_ok_def) simp
qed

lemma ledger_ok_admit:
  assumes ok: "ledger_ok us cs rs"
    and new: "lookup_row tc_task_id (tc_task_id c) cs = None"
    and match: "cr_task_id r = tc_task_id c" "reserved_as r = commanded_as c"
    and valid: "0 \<le> cr_amount r" "lookup_row us_user_id (cr_user_id r) us \<noteq> None"
  shows "ledger_ok us (cs @ [c]) (rs @ [r])"
proof -
  have "lookup_row cr_task_id (cr_task_id r) rs = None"
    using ledger_okD(7) [OF ok, of "tc_task_id c"] new match(1) by simp
  moreover have "map_option reserved_as (lookup_row cr_task_id t (rs @ [r])) =
      map_option commanded_as (lookup_row tc_task_id t (cs @ [c]))" for t
    using ledger_okD(7) [OF ok, of t] match
    by (cases "lookup_row cr_task_id t rs"; cases "lookup_row tc_task_id t cs")
      (simp_all add: lookup_row_append)
  moreover have "\<forall>q\<in>set (rs @ [r]). 0 \<le> cr_amount q \<and> lookup_row us_user_id (cr_user_id q) us \<noteq> None"
    using ok valid by (auto simp: ledger_ok_def)
  ultimately show ?thesis
    using ok new by (simp add: ledger_ok_def keyed_append)
qed

lemma ledger_ok_start:
  assumes ok: "ledger_ok us cs rs"
    and same: "\<And>s. allowed s \<Longrightarrow> reservation_state_of s = reservation_state_of st"
  shows "ledger_ok us (update_rows (\<lambda>c. tc_task_id c = t \<and> allowed (tc_status c))
      (\<lambda>c. c\<lparr>tc_status := st, tc_updated_at := now\<rparr>) cs) rs"
proof -
  have "map_option commanded_as (lookup_row tc_task_id x
      (update_rows (\<lambda>c. tc_task_id c = t \<and> allowed (tc_status c))
        (\<lambda>c. c\<lparr>tc_status := st, tc_updated_at := now\<rparr>) cs)) =
    map_option commanded_as (lookup_row tc_task_id x cs)" for x
  proof (cases "x = t")
    case True
    then show ?thesis using same
      by (cases "lookup_row tc_task_id t cs") (simp_all add: lookup_row_update commanded_as_def)
  qed (simp add: lookup_row_update)
  with ok show ?thesis by (simp add: ledger_ok_def)
qed

text \<open>Settling a task: its command and its reservation move together.\<close>

lemma ledger_ok_settle:
  assumes ok: "ledger_ok us cs rs"
    and active: "lookup_row tc_task_id t cs = Some c" "task_active (tc_status c)"
    and allowed: "allowed (tc_status c)"
  shows "ledger_ok us
    (update_rows (\<lambda>c. tc_task_id c = t \<and> allowed (tc_status c))
      (\<lambda>c. c\<lparr>tc_status := st, tc_updated_at := now\<rparr>) cs)
    (update_rows (\<lambda>r. cr_task_id r = t \<and> cr_state r = RESERVED)
      (\<lambda>r. r\<lparr>cr_state := reservation_state_of st, cr_updated_at := now'\<rparr>) rs)"
    (is "ledger_ok us ?cs ?rs")
proof -
  obtain r where r: "lookup_row cr_task_id t rs = Some r" "cr_state r = RESERVED"
    "cr_user_id r = tc_user_id c" "cr_amount r = tc_cost c"
    using ledger_task [OF ok active(1)] active(2) reservation_state_of_RESERVED by metis
  have glue: "map_option reserved_as (lookup_row cr_task_id x ?rs) =
      map_option commanded_as (lookup_row tc_task_id x ?cs)" for x
    using ledger_okD(7) [OF ok, of x] r active allowed
    by (auto simp: lookup_row_update reserved_as_def commanded_as_def)
  have "\<forall>r\<in>set ?rs. 0 \<le> cr_amount r \<and> lookup_row us_user_id (cr_user_id r) us \<noteq> None"
    using ok by (auto simp: ledger_ok_def update_rows_def)
  with glue ok show ?thesis by (simp add: ledger_ok_def)
qed

section \<open>Their effect on the sums\<close>

lemma sum_in_append:
  "sum_in st u (rs @ [r]) =
    sum_in st u rs + (if cr_user_id r = u \<and> cr_state r = st then cr_amount r else 0)"
  by (simp add: sum_in_def)

lemma sum_in_settle:
  assumes "keyed cr_task_id rs" "lookup_row cr_task_id t rs = Some r" "cr_state r = RESERVED"
    "st' \<noteq> RESERVED"
  shows "sum_in st u (update_rows (\<lambda>r. cr_task_id r = t \<and> cr_state r = RESERVED)
      (\<lambda>r. r\<lparr>cr_state := st', cr_updated_at := now\<rparr>) rs) =
    sum_in st u rs + (if cr_user_id r \<noteq> u then 0
      else if st = RESERVED then - cr_amount r
      else if st = st' then cr_amount r else 0)"
  unfolding sum_in_def
  using assms(3,4) by (subst sum_rows_update [OF assms(1,2)]) auto

lemma sum_in_nonneg: "ledger_ok us cs rs \<Longrightarrow> 0 \<le> sum_in st u rs"
  unfolding sum_in_def by (rule sum_rows_nonneg) (simp add: ledger_okD(5))

lemma spendable_nonneg: "s2_inv d \<Longrightarrow> 0 \<le> spendable d u"
  unfolding s2_inv_def spendable_def find_user_def
  by (auto split: option.split dest!: lookup_row_Some dest: ledger_okD(4))

lemma held_nonneg: "s2_inv d \<Longrightarrow> 0 \<le> held d u"
  unfolding s2_inv_def held_def by (auto intro: sum_in_nonneg)

lemma charged_nonneg: "s2_inv d \<Longrightarrow> 0 \<le> charged d u"
  unfolding s2_inv_def charged_def by (auto intro: sum_in_nonneg)

lemma spendable_set_credits:
  "find_user d x = Some r \<Longrightarrow> spendable (set_credits x n d) u = (if u = x then n else spendable d u)"
  by (simp add: spendable_def find_user_def set_credits_def lookup_user_credits)


lemma reserved_within_worth:
  assumes inv: "s2_inv d" and r: "find_reservation d t = Some r" "cr_state r = RESERVED"
  shows "0 \<le> cr_amount r" and "spendable d (cr_user_id r) + cr_amount r \<le> worth d (cr_user_id r)"
proof -
  have ok: "ledger_ok (users d) (task_commands d) (credit_reservations d)" using inv by (simp add: s2_inv_def)
  have row: "r \<in> set (credit_reservations d)" using lookup_row_Some [OF r(1) [unfolded find_reservation_def]] by simp
  then show "0 \<le> cr_amount r" by (rule ledger_okD(5) [OF ok])
  have "cr_amount r \<le> held d (cr_user_id r)"
    using sum_rows_member [where g = "\<lambda>q. if cr_user_id q = cr_user_id r \<and> cr_state q = RESERVED then cr_amount q else 0",
        OF _ row] r(2) ledger_okD(5) [OF ok]
    by (auto simp: held_def sum_in_def)
  moreover have "0 \<le> charged d (cr_user_id r)" by (rule charged_nonneg [OF inv])
  ultimately show "spendable d (cr_user_id r) + cr_amount r \<le> worth d (cr_user_id r)" by (simp add: worth_def)
qed

end
