(* ===== verification/S2_Statements.thy ===== *)
theory S2_Statements
  imports S2_Ledger
begin

text \<open>
  What a successful run of each statement of \<open>db/repository.py\<close> means for the database, as
  elimination rules, and which transfers of credits the groups of statements that the
  transactions share amount to: reserving, placing a task with its reservation, capturing,
  refunding.  \<open>conserves d d'\<close> is the contract every transaction is proved against.
\<close>

named_theorems stmt_elims

section \<open>Statements that ran\<close>

lemma lock_user_okE [stmt_elims]:
  assumes "lock_user_for_admission u w = (Inr b, w')"
  obtains "b = (find_user (pg w) u \<noteq> None)" "pg w' = pg w" "clock w' = clock w"
  using assms unfolding lock_user_for_admission_def by (elim sql_read_okE) auto

lemma get_task_command_okE [stmt_elims]:
  assumes "get_task_command t w = (Inr x, w')"
  obtains "x = find_command (pg w) t" "pg w' = pg w" "clock w' = clock w"
  using assms unfolding get_task_command_def by (elim sql_read_okE) auto

lemma get_by_idempotency_okE [stmt_elims]:
  assumes "get_task_command_by_idempotency u k w = (Inr x, w')"
  obtains "x = find_by_idempotency (pg w) u k" "pg w' = pg w" "clock w' = clock w"
  using assms unfolding get_task_command_by_idempotency_def by (elim sql_read_okE) auto

lemma get_credit_reservation_okE [stmt_elims]:
  assumes "get_credit_reservation t w = (Inr x, w')"
  obtains "x = find_reservation (pg w) t" "pg w' = pg w" "clock w' = clock w"
  using assms unfolding get_credit_reservation_def by (elim sql_read_okE) auto

definition active_of :: "int \<Rightarrow> uuid \<Rightarrow> s2db \<Rightarrow> nat" where
  "active_of now u d =
     count_rows (\<lambda>r. cr_user_id r = u \<and> is_active_reservation now r) (credit_reservations d)"

lemma count_active_okE [stmt_elims]:
  assumes "count_active_reservations u w = (Inr n, w')"
  obtains "n = active_of (clock w) u (pg w)" "pg w' = pg w" "clock w' = clock w"
  using assms unfolding count_active_reservations_def active_of_def by (elim sql_read_okE) auto

lemma reserve_credits_okE [stmt_elims]:
  assumes "reserve_user_credits u n w = (Inr x, w')"
  obtains "x = None" "pg w' = pg w" "clock w' = clock w"
    | r where "find_user (pg w) u = Some r" "n \<le> us_credits r" "x = Some (us_credits r - n)"
      "pg w' = set_credits u (us_credits r - n) (pg w)" "clock w' = clock w"
  using assms unfolding reserve_user_credits_def
  by (elim sql_okE) (auto split: if_splits option.splits)

lemma add_credits_okE [stmt_elims]:
  assumes "add_user_credits u n w = (Inr x, w')"
  obtains "x = None" "pg w' = pg w" "clock w' = clock w"
    | r where "find_user (pg w) u = Some r" "0 \<le> us_credits r + n" "x = Some (us_credits r + n)"
      "pg w' = set_credits u (us_credits r + n) (pg w)" "clock w' = clock w"
  using assms unfolding add_user_credits_def
  by (elim sql_okE) (auto split: if_splits option.splits)

lemma insert_transaction_okE [stmt_elims]:
  assumes "insert_credit_transaction u t n s w = (Inr x, w')"
  obtains row where "pg w' = (pg w)\<lparr>credit_transactions := credit_transactions (pg w) @ [row]\<rparr>"
    "ct_user_id row = u" "ct_task_id row = t" "ct_delta row = n" "ct_reason row = s"
    "clock w' = clock w"
  using assms unfolding insert_credit_transaction_def
  by (elim sql_okE) (auto split: if_splits intro!: that [of "last (credit_transactions (pg w'))"])

lemma create_command_okE [stmt_elims]:
  assumes "create_task_command t u tier mode mc x y cost cb k w = (Inr v, w')"
  obtains "pg w' = (pg w)\<lparr>task_commands := task_commands (pg w) @
      [\<lparr>tc_task_id = t, tc_user_id = u, tc_tier = tier, tc_mode = mode, tc_model_class = mc,
        tc_status = PENDING, tc_x = x, tc_y = y, tc_cost = cost, tc_callback_url = cb,
        tc_idempotency_key = k, tc_created_at = clock w, tc_updated_at = clock w\<rparr>]\<rparr>"
    "find_command (pg w) t = None"
    "\<And>i. k = Some i \<Longrightarrow> find_by_idempotency (pg w) u i = None" "clock w' = clock w"
  using assms unfolding create_task_command_def
  by (elim sql_okE) (auto simp: DEFAULT_TASK_STATUS_def split: if_splits option.splits)

lemma create_reservation_okE [stmt_elims]:
  assumes "create_reservation t u n e w = (Inr v, w')"
  obtains rid where "pg w' = (pg w)\<lparr>credit_reservations := credit_reservations (pg w) @
      [\<lparr>cr_reservation_id = rid, cr_task_id = t, cr_user_id = u, cr_amount = n, cr_state = RESERVED,
        cr_expires_at = e, cr_created_at = clock w, cr_updated_at = clock w\<rparr>]\<rparr>"
    "find_user (pg w) u \<noteq> None" "clock w' = clock w"
  using assms unfolding create_reservation_def
  by (elim bindE_okE fresh_uuid_okE sql_okE) (auto split: if_splits)

lemma set_status_okE [stmt_elims]:
  assumes "set_status_where allowed st t w = (Inr b, w')"
  obtains "b = (count_rows (\<lambda>c. tc_task_id c = t \<and> allowed (tc_status c)) (task_commands (pg w)) = 1)"
    "pg w' = (pg w)\<lparr>task_commands := update_rows (\<lambda>c. tc_task_id c = t \<and> allowed (tc_status c))
       (\<lambda>c. c\<lparr>tc_status := st, tc_updated_at := clock w\<rparr>) (task_commands (pg w))\<rparr>"
    "clock w' = clock w"
  using assms unfolding set_status_where_def by (elim sql_okE) (auto simp: Let_def)

lemma settle_okE [stmt_elims]:
  assumes "settle_reservation st t w = (Inr b, w')"
  obtains "b = (count_rows (\<lambda>r. cr_task_id r = t \<and> cr_state r = RESERVED)
      (credit_reservations (pg w)) = 1)"
    "pg w' = (pg w)\<lparr>credit_reservations := update_rows (\<lambda>r. cr_task_id r = t \<and> cr_state r = RESERVED)
       (\<lambda>r. r\<lparr>cr_state := st, cr_updated_at := clock w\<rparr>) (credit_reservations (pg w))\<rparr>"
    "clock w' = clock w"
  using assms unfolding settle_reservation_def by (elim sql_okE) (auto simp: Let_def)

lemma create_outbox_okE [stmt_elims]:
  assumes "create_outbox_event agg ty rk p w = (Inr i, w')"
  obtains e where "pg w' = (pg w)\<lparr>outbox_events := outbox_events (pg w) @ [e]\<rparr>"
    "lookup_row oe_event_id (oe_event_id e) (outbox_events (pg w)) = None"
    "oe_event_id e = i" "oe_aggregate_id e = agg" "oe_event_type e = ty" "oe_routing_key e = rk"
    "oe_payload e = p" "oe_published_at e = None" "clock w' = clock w"
  using assms unfolding create_outbox_event_def
  by (elim bindE_okE fresh_uuid_okE sql_okE)
    (auto split: if_splits intro!: that [of "last (outbox_events (pg w'))"])

lemma record_inbox_okE [stmt_elims]:
  assumes "record_inbox_event e c w = (Inr b, w')"
  obtains "b = False" "(e, c) \<in> set (inbox_events (pg w))" "pg w' = pg w" "clock w' = clock w"
    | "b = True" "(e, c) \<notin> set (inbox_events (pg w))"
      "pg w' = (pg w)\<lparr>inbox_events := inbox_events (pg w) @ [(e, c)]\<rparr>" "clock w' = clock w"
  using assms unfolding record_inbox_event_def
  by (elim sql_okE) (auto split: if_splits)

lemma upsert_view_okE [stmt_elims]:
  assumes "upsert_task_query_view t u tier mode mc st res err q ms w = (Inr v, w')"
  obtains vs where "pg w' = (pg w)\<lparr>task_query_view := vs\<rparr>" "clock w' = clock w"
  using assms unfolding upsert_task_query_view_def
  by (elim sql_okE)
    (auto simp: Let_def split: if_splits intro!: that [of "task_query_view (pg w')"])

lemmas status_statements = update_task_command_running_def update_task_command_completed_def
  update_task_command_failed_def update_task_command_timed_out_def
  update_task_command_cancelled_def update_task_command_status_def

lemmas settle_statements = capture_reservation_def release_reservation_def

section \<open>Transfers\<close>

lemma worth_same:
  assumes "users d' = users d" "credit_reservations d' = credit_reservations d"
  shows "worth d' u = worth d u" "charged d' u = charged d u" "held d' u = held d u"
    "spendable d' u = spendable d u"
  using assms by (simp_all add: worth_def spendable_def find_user_def held_def charged_def)

definition conserves :: "s2db \<Rightarrow> s2db \<Rightarrow> bool" where
  "conserves d d' \<longleftrightarrow> s2_inv d' \<and> (\<forall>u. worth d' u = worth d u \<and> charged d u \<le> charged d' u)"

lemma conserves_refl: "s2_inv d \<Longrightarrow> conserves d d"
  by (simp add: conserves_def)

lemma conserves_trans: "conserves d d' \<Longrightarrow> conserves d' d'' \<Longrightarrow> conserves d d''"
  unfolding conserves_def by (metis order_trans)

lemma conserves_inv: "conserves d d' \<Longrightarrow> s2_inv d'"
  by (simp add: conserves_def)

lemma conserves_frame:
  assumes "s2_inv d" "users d' = users d" "task_commands d' = task_commands d"
    "credit_reservations d' = credit_reservations d"
    "keyed oe_event_id (outbox_events d')" "distinct (inbox_events d')"
  shows "conserves d d'"
  using assms worth_same [OF assms(2,4)] by (simp add: conserves_def s2_inv_def)

lemma idempotency_ok_update:
  assumes "\<And>c. tc_user_id (f c) = tc_user_id c" "\<And>c. tc_idempotency_key (f c) = tc_idempotency_key c"
  shows "idempotency_ok (update_rows P f cs) = idempotency_ok cs"
proof -
  have "map idempotency_pair (filter (\<lambda>c. tc_idempotency_key c \<noteq> None) (update_rows P f cs)) =
    map idempotency_pair (filter (\<lambda>c. tc_idempotency_key c \<noteq> None) cs)"
    using assms by (induction cs) (auto simp: update_rows_def idempotency_pair_def)
  then show ?thesis by (simp add: idempotency_ok_def keyed_def)
qed

lemma idempotency_ok_append:
  assumes "idempotency_ok cs"
    and "\<And>i. tc_idempotency_key c = Some i \<Longrightarrow>
      find (\<lambda>x. tc_user_id x = tc_user_id c \<and> tc_idempotency_key x = Some i) cs = None"
  shows "idempotency_ok (cs @ [c])"
  using assms by (cases "tc_idempotency_key c")
    (auto simp: idempotency_ok_def keyed_def idempotency_pair_def find_None_iff image_iff)

text \<open>A status change within the active statuses moves no credits.\<close>

lemma conserves_start:
  assumes "s2_inv d" and "\<And>s. allowed s \<Longrightarrow> reservation_state_of s = reservation_state_of st"
  shows "conserves d (d\<lparr>task_commands := update_rows (\<lambda>c. tc_task_id c = t \<and> allowed (tc_status c))
      (\<lambda>c. c\<lparr>tc_status := st, tc_updated_at := now\<rparr>) (task_commands d)\<rparr>)"
    (is "conserves d ?d")
proof -
  have "s2_inv ?d"
    using assms(1) ledger_ok_start [of _ _ _ allowed st t now, OF _ assms(2)]
    by (simp add: s2_inv_def idempotency_ok_update)
  moreover have "worth ?d u = worth d u" "charged ?d u = charged d u" for u
    by (rule worth_same, simp_all)+
  ultimately show ?thesis by (simp add: conserves_def)
qed

text \<open>A command is settled exactly when its update hit one row; its reservation was held until then.\<close>

lemma settled_command:
  assumes "s2_inv d"
    and "count_rows (\<lambda>c. tc_task_id c = t \<and> allowed (tc_status c)) (task_commands d) = 1"
  obtains c where "find_command d t = Some c" "allowed (tc_status c)"
proof -
  have "keyed tc_task_id (task_commands d)"
    using assms(1) by (simp add: s2_inv_def ledger_ok_def)
  from count_rows_keyed_one [OF this, of t "\<lambda>c. allowed (tc_status c)"] assms(2)
  show thesis using that by (auto simp: find_command_def)
qed

lemma settled_reservation:
  assumes "s2_inv d" "find_command d t = Some c" "task_active (tc_status c)"
  obtains r where "find_reservation d t = Some r" "cr_state r = RESERVED"
    "cr_user_id r = tc_user_id c" "cr_amount r = tc_cost c"
  using assms ledger_task [of "users d" "task_commands d" "credit_reservations d" t c]
  unfolding s2_inv_def find_command_def find_reservation_def
  by (metis reservation_state_of_RESERVED)

lemma conserves_capture:
  assumes "s2_inv d" "find_command d t = Some c" "allowed (tc_status c)" "task_active (tc_status c)"
    and d': "users d' = users d"
      "task_commands d' = update_rows (\<lambda>c. tc_task_id c = t \<and> allowed (tc_status c))
        (\<lambda>c. c\<lparr>tc_status := COMPLETED, tc_updated_at := now\<rparr>) (task_commands d)"
      "credit_reservations d' = update_rows (\<lambda>r. cr_task_id r = t \<and> cr_state r = RESERVED)
        (\<lambda>r. r\<lparr>cr_state := CAPTURED, cr_updated_at := now'\<rparr>) (credit_reservations d)"
      "keyed oe_event_id (outbox_events d')" "distinct (inbox_events d')"
  shows "conserves d d'"
proof -
  obtain r where r: "find_reservation d t = Some r" "cr_state r = RESERVED"
    using settled_reservation [OF assms(1,2,4)] by blast
  have ok: "ledger_ok (users d) (task_commands d) (credit_reservations d)"
    using assms(1) by (simp add: s2_inv_def)
  have "s2_inv d'"
    using assms(1) d' ledger_ok_settle [OF ok, where t = t and c = c and allowed = allowed
        and st = COMPLETED and now = now and now' = now'] assms(2,3,4)
    by (simp add: s2_inv_def find_command_def idempotency_ok_update)
  moreover have amount: "0 \<le> cr_amount r"
    using ledger_okD(5) [OF ok] r(1) lookup_row_Some by (metis find_reservation_def)
  moreover have sums: "sum_in st u (credit_reservations d') = sum_in st u (credit_reservations d) +
      (if cr_user_id r \<noteq> u then 0 else if st = RESERVED then - cr_amount r
       else if st = CAPTURED then cr_amount r else 0)" for st u
    unfolding d'(3) using r ok
    by (intro sum_in_settle) (simp_all add: find_reservation_def ledger_okD(3))
  ultimately show ?thesis
    using d'(1) by (simp add: conserves_def worth_def spendable_def find_user_def held_def charged_def)
qed

lemma conserves_refund:
  assumes "s2_inv d" "find_command d t = Some c" "allowed (tc_status c)" "task_active (tc_status c)"
    and released: "reservation_state_of st = RELEASED"
    and owner: "find_reservation d t = Some r" "cr_user_id r = u" "cr_amount r = n"
      "find_user d u = Some b" "0 \<le> us_credits b + n"
    and d': "users d' = users (set_credits u (us_credits b + n) d)"
      "task_commands d' = update_rows (\<lambda>c. tc_task_id c = t \<and> allowed (tc_status c))
        (\<lambda>c. c\<lparr>tc_status := st, tc_updated_at := now\<rparr>) (task_commands d)"
      "credit_reservations d' = update_rows (\<lambda>r. cr_task_id r = t \<and> cr_state r = RESERVED)
        (\<lambda>r. r\<lparr>cr_state := RELEASED, cr_updated_at := now'\<rparr>) (credit_reservations d)"
      "keyed oe_event_id (outbox_events d')" "distinct (inbox_events d')"
  shows "conserves d d'"
proof -
  have r: "cr_state r = RESERVED"
    using settled_reservation [OF assms(1,2,4)] owner(1) by (metis option.inject)
  have ok: "ledger_ok (users d) (task_commands d) (credit_reservations d)"
    using assms(1) by (simp add: s2_inv_def)
  have "s2_inv d'"
    using assms(1) d' owner(5) released
      ledger_ok_credits [OF ledger_ok_settle [OF ok, where t = t and c = c and
        allowed = allowed and st = st and now = now and now' = now'], of "us_credits b + n" u]
      assms(2,3,4)
    by (simp add: s2_inv_def find_command_def idempotency_ok_update set_credits_def)
  moreover have sums: "sum_in s v (credit_reservations d') = sum_in s v (credit_reservations d) +
      (if u \<noteq> v then 0 else if s = RESERVED then - n else if s = RELEASED then n else 0)" for s v
    unfolding d'(3) owner(2,3) [symmetric] using r ok owner(1)
    by (subst sum_in_settle) (auto simp: find_reservation_def ledger_okD(3))
  moreover have "spendable d' v = spendable d v + (if v = u then n else 0)" for v
    using spendable_set_credits [OF owner(4), of "us_credits b + n" v] d'(1) owner(4)
    by (simp add: spendable_def find_user_def)
  ultimately show ?thesis
    by (simp add: conserves_def worth_def held_def charged_def)
qed

section \<open>Settlements\<close>

text \<open>
  How a task ends: it was active, it takes the status \<open>st\<close>, and the book settles it: its owner is
  charged what the task held when \<open>st\<close> is \<open>COMPLETED\<close> and gets it back otherwise.
\<close>

definition settled :: "TaskStatus \<Rightarrow> uuid \<Rightarrow> s2db \<Rightarrow> s2db \<Rightarrow> bool" where
  "settled st t d d' \<longleftrightarrow> conserves d d' \<and>
     (\<exists>u n s. task_state d t = Some (u, n, s) \<and> task_active s \<and>
        (\<forall>v. charged d' v = charged d v + (if v = u \<and> st = COMPLETED then n else 0))) \<and>
     book_of d' = book_settle st t (book_of d)"

lemma task_state_update:
  assumes "find_command d t = Some c" "allowed (tc_status c)"
    "task_commands d' = update_rows (\<lambda>c. tc_task_id c = t \<and> allowed (tc_status c))
       (\<lambda>c. c\<lparr>tc_status := st, tc_updated_at := now\<rparr>) (task_commands d)"
  shows "task_state d' = (task_state d)(t := Some (tc_user_id c, tc_cost c, st))"
proof
  fix s
  show "task_state d' s = ((task_state d)(t := Some (tc_user_id c, tc_cost c, st))) s"
    using assms by (simp add: task_state_def find_command_def lookup_row_update)
qed

lemma book_settle_apply:
  assumes "find_command d t = Some c"
  shows "book_settle st t (book_of d) =
    (if st = COMPLETED then spendable d
     else (spendable d)(tc_user_id c := spendable d (tc_user_id c) + tc_cost c),
     (task_state d)(t := Some (tc_user_id c, tc_cost c, st)))"
  using assms by (simp add: book_settle_def book_of_def task_state_def)

lemma captured_settled:
  assumes inv: "s2_inv d"
    and hit: "count_rows (\<lambda>c. tc_task_id c = t \<and> allowed (tc_status c)) (task_commands d) = 1"
    and active: "\<And>s. allowed s \<Longrightarrow> task_active s"
    and d': "users d' = users d"
      "task_commands d' = update_rows (\<lambda>c. tc_task_id c = t \<and> allowed (tc_status c))
        (\<lambda>c. c\<lparr>tc_status := COMPLETED, tc_updated_at := now\<rparr>) (task_commands d)"
      "credit_reservations d' = update_rows (\<lambda>r. cr_task_id r = t \<and> cr_state r = RESERVED)
        (\<lambda>r. r\<lparr>cr_state := CAPTURED, cr_updated_at := now'\<rparr>) (credit_reservations d)"
      "keyed oe_event_id (outbox_events d')" "distinct (inbox_events d')"
  shows "settled COMPLETED t d d'"
proof -
  obtain c where c: "find_command d t = Some c" "allowed (tc_status c)"
    using settled_command [OF inv hit] by blast
  obtain r where r: "find_reservation d t = Some r" "cr_state r = RESERVED"
    "cr_user_id r = tc_user_id c" "cr_amount r = tc_cost c"
    using settled_reservation [OF inv c(1) active [OF c(2)]] by blast
  have "charged d' u = charged d u + (if u = tc_user_id c then tc_cost c else 0)" for u
    unfolding charged_def d'(3)
    using r inv by (subst sum_in_settle) (auto simp: find_reservation_def s2_inv_def ledger_okD(3))
  moreover have "spendable d' = spendable d"
    using d'(1) by (simp add: spendable_def find_user_def fun_eq_iff)
  moreover have "conserves d d'" by (rule conserves_capture [OF inv c active [OF c(2)] d'])
  moreover have "task_state d t = Some (tc_user_id c, tc_cost c, tc_status c)"
    using c(1) by (simp add: task_state_def)
  ultimately show ?thesis
    using active [OF c(2)] task_state_update [OF c d'(2)]
    by (simp add: settled_def book_settle_apply [OF c(1)]) (simp add: book_of_def)
qed

lemma refunded_settled:
  assumes inv: "s2_inv d"
    and hit: "count_rows (\<lambda>c. tc_task_id c = t \<and> allowed (tc_status c)) (task_commands d) = 1"
    and active: "\<And>s. allowed s \<Longrightarrow> task_active s" and released: "reservation_state_of st = RELEASED"
    and owner: "find_reservation d t = Some r" "cr_user_id r = u" "cr_amount r = n"
      "find_user d u = Some b" "0 \<le> us_credits b + n"
    and d': "users d' = users (set_credits u (us_credits b + n) d)"
      "task_commands d' = update_rows (\<lambda>c. tc_task_id c = t \<and> allowed (tc_status c))
        (\<lambda>c. c\<lparr>tc_status := st, tc_updated_at := now\<rparr>) (task_commands d)"
      "credit_reservations d' = update_rows (\<lambda>r. cr_task_id r = t \<and> cr_state r = RESERVED)
        (\<lambda>r. r\<lparr>cr_state := RELEASED, cr_updated_at := now'\<rparr>) (credit_reservations d)"
      "keyed oe_event_id (outbox_events d')" "distinct (inbox_events d')"
  shows "settled st t d d'"
proof -
  obtain c where c: "find_command d t = Some c" "allowed (tc_status c)"
    using settled_command [OF inv hit] by blast
  have r: "cr_state r = RESERVED" "u = tc_user_id c" "n = tc_cost c"
    using settled_reservation [OF inv c(1) active [OF c(2)]] owner by (metis option.inject)+
  have st: "st \<noteq> COMPLETED" using released by auto
  have "charged d' v = charged d v" for v
    unfolding charged_def d'(3)
    using r(1) owner(1) inv
    by (subst sum_in_settle) (auto simp: find_reservation_def s2_inv_def ledger_okD(3))
  moreover have "spendable d' = (spendable d)(u := spendable d u + n)"
    using spendable_set_credits [OF owner(4), of "us_credits b + n"] d'(1) owner(4)
    by (simp add: spendable_def find_user_def fun_eq_iff)
  moreover have "conserves d d'"
    by (rule conserves_refund [OF inv c active [OF c(2)] released owner d'])
  moreover have "task_state d t = Some (tc_user_id c, tc_cost c, tc_status c)"
    using c(1) by (simp add: task_state_def)
  ultimately show ?thesis
    using active [OF c(2)] task_state_update [OF c d'(2)] st r(2,3)
    by (simp add: settled_def book_settle_apply [OF c(1)]) (simp add: book_of_def)
qed

text \<open>A statement that reports no row changed none.\<close>

lemma status_missed:
  assumes "s2_inv d" "count_rows (\<lambda>c. tc_task_id c = t \<and> allowed (tc_status c)) (task_commands d) \<noteq> Suc 0"
  shows "d\<lparr>task_commands := update_rows (\<lambda>c. tc_task_id c = t \<and> allowed (tc_status c)) f
      (task_commands d)\<rparr> = d"
  using assms by (simp add: s2_inv_def ledger_ok_def
      update_rows_missed [where P = "\<lambda>c. allowed (tc_status c)"])

lemmas active_status_missed = status_missed [where allowed = "\<lambda>s. s = PENDING \<or> s = RUNNING"]
  status_missed [where allowed = "\<lambda>s. s = PENDING"]

lemma settle_missed:
  assumes "s2_inv d" "count_rows (\<lambda>r. cr_task_id r = t \<and> cr_state r = RESERVED)
      (credit_reservations d) \<noteq> Suc 0"
  shows "d\<lparr>credit_reservations := update_rows (\<lambda>r. cr_task_id r = t \<and> cr_state r = RESERVED) f
      (credit_reservations d)\<rparr> = d"
  using assms by (simp add: s2_inv_def ledger_ok_def
      update_rows_missed [where P = "\<lambda>r. cr_state r = RESERVED"])

lemma settled_conserves: "settled st t d d' \<Longrightarrow> conserves d d'"
  by (simp add: settled_def)

lemmas settle_elims = bindE_okE set_status_okE settle_okE get_credit_reservation_okE
  get_task_command_okE add_credits_okE insert_transaction_okE upsert_view_okE record_inbox_okE

definition same_books :: "s2db \<Rightarrow> s2db \<Rightarrow> bool" where
  "same_books d d' \<longleftrightarrow> users d' = users d \<and> task_commands d' = task_commands d \<and>
     credit_reservations d' = credit_reservations d"

lemma same_books_book: "same_books d d' \<Longrightarrow> book_of d' = book_of d \<and> charged d' = charged d"
  by (simp add: same_books_def book_of_def spendable_def task_state_def find_user_def find_command_def
      charged_def fun_eq_iff)

lemma inbox_inv: "s2_inv d \<Longrightarrow> x \<notin> set (inbox_events d) \<Longrightarrow>
    s2_inv (d\<lparr>inbox_events := inbox_events d @ [x]\<rparr>)"
  by (simp add: s2_inv_def)

lemma conserves_inbox: "s2_inv d \<Longrightarrow> x \<notin> set (inbox_events d) \<Longrightarrow>
    conserves d (d\<lparr>inbox_events := inbox_events d @ [x]\<rparr>)"
  by (rule conserves_frame) (simp_all add: s2_inv_def)

text \<open>The inbox guard: an event that settles a task was not in the inbox and is afterwards.\<close>

definition first_time :: "uuid \<Rightarrow> string \<Rightarrow> s2db \<Rightarrow> s2db \<Rightarrow> bool" where
  "first_time e consumer d d' \<longleftrightarrow>
     (e, consumer) \<notin> set (inbox_events d) \<and> (e, consumer) \<in> set (inbox_events d')"

text \<open>A pending task starts: no credits move and no event is recorded.\<close>

definition started :: "uuid \<Rightarrow> s2db \<Rightarrow> s2db \<Rightarrow> bool" where
  "started t d d' \<longleftrightarrow> conserves d d' \<and> (\<exists>u n. task_state d t = Some (u, n, PENDING)) \<and>
     book_of d' = book_start t (book_of d) \<and> charged d' = charged d \<and>
     inbox_events d' = inbox_events d \<and> outbox_events d' = outbox_events d"

lemma start_outcome:
  assumes inv: "s2_inv (pg w)" and run: "update_task_command_running t w = (r, w')"
  shows "pg w' = pg w \<and> r \<noteq> Inr True \<or> started t (pg w) (pg w') \<and> r \<noteq> Inr False"
  using run [unfolded update_task_command_running_def set_status_where_def]
proof (cases rule: sql_cases)
  case (ran hit)
  let ?n = "count_rows (\<lambda>c. tc_task_id c = t \<and> tc_status c = PENDING) (task_commands (pg w))"
  from ran(1) have hit: "hit = (?n = 1)" and d': "pg w' = (pg w)\<lparr>task_commands :=
      update_rows (\<lambda>c. tc_task_id c = t \<and> tc_status c = PENDING)
       (\<lambda>c. c\<lparr>tc_status := RUNNING, tc_updated_at := clock w\<rparr>) (task_commands (pg w))\<rparr>"
    by (simp_all add: Let_def)
  show ?thesis
  proof (cases "?n = 1")
    case True
    obtain c where c: "find_command (pg w) t = Some c" "tc_status c = PENDING"
      using settled_command [OF inv True] by blast
    have "conserves (pg w) (pg w')"
      unfolding d' by (rule conserves_start [OF inv, where allowed = "\<lambda>s. s = PENDING"]) simp
    moreover have "task_state (pg w') = (task_state (pg w))(t := Some (tc_user_id c, tc_cost c, RUNNING))"
      by (rule task_state_update [where allowed = "\<lambda>s. s = PENDING", OF c]) (simp add: d')
    moreover have "spendable (pg w') = spendable (pg w)" "charged (pg w') = charged (pg w)"
      by (simp_all add: spendable_def find_user_def charged_def fun_eq_iff d')
    ultimately have "started t (pg w) (pg w')"
      using c d' by (simp add: started_def book_of_def book_start_def task_state_def)
    with ran(2) hit True show ?thesis by auto
  next
    case False
    then have "pg w' = pg w"
      using status_missed [OF inv, where allowed = "\<lambda>s. s = PENDING" and t = t] d' by simp
    with ran(2) hit False show ?thesis by auto
  qed
qed simp

section \<open>Reserving and placing\<close>

lemma find_user_set_credits:
  "find_user (set_credits x n d) u =
    (if u = x then map_option (\<lambda>r. r\<lparr>us_credits := n\<rparr>) (find_user d u) else find_user d u)"
  by (simp add: find_user_def set_credits_def lookup_user_credits)

lemma reserve_credits_inv:
  assumes "s2_inv d" "find_user d u = Some r" "0 \<le> m"
  shows "s2_inv (set_credits u m d)"
    and "worth (set_credits u m d) v = worth d v + (if v = u then m - us_credits r else 0)"
    and "charged (set_credits u m d) v = charged d v"
proof -
  show "s2_inv (set_credits u m d)"
    using assms(1,3) by (simp add: s2_inv_def set_credits_def ledger_ok_credits)
  have "spendable d u = us_credits r" using assms(2) by (simp add: spendable_def)
  then show "worth (set_credits u m d) v = worth d v + (if v = u then m - us_credits r else 0)"
    by (simp add: worth_def spendable_set_credits [OF assms(2)] held_def charged_def)
  show "charged (set_credits u m d) v = charged d v" by (simp add: charged_def set_credits_def)
qed

text \<open>A new command with its reservation: the amount joins what its owner has held.\<close>

lemma place_task:
  assumes inv: "s2_inv (pg w)" "0 \<le> n"
    and command: "create_task_command t u tier mode mc x y n cb k w = (Inr v, w1)"
    and reservation: "create_reservation t u n e w2 = (Inr v', w3)" "pg w2 = pg w1" "clock w2 = clock w1"
  shows "s2_inv (pg w3)"
    and "worth (pg w3) a = worth (pg w) a + (if a = u then n else 0)"
    and "charged (pg w3) a = charged (pg w) a"
    and "active_of now a (pg w3) = active_of now a (pg w) + (if a = u \<and> now < e then 1 else 0)"
    and "find_user (pg w3) = find_user (pg w)"
    and "outbox_events (pg w3) = outbox_events (pg w)"
    and "clock w3 = clock w"
    and "task_state (pg w3) = (task_state (pg w))(t := Some (u, n, PENDING))"
    and "\<And>i. k = Some i \<Longrightarrow> find_by_idempotency (pg w) u i = None"
    and "find_command (pg w) t = None"
proof -
  let ?c = "\<lparr>tc_task_id = t, tc_user_id = u, tc_tier = tier, tc_mode = mode, tc_model_class = mc,
        tc_status = PENDING, tc_x = x, tc_y = y, tc_cost = n, tc_callback_url = cb,
        tc_idempotency_key = k, tc_created_at = clock w, tc_updated_at = clock w\<rparr>"
  from command have c: "pg w1 = (pg w)\<lparr>task_commands := task_commands (pg w) @ [?c]\<rparr>"
    "find_command (pg w) t = None" "\<And>i. k = Some i \<Longrightarrow> find_by_idempotency (pg w) u i = None"
    "clock w1 = clock w"
    by (elim create_command_okE, blast)+
  from reservation obtain rid where "pg w3 = (pg w1)\<lparr>credit_reservations := credit_reservations (pg w1) @
      [\<lparr>cr_reservation_id = rid, cr_task_id = t, cr_user_id = u, cr_amount = n, cr_state = RESERVED,
        cr_expires_at = e, cr_created_at = clock w, cr_updated_at = clock w\<rparr>]\<rparr>"
    and user: "find_user (pg w1) u \<noteq> None" and time: "clock w3 = clock w"
    by (elim create_reservation_okE) (auto simp: c(4))
  moreover define r where "r = \<lparr>cr_reservation_id = rid, cr_task_id = t, cr_user_id = u,
        cr_amount = n, cr_state = RESERVED, cr_expires_at = e, cr_created_at = clock w,
        cr_updated_at = clock w\<rparr>"
  ultimately have d: "pg w3 = (pg w)\<lparr>task_commands := task_commands (pg w) @ [?c],
      credit_reservations := credit_reservations (pg w) @ [r]\<rparr>"
    using c(1) by simp
  have "ledger_ok (users (pg w)) (task_commands (pg w) @ [?c]) (credit_reservations (pg w) @ [r])"
    using inv c(1,2) user
    by (intro ledger_ok_admit) (simp_all add: s2_inv_def find_command_def find_user_def r_def
        reserved_as_def commanded_as_def)
  moreover have "idempotency_ok (task_commands (pg w) @ [?c])"
    using inv(1) c(3) by (intro idempotency_ok_append) (simp_all add: s2_inv_def find_by_idempotency_def)
  ultimately show "s2_inv (pg w3)" using inv(1) unfolding d by (simp add: s2_inv_def)
  show "worth (pg w3) a = worth (pg w) a + (if a = u then n else 0)"
    "charged (pg w3) a = charged (pg w) a"
    unfolding d by (simp_all add: worth_def spendable_def find_user_def held_def charged_def
        sum_in_append r_def)
  show "active_of now a (pg w3) = active_of now a (pg w) + (if a = u \<and> now < e then 1 else 0)"
    unfolding d by (simp add: active_of_def count_rows_def is_active_reservation_def r_def)
  show "find_user (pg w3) = find_user (pg w)" "outbox_events (pg w3) = outbox_events (pg w)"
    unfolding d by (simp_all add: find_user_def fun_eq_iff)
  show "clock w3 = clock w" by (fact time)
  show "task_state (pg w3) = (task_state (pg w))(t := Some (u, n, PENDING))"
    using c(2) unfolding d
    by (auto simp: task_state_def find_command_def lookup_row_append fun_eq_iff split: option.split)
  show "\<And>i. k = Some i \<Longrightarrow> find_by_idempotency (pg w) u i = None" by (fact c(3))
  show "find_command (pg w) t = None" by (fact c(2))
qed

section \<open>Actions that conserve under any faults\<close>

definition safe :: "(s2db, 'k, 'a) io \<Rightarrow> bool" where
  "safe m \<longleftrightarrow> (\<forall>d. keeps (conserves d) m)"

lemma safeI: "(\<And>d. keeps (conserves d) m) \<Longrightarrow> safe m"
  by (simp add: safe_def)

lemma safe_conserves: "safe m \<Longrightarrow> s2_inv (pg w) \<Longrightarrow> conserves (pg w) (pg (snd (m w)))"
  unfolding safe_def using keepsD conserves_refl by metis

named_theorems safe_rules

lemma safe_transaction:
  assumes "\<And>w a w'. s2_inv (pg w) \<Longrightarrow> m w = (Inr a, w') \<Longrightarrow> conserves (pg w) (pg w')"
  shows "safe (transaction m)"
proof (rule safeI, rule keeps_transaction)
  fix d w a w'
  assume "conserves d (pg w)" "m w = (Inr a, w')"
  then show "conserves d (pg w')" using assms conserves_inv conserves_trans by blast
qed

lemma safe_sql:
  assumes "\<And>t d a d'. s2_inv d \<Longrightarrow> f t d = Inr (a, d') \<Longrightarrow> conserves d d'"
  shows "safe (sql f)"
proof (rule safeI, rule keeps_sql)
  fix d t x a y
  assume "conserves d x" "f t x = Inr (a, y)"
  then show "conserves d y" using assms conserves_inv conserves_trans by blast
qed

lemma safe_returnM [safe_rules]: "safe (returnM a)"
  by (simp add: safe_def keeps_rules)

lemma safe_raiseM [safe_rules]: "safe (raiseM c s)"
  by (simp add: safe_def keeps_rules)

lemma safe_liftE [safe_rules]: "safe (liftE r)"
  by (simp add: safe_def keeps_rules)

lemma safe_get_clock [safe_rules]: "safe get_clock"
  by (simp add: safe_def keeps_rules)

lemma safe_sleepM [safe_rules]: "safe (sleepM n)"
  by (simp add: safe_def keeps_rules)

lemma safe_sleep_seconds [safe_rules]: "safe (sleep_seconds r)"
  by (simp add: safe_def keeps_rules)

lemma safe_fresh_uuid [safe_rules]: "safe fresh_uuid"
  by (simp add: safe_def keeps_rules)

lemma safe_sql_read [safe_rules]: "safe (sql_read g)"
  by (simp add: safe_def keeps_rules)

lemma safe_remote [safe_rules]: "safe (remote f)"
  by (simp add: safe_def keeps_rules)

lemma safe_bindE [safe_rules]: "safe m \<Longrightarrow> (\<And>a. safe (f a)) \<Longrightarrow> safe (bindE m f)"
  by (simp add: safe_def keeps_bindE)

lemma safe_attempt [safe_rules]: "safe m \<Longrightarrow> safe (attempt m)"
  by (simp add: safe_def keeps_attempt)

lemma safe_acquire [safe_rules]: "safe m \<Longrightarrow> safe (acquire m)"
  by (simp add: safe_def keeps_acquire)

lemma safe_if [safe_rules]: "(b \<Longrightarrow> safe m) \<Longrightarrow> (\<not> b \<Longrightarrow> safe n) \<Longrightarrow> safe (if b then m else n)"
  by simp

lemma safe_option [safe_rules]:
  "(x = None \<Longrightarrow> safe m) \<Longrightarrow> (\<And>a. x = Some a \<Longrightarrow> safe (f a)) \<Longrightarrow>
   safe (case x of None \<Rightarrow> m | Some a \<Rightarrow> f a)"
  by (simp split: option.split)

lemma safe_sum [safe_rules]:
  "(\<And>e. x = Inl e \<Longrightarrow> safe (f e)) \<Longrightarrow> (\<And>a. x = Inr a \<Longrightarrow> safe (g a)) \<Longrightarrow>
   safe (case x of Inl e \<Rightarrow> f e | Inr a \<Rightarrow> g a)"
  by (simp split: sum.split)

lemma safe_prod [safe_rules]:
  "(\<And>a b. x = (a, b) \<Longrightarrow> safe (f a b)) \<Longrightarrow> safe (case x of (a, b) \<Rightarrow> f a b)"
  by (simp split: prod.split)

lemma safe_Let [safe_rules]: "safe (f x) \<Longrightarrow> safe (let y = x in f y)"
  by simp

lemma safe_reads [safe_rules]:
  "safe (get_task_command t)" "safe (get_task_command_by_idempotency u k)"
  "safe (get_credit_reservation t)" "safe (find_expired_reservations n)"
  "safe count_total_active_reservations" "safe (list_unpublished_outbox_events l)"
  unfolding get_task_command_def get_task_command_by_idempotency_def get_credit_reservation_def
    find_expired_reservations_def count_total_active_reservations_def
    list_unpublished_outbox_events_def
  by (rule safe_sql_read)+

lemma keeps_reads [keeps_rules]:
  "keeps I (get_task_command t)" "keeps I (get_task_command_by_idempotency u k)"
  "keeps I (get_credit_reservation t)" "keeps I (find_expired_reservations n)"
  "keeps I count_total_active_reservations" "keeps I (list_unpublished_outbox_events l)"
  "keeps I (fetch_user_by_api_key key)" "keeps I (get_task_query_view t)"
  "keeps I (get_webhook_subscription u)" "keeps I (is_jti_revoked jti)"
  unfolding get_task_command_def get_task_command_by_idempotency_def get_credit_reservation_def
    find_expired_reservations_def count_total_active_reservations_def
    list_unpublished_outbox_events_def fetch_user_by_api_key_def get_task_query_view_def
    get_webhook_subscription_def is_jti_revoked_def
  by (rule keeps_sql_read)+

lemma safe_transaction_body [safe_rules]: "safe m \<Longrightarrow> safe (transaction m)"
  by (rule safe_transaction) (metis safe_conserves snd_conv)

lemma safe_record_inbox [safe_rules]: "safe (record_inbox_event e c)"
  unfolding record_inbox_event_def
  by (rule safe_sql) (auto simp: s2_inv_def intro!: conserves_frame split: if_splits)

lemma safe_more_reads [safe_rules]:
  "safe (fetch_user_by_api_key key)" "safe (get_task_query_view t)"
  "safe (get_webhook_subscription u)" "safe (is_jti_revoked jti)"
  by (simp_all add: safe_def keeps_reads)

text \<open>Statements that touch neither credits, commands nor reservations.\<close>

lemma safe_upsert_view [safe_rules]:
  "safe (upsert_task_query_view t u tier mode mc st res err q ms)"
  unfolding upsert_task_query_view_def
  by (rule safe_sql) (auto simp: Let_def split: if_splits intro!: conserves_frame simp: s2_inv_def)

lemma safe_mark_running [safe_rules]: "safe (update_task_command_running t)"
  unfolding update_task_command_running_def set_status_where_def
  by (rule safe_sql) (auto simp: Let_def intro!: conserves_start)

section \<open>Statements that must run\<close>

lemma count_status_one:
  assumes "s2_inv d" "find_command d t = Some c" "allowed (tc_status c)"
  shows "count_rows (\<lambda>c. tc_task_id c = t \<and> allowed (tc_status c)) (task_commands d) = 1"
  using assms count_rows_keyed_one [of tc_task_id "task_commands d" t "\<lambda>c. allowed (tc_status c)"]
  by (auto simp: s2_inv_def ledger_okD(2) find_command_def)

lemma count_reserved_one:
  assumes "s2_inv d" "find_reservation d t = Some r" "cr_state r = RESERVED"
  shows "count_rows (\<lambda>r. cr_task_id r = t \<and> cr_state r = RESERVED) (credit_reservations d) = 1"
  using assms count_rows_keyed_one [of cr_task_id "credit_reservations d" t "\<lambda>r. cr_state r = RESERVED"]
  by (auto simp: s2_inv_def ledger_okD(3) find_reservation_def)

text \<open>Without faults the inserts succeed when the values fit and the keys are new.\<close>

lemma create_command_runs:
  assumes "faults w = []" "int4_ok x" "int4_ok y" "int4_ok n" "length i \<le> 128"
    "find_command (pg w) t = None" "find_by_idempotency (pg w) u i = None"
  shows "\<exists>w'. create_task_command t u tier mode mc x y n cb (Some i) w = (Inr (), w') \<and>
    faults w' = [] \<and> entropy w' = entropy w \<and> clock w' = clock w \<and>
    find_command (pg w') t \<noteq> None \<and> find_user (pg w') = find_user (pg w) \<and>
    credit_reservations (pg w') = credit_reservations (pg w) \<and>
    outbox_events (pg w') = outbox_events (pg w)"
proof -
  have "\<not> 128 < length i" using assms(5) by simp
  with assms show ?thesis
    by (auto simp: create_task_command_def sql_nofault find_command_def lookup_row_append find_user_def
        fun_eq_iff)
qed

lemma create_reservation_runs:
  assumes "faults w = []" "int4_ok n" "entropy w = rid # us"
    "\<not> List.member (map cr_reservation_id (credit_reservations (pg w))) rid"
    "find_reservation (pg w) t = None" "find_command (pg w) t \<noteq> None" "find_user (pg w) u \<noteq> None"
  shows "\<exists>w'. create_reservation t u n e w = (Inr (), w') \<and>
    faults w' = [] \<and> entropy w' = us \<and> clock w' = clock w \<and>
    outbox_events (pg w') = outbox_events (pg w)"
  using assms by (auto simp: create_reservation_def bindE_fresh sql_nofault)

lemma create_outbox_runs:
  assumes "faults w = []" "length ty \<le> 64" "length rk \<le> 128" "entropy w = eid # us"
    "lookup_row oe_event_id eid (outbox_events (pg w)) = None"
  shows "\<exists>w'. create_outbox_event agg ty rk p w = (Inr eid, w') \<and> faults w' = []"
proof -
  have "\<not> 64 < length ty" "\<not> 128 < length rk" using assms by simp_all
  with assms show ?thesis by (simp add: create_outbox_event_def bindE_fresh sql_nofault)
qed

text \<open>Bundles that let \<open>simp\<close> run the statements on a concrete database.\<close>

lemmas statement_defs = lock_user_for_admission_def get_task_command_def
  get_task_command_by_idempotency_def count_active_reservations_def reserve_user_credits_def
  add_user_credits_def create_task_command_def create_reservation_def create_outbox_event_def
  get_credit_reservation_def insert_credit_transaction_def upsert_task_query_view_def
  record_inbox_event_def set_status_where_def settle_reservation_def

lemmas lookup_defs = find_user_def find_command_def find_reservation_def find_by_idempotency_def
  set_credits_def update_rows_def count_rows_def is_active_reservation_def int4_ok_def
  DEFAULT_TASK_STATUS_def seconds_def

end
