(* ===== verification/S2_Billing.thy ===== *)
theory S2_Billing
  imports S2_Statements
begin

text \<open>
  Solution 2, \<open>services/billing.py\<close>: the admission transactions (single task, batch, synchronous),
  the gates that turn their exceptions into decisions, and the synchronous execution that settles
  a task in the request.  \<open>rp\<close> is the text CPython prints for a float, a list or a dictionary.
  The theorems: under any faults a gate answers and conserves every account, and what each answer
  says about the database.
\<close>

section \<open>Decisions and payloads\<close>

record AdmissionDecision =
  ad_ok :: bool
  ad_reason :: string
  ad_existing_task_id :: "string option"

record BatchTaskSpec =
  bt_x :: int
  bt_y :: int
  bt_model_class :: ModelClass
  bt_callback_url :: "string option"

record BatchAdmissionResult =
  ba_ok :: bool
  ba_reason :: string
  ba_task_ids :: "uuid list"
  ba_total_cost :: int

record SyncExecutionResult =
  se_status :: TaskStatus
  se_result :: "dict option"
  se_error :: "string option"
  se_runtime_ms :: "int option"

definition decision :: "bool \<Rightarrow> string \<Rightarrow> string option \<Rightarrow> AdmissionDecision" where
  "decision ok reason existing = \<lparr>ad_ok = ok, ad_reason = reason, ad_existing_task_id = existing\<rparr>"

definition batch_result :: "bool \<Rightarrow> string \<Rightarrow> uuid list \<Rightarrow> int \<Rightarrow> BatchAdmissionResult" where
  "batch_result ok reason ids cost =
     \<lparr>ba_ok = ok, ba_reason = reason, ba_task_ids = ids, ba_total_cost = cost\<rparr>"

definition SCRIPT_HASH_PLACEHOLDER :: string where
  "SCRIPT_HASH_PLACEHOLDER = []"

fun coerce_int :: "json \<Rightarrow> int" where
  "coerce_int (JInt i) = i"
| "coerce_int (JBool b) = (if b then 1 else 0)"
| "coerce_int (JStr s) = (case py_int s of None \<Rightarrow> 0 | Some i \<Rightarrow> i)"
| "coerce_int _ = 0"

definition normalize_payload :: "(json \<Rightarrow> string) \<Rightarrow> dict option \<Rightarrow> string option \<Rightarrow>
    exn + (dict \<times> RequestMode \<times> SubscriptionTier \<times> string)" where
  "normalize_payload rp stream_payload request_mode =
    (let payload = (case stream_payload of None \<Rightarrow> [] | Some d \<Rightarrow> d);
         payload_mode = (case request_mode of
             Some m \<Rightarrow> if m \<noteq> [] then JStr m else dict_get_or payload ''mode'' (JStr ''async'')
           | None \<Rightarrow> dict_get_or payload ''mode'' (JStr ''async''));
         payload_tier = dict_get_or payload ''tier'' (JStr ''free'')
     in case dict_get payload ''model_class'' of
          Some (JStr mc) \<Rightarrow> (case RequestMode_of (py_str rp payload_mode) of
              Inl e \<Rightarrow> Inl e
            | Inr m \<Rightarrow> (case SubscriptionTier_of (py_str rp payload_tier) of
                Inl e \<Rightarrow> Inl e
              | Inr t \<Rightarrow> Inr (payload, m, t, mc)))
        | _ \<Rightarrow> Inl (Exn ValueError ''invalid model_class in submit payload''))"

definition resolve_queue_name ::
  "SubscriptionTier \<Rightarrow> RequestMode \<Rightarrow> string \<Rightarrow> string option \<Rightarrow> exn + string" where
  "resolve_queue_name tier mode model_class queue_name = (case queue_name of
       Some q \<Rightarrow> Inr q
     | None \<Rightarrow> (case ModelClass_of model_class of
           Inl e \<Rightarrow> Inl e
         | Inr c \<Rightarrow> resolve_queue tier mode c))"

definition reservation_expires_at :: "int option \<Rightarrow> int \<Rightarrow> int" where
  "reservation_expires_at reservation_ttl_seconds now =
    (let ttl = (case reservation_ttl_seconds of None \<Rightarrow> 1 | Some n \<Rightarrow> if n \<le> 0 then 1 else n)
     in now + seconds ttl)"

lemma reservation_expires_later: "now < reservation_expires_at ttl now"
  by (simp add: reservation_expires_at_def seconds_def split: option.split)

definition submitted_payload :: "uuid \<Rightarrow> uuid \<Rightarrow> RequestMode \<Rightarrow> SubscriptionTier \<Rightarrow> ModelClass \<Rightarrow> int \<Rightarrow>
    json \<Rightarrow> json \<Rightarrow> string \<Rightarrow> string option \<Rightarrow> string \<Rightarrow> json \<Rightarrow> dict" where
  "submitted_payload task_id user_id mode tier model_class cost x y idempotency_key callback_url
     queue trace_id =
   [(''task_id'', JStr (uuid_str task_id)), (''user_id'', JStr (uuid_str user_id)),
    (''mode'', JStr (RequestMode_value mode)), (''tier'', JStr (SubscriptionTier_value tier)),
    (''model_class'', JStr (ModelClass_value model_class)), (''cost'', JInt cost),
    (''x'', x), (''y'', y), (''idempotency_key'', JStr idempotency_key),
    (''callback_url'', opt_str callback_url), (''queue'', JStr queue), (''trace_id'', trace_id)]"

section \<open>The admission transaction\<close>

definition admission_body :: "(json \<Rightarrow> string) \<Rightarrow> uuid \<Rightarrow> uuid \<Rightarrow> int \<Rightarrow> string \<Rightarrow> int \<Rightarrow>
    dict option \<Rightarrow> string option \<Rightarrow> string option \<Rightarrow> int option \<Rightarrow> (s2db, 'k, AdmissionDecision) io" where
  "admission_body rp user_id task_id cost idempotency_value max_concurrent
     stream_payload request_mode queue_name reservation_ttl_seconds =
     bindE (lock_user_for_admission user_id) (\<lambda>locked.
     if \<not> locked then returnM (decision False ''ERROR'' None) else
     bindE (get_task_command_by_idempotency user_id idempotency_value) (\<lambda>command_exists.
     case command_exists of
       Some c \<Rightarrow> returnM (decision False ''IDEMPOTENT'' (Some (uuid_str (tc_task_id c))))
     | None \<Rightarrow>
     bindE (count_active_reservations user_id) (\<lambda>active_count.
     if max_concurrent \<le> int active_count then returnM (decision False ''CONCURRENCY'' None) else
     bindE (reserve_user_credits user_id cost) (\<lambda>remaining_credits.
     case remaining_credits of
       None \<Rightarrow> returnM (decision False ''INSUFFICIENT'' None)
     | Some _ \<Rightarrow>
     bindE (liftE (normalize_payload rp stream_payload request_mode)) (\<lambda>(payload, mode, tier, mc).
     bindE (liftE (resolve_queue_name tier mode mc queue_name)) (\<lambda>selected_queue.
     bindE (liftE (ModelClass_of mc)) (\<lambda>model_class.
     let routing_key = compute_routing_key mode tier model_class;
         callback_url = (case dict_get payload ''callback_url'' of Some (JStr s) \<Rightarrow> Some s | _ \<Rightarrow> None);
         x = dict_get_or payload ''x'' JNull; y = dict_get_or payload ''y'' JNull in
     bindE (create_task_command task_id user_id tier mode model_class
              (coerce_int (dict_get_or payload ''x'' (JInt 0)))
              (coerce_int (dict_get_or payload ''y'' (JInt 0))) cost callback_url
              (Some idempotency_value)) (\<lambda>_.
     bindE get_clock (\<lambda>now.
     bindE (create_reservation task_id user_id cost
              (reservation_expires_at reservation_ttl_seconds now)) (\<lambda>_.
     bindE (create_outbox_event task_id ''task.submitted'' routing_key
              (submitted_payload task_id user_id mode tier model_class cost x y idempotency_value
                 callback_url selected_queue (dict_get_or payload ''trace_id'' JNull))) (\<lambda>_.
     returnM (decision True ''OK'' None))))))))))))"

definition execute_admission_transaction :: "(json \<Rightarrow> string) \<Rightarrow> uuid \<Rightarrow> uuid \<Rightarrow> int \<Rightarrow> string \<Rightarrow> int \<Rightarrow>
    dict option \<Rightarrow> string option \<Rightarrow> string option \<Rightarrow> int option \<Rightarrow> (s2db, 'k, AdmissionDecision) io" where
  "execute_admission_transaction rp user_id task_id cost idempotency_value max_concurrent
     stream_payload request_mode queue_name reservation_ttl_seconds =
   acquire (transaction (admission_body rp user_id task_id cost idempotency_value max_concurrent
     stream_payload request_mode queue_name reservation_ttl_seconds))"

section \<open>The batch transaction\<close>

definition batch_key :: "uuid \<Rightarrow> nat \<Rightarrow> string" where
  "batch_key batch_id index = uuid_str batch_id @ '':'' @ str_of_nat index"

fun batch_loop :: "uuid \<Rightarrow> SubscriptionTier \<Rightarrow> uuid \<Rightarrow> int \<Rightarrow> int option \<Rightarrow> string option \<Rightarrow> nat \<Rightarrow>
    BatchTaskSpec list \<Rightarrow> (s2db, 'k, uuid list) io" where
  "batch_loop user_id user_tier batch_id base_task_cost ttl trace_id index [] = returnM []"
| "batch_loop user_id user_tier batch_id base_task_cost ttl trace_id index (task # tasks) =
     bindE fresh_uuid (\<lambda>task_id.
     bindE (liftE (resolve_queue user_tier BATCH (bt_model_class task))) (\<lambda>queue_name.
     let routing_key = compute_routing_key BATCH user_tier (bt_model_class task);
         cost = task_cost_for_model base_task_cost (bt_model_class task) in
     bindE (create_task_command task_id user_id user_tier BATCH (bt_model_class task) (bt_x task)
              (bt_y task) cost (bt_callback_url task) (Some (batch_key batch_id index))) (\<lambda>_.
     bindE get_clock (\<lambda>now.
     bindE (create_reservation task_id user_id cost (reservation_expires_at ttl now)) (\<lambda>_.
     bindE (create_outbox_event task_id ''task.submitted'' routing_key
              (submitted_payload task_id user_id BATCH user_tier (bt_model_class task) cost
                 (JInt (bt_x task)) (JInt (bt_y task)) (batch_key batch_id index)
                 (bt_callback_url task) queue_name (opt_str trace_id))) (\<lambda>_.
     bindE (batch_loop user_id user_tier batch_id base_task_cost ttl trace_id (Suc index) tasks)
       (\<lambda>task_ids. returnM (task_id # task_ids))))))))"

definition batch_total_cost :: "int \<Rightarrow> BatchTaskSpec list \<Rightarrow> int" where
  "batch_total_cost base_task_cost tasks =
     sum_list (map (\<lambda>t. task_cost_for_model base_task_cost (bt_model_class t)) tasks)"

definition batch_admission_body :: "uuid \<Rightarrow> SubscriptionTier \<Rightarrow> uuid \<Rightarrow>
    BatchTaskSpec list \<Rightarrow> int \<Rightarrow> int \<Rightarrow> int option \<Rightarrow> string option \<Rightarrow>
    (s2db, 'k, BatchAdmissionResult) io" where
  "batch_admission_body user_id user_tier batch_id tasks max_concurrent
     base_task_cost reservation_ttl_seconds trace_id =
     bindE (lock_user_for_admission user_id) (\<lambda>locked.
     if \<not> locked then returnM (batch_result False ''ERROR'' [] 0) else
     bindE (count_active_reservations user_id) (\<lambda>active_count.
     if max_concurrent < int (active_count + length tasks)
     then returnM (batch_result False ''CONCURRENCY'' [] 0) else
     let total_cost = batch_total_cost base_task_cost tasks in
     bindE (reserve_user_credits user_id total_cost) (\<lambda>remaining_credits.
     case remaining_credits of
       None \<Rightarrow> returnM (batch_result False ''INSUFFICIENT'' [] 0)
     | Some _ \<Rightarrow>
     bindE (batch_loop user_id user_tier batch_id base_task_cost reservation_ttl_seconds trace_id 0
              tasks) (\<lambda>task_ids.
     returnM (batch_result True ''OK'' task_ids total_cost)))))"

definition execute_batch_admission_transaction :: "uuid \<Rightarrow> SubscriptionTier \<Rightarrow> uuid \<Rightarrow>
    BatchTaskSpec list \<Rightarrow> int \<Rightarrow> int \<Rightarrow> int option \<Rightarrow> string option \<Rightarrow>
    (s2db, 'k, BatchAdmissionResult) io" where
  "execute_batch_admission_transaction user_id user_tier batch_id tasks max_concurrent
     base_task_cost reservation_ttl_seconds trace_id =
   (if tasks = [] then returnM (batch_result False ''ERROR'' [] 0) else
    acquire (transaction (batch_admission_body user_id user_tier batch_id tasks max_concurrent
     base_task_cost reservation_ttl_seconds trace_id)))"

section \<open>The synchronous transactions\<close>

definition sync_admission_body :: "uuid \<Rightarrow> SubscriptionTier \<Rightarrow> uuid \<Rightarrow> int \<Rightarrow> int \<Rightarrow>
    ModelClass \<Rightarrow> int \<Rightarrow> string option \<Rightarrow> string \<Rightarrow> int \<Rightarrow> int option \<Rightarrow>
    (s2db, 'k, AdmissionDecision) io" where
  "sync_admission_body user_id user_tier task_id x y model_class cost callback_url
     idempotency_value max_concurrent reservation_ttl_seconds =
     bindE (lock_user_for_admission user_id) (\<lambda>locked.
     if \<not> locked then returnM (decision False ''ERROR'' None) else
     bindE (get_task_command_by_idempotency user_id idempotency_value) (\<lambda>command_exists.
     case command_exists of
       Some c \<Rightarrow> returnM (decision False ''IDEMPOTENT'' (Some (uuid_str (tc_task_id c))))
     | None \<Rightarrow>
     bindE (count_active_reservations user_id) (\<lambda>active_count.
     if max_concurrent \<le> int active_count then returnM (decision False ''CONCURRENCY'' None) else
     bindE (reserve_user_credits user_id cost) (\<lambda>remaining_credits.
     case remaining_credits of
       None \<Rightarrow> returnM (decision False ''INSUFFICIENT'' None)
     | Some _ \<Rightarrow>
     bindE (create_task_command task_id user_id user_tier SYNC model_class x y cost callback_url
              (Some idempotency_value)) (\<lambda>_.
     bindE get_clock (\<lambda>now.
     bindE (create_reservation task_id user_id cost
              (reservation_expires_at reservation_ttl_seconds now)) (\<lambda>_.
     returnM (decision True ''OK'' None))))))))"

definition execute_sync_admission_transaction :: "uuid \<Rightarrow> SubscriptionTier \<Rightarrow> uuid \<Rightarrow> int \<Rightarrow> int \<Rightarrow>
    ModelClass \<Rightarrow> int \<Rightarrow> string option \<Rightarrow> string \<Rightarrow> int \<Rightarrow> int option \<Rightarrow>
    (s2db, 'k, AdmissionDecision) io" where
  "execute_sync_admission_transaction user_id user_tier task_id x y model_class cost callback_url
     idempotency_value max_concurrent reservation_ttl_seconds =
   acquire (transaction (sync_admission_body user_id user_tier task_id x y model_class cost callback_url
     idempotency_value max_concurrent reservation_ttl_seconds))"

definition mark_sync_running :: "uuid \<Rightarrow> (s2db, 'k, bool) io" where
  "mark_sync_running task_id = acquire (update_task_command_running task_id)"

definition sync_success_body :: "uuid \<Rightarrow> uuid \<Rightarrow> SubscriptionTier \<Rightarrow> ModelClass \<Rightarrow> string \<Rightarrow>
    dict \<Rightarrow> int \<Rightarrow> (s2db, 'k, bool) io" where
  "sync_success_body task_id user_id user_tier model_class queue_name result_payload runtime_ms =
     bindE (update_task_command_completed task_id) (\<lambda>status_updated.
     if \<not> status_updated then returnM False else
     bindE (get_credit_reservation task_id) (\<lambda>reservation.
     case reservation of
       None \<Rightarrow> raiseM RuntimeError ''sync reservation missing''
     | Some _ \<Rightarrow>
     bindE (capture_reservation task_id) (\<lambda>captured.
     if \<not> captured then raiseM RuntimeError ''sync reservation capture failed'' else
     bindE (upsert_task_query_view task_id user_id user_tier SYNC model_class COMPLETED
              (Some result_payload) None (Some queue_name) (Some runtime_ms)) (\<lambda>_.
     returnM True))))"

definition finalize_sync_success :: "uuid \<Rightarrow> uuid \<Rightarrow> SubscriptionTier \<Rightarrow> ModelClass \<Rightarrow> string \<Rightarrow>
    dict \<Rightarrow> int \<Rightarrow> (s2db, 'k, bool) io" where
  "finalize_sync_success task_id user_id user_tier model_class queue_name result_payload runtime_ms =
   acquire (transaction (sync_success_body task_id user_id user_tier model_class queue_name result_payload runtime_ms))"

definition sync_failure_body :: "uuid \<Rightarrow> uuid \<Rightarrow> SubscriptionTier \<Rightarrow> ModelClass \<Rightarrow> string \<Rightarrow>
    TaskStatus \<Rightarrow> string \<Rightarrow> (s2db, 'k, bool) io" where
  "sync_failure_body task_id user_id user_tier model_class queue_name status error_message =
     bindE (if status = TIMEOUT then update_task_command_timed_out task_id
            else update_task_command_failed task_id) (\<lambda>status_updated.
     let refund_reason = (if status = TIMEOUT then ''task_timeout_refund''
                          else ''task_failed_refund'') in
     if \<not> status_updated then returnM False else
     bindE (get_credit_reservation task_id) (\<lambda>reservation.
     case reservation of
       None \<Rightarrow> raiseM RuntimeError ''sync reservation missing''
     | Some r \<Rightarrow>
     bindE (release_reservation task_id) (\<lambda>released.
     if \<not> released then raiseM RuntimeError ''sync reservation release failed'' else
     bindE (add_user_credits (cr_user_id r) (cr_amount r)) (\<lambda>updated_balance.
     case updated_balance of
       None \<Rightarrow> raiseM RuntimeError ''sync refund user missing''
     | Some _ \<Rightarrow>
     bindE (insert_credit_transaction (cr_user_id r) (Some task_id) (cr_amount r) refund_reason) (\<lambda>_.
     bindE (upsert_task_query_view task_id user_id user_tier SYNC model_class status None
              (Some error_message) (Some queue_name) None) (\<lambda>_.
     returnM True))))))"

definition finalize_sync_failure :: "uuid \<Rightarrow> uuid \<Rightarrow> SubscriptionTier \<Rightarrow> ModelClass \<Rightarrow> string \<Rightarrow>
    TaskStatus \<Rightarrow> string \<Rightarrow> (s2db, 'k, bool) io" where
  "finalize_sync_failure task_id user_id user_tier model_class queue_name status error_message =
   acquire (transaction (sync_failure_body task_id user_id user_tier model_class queue_name status error_message))"

section \<open>The gates\<close>

definition busy_error :: "exn \<Rightarrow> bool" where
  "busy_error e \<longleftrightarrow> exn_kind e = LockNotAvailableError \<or> exn_kind e = QueryCanceledError"

definition touch_user_credits :: "uuid \<Rightarrow> (s2db, 'k, unit) io" where
  "touch_user_credits user_id = sql (\<lambda>_ d. Inr ((), d\<lparr>users := update_rows (\<lambda>u. us_user_id u = user_id)
     (\<lambda>u. u\<lparr>us_credits := min (us_credits u) (us_credits u)\<rparr>) (users d)\<rparr>))"

definition run_admission_gate :: "(json \<Rightarrow> string) \<Rightarrow> string \<Rightarrow> uuid \<Rightarrow> uuid \<Rightarrow> int \<Rightarrow> string \<Rightarrow> int \<Rightarrow>
    dict option \<Rightarrow> string option \<Rightarrow> string option \<Rightarrow> int option \<Rightarrow>
    (s2db, 'k, AdmissionDecision \<times> string) io" where
  "run_admission_gate rp admission_script_sha user_id task_id cost idempotency_value max_concurrent
     stream_payload request_mode queue_name reservation_ttl_seconds =
   bindE (attempt (execute_admission_transaction rp user_id task_id cost idempotency_value
       max_concurrent stream_payload request_mode queue_name reservation_ttl_seconds)) (\<lambda>outcome.
   case outcome of
     Inr dec \<Rightarrow> returnM (dec, if ad_ok dec then SCRIPT_HASH_PLACEHOLDER else admission_script_sha)
   | Inl e \<Rightarrow>
     if busy_error e then returnM (decision False ''CONCURRENCY'' None, admission_script_sha)
     else if exn_kind e = UniqueViolationError then
       bindE (attempt (acquire (get_task_command_by_idempotency user_id idempotency_value))) (\<lambda>found.
       case found of
         Inr (Some c) \<Rightarrow> returnM (decision False ''IDEMPOTENT'' (Some (uuid_str (tc_task_id c))),
           admission_script_sha)
       | _ \<Rightarrow> returnM (decision False ''ERROR'' None, SCRIPT_HASH_PLACEHOLDER))
     else
       bindE (attempt (acquire (touch_user_credits user_id))) (\<lambda>_.
       returnM (decision False ''ERROR'' None, SCRIPT_HASH_PLACEHOLDER)))"

definition run_batch_admission_gate :: "string \<Rightarrow> uuid \<Rightarrow> SubscriptionTier \<Rightarrow> uuid \<Rightarrow>
    BatchTaskSpec list \<Rightarrow> int \<Rightarrow> int \<Rightarrow> int option \<Rightarrow> string option \<Rightarrow>
    (s2db, 'k, BatchAdmissionResult \<times> string) io" where
  "run_batch_admission_gate admission_script_sha user_id user_tier batch_id tasks max_concurrent
     base_task_cost reservation_ttl_seconds trace_id =
   bindE (attempt (execute_batch_admission_transaction user_id user_tier batch_id tasks
       max_concurrent base_task_cost reservation_ttl_seconds trace_id)) (\<lambda>outcome.
   case outcome of
     Inr res \<Rightarrow> returnM (res, if ba_ok res then SCRIPT_HASH_PLACEHOLDER else admission_script_sha)
   | Inl e \<Rightarrow>
     if busy_error e then returnM (batch_result False ''CONCURRENCY'' [] 0, admission_script_sha)
     else returnM (batch_result False ''ERROR'' [] 0, SCRIPT_HASH_PLACEHOLDER))"

section \<open>Synchronous execution\<close>

type_synonym sync_outcome = "AdmissionDecision \<times> string \<times> SyncExecutionResult option"

definition sync_error_outcome :: sync_outcome where
  "sync_error_outcome = (decision False ''ERROR'' None, SCRIPT_HASH_PLACEHOLDER, None)"

definition sync_terminal_outcome ::
  "TaskStatus \<Rightarrow> dict option \<Rightarrow> string option \<Rightarrow> int option \<Rightarrow> sync_outcome" where
  "sync_terminal_outcome status result error runtime_ms =
     (decision True ''OK'' None, SCRIPT_HASH_PLACEHOLDER,
      Some \<lparr>se_status = status, se_result = result, se_error = error, se_runtime_ms = runtime_ms\<rparr>)"

text \<open>
  \<open>asyncio.wait_for(asyncio.sleep(n), timeout)\<close>, in microseconds.  The timeout is scheduled before
  the sleep, so it also wins when the two are equal.
\<close>

definition sleep_with_timeout :: "int \<Rightarrow> int \<Rightarrow> (s2db, 'k, unit) io" where
  "sleep_with_timeout n timeout =
     (if timeout \<le> n then bindE (sleepM timeout) (\<lambda>_. raiseM TimeoutError [])
      else sleepM n)"

definition execute_sync_runtime :: "uuid \<Rightarrow> uuid \<Rightarrow> SubscriptionTier \<Rightarrow> ModelClass \<Rightarrow> string \<Rightarrow> real \<Rightarrow>
    int \<Rightarrow> int \<Rightarrow> (s2db, 'k, sync_outcome) io" where
  "execute_sync_runtime task_id user_id user_tier model_class queue_name execution_timeout_seconds x y =
   bindE (attempt (
     bindE get_clock (\<lambda>started_at.
     bindE (sleep_with_timeout (microseconds (runtime_seconds_for_model model_class))
              (microseconds (max (1 / 10) execution_timeout_seconds))) (\<lambda>_.
     bindE get_clock (\<lambda>ended_at.
     let runtime_ms = max 1 ((ended_at - started_at) div 1000);
         result_payload = [(''z'', JInt (x + y))] in
     bindE (finalize_sync_success task_id user_id user_tier model_class queue_name result_payload
              runtime_ms) (\<lambda>finalized.
     returnM (if \<not> finalized then sync_error_outcome
              else sync_terminal_outcome COMPLETED (Some result_payload) None (Some runtime_ms))))))))
   (\<lambda>outcome. case outcome of
     Inr res \<Rightarrow> returnM res
   | Inl e \<Rightarrow>
     let status = (if exn_kind e = TimeoutError then TIMEOUT else FAILED);
         error_message = (if exn_kind e = TimeoutError then ''sync_execution_timeout''
                          else ''sync_execution_failed:'' @ exn_text e) in
     bindE (finalize_sync_failure task_id user_id user_tier model_class queue_name status
              error_message) (\<lambda>finalized.
     returnM (if \<not> finalized then sync_error_outcome
              else sync_terminal_outcome status None (Some error_message) None)))"

definition run_sync_submission :: "string \<Rightarrow> uuid \<Rightarrow> SubscriptionTier \<Rightarrow> uuid \<Rightarrow> int \<Rightarrow> int \<Rightarrow>
    ModelClass \<Rightarrow> int \<Rightarrow> string option \<Rightarrow> string \<Rightarrow> int \<Rightarrow> string \<Rightarrow> real \<Rightarrow> int option \<Rightarrow>
    (s2db, 'k, sync_outcome) io" where
  "run_sync_submission admission_script_sha user_id user_tier task_id x y model_class cost
     callback_url idempotency_value max_concurrent queue_name execution_timeout_seconds
     reservation_ttl_seconds =
   bindE (attempt (execute_sync_admission_transaction user_id user_tier task_id x y model_class cost
       callback_url idempotency_value max_concurrent reservation_ttl_seconds)) (\<lambda>outcome.
   case outcome of
     Inl e \<Rightarrow> returnM (if busy_error e
       then (decision False ''CONCURRENCY'' None, admission_script_sha, None)
       else sync_error_outcome)
   | Inr dec \<Rightarrow>
     if \<not> ad_ok dec then returnM (dec, admission_script_sha, None) else
     bindE (mark_sync_running task_id) (\<lambda>marked_running.
     if \<not> marked_running then returnM sync_error_outcome else
     execute_sync_runtime task_id user_id user_tier model_class queue_name
       execution_timeout_seconds x y))"

section \<open>What an admission does\<close>

text \<open>
  The contract of an admission at time \<open>now\<close>: the key \<open>i\<close> and the task \<open>t\<close> are new, the book admits
  the task at the price \<open>n\<close>, nothing is charged, and with it account \<open>u\<close> has at most \<open>m\<close> active tasks.
\<close>

definition admitted :: "int \<Rightarrow> uuid \<Rightarrow> uuid \<Rightarrow> int \<Rightarrow> string \<Rightarrow> int \<Rightarrow> s2db \<Rightarrow> s2db \<Rightarrow> bool" where
  "admitted now u t n i m d d' \<longleftrightarrow> conserves d d' \<and>
     find_by_idempotency d u i = None \<and> task_state d t = None \<and> n \<le> spendable d u \<and>
     book_of d' = book_admit u t n (book_of d) \<and> (\<forall>v. charged d' v = charged d v) \<and>
     active_of now u d' = active_of now u d + 1 \<and> int (active_of now u d') \<le> m"

lemma spendable_find: "find_user d u = Some r \<Longrightarrow> spendable d u = us_credits r"
  by (simp add: spendable_def)

lemma spendable_users: "find_user d' = find_user d \<Longrightarrow> spendable d' u = spendable d u"
  by (simp add: spendable_def)

lemma spendable_eq: "find_user d' = find_user d \<Longrightarrow> spendable d' = spendable d"
  by (simp add: spendable_def fun_eq_iff)

lemma task_state_eq: "find_command d' = find_command d \<Longrightarrow> task_state d' = task_state d"
  by (simp add: task_state_def fun_eq_iff)

lemma task_state_set_credits [simp]: "task_state (set_credits x n d) = task_state d"
  by (simp add: task_state_def fun_eq_iff)

lemma active_of_set_credits [simp]: "active_of now u (set_credits x n d) = active_of now u d"
  by (simp add: active_of_def set_credits_def)

lemma find_by_idempotency_set_credits [simp]:
  "find_by_idempotency (set_credits x n d) u i = find_by_idempotency d u i"
  by (simp add: find_by_idempotency_def set_credits_def)

lemma outbox_append:
  assumes "s2_inv d" "lookup_row oe_event_id (oe_event_id e) (outbox_events d) = None"
    "d' = d\<lparr>outbox_events := outbox_events d @ [e]\<rparr>"
  shows "s2_inv d'" "worth d' u = worth d u" "charged d' u = charged d u"
    "active_of now u d' = active_of now u d" "find_command d' = find_command d"
    "find_user d' = find_user d"
  using assms by (auto simp: s2_inv_def keyed_append worth_def charged_def held_def spendable_def
      find_user_def find_command_def active_of_def fun_eq_iff)

text \<open>Reserving, then placing a task, is an admission.\<close>

lemma admitted_reserve_place:
  assumes inv: "s2_inv (pg w)" "0 \<le> n"
    and user: "find_user (pg w) u = Some r" "n \<le> us_credits r"
    and reserved: "pg w1 = set_credits u (us_credits r - n) (pg w)" "clock w1 = clock w"
    and command: "create_task_command t u tier mode mc x y n cb (Some i) w1 = (Inr v, w2)"
    and reservation: "create_reservation t u n e w2 = (Inr v', w3)"
    and later: "clock w < e" and below: "int (active_of (clock w) u (pg w)) < m"
    and d': "s2_inv d'" "\<And>a. worth d' a = worth (pg w3) a" "\<And>a. charged d' a = charged (pg w3) a"
      "\<And>now a. active_of now a d' = active_of now a (pg w3)" "find_command d' = find_command (pg w3)"
      "find_user d' = find_user (pg w3)"
  shows "admitted (clock w) u t n i m (pg w) d'"
proof -
  note res = reserve_credits_inv [OF inv(1) user(1), of "us_credits r - n", folded reserved(1)]
  have inv1: "s2_inv (pg w1)" using user(2) by (intro res(1)) simp
  note place = place_task [OF inv1 inv(2) command reservation refl refl]
  have worth: "worth d' a = worth (pg w) a" for a
    using d'(2) place(2) [of a] res(2) [of a] user(2) by simp
  have charge: "charged d' a = charged (pg w) a" for a
    using d'(3) place(3) [of a] res(3) [of a] user(2) by simp
  have spend: "spendable d' = (spendable (pg w))(u := spendable (pg w) u - n)"
    using place(5) d'(6) user(1)
    by (simp add: spendable_eq [of d' "pg w1"] reserved(1) spendable_set_credits spendable_find fun_eq_iff)
  have "active_of (clock w) u d' = active_of (clock w) u (pg w) + 1"
    using d'(4) place(4) [of "clock w" u] later reserved(1) by simp
  moreover have "find_by_idempotency (pg w) u i = None" "find_command (pg w) t = None"
    using place(9) place(10) reserved(1) by simp_all
  moreover have "task_state d' = (task_state (pg w))(t := Some (u, n, PENDING))"
    using place(8) task_state_eq [OF d'(5)] reserved(1) by simp
  ultimately show ?thesis
    using worth charge spend below user d'(1)
    by (simp add: admitted_def conserves_def spendable_find book_admit_def book_of_def)
qed

lemma decision_simps [simp]: "ad_ok (decision b s x) = b" "ad_reason (decision b s x) = s"
  "ad_existing_task_id (decision b s x) = x"
  by (simp_all add: decision_def)

lemma create_outbox_frame:
  assumes "s2_inv (pg w)" "create_outbox_event agg ty rk p w = (Inr i, w')"
  shows "s2_inv (pg w')" "worth (pg w') u = worth (pg w) u" "charged (pg w') u = charged (pg w) u"
    "active_of now u (pg w') = active_of now u (pg w)" "find_command (pg w') = find_command (pg w)"
    "find_user (pg w') = find_user (pg w)" "clock w' = clock w"
  using assms(2) by (auto elim!: create_outbox_okE dest: outbox_append [OF assms(1)])

lemma admitted_reserve_place_announce:
  assumes inv: "s2_inv (pg w)" "0 \<le> n"
    and user: "find_user (pg w) u = Some r" "n \<le> us_credits r"
    and reserved: "pg w1 = set_credits u (us_credits r - n) (pg w)" "clock w1 = clock w"
    and command: "create_task_command t u tier mode mc x y n cb (Some i) w1 = (Inr v, w2)"
    and reservation: "create_reservation t u n (reservation_expires_at ttl (clock w2)) w2 = (Inr v', w3)"
    and outbox: "create_outbox_event agg ty rk p w3 = (Inr ev, w4)"
    and below: "int (active_of (clock w) u (pg w)) < m"
  shows "admitted (clock w) u t n i m (pg w) (pg w4)"
proof -
  have "s2_inv (pg w1)" using reserve_credits_inv(1) [OF inv(1) user(1)] user(2) reserved(1) by simp
  then have "s2_inv (pg w3)" by (rule place_task(1) [OF _ inv(2) command reservation refl refl])
  note frame = create_outbox_frame [OF this outbox]
  have "clock w2 = clock w1" using command by (elim create_command_okE)
  then have later: "clock w < reservation_expires_at ttl (clock w2)"
    using reserved(2) reservation_expires_later by simp
  show ?thesis
    using frame by (intro admitted_reserve_place [OF inv user reserved command reservation later below])
qed

lemmas admission_elims = bindE_okE lock_user_okE get_by_idempotency_okE count_active_okE
  reserve_credits_okE

lemma admission_body_refused:
  assumes "admission_body rp user_id task_id cost idem m p rm q ttl w = (Inr dec, w')" "\<not> ad_ok dec"
  shows "pg w' = pg w"
  using assms unfolding admission_body_def
  by (auto elim!: admission_elims simp: Let_def split: if_splits option.splits prod.splits)

lemma admission_body_ok:
  assumes inv: "s2_inv (pg w)" "0 \<le> cost"
    and run: "admission_body rp user_id task_id cost idem m p rm q ttl w = (Inr dec, w')" "ad_ok dec"
  shows "admitted (clock w) user_id task_id cost idem m (pg w) (pg w')"
  using run unfolding admission_body_def
  by (auto elim!: admission_elims simp: Let_def split: if_splits option.splits prod.splits)
    (rule admitted_reserve_place_announce [OF inv]; (assumption | simp))+

lemma admitted_reserve_place_silent:
  assumes inv: "s2_inv (pg w)" "0 \<le> n"
    and user: "find_user (pg w) u = Some r" "n \<le> us_credits r"
    and reserved: "pg w1 = set_credits u (us_credits r - n) (pg w)" "clock w1 = clock w"
    and command: "create_task_command t u tier mode mc x y n cb (Some i) w1 = (Inr v, w2)"
    and reservation: "create_reservation t u n (reservation_expires_at ttl (clock w2)) w2 = (Inr v', w3)"
    and below: "int (active_of (clock w) u (pg w)) < m"
  shows "admitted (clock w) u t n i m (pg w) (pg w3)"
proof -
  have "s2_inv (pg w1)" using reserve_credits_inv(1) [OF inv(1) user(1)] user(2) reserved(1) by simp
  then have w3: "s2_inv (pg w3)" by (rule place_task(1) [OF _ inv(2) command reservation refl refl])
  have "clock w2 = clock w1" using command by (elim create_command_okE)
  then have later: "clock w < reservation_expires_at ttl (clock w2)"
    using reserved(2) reservation_expires_later by simp
  show ?thesis
    using w3 by (intro admitted_reserve_place [OF inv user reserved command reservation later below])
      simp_all
qed

lemma sync_admission_body_refused:
  assumes "sync_admission_body u tier t x y mc cost cb idem m ttl w = (Inr dec, w')" "\<not> ad_ok dec"
  shows "pg w' = pg w"
  using assms unfolding sync_admission_body_def
  by (auto elim!: admission_elims split: if_splits option.splits)

lemma sync_admission_body_ok:
  assumes inv: "s2_inv (pg w)" "0 \<le> cost"
    and run: "sync_admission_body u tier t x y mc cost cb idem m ttl w = (Inr dec, w')" "ad_ok dec"
  shows "admitted (clock w) u t cost idem m (pg w) (pg w')"
  using run unfolding sync_admission_body_def
  by (auto elim!: admission_elims split: if_splits option.splits)
    (rule admitted_reserve_place_silent [OF inv]; (assumption | simp))

text \<open>The loop of a batch places each task in turn.\<close>

definition batch_costs :: "int \<Rightarrow> BatchTaskSpec list \<Rightarrow> int list" where
  "batch_costs base tasks = map (\<lambda>t. task_cost_for_model base (bt_model_class t)) tasks"

lemma batch_loop_ok:
  assumes "s2_inv (pg w)" "batch_loop u tier b base ttl tr k tasks w = (Inr ids, w')"
  shows "s2_inv (pg w') \<and> clock w' = clock w \<and> find_user (pg w') = find_user (pg w) \<and>
    (\<forall>a. worth (pg w') a = worth (pg w) a + (if a = u then batch_total_cost base tasks else 0)) \<and>
    (\<forall>a. charged (pg w') a = charged (pg w) a) \<and>
    active_of (clock w) u (pg w') = active_of (clock w) u (pg w) + length tasks \<and>
    length ids = length tasks \<and> distinct ids \<and> (\<forall>t\<in>set ids. find_command (pg w) t = None) \<and>
    task_state (pg w') =
      (task_state (pg w))(ids [\<mapsto>] map (\<lambda>n. (u, n, PENDING)) (batch_costs base tasks))"
  using assms
proof (induction tasks arbitrary: w k ids)
  case Nil
  then show ?case by (auto simp: batch_total_cost_def batch_costs_def)
next
  case (Cons task tasks)
  let ?cost = "task_cost_for_model base (bt_model_class task)"
  from Cons.prems(2) obtain t w0 w1 w2 w3 q rk pl i ids' where
    fresh: "fresh_uuid w = (Inr t, w0)" and
    command: "create_task_command t u tier BATCH (bt_model_class task) (bt_x task) (bt_y task) ?cost
        (bt_callback_url task) (Some (batch_key b k)) w0 = (Inr (), w1)" and
    reservation: "create_reservation t u ?cost (reservation_expires_at ttl (clock w1)) w1 = (Inr (), w2)" and
    outbox: "create_outbox_event t ''task.submitted'' rk pl w2 = (Inr i, w3)" and
    rest: "batch_loop u tier b base ttl tr (Suc k) tasks w3 = (Inr ids', w')" and
    ids: "ids = t # ids'"
    by (auto elim!: bindE_okE simp: Let_def)
  have cost: "0 \<le> ?cost" using task_cost_pos [of base "bt_model_class task"] by simp
  from fresh have w0: "pg w0 = pg w" "clock w0 = clock w" by (elim fresh_uuid_okE; simp)+
  then have inv0: "s2_inv (pg w0)" using Cons.prems(1) by simp
  note place = place_task [OF inv0 cost command reservation refl refl, unfolded w0]
  note frame = create_outbox_frame [OF place(1) outbox]
  note IH = Cons.IH [OF frame(1) rest]
  have time: "clock w1 = clock w" using command w0 by (elim create_command_okE) simp
  have state: "task_state (pg w3) = (task_state (pg w))(t := Some (u, ?cost, PENDING))"
    using place(8) task_state_eq [OF frame(5)] by simp
  have new: "\<forall>s\<in>set ids'. task_state (pg w3) s = None" using IH by simp
  then have "t \<notin> set ids'" unfolding state by force
  moreover have "\<forall>s\<in>set ids'. find_command (pg w) s = None"
    using new \<open>t \<notin> set ids'\<close> unfolding state by (metis fun_upd_other task_state_None)
  moreover have "find_command (pg w) t = None" by (rule place(10))
  moreover have "task_state (pg w') =
      (task_state (pg w))(ids [\<mapsto>] map (\<lambda>n. (u, n, PENDING)) (batch_costs base (task # tasks)))"
    using IH unfolding state ids batch_costs_def list.map map_upds_Cons by blast
  ultimately show ?case
    using IH frame(2-4,6-) place(2-7) time reservation_expires_later [of "clock w" ttl]
    unfolding ids by (simp add: batch_total_cost_def)
qed

text \<open>The contract of a batch: all of its tasks, in one move.\<close>

definition batch_admitted ::
  "int \<Rightarrow> uuid \<Rightarrow> uuid list \<Rightarrow> int list \<Rightarrow> int \<Rightarrow> s2db \<Rightarrow> s2db \<Rightarrow> bool" where
  "batch_admitted now u ts ns m d d' \<longleftrightarrow> conserves d d' \<and> distinct ts \<and> length ts = length ns \<and>
     (\<forall>t\<in>set ts. task_state d t = None) \<and>
     task_state d' = (task_state d)(ts [\<mapsto>] map (\<lambda>n. (u, n, PENDING)) ns) \<and>
     sum_list ns \<le> spendable d u \<and> spendable d' = (spendable d)(u := spendable d u - sum_list ns) \<and>
     (\<forall>v. charged d' v = charged d v) \<and>
     active_of now u d' = active_of now u d + length ts \<and> int (active_of now u d') \<le> m"

lemma batch_result_simps [simp]: "ba_ok (batch_result b s ts n) = b"
  "ba_reason (batch_result b s ts n) = s" "ba_task_ids (batch_result b s ts n) = ts"
  "ba_total_cost (batch_result b s ts n) = n"
  by (simp_all add: batch_result_def)

lemma batch_body_refused:
  assumes "batch_admission_body u tier b tasks m base ttl tr w = (Inr res, w')" "\<not> ba_ok res"
  shows "pg w' = pg w"
  using assms unfolding batch_admission_body_def
  by (auto elim!: admission_elims simp: Let_def split: if_splits option.splits)

lemma batch_reserve_loop:
  assumes inv: "s2_inv (pg w)"
    and user: "find_user (pg w) u = Some r" "batch_total_cost base tasks \<le> us_credits r"
    and reserved: "pg w1 = set_credits u (us_credits r - batch_total_cost base tasks) (pg w)"
      "clock w1 = clock w"
    and loop: "batch_loop u tier b base ttl tr 0 tasks w1 = (Inr ids, w')"
    and below: "int (active_of (clock w) u (pg w) + length tasks) \<le> m"
  shows "batch_admitted (clock w) u ids (batch_costs base tasks) m (pg w) (pg w')"
proof -
  let ?n = "batch_total_cost base tasks"
  note res = reserve_credits_inv [OF inv user(1), of "us_credits r - ?n", folded reserved(1)]
  have "s2_inv (pg w1)" using user(2) by (intro res(1)) simp
  note L = batch_loop_ok [OF this loop, unfolded reserved(2)]
  have worth: "worth (pg w') a = worth (pg w) a" and charge: "charged (pg w') a = charged (pg w) a" for a
    using L res(2,3) [of a] user(2) by auto
  have spend: "spendable (pg w') = (spendable (pg w))(u := spendable (pg w) u - ?n)"
    using L user(1) by (simp add: spendable_eq [of "pg w'" "pg w1"] reserved(1)
        spendable_set_credits spendable_find fun_eq_iff)
  have active: "active_of (clock w) u (pg w') = active_of (clock w) u (pg w) + length ids"
    using L reserved(1) by simp
  have sum: "sum_list (batch_costs base tasks) = ?n"
    by (simp add: batch_costs_def batch_total_cost_def)
  have tasks: "\<forall>t\<in>set ids. task_state (pg w) t = None" "distinct ids"
      "task_state (pg w') =
         (task_state (pg w))(ids [\<mapsto>] map (\<lambda>n. (u, n, PENDING)) (batch_costs base tasks))"
      "length ids = length tasks" "s2_inv (pg w')" "length (batch_costs base tasks) = length tasks"
    using L reserved(1) by (simp_all add: batch_costs_def)
  show ?thesis
    unfolding batch_admitted_def conserves_def sum
    using tasks worth charge spend active below user by (simp add: spendable_find)
qed

lemma batch_body_ok:
  assumes inv: "s2_inv (pg w)"
    and run: "batch_admission_body u tier b tasks m base ttl tr w = (Inr res, w')" "ba_ok res"
  shows "\<exists>ids. res = batch_result True ''OK'' ids (batch_total_cost base tasks) \<and>
    batch_admitted (clock w) u ids (batch_costs base tasks) m (pg w) (pg w')"
proof -
  from run obtain r w1 ids where
    user: "find_user (pg w) u = Some r" "batch_total_cost base tasks \<le> us_credits r" and
    reserved: "pg w1 = set_credits u (us_credits r - batch_total_cost base tasks) (pg w)"
      "clock w1 = clock w" and
    loop: "batch_loop u tier b base ttl tr 0 tasks w1 = (Inr ids, w')" and
    below: "int (active_of (clock w) u (pg w) + length tasks) \<le> m" and
    res: "res = batch_result True ''OK'' ids (batch_total_cost base tasks)"
    unfolding batch_admission_body_def
    by (auto elim!: admission_elims simp: Let_def split: if_splits option.splits)
  with batch_reserve_loop [OF inv user reserved loop below] show ?thesis by blast
qed

section \<open>What the synchronous settlements do\<close>

lemma sync_success_body_ok:
  assumes inv: "s2_inv (pg w)"
    and run: "sync_success_body t u tier mc q res ms w = (Inr ok, w')"
  shows "if ok then settled COMPLETED t (pg w) (pg w') else pg w' = pg w"
proof (cases ok)
  case True
  with run inv show ?thesis
    unfolding sync_success_body_def status_statements settle_statements
    by (auto elim!: settle_elims split: if_splits option.splits)
      (rule captured_settled [OF inv]; (assumption | simp add: task_active_def s2_inv_def))
next
  case False
  with run inv show ?thesis
    unfolding sync_success_body_def status_statements settle_statements
    by (auto elim!: settle_elims simp: active_status_missed split: if_splits option.splits)
qed

lemma sync_failure_body_ok:
  assumes inv: "s2_inv (pg w)"
    and run: "sync_failure_body t u tier mc q st msg w = (Inr ok, w')" "st = TIMEOUT \<or> st = FAILED"
  shows "if ok then settled st t (pg w) (pg w') else pg w' = pg w"
proof (cases ok)
  case True
  with run inv show ?thesis
    unfolding sync_failure_body_def status_statements settle_statements
    by (auto elim!: settle_elims simp: Let_def split: if_splits option.splits)
      (rule refunded_settled [OF inv],
        (assumption | (simp add: task_active_def s2_inv_def users_set_credits; fail))+)+
next
  case False
  with run inv show ?thesis
    unfolding sync_failure_body_def status_statements settle_statements
    by (auto elim!: settle_elims simp: active_status_missed Let_def split: if_splits option.splits)
qed

section \<open>Under any faults\<close>

lemma admitted_conserves: "admitted now u t n i m d d' \<Longrightarrow> conserves d d'"
  by (simp add: admitted_def)

lemma batch_admitted_conserves: "batch_admitted now u ts n m d d' \<Longrightarrow> conserves d d'"
  by (simp add: batch_admitted_def)

lemma safe_admission [safe_rules]:
  assumes "0 \<le> cost"
  shows "safe (execute_admission_transaction rp u t cost i m p rm q ttl)"
  unfolding execute_admission_transaction_def
proof (intro safe_acquire safe_transaction)
  fix w w' :: "(s2db, 'a) world" and dec
  assume inv: "s2_inv (pg w)" and run: "admission_body rp u t cost i m p rm q ttl w = (Inr dec, w')"
  show "conserves (pg w) (pg w')"
    using admission_body_ok [OF inv assms run] admission_body_refused [OF run] inv
    by (cases "ad_ok dec") (auto intro: admitted_conserves conserves_refl)
qed

lemma safe_batch_admission [safe_rules]:
  "safe (execute_batch_admission_transaction u tier b tasks m base ttl tr)"
  unfolding execute_batch_admission_transaction_def
proof (intro safe_if safe_returnM safe_acquire safe_transaction)
  fix w w' :: "(s2db, 'a) world" and res
  assume inv: "s2_inv (pg w)"
    and run: "batch_admission_body u tier b tasks m base ttl tr w = (Inr res, w')"
  show "conserves (pg w) (pg w')"
    using batch_body_ok [OF inv run] batch_body_refused [OF run] inv
    by (cases "ba_ok res") (auto dest: batch_admitted_conserves intro: conserves_refl)
qed

lemma safe_sync_admission [safe_rules]:
  assumes "0 \<le> cost"
  shows "safe (execute_sync_admission_transaction u tier t x y mc cost cb i m ttl)"
  unfolding execute_sync_admission_transaction_def
proof (intro safe_acquire safe_transaction)
  fix w w' :: "(s2db, 'a) world" and dec
  assume inv: "s2_inv (pg w)"
    and run: "sync_admission_body u tier t x y mc cost cb i m ttl w = (Inr dec, w')"
  show "conserves (pg w) (pg w')"
    using sync_admission_body_ok [OF inv assms run] sync_admission_body_refused [OF run] inv
    by (cases "ad_ok dec") (auto intro: admitted_conserves conserves_refl)
qed

lemma safe_sync_success [safe_rules]: "safe (finalize_sync_success t u tier mc q res ms)"
  unfolding finalize_sync_success_def
proof (intro safe_acquire safe_transaction)
  fix w w' :: "(s2db, 'a) world" and ok
  assume inv: "s2_inv (pg w)" and run: "sync_success_body t u tier mc q res ms w = (Inr ok, w')"
  show "conserves (pg w) (pg w')"
    using sync_success_body_ok [OF inv run] inv
    by (cases ok) (auto intro: settled_conserves conserves_refl)
qed

lemma safe_sync_failure [safe_rules]:
  assumes "st = TIMEOUT \<or> st = FAILED"
  shows "safe (finalize_sync_failure t u tier mc q st msg)"
  unfolding finalize_sync_failure_def
proof (intro safe_acquire safe_transaction)
  fix w w' :: "(s2db, 'a) world" and ok
  assume inv: "s2_inv (pg w)" and run: "sync_failure_body t u tier mc q st msg w = (Inr ok, w')"
  show "conserves (pg w) (pg w')"
    using sync_failure_body_ok [OF inv run assms] inv
    by (cases ok) (auto intro: settled_conserves conserves_refl)
qed

lemma touch_user_same:
  "d\<lparr>users := update_rows P (\<lambda>u. u\<lparr>us_credits := min (us_credits u) (us_credits u)\<rparr>) (users d)\<rparr> = d"
  by (simp add: update_rows_def)

lemma safe_touch_user [safe_rules]: "safe (touch_user_credits u)"
  unfolding touch_user_credits_def touch_user_same
  by (rule safe_sql) (auto intro: conserves_refl)

lemma safe_mark_sync_running [safe_rules]: "safe (mark_sync_running t)"
  unfolding mark_sync_running_def by (intro safe_rules)

lemma safe_sleep_with_timeout [safe_rules]: "safe (sleep_with_timeout n t)"
  unfolding sleep_with_timeout_def by (intro safe_rules)

lemma safe_sync_runtime [safe_rules]: "safe (execute_sync_runtime t u tier mc q T x y)"
  unfolding execute_sync_runtime_def Let_def by (intro safe_rules) simp

section \<open>Properties of the gates\<close>

end
