(* ===== verification/S2_Services.thy ===== *)
theory S2_Services
  imports S2_Statements
begin

text \<open>
  The other two services of Solution 2.  Redis as the code uses it: hashes with an expiry (task
  states, auth cache), sets, lists and sorted sets (webhook events).  RabbitMQ as
  \<open>services/rabbitmq.py\<close> and the consumer wrapper of \<open>workers/worker.py\<close> use it: confirmed publish to
  the topic exchange, \<open>basic_get\<close>, \<open>ack\<close> and \<open>nack\<close>.  A message or value that the code produced
  with \<open>json.dumps\<close> is kept as the value it encodes.
\<close>

section \<open>State\<close>

datatype rval = Plain string | Dumped json

record Message =
  mg_routing_key :: string
  mg_message_id :: "string option"
  mg_body :: jtext

record s2kv =
  rd_hashes :: "(string \<times> (string \<times> rval) list) list"
  rd_sets :: "(string \<times> string list) list"
  rd_ints :: "(string \<times> int) list"
  rd_expiry :: "(string \<times> int) list"
  rd_lists :: "(string \<times> jtext list) list"
  rd_zsets :: "(string \<times> (jtext \<times> int) list) list"
  mq_queues :: "(string \<times> Message list) list"
  mq_unacked :: "(nat \<times> string \<times> Message) list"
  mq_next_tag :: nat

type_synonym 'a app = "(s2db, s2kv, 'a) io"

definition assoc :: "'v \<Rightarrow> ('k \<times> 'v) list \<Rightarrow> 'k \<Rightarrow> 'v" where
  "assoc dflt xs k = (case map_of xs k of None \<Rightarrow> dflt | Some v \<Rightarrow> v)"

lemma assoc_update [simp]: "assoc d (AList.update k v xs) j = (if j = k then v else assoc d xs j)"
  by (simp add: assoc_def AList.update_conv')

lemma assoc_delete [simp]: "assoc d (AList.delete k xs) j = (if j = k then d else assoc d xs j)"
  by (simp add: assoc_def AList.delete_conv')

section \<open>Redis\<close>

text \<open>
  A key past its expiry is dropped before a command sees it.  Only hashes, sets and the integers
  of \<open>SET\<close> and \<open>INCR\<close> are given an expiry; the webhook lists and the schedule have none.
\<close>

definition expired :: "int \<Rightarrow> string \<Rightarrow> s2kv \<Rightarrow> bool" where
  "expired now key k = (case map_of (rd_expiry k) key of None \<Rightarrow> False | Some t \<Rightarrow> t \<le> now)"

definition drop_key :: "string \<Rightarrow> s2kv \<Rightarrow> s2kv" where
  "drop_key key k = k\<lparr>rd_hashes := AList.delete key (rd_hashes k), rd_sets := AList.delete key (rd_sets k),
     rd_ints := AList.delete key (rd_ints k), rd_expiry := AList.delete key (rd_expiry k)\<rparr>"

definition sweep :: "int \<Rightarrow> string \<Rightarrow> s2kv \<Rightarrow> s2kv" where
  "sweep now key k = (if expired now key k then drop_key key k else k)"

definition has_key :: "string \<Rightarrow> s2kv \<Rightarrow> bool" where
  "has_key key k \<longleftrightarrow> assoc [] (rd_hashes k) key \<noteq> [] \<or> assoc [] (rd_sets k) key \<noteq> [] \<or>
     map_of (rd_ints k) key \<noteq> None"

definition redis :: "string \<Rightarrow> (int \<Rightarrow> s2kv \<Rightarrow> 'a \<times> s2kv) \<Rightarrow> 'a app" where
  "redis key f = remote (\<lambda>now k. Inr (f now (sweep now key k)))"

lemma redis_nofault [nofault_simps]:
  "faults w = [] \<Longrightarrow> redis key f w = (case f (clock w) (sweep (clock w) key (kv w)) of (a, k) \<Rightarrow>
      (Inr a, w\<lparr>kv := k\<rparr>))"
  by (simp add: redis_def remote_nofault split: prod.split)

lemma bindE_redis_nofault [nofault_simps]:
  "faults w = [] \<Longrightarrow> bindE (redis key f) g w = (case f (clock w) (sweep (clock w) key (kv w)) of (a, k) \<Rightarrow>
      g a (w\<lparr>kv := k\<rparr>))"
  by (simp add: bindE_def redis_nofault split: prod.split)

lemma sweep_live [simp]: "\<not> expired now key k \<Longrightarrow> sweep now key k = k"
  by (simp add: sweep_def)

lemma expired_frame [simp]:
  "expired now key (k\<lparr>rd_hashes := h\<rparr>) = expired now key k"
  "expired now key (k\<lparr>rd_sets := s\<rparr>) = expired now key k"
  "expired now key (k\<lparr>rd_ints := n\<rparr>) = expired now key k"
  by (simp_all add: expired_def)

lemma not_expired_sweep [simp]: "\<not> expired now key (sweep now key k)"
  by (simp add: sweep_def) (simp add: drop_key_def expired_def AList.delete_conv')

definition redis_hset :: "string \<Rightarrow> (string \<times> rval) list \<Rightarrow> unit app" where
  "redis_hset key mapping = redis key (\<lambda>_ k. ((), k\<lparr>rd_hashes := AList.update key
     (fold (\<lambda>(f, v). AList.update f v) mapping (assoc [] (rd_hashes k) key)) (rd_hashes k)\<rparr>))"

definition redis_hgetall :: "string \<Rightarrow> (string \<times> rval) list app" where
  "redis_hgetall key = redis key (\<lambda>_ k. (assoc [] (rd_hashes k) key, k))"

definition redis_delete :: "string \<Rightarrow> int app" where
  "redis_delete key = redis key (\<lambda>_ k. (if has_key key k then 1 else 0, drop_key key k))"

definition redis_expire :: "string \<Rightarrow> int \<Rightarrow> unit app" where
  "redis_expire key ttl = redis key (\<lambda>now k. ((),
     if \<not> has_key key k then k
     else if ttl \<le> 0 then drop_key key k
     else k\<lparr>rd_expiry := AList.update key (now + seconds ttl) (rd_expiry k)\<rparr>))"

definition redis_set_ex :: "string \<Rightarrow> int \<Rightarrow> int \<Rightarrow> unit app" where
  "redis_set_ex key v ttl = redis key (\<lambda>now k. ((),
     (drop_key key k)\<lparr>rd_ints := AList.update key v (rd_ints k),
       rd_expiry := AList.update key (now + seconds ttl) (rd_expiry k)\<rparr>))"

definition redis_incr :: "string \<Rightarrow> int app" where
  "redis_incr key = redis key (\<lambda>_ k. let n = assoc 0 (rd_ints k) key + 1
     in (n, k\<lparr>rd_ints := AList.update key n (rd_ints k)\<rparr>))"

definition redis_sadd :: "string \<Rightarrow> string \<Rightarrow> unit app" where
  "redis_sadd key member = redis key (\<lambda>_ k. ((),
     k\<lparr>rd_sets := AList.update key (List.insert member (assoc [] (rd_sets k) key)) (rd_sets k)\<rparr>))"

definition redis_sismember :: "string \<Rightarrow> string \<Rightarrow> bool app" where
  "redis_sismember key member = redis key (\<lambda>_ k. (List.member (assoc [] (rd_sets k) key) member, k))"

text \<open>\<open>scan_iter(match="task:*")\<close>: the keys that are there throughout the scan.\<close>

definition redis_scan_tasks :: "string list app" where
  "redis_scan_tasks = remote (\<lambda>now k. Inr (filter (\<lambda>key. take 5 key = ''task:'' \<and> \<not> expired now key k \<and>
     has_key key k) (remdups (map fst (rd_hashes k))), k))"

definition redis_rpush :: "string \<Rightarrow> jtext \<Rightarrow> unit app" where
  "redis_rpush key v = remote (\<lambda>_ k. Inr ((),
     k\<lparr>rd_lists := AList.update key (assoc [] (rd_lists k) key @ [v]) (rd_lists k)\<rparr>))"

definition redis_lpush :: "string \<Rightarrow> jtext \<Rightarrow> unit app" where
  "redis_lpush key v = remote (\<lambda>_ k. Inr ((),
     k\<lparr>rd_lists := AList.update key (v # assoc [] (rd_lists k) key) (rd_lists k)\<rparr>))"

text \<open>\<open>LTRIM key -n -1\<close>: the last \<open>n\<close> elements stay.\<close>

definition redis_ltrim_last :: "string \<Rightarrow> nat \<Rightarrow> unit app" where
  "redis_ltrim_last key n = remote (\<lambda>_ k. let xs = assoc [] (rd_lists k) key
     in Inr ((), k\<lparr>rd_lists := AList.update key (drop (length xs - n) xs) (rd_lists k)\<rparr>))"

definition redis_llen :: "string \<Rightarrow> nat app" where
  "redis_llen key = remote (\<lambda>_ k. Inr (length (assoc [] (rd_lists k) key), k))"

text \<open>\<open>BLPOP\<close> on a list that stays empty for the whole timeout returns nothing.\<close>

definition redis_blpop :: "string \<Rightarrow> jtext option app" where
  "redis_blpop key = remote (\<lambda>_ k. case assoc [] (rd_lists k) key of
       [] \<Rightarrow> Inr (None, k)
     | x # xs \<Rightarrow> Inr (Some x, k\<lparr>rd_lists := AList.update key xs (rd_lists k)\<rparr>))"

definition redis_zadd :: "string \<Rightarrow> jtext \<Rightarrow> int \<Rightarrow> unit app" where
  "redis_zadd key member score = remote (\<lambda>_ k. Inr ((),
     k\<lparr>rd_zsets := AList.update key (AList.update member score (assoc [] (rd_zsets k) key)) (rd_zsets k)\<rparr>))"

text \<open>Members of equal score are in the order of their insertion here, of their texts in Redis.\<close>

definition redis_zrangebyscore :: "string \<Rightarrow> int \<Rightarrow> nat \<Rightarrow> jtext list app" where
  "redis_zrangebyscore key bound num = remote (\<lambda>_ k. Inr (take num (map fst
     (sort_key snd (filter (\<lambda>e. snd e \<le> bound) (assoc [] (rd_zsets k) key)))), k))"

definition redis_zrem :: "string \<Rightarrow> jtext \<Rightarrow> bool app" where
  "redis_zrem key member = remote (\<lambda>_ k. let z = assoc [] (rd_zsets k) key
     in Inr (map_of z member \<noteq> None, k\<lparr>rd_zsets := AList.update key (AList.delete member z) (rd_zsets k)\<rparr>))"

definition redis_zcard :: "string \<Rightarrow> nat app" where
  "redis_zcard key = remote (\<lambda>_ k. Inr (length (assoc [] (rd_zsets k) key), k))"

definition task_state_key :: "uuid \<Rightarrow> string" where
  "task_state_key task_id = ''task:'' @ uuid_str task_id"

section \<open>RabbitMQ\<close>

definition enqueue_message :: "Message \<Rightarrow> string \<Rightarrow> s2kv \<Rightarrow> s2kv" where
  "enqueue_message m q k =
     k\<lparr>mq_queues := AList.update q (assoc [] (mq_queues k) q @ [m]) (mq_queues k)\<rparr>"

text \<open>
  \<open>RabbitMQRelay.publish\<close> with confirms and the mandatory flag: a key that no queue is bound to is
  an \<open>UnroutableError\<close>.  \<open>matches\<close> is the broker's comparison of patterns and keys.
\<close>

definition relay_publish :: "(string list \<Rightarrow> string list \<Rightarrow> bool) \<Rightarrow> string \<Rightarrow> string \<Rightarrow> dict \<Rightarrow> unit app" where
  "relay_publish matches event_id routing_key payload = remote (\<lambda>_ k.
     let m = \<lparr>mg_routing_key = routing_key, mg_message_id = Some event_id,
              mg_body = Decoded (JObj payload)\<rparr>;
         qs = routed_queues matches routing_key
     in if qs = [] then Inl (Exn OtherException ''UnroutableError'')
        else Inr ((), fold (enqueue_message m) qs k))"

record RabbitMQDelivery =
  rd_queue_name :: string
  rd_routing_key :: string
  rd_delivery_tag :: nat
  rd_message_id :: "string option"
  rd_body :: jtext

definition basic_get :: "string \<Rightarrow> RabbitMQDelivery option app" where
  "basic_get q = remote (\<lambda>_ k. case assoc [] (mq_queues k) q of
       [] \<Rightarrow> Inr (None, k)
     | m # ms \<Rightarrow> Inr (Some \<lparr>rd_queue_name = q, rd_routing_key = mg_routing_key m,
           rd_delivery_tag = mq_next_tag k,
           rd_message_id = (case mg_message_id m of Some s \<Rightarrow> if s = [] then None else Some s | None \<Rightarrow> None),
           rd_body = mg_body m\<rparr>,
         k\<lparr>mq_queues := AList.update q ms (mq_queues k),
           mq_unacked := (mq_next_tag k, q, m) # mq_unacked k, mq_next_tag := Suc (mq_next_tag k)\<rparr>))"

fun get_one :: "string list \<Rightarrow> RabbitMQDelivery option app" where
  "get_one [] = returnM None"
| "get_one (q # qs) = bindE (basic_get q) (\<lambda>r. case r of None \<Rightarrow> get_one qs | Some d \<Rightarrow> returnM (Some d))"

definition ack :: "nat \<Rightarrow> unit app" where
  "ack tag = remote (\<lambda>_ k. Inr ((), k\<lparr>mq_unacked := filter (\<lambda>u. fst u \<noteq> tag) (mq_unacked k)\<rparr>))"

definition nack_requeue :: "nat \<Rightarrow> unit app" where
  "nack_requeue tag = remote (\<lambda>_ k. Inr ((), case map_of (mq_unacked k) tag of
       None \<Rightarrow> k
     | Some (q, m) \<Rightarrow> k\<lparr>mq_queues := AList.update q (m # assoc [] (mq_queues k) q) (mq_queues k),
         mq_unacked := filter (\<lambda>u. fst u \<noteq> tag) (mq_unacked k)\<rparr>))"

definition queue_depth :: "string \<Rightarrow> nat app" where
  "queue_depth q = remote (\<lambda>_ k. Inr (length (assoc [] (mq_queues k) q), k))"

fun queue_depths :: "string list \<Rightarrow> (string \<times> nat) list app" where
  "queue_depths [] = returnM []"
| "queue_depths (q # qs) = bindE (queue_depth q) (\<lambda>n.
     bindE (queue_depths qs) (\<lambda>ds. returnM ((q, n) # ds)))"

lemma redis_runs:
  "faults w = [] \<Longrightarrow> \<exists>k. redis_hset key mapping w = (Inr (), w\<lparr>kv := k\<rparr>)"
  "faults w = [] \<Longrightarrow> \<exists>k. redis_expire key ttl w = (Inr (), w\<lparr>kv := k\<rparr>)"
  by (auto simp: redis_hset_def redis_expire_def redis_nofault)

text \<open>None of these touches the database.\<close>

lemmas service_defs = redis_def redis_hset_def redis_hgetall_def redis_delete_def redis_expire_def
  redis_set_ex_def redis_incr_def redis_sadd_def redis_sismember_def redis_scan_tasks_def
  redis_rpush_def redis_lpush_def redis_ltrim_last_def redis_llen_def redis_blpop_def redis_zadd_def
  redis_zrangebyscore_def redis_zrem_def redis_zcard_def relay_publish_def basic_get_def queue_depth_def
  ack_def nack_requeue_def

lemma safe_services [safe_rules]:
  "safe (redis_hset key mapping)" "safe (redis_hgetall key)" "safe (redis_delete key)"
  "safe (redis_expire key ttl)" "safe (redis_set_ex key v ttl)" "safe (redis_incr key)"
  "safe (redis_sadd key member)" "safe (redis_sismember key member)" "safe redis_scan_tasks"
  "safe (redis_rpush key x)" "safe (redis_lpush key x)" "safe (redis_ltrim_last key n)"
  "safe (redis_llen key)" "safe (redis_blpop key)" "safe (redis_zadd key x i)"
  "safe (redis_zrangebyscore key i n)" "safe (redis_zrem key x)" "safe (redis_zcard key)"
  "safe (relay_publish matches eid rk p)" "safe (basic_get q)" "safe (queue_depth q)" "safe (ack tag)"
  "safe (nack_requeue tag)"
  unfolding service_defs by (rule safe_remote)+

lemma keeps_services [keeps_rules]:
  "keeps I (redis_hset key mapping)" "keeps I (redis_hgetall key)" "keeps I (redis_delete key)"
  "keeps I (redis_expire key ttl)" "keeps I (redis_set_ex key v ttl)" "keeps I (redis_incr key)"
  "keeps I (redis_sadd key member)" "keeps I (redis_sismember key member)" "keeps I redis_scan_tasks"
  "keeps I (redis_rpush key x)" "keeps I (redis_lpush key x)" "keeps I (redis_ltrim_last key n)"
  "keeps I (redis_llen key)" "keeps I (redis_blpop key)" "keeps I (redis_zadd key x i)"
  "keeps I (redis_zrangebyscore key i n)" "keeps I (redis_zrem key x)" "keeps I (redis_zcard key)"
  "keeps I (relay_publish matches eid rk p)" "keeps I (basic_get q)" "keeps I (queue_depth q)"
  "keeps I (ack tag)" "keeps I (nack_requeue tag)"
  unfolding service_defs by (rule keeps_remote)+

lemma safe_loops [safe_rules]: "safe (get_one qs)" "safe (queue_depths qs)"
  by (induction qs) (auto intro!: safe_rules)

lemma keeps_loops [keeps_rules]: "keeps I (get_one qs)" "keeps I (queue_depths qs)"
  by (induction qs) (auto intro!: keeps_rules)

end
