(* ===== verification/S2_Demo.thy ===== *)
theory S2_Demo
  imports S2_Services
begin

text \<open>
  Databases for the witnesses: one enterprise account with 500 credits and an administrator, first
  without tasks, then with one pending task of the account; and worlds around them with a supply
  of identifiers, with and without Redis and the broker.
\<close>

definition demo_db :: s2db where
  "demo_db = \<lparr>users =
      [\<lparr>us_api_key = ''key-alice'', us_user_id = 1, us_name = ''alice'', us_role = USER,
        us_tier = ENTERPRISE, us_credits = 500\<rparr>,
       \<lparr>us_api_key = ''key-admin'', us_user_id = 2, us_name = ''admin'', us_role = ADMIN,
        us_tier = ENTERPRISE, us_credits = 1000\<rparr>],
     task_commands = [], credit_reservations = [], outbox_events = [], inbox_events = [],
     task_query_view = [], credit_transactions = [], webhook_subscriptions = [],
     webhook_dead_letters = [], token_revocations = [], api_keys = [], legacy_tasks = []\<rparr>"

definition demo_world :: "fault list \<Rightarrow> (s2db, unit) world" where
  "demo_world fs = \<lparr>pg = demo_db, kv = (), clock = 1700000000000000, faults = fs,
     entropy = [11, 12, 13, 14, 15, 16]\<rparr>"

definition demo_payload :: dict where
  "demo_payload = [(''x'', JInt 3), (''y'', JInt 4), (''mode'', JStr ''async''),
     (''tier'', JStr ''enterprise''), (''model_class'', JStr ''small'')]"

lemma demo_inv: "s2_inv demo_db"
  by (simp add: s2_inv_def ledger_ok_def idempotency_ok_def demo_db_def keyed_def)


definition demo_pending :: s2db where
  "demo_pending = demo_db
     \<lparr>users := [\<lparr>us_api_key = ''key-alice'', us_user_id = 1, us_name = ''alice'', us_role = USER,
        us_tier = ENTERPRISE, us_credits = 490\<rparr>,
       \<lparr>us_api_key = ''key-admin'', us_user_id = 2, us_name = ''admin'', us_role = ADMIN,
        us_tier = ENTERPRISE, us_credits = 1000\<rparr>],
      task_commands := [\<lparr>tc_task_id = 7, tc_user_id = 1, tc_tier = ENTERPRISE, tc_mode = ASYNC,
        tc_model_class = SMALL, tc_status = PENDING, tc_x = 3, tc_y = 4, tc_cost = 10,
        tc_callback_url = None, tc_idempotency_key = Some ''k'', tc_created_at = 1700000000000000,
        tc_updated_at = 1700000000000000\<rparr>],
      credit_reservations := [\<lparr>cr_reservation_id = 8, cr_task_id = 7, cr_user_id = 1, cr_amount = 10,
        cr_state = RESERVED, cr_expires_at = 1700000300000000, cr_created_at = 1700000000000000,
        cr_updated_at = 1700000000000000\<rparr>]\<rparr>"

definition demo_kv :: s2kv where
  "demo_kv = \<lparr>rd_hashes = [], rd_sets = [], rd_ints = [], rd_expiry = [], rd_lists = [], rd_zsets = [],
     mq_queues = [], mq_unacked = [], mq_next_tag = 1\<rparr>"

definition demo_app :: "s2db \<Rightarrow> fault list \<Rightarrow> (s2db, s2kv) world" where
  "demo_app d fs = \<lparr>pg = d, kv = demo_kv, clock = 1700000000000000, faults = fs,
     entropy = [11, 12, 13, 14, 15, 16]\<rparr>"

lemma demo_app_simps [simp]:
  "pg (demo_app d fs) = d" "kv (demo_app d fs) = demo_kv" "faults (demo_app d fs) = fs"
  "clock (demo_app d fs) = 1700000000000000" "entropy (demo_app d fs) = [11, 12, 13, 14, 15, 16]"
  by (simp_all add: demo_app_def)

lemma demo_pending_inv: "s2_inv demo_pending"
  by (simp add: s2_inv_def ledger_ok_def idempotency_ok_def demo_pending_def demo_db_def keyed_def
      reserved_as_def commanded_as_def)

end
