(* ===== verification/S2_Gates.thy ===== *)
theory S2_Gates
  imports S2_Billing S2_Demo
begin

text \<open>
  What the callers of \<open>services/billing.py\<close> rely on: the admission gates answer under any faults,
  their answers are true of the database, and an admissible request is admitted when nothing
  fails.  The witnesses run the gates on a database with one user.
\<close>

section \<open>Answers under faults\<close>

definition gate_reasons :: "string list" where
  "gate_reasons = [''OK'', ''IDEMPOTENT'', ''CONCURRENCY'', ''INSUFFICIENT'', ''ERROR'']"

text \<open>
  \<open>admission_answer\<close>: what a decision says about the database before and after.  A refusal leaves
  it alone, or the commit's answer was lost and the admission is there all the same.
\<close>

definition admission_answer :: "int \<Rightarrow> uuid \<Rightarrow> uuid \<Rightarrow> int \<Rightarrow> string \<Rightarrow> int \<Rightarrow> s2db \<Rightarrow> s2db \<Rightarrow>
    AdmissionDecision \<Rightarrow> bool" where
  "admission_answer now u t n i m d d' dec \<longleftrightarrow>
     List.member gate_reasons (ad_reason dec) \<and> (ad_ok dec \<longleftrightarrow> ad_reason dec = ''OK'') \<and>
     (if ad_ok dec then admitted now u t n i m d d'
      else d' = d \<or> admitted now u t n i m d d') \<and>
     (ad_reason dec = ''INSUFFICIENT'' \<longrightarrow> spendable d u < n) \<and>
     (ad_reason dec = ''IDEMPOTENT'' \<longrightarrow> (\<exists>c. find_by_idempotency d' u i = Some c \<and>
        ad_existing_task_id dec = Some (uuid_str (tc_task_id c))))"

lemma reserve_credits_None:
  assumes "reserve_user_credits u n w = (Inr None, w')"
  shows "find_user (pg w) u = None \<or> spendable (pg w) u < n"
  using assms unfolding reserve_user_credits_def spendable_def
  by (elim sql_okE) (auto split: if_splits option.splits)

lemma admission_body_answer:
  assumes inv: "s2_inv (pg w)" "0 \<le> n"
    and run: "admission_body rp u t n i m p rm q ttl w = (Inr dec, w')"
  shows "admission_answer (clock w) u t n i m (pg w) (pg w') dec"
proof -
  have "(ad_ok dec \<longleftrightarrow> ad_reason dec = ''OK'') \<and> List.member gate_reasons (ad_reason dec) \<and>
      (ad_reason dec = ''INSUFFICIENT'' \<longrightarrow> spendable (pg w) u < n) \<and>
      (ad_reason dec = ''IDEMPOTENT'' \<longrightarrow> (\<exists>c. find_by_idempotency (pg w) u i = Some c \<and>
        ad_existing_task_id dec = Some (uuid_str (tc_task_id c))))"
    using run unfolding admission_body_def
    by (auto elim!: bindE_okE lock_user_okE get_by_idempotency_okE count_active_okE
        dest!: reserve_credits_None simp: Let_def gate_reasons_def
        split: if_splits option.splits prod.splits)
  then show ?thesis
    using admission_body_ok [OF inv run] admission_body_refused [OF run]
    by (auto simp: admission_answer_def)
qed

lemma admission_tx_answer:
  assumes inv: "s2_inv (pg w)" "0 \<le> n"
    and run: "execute_admission_transaction rp u t n i m p rm q ttl w = (r, w')"
  shows "case r of Inr dec \<Rightarrow> admission_answer (clock w) u t n i m (pg w) (pg w') dec
    | Inl e \<Rightarrow> pg w' = pg w \<or> admitted (clock w) u t n i m (pg w) (pg w')"
  using run [unfolded execute_admission_transaction_def]
proof (cases rule: in_transaction)
  case (ran dec fs w1)
  have "admission_answer (clock w) u t n i m (pg w) (pg w1) dec"
    using admission_body_answer [OF _ inv(2) ran(1)] inv(1) by simp
  with ran(2,3) show ?thesis by (auto simp: admission_answer_def split: if_splits)
qed auto

lemma acquire_read_pg:
  assumes "\<And>d. keeps (\<lambda>x. x = d) m"
  shows "pg (snd (acquire m w)) = pg w"
  by (rule keeps_pg) (intro keeps_acquire assms)

lemma recovery_read:
  assumes "attempt (acquire (get_task_command_by_idempotency u i)) w = (Inr found, w')"
  shows "pg w' = pg w" "found = Inr (Some c) \<Longrightarrow> find_by_idempotency (pg w) u i = Some c"
proof -
  have run: "acquire (get_task_command_by_idempotency u i) w = (found, w')"
    using assms by simp
  have "pg (snd (acquire (get_task_command_by_idempotency u i) w)) = pg w"
    unfolding get_task_command_by_idempotency_def
    by (intro acquire_read_pg keeps_sql_read)
  with run show "pg w' = pg w" by simp
  assume "found = Inr (Some c)"
  with run obtain fs where "get_task_command_by_idempotency u i (w\<lparr>faults := fs\<rparr>) = (Inr (Some c), w')"
    by (auto elim!: acquire_okE)
  then show "find_by_idempotency (pg w) u i = Some c"
    by (elim get_by_idempotency_okE) simp
qed

lemma touch_user_pg: "pg (snd (attempt (acquire (touch_user_credits u)) w)) = pg w"
proof (rule keeps_pg)
  fix d
  have "keeps (\<lambda>x. x = d) (touch_user_credits u)" for u
    unfolding touch_user_credits_def touch_user_same by (rule keeps_sql) auto
  then show "keeps (\<lambda>x. x = d) (attempt (acquire (touch_user_credits u)))"
    by (intro keeps_attempt keeps_acquire)
qed

lemma gate_lost:
  assumes "pg w1 = pg w \<or> admitted (clock w) u t n i m (pg w) (pg w1)" "pg w' = pg w1"
    "s = ''CONCURRENCY'' \<or> s = ''ERROR''"
  shows "admission_answer (clock w) u t n i m (pg w) (pg w') (decision False s None)"
  using assms by (auto simp: admission_answer_def gate_reasons_def)

lemma run_admission_gate_answer:
  assumes inv: "s2_inv (pg w)" "0 \<le> n"
    and run: "run_admission_gate rp sha u t n i m p rm q ttl w = (r, w')"
  shows "\<exists>dec s. r = Inr (dec, s) \<and> admission_answer (clock w) u t n i m (pg w) (pg w') dec"
proof -
  obtain x w1 where tx: "execute_admission_transaction rp u t n i m p rm q ttl w = (x, w1)"
    by fastforce
  note answer = admission_tx_answer [OF inv tx]
  show ?thesis
  proof (cases x)
    case (Inr dec)
    with run tx answer show ?thesis
      by (auto simp: run_admission_gate_def bindE_attempt returnM_def)
  next
    case (Inl e)
    with answer have lost: "pg w1 = pg w \<or> admitted (clock w) u t n i m (pg w) (pg w1)" by simp
    consider "busy_error e" | "\<not> busy_error e" "exn_kind e = UniqueViolationError"
      | "\<not> busy_error e" "exn_kind e \<noteq> UniqueViolationError" by blast
    then show ?thesis
    proof cases
      case 1
      with run tx Inl gate_lost [OF lost refl] show ?thesis
        by (auto simp: run_admission_gate_def bindE_attempt returnM_def)
    next
      case 2
      obtain found w2 where rec: "attempt (acquire (get_task_command_by_idempotency u i)) w1 = (Inr found, w2)"
        by (metis attempt_run)
      note read = recovery_read [OF rec]
      from run tx Inl 2 rec have gate: "(case found of
         Inr (Some c) \<Rightarrow> returnM (decision False ''IDEMPOTENT'' (Some (uuid_str (tc_task_id c))), sha)
       | _ \<Rightarrow> returnM (decision False ''ERROR'' None, SCRIPT_HASH_PLACEHOLDER)) w2 = (r, w')"
        by (simp add: run_admission_gate_def bindE_attempt attempt_run)
      show ?thesis
      proof (cases "\<exists>c. found = Inr (Some c)")
        case True
        then obtain c where c: "found = Inr (Some c)" by blast
        with gate read lost show ?thesis
          by (auto simp: returnM_def admission_answer_def gate_reasons_def)
      next
        case False
        then have "r = Inr (decision False ''ERROR'' None, SCRIPT_HASH_PLACEHOLDER) \<and> w' = w2"
          using gate by (auto simp: returnM_def split: sum.splits option.splits)
        with gate_lost [OF lost read(1)] show ?thesis by blast
      qed
    next
      case 3
      with run tx Inl have "r = Inr (decision False ''ERROR'' None, SCRIPT_HASH_PLACEHOLDER) \<and>
          w' = snd (attempt (acquire (touch_user_credits u)) w1)"
        by (auto simp: run_admission_gate_def bindE_attempt returnM_def bindE_def attempt_def)
      with gate_lost [OF lost] touch_user_pg [of u w1] show ?thesis by blast
    qed
  qed
qed

section \<open>Batches\<close>

definition batch_answer :: "int \<Rightarrow> uuid \<Rightarrow> int list \<Rightarrow> int \<Rightarrow> s2db \<Rightarrow> s2db \<Rightarrow> BatchAdmissionResult \<Rightarrow> bool" where
  "batch_answer now u ns m d d' res \<longleftrightarrow> (ba_ok res \<longleftrightarrow> ba_reason res = ''OK'') \<and>
     (if ba_ok res then batch_admitted now u (ba_task_ids res) ns m d d' \<and> ba_total_cost res = sum_list ns
      else d' = d \<or> (\<exists>ts. batch_admitted now u ts ns m d d'))"

lemma batch_total_sum: "batch_total_cost base tasks = sum_list (batch_costs base tasks)"
  by (simp add: batch_total_cost_def batch_costs_def)

lemma batch_refused_reason:
  assumes "batch_admission_body u tier b tasks m base ttl tr w = (Inr res, w')"
  shows "ba_ok res \<longleftrightarrow> ba_reason res = ''OK''"
  using assms unfolding batch_admission_body_def
  by (auto elim!: admission_elims simp: Let_def split: if_splits option.splits)

lemma batch_tx_answer:
  assumes inv: "s2_inv (pg w)"
    and run: "execute_batch_admission_transaction u tier b tasks m base ttl tr w = (r, w')"
  shows "case r of Inr res \<Rightarrow> batch_answer (clock w) u (batch_costs base tasks) m (pg w) (pg w') res
    | Inl e \<Rightarrow> pg w' = pg w \<or> (\<exists>ts. batch_admitted (clock w) u ts (batch_costs base tasks) m (pg w) (pg w'))"
proof (cases "tasks = []")
  case True
  with run show ?thesis
    by (auto simp: execute_batch_admission_transaction_def returnM_def batch_answer_def)
next
  case False
  with run have "acquire (transaction (batch_admission_body u tier b tasks m base ttl tr)) w = (r, w')"
    by (simp add: execute_batch_admission_transaction_def)
  then show ?thesis
  proof (cases rule: in_transaction)
    case (ran res fs w1)
    note body = batch_body_ok [OF _ ran(1)] batch_body_refused [OF ran(1)] batch_refused_reason [OF ran(1)]
    have "batch_answer (clock w) u (batch_costs base tasks) m (pg w) (pg w1) res"
      using body inv by (auto simp: batch_answer_def batch_total_sum)
    with ran(2,3) show ?thesis by (auto simp: batch_answer_def split: if_splits)
  qed auto
qed

lemma run_batch_gate_answer:
  assumes inv: "s2_inv (pg w)"
    and run: "run_batch_admission_gate sha u tier b tasks m base ttl tr w = (r, w')"
  shows "\<exists>res s. r = Inr (res, s) \<and> batch_answer (clock w) u (batch_costs base tasks) m (pg w) (pg w') res"
proof -
  obtain x w1 where tx: "execute_batch_admission_transaction u tier b tasks m base ttl tr w = (x, w1)"
    by fastforce
  note answer = batch_tx_answer [OF inv tx]
  show ?thesis
    using run tx answer
    by (cases x) (auto simp: run_batch_admission_gate_def bindE_attempt returnM_def batch_answer_def
        split: if_splits)
qed

section \<open>Synchronous execution\<close>

lemma mark_sync_running_ok:
  assumes inv: "s2_inv (pg w)" and run: "mark_sync_running t w = (Inr True, w')"
  shows "started t (pg w) (pg w')"
proof -
  from run obtain fs where run: "update_task_command_running t (w\<lparr>faults := fs\<rparr>) = (Inr True, w')"
    unfolding mark_sync_running_def by (elim acquire_okE)
  from start_outcome [OF _ run] inv show ?thesis by simp
qed

lemma sync_success_outcome:
  assumes inv: "s2_inv (pg w)" and run: "finalize_sync_success t u tier mc q res ms w = (r, w')"
  shows "pg w' = pg w \<and> r \<noteq> Inr True \<or> settled COMPLETED t (pg w) (pg w') \<and> r \<noteq> Inr False"
  using run [unfolded finalize_sync_success_def]
proof (cases rule: in_transaction)
  case (ran ok fs w1)
  with sync_success_body_ok [OF _ ran(1)] inv show ?thesis by (cases ok) auto
qed auto

lemma sync_failure_outcome:
  assumes inv: "s2_inv (pg w)" and st: "st = TIMEOUT \<or> st = FAILED"
    and run: "finalize_sync_failure t u tier mc q st msg w = (r, w')"
  shows "pg w' = pg w \<and> r \<noteq> Inr True \<or> settled st t (pg w) (pg w') \<and> r \<noteq> Inr False"
  using run [unfolded finalize_sync_failure_def]
proof (cases rule: in_transaction)
  case (ran ok fs w1)
  with sync_failure_body_ok [OF _ ran(1) st] inv show ?thesis by (cases ok) auto
qed auto

lemma settled_terminal:
  assumes "settled st t d d'" "\<not> task_active st"
  shows "\<not> settled st' t d' d''"
proof
  assume "settled st' t d' d''"
  with assms show False
    by (auto simp: settled_def book_of_def book_settle_def)
qed

lemma get_clock_run: "get_clock w = (Inr (clock w), w)"
  by (simp add: get_clock_def)

lemma sleep_with_timeout_pg: "pg (snd (sleep_with_timeout n T w)) = pg w"
  by (rule keeps_pg) (simp add: sleep_with_timeout_def keeps_rules)

text \<open>An outcome with a result reports how the task was settled.\<close>

lemma sync_runtime_outcome:
  assumes inv: "s2_inv (pg w)"
    and run: "execute_sync_runtime t u tier mc q T x y w = (Inr (dec, s, Some res), w')"
  shows "settled (se_status res) t (pg w) (pg w') \<and> dec = decision True ''OK'' None \<and>
    List.member [COMPLETED, TIMEOUT, FAILED] (se_status res)"
proof -
  let ?inner = "bindE get_clock (\<lambda>started_at.
     bindE (sleep_with_timeout (microseconds (runtime_seconds_for_model mc))
              (microseconds (max (1 / 10) T))) (\<lambda>_.
     bindE get_clock (\<lambda>ended_at.
     let runtime_ms = max 1 ((ended_at - started_at) div 1000);
         result_payload = [(''z'', JInt (x + y))] in
     bindE (finalize_sync_success t u tier mc q result_payload runtime_ms) (\<lambda>finalized.
     returnM (if \<not> finalized then sync_error_outcome
              else sync_terminal_outcome COMPLETED (Some result_payload) None (Some runtime_ms))))))"
  obtain r1 w1 where inner: "?inner w = (r1, w1)" by fastforce
  have first: "(\<exists>e. r1 = Inl e) \<and> (pg w1 = pg w \<or> settled COMPLETED t (pg w) (pg w1)) \<or>
      r1 = Inr sync_error_outcome \<or>
      (\<exists>p ms. r1 = Inr (sync_terminal_outcome COMPLETED p None ms)) \<and> settled COMPLETED t (pg w) (pg w1)"
  proof -
    obtain r0 w0 where sleep: "sleep_with_timeout (microseconds (runtime_seconds_for_model mc))
        (microseconds (max (1 / 10) T)) w = (r0, w0)" by fastforce
    have w0: "pg w0 = pg w" using sleep_with_timeout_pg [of _ _ w] sleep by (metis snd_conv)
    show ?thesis
    proof (cases r0)
      case (Inl e)
      with inner sleep w0 show ?thesis by (auto simp: bindE_def get_clock_def)
    next
      case (Inr v)
      let ?ms = "max 1 ((clock w0 - clock w) div 1000)" and ?p = "[(''z'', JInt (x + y))]"
      obtain r2 w2 where fin: "finalize_sync_success t u tier mc q ?p ?ms w0 = (r2, w2)" by fastforce
      note out = sync_success_outcome [OF _ fin, unfolded w0, OF inv]
      from inner sleep Inr fin show ?thesis
        using out by (cases r2) (auto simp: bindE_def get_clock_def returnM_def Let_def split: if_splits)
    qed
  qed
  show ?thesis
  proof (cases r1)
    case (Inr out)
    with run inner have "out = (dec, s, Some res)" "w' = w1"
      by (auto simp: execute_sync_runtime_def bindE_attempt returnM_def)
    with first Inr show ?thesis
      by (auto simp: sync_error_outcome_def sync_terminal_outcome_def)
  next
    case (Inl e)
    let ?st = "if exn_kind e = TimeoutError then TIMEOUT else FAILED"
    let ?msg = "if exn_kind e = TimeoutError then ''sync_execution_timeout''
        else ''sync_execution_failed:'' @ exn_text e"
    obtain r3 w3 where fin: "finalize_sync_failure t u tier mc q ?st ?msg w1 = (r3, w3)" by fastforce
    have w1: "pg w1 = pg w \<or> settled COMPLETED t (pg w) (pg w1)" using first Inl by auto
    then have inv1: "s2_inv (pg w1)" using inv conserves_inv settled_conserves by metis
    from run have "bindE (finalize_sync_failure t u tier mc q ?st ?msg) (\<lambda>finalized.
        returnM (if \<not> finalized then sync_error_outcome
          else sync_terminal_outcome ?st None (Some ?msg) None)) w1 = (Inr (dec, s, Some res), w')"
      unfolding execute_sync_runtime_def bindE_attempt inner Inl by (simp only: fst_conv snd_conv sum.case Let_def)
    with fin have "r3 = Inr True \<and> w' = w3 \<and> dec = decision True ''OK'' None \<and> se_status res = ?st"
      by (auto elim!: bindE_okE simp: sync_error_outcome_def sync_terminal_outcome_def split: if_splits)
    with sync_failure_outcome [OF inv1 _ fin] have "settled ?st t (pg w1) (pg w')"
      "dec = decision True ''OK'' None" "se_status res = ?st" by auto
    moreover from this(1) w1 have "pg w1 = pg w"
      using settled_terminal [of COMPLETED t "pg w" "pg w1"] by (auto simp: task_active_def)
    ultimately show ?thesis by simp
  qed
qed

text \<open>The whole submission: the book moves by exactly what the answer says.\<close>

lemma run_sync_submission_truth:
  assumes inv: "s2_inv (pg w)" "0 \<le> n"
    and run: "run_sync_submission sha u tier t x y mc n cb i m q T ttl w = (Inr (dec, s, Some res), w')"
  shows "task_state (pg w') t = Some (u, n, se_status res) \<and>
    spendable (pg w') = (if se_status res = COMPLETED
      then (spendable (pg w))(u := spendable (pg w) u - n) else spendable (pg w)) \<and>
    (\<forall>v. charged (pg w') v =
       charged (pg w) v + (if v = u \<and> se_status res = COMPLETED then n else 0))"
proof -
  obtain x0 w1 where tx: "execute_sync_admission_transaction u tier t x y mc n cb i m ttl w = (x0, w1)"
    by fastforce
  from run tx obtain dec0 w2 where x0: "x0 = Inr dec0" "ad_ok dec0" and
    mark: "mark_sync_running t w1 = (Inr True, w2)" and
    rest: "execute_sync_runtime t u tier mc q T x y w2 = (Inr (dec, s, Some res), w')"
    by (cases x0) (auto elim!: bindE_okE simp: run_sync_submission_def bindE_attempt
        sync_error_outcome_def split: if_splits)
  have admit: "admitted (clock w) u t n i m (pg w) (pg w1)"
    using tx [unfolded execute_sync_admission_transaction_def]
  proof (cases rule: in_transaction)
    case (ran d fs w0)
    then show ?thesis using sync_admission_body_ok [OF _ inv(2) ran(1)] inv(1) x0 by auto
  qed (simp add: x0)
  then have inv1: "s2_inv (pg w1)" using admitted_conserves conserves_inv by blast
  note start = mark_sync_running_ok [OF inv1 mark]
  then have "s2_inv (pg w2)" unfolding started_def using conserves_inv by blast
  from sync_runtime_outcome [OF this rest] have fin: "settled (se_status res) t (pg w2) (pg w')" by blast
  have "book_of (pg w2) = book_start t (book_admit u t n (book_of (pg w)))"
    using admit start by (simp add: admitted_def started_def)
  then have b2: "task_state (pg w2) t = Some (u, n, RUNNING)"
    "spendable (pg w2) = (spendable (pg w))(u := spendable (pg w) u - n)"
    by (simp_all add: book_of_def book_start_def book_admit_def)
  have "charged (pg w2) v = charged (pg w) v" for v
    using start admit by (simp add: admitted_def started_def)
  with fin b2 show ?thesis
    by (auto simp: settled_def book_of_def book_settle_def)
qed

section \<open>Admission when nothing fails\<close>

definition admission_reason :: "int \<Rightarrow> s2db \<Rightarrow> uuid \<Rightarrow> int \<Rightarrow> string \<Rightarrow> int \<Rightarrow> string" where
  "admission_reason now d u n i m =
     (if find_user d u = None then ''ERROR''
      else if find_by_idempotency d u i \<noteq> None then ''IDEMPOTENT''
      else if m \<le> int (active_of now u d) then ''CONCURRENCY''
      else if spendable d u < n then ''INSUFFICIENT''
      else ''OK'')"

text \<open>
  What the route hands the gate: a payload that normalises, columns in range, a new task identifier,
  and a supply of fresh identifiers for the reservation and the outbox event.
\<close>

definition admissible_request ::
  "(json \<Rightarrow> string) \<Rightarrow> s2db \<Rightarrow> uuid list \<Rightarrow> uuid \<Rightarrow> uuid \<Rightarrow> int \<Rightarrow> string \<Rightarrow> dict option \<Rightarrow>
   string option \<Rightarrow> string option \<Rightarrow> bool" where
  "admissible_request rp d fresh u t n i p rm q \<longleftrightarrow>
     int4_ok n \<and> int4_ok (spendable d u - n) \<and> length i \<le> 128 \<and> find_command d t = None \<and>
     (case fresh of
        rid # eid # _ \<Rightarrow> \<not> List.member (map cr_reservation_id (credit_reservations d)) rid \<and>
          lookup_row oe_event_id eid (outbox_events d) = None
      | _ \<Rightarrow> False) \<and>
     (case normalize_payload rp p rm of
        Inl _ \<Rightarrow> False
      | Inr (payload, mode, tier, mc) \<Rightarrow>
          int4_ok (coerce_int (dict_get_or payload ''x'' (JInt 0))) \<and>
          int4_ok (coerce_int (dict_get_or payload ''y'' (JInt 0))) \<and>
          (case ModelClass_of mc of Inl _ \<Rightarrow> False
           | Inr c \<Rightarrow> (\<exists>lane. resolve_queue_name tier mode mc q = Inr lane)))"

lemma find_reservation_new:
  assumes "s2_inv d" "find_command d t = None"
  shows "find_reservation d t = None"
  using assms ledger_okD(7) [of "users d" "task_commands d" "credit_reservations d" t]
  by (simp add: s2_inv_def find_command_def find_reservation_def)

lemma compute_routing_key_length: "length (compute_routing_key m t c) \<le> 128"
  by (cases m; cases t; cases c) (simp_all add: compute_routing_key_def)

lemma admission_body_decides:
  assumes inv: "s2_inv (pg w)" and calm: "faults w = []"
    and ok: "admissible_request rp (pg w) (entropy w) u t n i p rm q"
  shows "\<exists>dec w'. admission_body rp u t n i m p rm q ttl w = (Inr dec, w') \<and> faults w' = [] \<and>
    ad_reason dec = admission_reason (clock w) (pg w) u n i m"
proof -
  from ok obtain rid eid us where ids: "entropy w = rid # eid # us"
    "\<not> List.member (map cr_reservation_id (credit_reservations (pg w))) rid"
    "lookup_row oe_event_id eid (outbox_events (pg w)) = None"
    by (auto simp: admissible_request_def split: list.splits)
  from ok obtain payload mode tier mc where norm: "normalize_payload rp p rm = Inr (payload, mode, tier, mc)"
    by (cases "normalize_payload rp p rm") (auto simp: admissible_request_def)
  with ok obtain c lane where parts: "ModelClass_of mc = Inr c" "resolve_queue_name tier mode mc q = Inr lane"
    "int4_ok (coerce_int (dict_get_or payload ''x'' (JInt 0)))"
    "int4_ok (coerce_int (dict_get_or payload ''y'' (JInt 0)))"
    by (cases "ModelClass_of mc") (auto simp: admissible_request_def)
  have small: "int4_ok n" "int4_ok (spendable (pg w) u - n)" "length i \<le> 128" "find_command (pg w) t = None"
    using ok by (simp_all add: admissible_request_def)
  note new = find_reservation_new [OF inv small(4)]
  note run = nofault_simps calm lock_user_for_admission_def get_task_command_by_idempotency_def
    count_active_reservations_def reserve_user_credits_def
  show ?thesis
  proof (cases "find_user (pg w) u")
    case None
    then show ?thesis by (simp add: admission_body_def run returnM_def admission_reason_def)
  next
    case user: (Some r)
    show ?thesis
    proof (cases "find_by_idempotency (pg w) u i")
      case key: None
      show ?thesis
      proof (cases "m \<le> int (active_of (clock w) u (pg w)) \<or> us_credits r < n")
        case True
        with user key show ?thesis
          by (auto simp: admission_body_def run returnM_def admission_reason_def active_of_def
              spendable_find small(1) is_active_reservation_def)
      next
        case False
        then have rich: "us_credits r - n = spendable (pg w) u - n" "int4_ok (us_credits r - n)"
          using user small(2) by (simp_all add: spendable_find)
        let ?cb = "case dict_get payload ''callback_url'' of Some (JStr s) \<Rightarrow> Some s | _ \<Rightarrow> None"
        let ?w1 = "w\<lparr>pg := set_credits u (us_credits r - n) (pg w)\<rparr>"
        let ?command = "create_task_command t u tier mode c
            (coerce_int (dict_get_or payload ''x'' (JInt 0)))
            (coerce_int (dict_get_or payload ''y'' (JInt 0))) n ?cb (Some i)"
        let ?reserve = "create_reservation t u n (reservation_expires_at ttl (clock w))"
        obtain w2 where w2: "?command ?w1 = (Inr (), w2)"
          "faults w2 = []" "entropy w2 = rid # eid # us" "clock w2 = clock w"
          "find_command (pg w2) t \<noteq> None" "find_user (pg w2) = find_user (pg ?w1)"
          "credit_reservations (pg w2) = credit_reservations (pg w)"
          "outbox_events (pg w2) = outbox_events (pg w)"
          using create_command_runs [of ?w1, OF _ parts(3,4) small(1,3), where t = t and u = u]
            small(4) key calm ids(1) by fastforce
        have free: "find_reservation (pg w2) t = None" "find_user (pg w2) u \<noteq> None"
          using new w2(6,7) user by (simp_all add: find_reservation_def find_user_set_credits)
        obtain w3 where w3: "?reserve w2 = (Inr (), w3)"
          "faults w3 = []" "entropy w3 = eid # us" "outbox_events (pg w3) = outbox_events (pg w)"
          using create_reservation_runs [OF w2(2) small(1) w2(3), where t = t and u = u]
            ids(2) w2(5,7,8) free by force
        let ?pl = "submitted_payload t u mode tier c n (dict_get_or payload ''x'' JNull)
              (dict_get_or payload ''y'' JNull) i ?cb lane (dict_get_or payload ''trace_id'' JNull)"
        have short: "length ''task.submitted'' \<le> 64" by simp
        let ?announce = "create_outbox_event t ''task.submitted'' (compute_routing_key mode tier c) ?pl"
        obtain w4 where w4: "?announce w3 = (Inr eid, w4)" "faults w4 = []"
          using create_outbox_runs [OF w3(2) short compute_routing_key_length w3(3), of t mode tier c ?pl]
            ids(3) w3(4) by auto
        have "admission_body rp u t n i m p rm q ttl w = (Inr (decision True ''OK'' None), w4)"
          using user key False rich
          by (simp add: admission_body_def run active_of_def spendable_find small(1) norm parts)
            (simp add: Let_def run bindE_ran [of ?command, OF w2(1)] w2(4)
              bindE_ran [of ?reserve, OF w3(1)] bindE_ran [of ?announce, OF w4(1)] returnM_def)
        with w4(2) user key False show ?thesis
          by (auto simp: admission_reason_def spendable_find)
      qed
    next
      case (Some c)
      with user show ?thesis by (simp add: admission_body_def run returnM_def admission_reason_def)
    qed
  qed
qed

section \<open>Properties\<close>

text \<open>C1 The admission gate always answers, whatever fails in Postgres: it never raises.  An answer
  \<open>OK\<close> means that the admission is committed: the key and the task were new, the price was available
  and is now held for the task, and the account stays within its concurrency limit.  A refusal says
  why and leaves the database alone, unless the answer of the commit itself was lost; then the
  admission is there in full.\<close>

theorem admission_gate_contract:
  assumes "s2_inv (pg w)" "0 \<le> n"
  shows "\<exists>dec s. fst (run_admission_gate rp sha u t n i m p rm q ttl w) = Inr (dec, s) \<and>
    admission_answer (clock w) u t n i m (pg w)
      (pg (snd (run_admission_gate rp sha u t n i m p rm q ttl w))) dec"
  using run_admission_gate_answer [OF assms] by (metis prod.collapse)

theorem admission_gate_contract_witness:
  "\<exists>dec s. fst (run_admission_gate (\<lambda>_. []) ''sha'' 1 7 10 ''k'' 4 (Some demo_payload) None None None
      (demo_world [Fine, FailAfter (Exn LockNotAvailableError [])])) = Inr (dec, s) \<and>
    admission_answer 1700000000000000 1 7 10 ''k'' 4 demo_db
      (pg (snd (run_admission_gate (\<lambda>_. []) ''sha'' 1 7 10 ''k'' 4 (Some demo_payload) None None None
        (demo_world [Fine, FailAfter (Exn LockNotAvailableError [])])))) dec"
  using admission_gate_contract
    [of "demo_world [Fine, FailAfter (Exn LockNotAvailableError [])]" 10 "\<lambda>_. []" "''sha''" 1 7 "''k''" 4
      "Some demo_payload" None None None] demo_inv
  by (simp add: demo_world_def)

text \<open>When nothing fails and the request is well formed, the admission gate decides by the rules and
  in their order: unknown account, replayed key, concurrency limit, credits; a request that passes
  all four is admitted.\<close>

theorem admission_gate_decides:
  assumes "s2_inv (pg w)" "faults w = []"
    "admissible_request rp (pg w) (entropy w) u t n i p rm q"
  shows "\<exists>dec s. fst (run_admission_gate rp sha u t n i m p rm q ttl w) = Inr (dec, s) \<and>
    ad_reason dec = admission_reason (clock w) (pg w) u n i m"
proof -
  obtain dec w' where body: "admission_body rp u t n i m p rm q ttl w = (Inr dec, w')" "faults w' = []"
    "ad_reason dec = admission_reason (clock w) (pg w) u n i m"
    using admission_body_decides [OF assms] by blast
  then have "execute_admission_transaction rp u t n i m p rm q ttl w = (Inr dec, w')"
    by (simp add: execute_admission_transaction_def acquire_nofault assms(2) transaction_def)
  with body(3) show ?thesis by (simp add: run_admission_gate_def bindE_attempt returnM_def)
qed

theorem admission_gate_decides_witness:
  "\<exists>dec s. fst (run_admission_gate (\<lambda>_. []) ''sha'' 1 7 10 ''k'' 4 (Some demo_payload) None None None
      (demo_world [])) = Inr (dec, s) \<and> ad_reason dec = ''OK''"
proof -
  have "admissible_request (\<lambda>_. []) demo_db [11, 12, 13, 14, 15, 16] 1 7 10 ''k'' (Some demo_payload) None None"
    by (simp add: admissible_request_def demo_db_def demo_payload_def int4_ok_def spendable_def
        find_user_def find_command_def normalize_payload_def dict_get_or_def enum_of_def
        RequestModes_def SubscriptionTiers_def ModelClasses_def resolve_queue_name_def resolve_queue_def)
  then show ?thesis
    using admission_gate_decides [of "demo_world []" "\<lambda>_. []" 1 7 10 "''k''" "Some demo_payload" None None
        "''sha''" 4 None] demo_inv
    by (simp add: demo_world_def admission_reason_def) (simp add: demo_db_def find_user_def
        find_by_idempotency_def active_of_def count_rows_def spendable_def)
qed

text \<open>C5 A batch is admitted whole or not at all, whatever fails: \<open>OK\<close> means one new task per item, each
  at the price of its model class, the sum taken from the account at once and the concurrency limit
  kept; any other answer leaves the database alone, or the commit's answer was lost and the whole
  batch is there.\<close>

theorem batch_gate_contract:
  assumes "s2_inv (pg w)"
  shows "\<exists>res s. fst (run_batch_admission_gate sha u tier b tasks m base ttl tr w) = Inr (res, s) \<and>
    batch_answer (clock w) u (batch_costs base tasks) m (pg w)
      (pg (snd (run_batch_admission_gate sha u tier b tasks m base ttl tr w))) res"
  using run_batch_gate_answer [OF assms] by (metis prod.collapse)

theorem batch_gate_contract_witness:
  "\<exists>res s. fst (run_batch_admission_gate ''sha'' 1 ENTERPRISE 9
      [\<lparr>bt_x = 1, bt_y = 2, bt_model_class = LARGE, bt_callback_url = None\<rparr>] 4 10 None None
      (demo_world [Fine, Fine, FailBefore (Exn ConnectionError [])])) = Inr (res, s) \<and>
    batch_answer 1700000000000000 1 [50] 4 demo_db
      (pg (snd (run_batch_admission_gate ''sha'' 1 ENTERPRISE 9
        [\<lparr>bt_x = 1, bt_y = 2, bt_model_class = LARGE, bt_callback_url = None\<rparr>] 4 10 None None
        (demo_world [Fine, Fine, FailBefore (Exn ConnectionError [])])))) res"
  using batch_gate_contract [of "demo_world [Fine, Fine, FailBefore (Exn ConnectionError [])]" "''sha''" 1
      ENTERPRISE 9 "[\<lparr>bt_x = 1, bt_y = 2, bt_model_class = LARGE, bt_callback_url = None\<rparr>]" 4 10 None None]
    demo_inv
  by (simp add: demo_world_def batch_costs_def task_cost_for_model_def)

text \<open>C3 A synchronous submission that answers with a result tells the truth about the money, whatever
  failed on the way: the task has the status it reports, and the account was charged the price
  exactly when that status is \<open>COMPLETED\<close>; otherwise its balance is what it was.\<close>

theorem sync_submission_truth:
  assumes "s2_inv (pg w)" "0 \<le> n"
    "run_sync_submission sha u tier t x y mc n cb i m q T ttl w = (Inr (dec, s, Some res), w')"
  shows "task_state (pg w') t = Some (u, n, se_status res) \<and>
    spendable (pg w') = (if se_status res = COMPLETED
      then (spendable (pg w))(u := spendable (pg w) u - n) else spendable (pg w)) \<and>
    (\<forall>v. charged (pg w') v =
       charged (pg w) v + (if v = u \<and> se_status res = COMPLETED then n else 0))"
  by (rule run_sync_submission_truth [OF assms])

definition demo_sync :: "(s2db, unit, sync_outcome) io" where
  "demo_sync = run_sync_submission ''sha'' 1 ENTERPRISE 7 3 4 SMALL 10 None ''k'' 1 ''queue.realtime'' 5 (Some 60)"

definition demo_sync_result :: SyncExecutionResult where
  "demo_sync_result = \<lparr>se_status = COMPLETED, se_result = Some [(''z'', JInt 7)], se_error = None,
     se_runtime_ms = Some 2000\<rparr>"

lemma demo_sync_runs:
  "fst (demo_sync (demo_world [])) = Inr (decision True ''OK'' None, [], Some demo_sync_result)"
  by (simp add: demo_sync_def run_sync_submission_def bindE_attempt
      execute_sync_admission_transaction_def acquire_nofault demo_world_def,
      simp add: transaction_def sync_admission_body_def nofault_simps statement_defs lookup_defs
        demo_db_def returnM_def reservation_expires_at_def,
      simp add: bindE_transaction mark_sync_running_def nofault_simps status_statements
        statement_defs lookup_defs,
      simp add: execute_sync_runtime_def bindE_attempt nofault_simps sleep_with_timeout_def
        microseconds_def,
      simp add: Let_def bindE_transaction nofault_simps finalize_sync_success_def transaction_def
        sync_success_body_def status_statements settle_statements statement_defs lookup_defs returnM_def
        sync_terminal_outcome_def SCRIPT_HASH_PLACEHOLDER_def demo_sync_result_def)

theorem sync_submission_truth_witness:
  "task_state (pg (snd (demo_sync (demo_world [])))) 7 = Some (1, 10, COMPLETED)"
proof -
  obtain r w' where run: "demo_sync (demo_world []) = (r, w')" by fastforce
  with demo_sync_runs have "r = Inr (decision True ''OK'' None, [], Some demo_sync_result)" by simp
  with run have "run_sync_submission ''sha'' 1 ENTERPRISE 7 3 4 SMALL 10 None ''k'' 1 ''queue.realtime'' 5
      (Some 60) (demo_world []) = (Inr (decision True ''OK'' None, [], Some demo_sync_result), w')"
    by (simp add: demo_sync_def)
  from sync_submission_truth [OF _ _ this] demo_inv run show ?thesis
    by (simp add: demo_world_def demo_sync_result_def)
qed

end
