(* ===== verification/S2_Watchdog.thy ===== *)
theory S2_Watchdog
  imports S2_Services S2_Settings S2_Demo
begin

text \<open>
  Solution 2, \<open>workers/watchdog.py\<close>: reservations past their expiry are released, refunded and
  their tasks set to \<open>TIMEOUT\<close>, one transaction each; terminal task states past their retention are
  deleted from Redis; and the loop around both.
\<close>

section \<open>Helpers\<close>

definition watchdog_interval_seconds :: "AppSettings \<Rightarrow> real" where
  "watchdog_interval_seconds settings = max (1 / 10) (st_watchdog_interval_seconds settings)"

definition watchdog_error_backoff_seconds :: "AppSettings \<Rightarrow> real" where
  "watchdog_error_backoff_seconds settings = max (1 / 10) (st_watchdog_error_backoff_seconds settings)"

definition TERMINAL_STATUSES :: "string list" where
  "TERMINAL_STATUSES = map TaskStatus_value [COMPLETED, FAILED, CANCELLED, TIMEOUT, EXPIRED]"

definition task_id_from_task_key :: "string \<Rightarrow> uuid option" where
  "task_id_from_task_key task_key =
     (if take 5 task_key \<noteq> ''task:'' then None
      else case uuid_of_str (drop 5 task_key) of Inl _ \<Rightarrow> None | Inr u \<Rightarrow> Some u)"

text \<open>\<open>str.isdigit\<close> accepts the superscripts that \<open>int\<close> refuses: then the conversion raises.\<close>

definition epoch_of_text :: "string \<Rightarrow> exn + int option" where
  "epoch_of_text s = (if isdigit s
     then (case py_int s of Some i \<Rightarrow> Inr (Some i)
           | None \<Rightarrow> Inl (Exn ValueError ''invalid literal for int() with base 10''))
     else Inr None)"

text \<open>A field of a Redis hash is text; a dumped object starts with a brace.\<close>

definition coerce_epoch :: "rval option \<Rightarrow> exn + int option" where
  "coerce_epoch raw_value = (case raw_value of Some (Plain s) \<Rightarrow> epoch_of_text s | _ \<Rightarrow> Inr None)"

section \<open>Expiring a reservation\<close>

definition write_timeout_cache :: "AppSettings \<Rightarrow> uuid \<Rightarrow> uuid \<Rightarrow> string option \<Rightarrow> unit app" where
  "write_timeout_cache settings task_id user_id queue_name =
     bindE get_clock (\<lambda>now.
     let task_key = task_state_key task_id;
         mapping = [(''task_id'', Plain (uuid_str task_id)), (''user_id'', Plain (uuid_str user_id)),
           (''status'', Plain (TaskStatus_value TIMEOUT)),
           (''queue'', Plain (case queue_name of None \<Rightarrow> [] | Some q \<Rightarrow> q)),
           (''error'', Plain ''Task timed out by watchdog''),
           (''completed_at_epoch'', Plain (str_of_int (epoch now)))] in
     bindE (redis_hset task_key mapping) (\<lambda>_.
     redis_expire task_key (st_redis_task_state_ttl_seconds settings)))"

definition expire_reservation_body :: "uuid \<Rightarrow> uuid \<Rightarrow> int \<Rightarrow> (bool \<times> string option) app" where
  "expire_reservation_body task_id user_id amount =
     bindE (get_task_command task_id) (\<lambda>command. case command of
       None \<Rightarrow> returnM (False, None)
     | Some command \<Rightarrow>
     bindE (release_reservation task_id) (\<lambda>released.
     if \<not> released then returnM (False, None) else
     bindE (add_user_credits user_id amount) (\<lambda>updated_balance. case updated_balance of
       None \<Rightarrow> raiseM RuntimeError ''credit refund target user not found''
     | Some _ \<Rightarrow>
     bindE (update_task_command_timed_out task_id) (\<lambda>timed_out.
     if \<not> timed_out then raiseM RuntimeError ''failed to transition task command to TIMEOUT'' else
     bindE (insert_credit_transaction user_id (Some task_id) amount ''reservation_timeout_refund'') (\<lambda>_.
     bindE (liftE (resolve_queue (tc_tier command) (tc_mode command) (tc_model_class command))) (\<lambda>queue_name.
     let routing_key = compute_routing_key (tc_mode command) (tc_tier command) (tc_model_class command) @
           ''.timed_out'' in
     bindE (create_outbox_event task_id ''task.timed_out'' routing_key
       [(''task_id'', JStr (uuid_str task_id)), (''user_id'', JStr (uuid_str user_id)),
        (''mode'', JStr (RequestMode_value (tc_mode command))),
        (''tier'', JStr (SubscriptionTier_value (tc_tier command))),
        (''model_class'', JStr (ModelClass_value (tc_model_class command))),
        (''queue'', JStr queue_name), (''cost'', JInt amount),
        (''status'', JStr (TaskStatus_value TIMEOUT)), (''error'', JStr ''Task timed out by watchdog'')]) (\<lambda>_.
     returnM (True, Some queue_name))))))))"

definition expire_reservation :: "uuid \<Rightarrow> uuid \<Rightarrow> int \<Rightarrow> (bool \<times> string option) app" where
  "expire_reservation task_id user_id amount =
     acquire (transaction (expire_reservation_body task_id user_id amount))"

fun expire_all :: "AppSettings \<Rightarrow> CreditReservation list \<Rightarrow> nat \<Rightarrow> int \<Rightarrow> (nat \<times> int) app" where
  "expire_all settings [] expired_count released_credits = returnM (expired_count, released_credits)"
| "expire_all settings (r # rs) expired_count released_credits =
     bindE (expire_reservation (cr_task_id r) (cr_user_id r) (cr_amount r)) (\<lambda>(released, queue_name).
     if \<not> released then expire_all settings rs expired_count released_credits else
     bindE (write_timeout_cache settings (cr_task_id r) (cr_user_id r) queue_name) (\<lambda>_.
     expire_all settings rs (expired_count + 1) (released_credits + cr_amount r)))"

definition process_expired_reservations :: "AppSettings \<Rightarrow> (nat \<times> int) app" where
  "process_expired_reservations settings =
     bindE get_clock (\<lambda>as_of.
     bindE (find_expired_reservations as_of) (\<lambda>expired_reservations.
     expire_all settings expired_reservations 0 0))"

section \<open>Cleaning Redis\<close>

definition text_of :: "rval option \<Rightarrow> string" where
  "text_of v = (case v of Some (Plain s) \<Rightarrow> s | _ \<Rightarrow> [])"

fun clean_keys :: "int \<Rightarrow> int \<Rightarrow> string list \<Rightarrow> int \<Rightarrow> int app" where
  "clean_keys now_epoch ttl_seconds [] cleaned = returnM cleaned"
| "clean_keys now_epoch ttl_seconds (key # keys) cleaned =
     bindE (redis_hgetall key) (\<lambda>task_state.
     if task_state = [] then clean_keys now_epoch ttl_seconds keys cleaned else
     if \<not> List.member TERMINAL_STATUSES (text_of (map_of task_state ''status''))
     then clean_keys now_epoch ttl_seconds keys cleaned else
     bindE (liftE (coerce_epoch (map_of task_state ''completed_at_epoch''))) (\<lambda>completed_at.
     if (case completed_at of None \<Rightarrow> True | Some c \<Rightarrow> now_epoch - c < ttl_seconds)
     then clean_keys now_epoch ttl_seconds keys cleaned else
     if task_id_from_task_key key = None then clean_keys now_epoch ttl_seconds keys cleaned else
     bindE (redis_delete key) (\<lambda>n. clean_keys now_epoch ttl_seconds keys (cleaned + n))))"

definition cleanup_terminal_redis :: "AppSettings \<Rightarrow> int app" where
  "cleanup_terminal_redis settings =
     bindE get_clock (\<lambda>now.
     bindE redis_scan_tasks (\<lambda>keys.
     clean_keys (epoch now) (st_task_result_ttl_seconds settings) keys 0))"

section \<open>The loop\<close>

definition watchdog_cycle :: "AppSettings \<Rightarrow> (nat \<times> int \<times> int \<times> nat) app" where
  "watchdog_cycle settings =
     bindE (process_expired_reservations settings) (\<lambda>(expired_count, released_credits).
     bindE (cleanup_terminal_redis settings) (\<lambda>cleaned_keys.
     bindE count_total_active_reservations (\<lambda>active_reservations.
     returnM (expired_count, released_credits, cleaned_keys, active_reservations))))"

definition watchdog_turn :: "AppSettings \<Rightarrow> unit app" where
  "watchdog_turn settings =
     bindE (attempt (watchdog_cycle settings)) (\<lambda>outcome. case outcome of
       Inl _ \<Rightarrow> sleep_seconds (watchdog_error_backoff_seconds settings)
     | Inr _ \<Rightarrow> sleep_seconds (watchdog_interval_seconds settings))"

section \<open>What an expiry does\<close>

text \<open>The task of a reservation row that was read earlier: owner and amount never change.\<close>

definition owned :: "s2db \<Rightarrow> CreditReservation \<Rightarrow> bool" where
  "owned d r \<longleftrightarrow> (\<exists>s. task_state d (cr_task_id r) = Some (cr_user_id r, cr_amount r, s))"

lemma owned_settled: "settled st t d d' \<Longrightarrow> owned d r \<Longrightarrow> owned d' r"
  unfolding settled_def owned_def book_settle_def book_of_def
  by (auto split: option.splits)

lemma owned_same_books: "same_books d d' \<Longrightarrow> owned d r \<Longrightarrow> owned d' r"
  using same_books_book [of d d'] by (simp add: owned_def book_of_def)

lemma owned_reservation:
  assumes inv: "s2_inv d" and "owned d r" "find_command d (cr_task_id r) = Some c"
  obtains q where "find_reservation d (cr_task_id r) = Some q" "cr_user_id q = cr_user_id r"
    "cr_amount q = cr_amount r"
proof -
  obtain q where "find_reservation d (cr_task_id r) = Some q" "cr_user_id q = tc_user_id c" "cr_amount q = tc_cost c"
    using inv assms(3) ledger_task [of "users d" "task_commands d" "credit_reservations d" "cr_task_id r" c]
    unfolding s2_inv_def find_command_def find_reservation_def by metis
  with assms(2,3) show thesis by (intro that [of q]) (auto simp: owned_def task_state_def)
qed

lemma read_owned:
  assumes inv: "s2_inv d" and r: "r \<in> set (credit_reservations d)"
  shows "owned d r"
proof -
  have ok: "ledger_ok (users d) (task_commands d) (credit_reservations d)" using inv by (simp add: s2_inv_def)
  have "lookup_row cr_task_id (cr_task_id r) (credit_reservations d) = Some r"
    by (rule lookup_row_member [OF ledger_okD(3) [OF ok] r])
  then obtain c where "lookup_row tc_task_id (cr_task_id r) (task_commands d) = Some c"
    "cr_user_id r = tc_user_id c" "cr_amount r = tc_cost c"
    using ledger_reservation [OF ok] by metis
  then show ?thesis by (simp add: owned_def task_state_def find_command_def)
qed

lemma expire_body_ok:
  assumes inv: "s2_inv (pg w)" and owned: "owned (pg w) r"
    and run: "expire_reservation_body (cr_task_id r) (cr_user_id r) (cr_amount r) w = (Inr (ok, q), w')"
  shows "if ok then settled TIMEOUT (cr_task_id r) (pg w) (pg w') else pg w' = pg w"
proof (cases ok)
  case True
  from run True have hit: "find_command (pg w) (cr_task_id r) \<noteq> None"
    unfolding expire_reservation_body_def by (auto elim!: settle_elims split: option.splits)
  then obtain q' where q': "find_reservation (pg w) (cr_task_id r) = Some q'" "cr_user_id q' = cr_user_id r"
    "cr_amount q' = cr_amount r"
    using owned_reservation [OF inv owned] by blast
  from True run inv have "settled TIMEOUT (cr_task_id r) (pg w) (pg w')"
    unfolding expire_reservation_body_def status_statements settle_statements Let_def
    by (auto elim!: settle_elims create_outbox_okE split: if_splits option.splits)
      (rule refunded_settled [OF inv _ _ _ q'], (assumption |
        (simp add: task_active_def s2_inv_def keyed_append users_set_credits; fail))+)
  with True show ?thesis by simp
next
  case False
  with run inv show ?thesis
    unfolding expire_reservation_body_def status_statements settle_statements Let_def
    by (auto elim!: settle_elims create_outbox_okE simp: settle_missed split: if_splits option.splits)
qed


lemma expire_reservation_outcome:
  assumes inv: "s2_inv (pg w)" and owned: "owned (pg w) r"
    and run: "expire_reservation (cr_task_id r) (cr_user_id r) (cr_amount r) w = (res, w')"
  shows "pg w' = pg w \<and> (\<forall>q. res \<noteq> Inr (True, q)) \<or>
    settled TIMEOUT (cr_task_id r) (pg w) (pg w') \<and> (\<forall>q. res \<noteq> Inr (False, q))"
  using run unfolding expire_reservation_def
proof (cases rule: in_transaction)
  case (undone e)
  then show ?thesis by simp
next
  case (ran a fs w1)
  obtain ok q where a: "a = (ok, q)" by fastforce
  from expire_body_ok [of "w\<lparr>faults := fs\<rparr>" r ok q w1] ran inv owned show ?thesis
    unfolding a by (cases ok) auto
qed

text \<open>An invariant of the loop: conserved, and the rows still to expire are those of their tasks.\<close>

definition expiring :: "s2db \<Rightarrow> CreditReservation list \<Rightarrow> s2db \<Rightarrow> bool" where
  "expiring d0 rs d \<longleftrightarrow> conserves d0 d \<and> (\<forall>r\<in>set rs. owned d r)"

lemma keeps_expire_reservation:
  assumes "r \<in> set rs"
  shows "keeps (expiring d0 rs) (expire_reservation (cr_task_id r) (cr_user_id r) (cr_amount r))"
proof (rule keepsI)
  fix w :: "(s2db, s2kv) world"
  assume I: "expiring d0 rs (pg w)"
  obtain res w' where run: "expire_reservation (cr_task_id r) (cr_user_id r) (cr_amount r) w = (res, w')"
    by fastforce
  from I assms have "s2_inv (pg w)" "owned (pg w) r" by (auto simp: expiring_def conserves_def)
  from expire_reservation_outcome [OF this run] I
  show "expiring d0 rs (pg (snd (expire_reservation (cr_task_id r) (cr_user_id r) (cr_amount r) w)))"
    unfolding run expiring_def
    using conserves_trans settled_conserves owned_settled by (auto; blast)
qed

lemma keeps_write_timeout_cache [keeps_rules]: "keeps I (write_timeout_cache settings t u q)"
  unfolding write_timeout_cache_def Let_def by (intro keeps_rules)

lemma keeps_expire_all:
  "set qs \<subseteq> set rs \<Longrightarrow> keeps (expiring d0 rs) (expire_all settings qs n c)"
  by (induction qs arbitrary: n c)
    (auto intro!: keeps_returnM keeps_bindE keeps_if keeps_prod keeps_expire_reservation
      keeps_write_timeout_cache simp del: split_paired_All)

lemma keeps_clean_keys [keeps_rules]: "keeps I (clean_keys now ttl keys n)"
  by (induction keys arbitrary: n) (auto intro!: keeps_rules)

lemma safe_process_expired [safe_rules]: "safe (process_expired_reservations settings)"
proof (rule safeI, rule keepsI)
  fix d0 and w :: "(s2db, s2kv) world"
  assume c: "conserves d0 (pg w)"
  let ?rs = "sort_key cr_expires_at (filter (\<lambda>r. cr_state r = RESERVED \<and> cr_expires_at r \<le> clock w)
    (credit_reservations (pg w)))"
  have inv: "s2_inv (pg w)" using c by (rule conserves_inv)
  obtain res w' where run: "process_expired_reservations settings w = (res, w')" by fastforce
  then have "bindE (find_expired_reservations (clock w)) (\<lambda>rs. expire_all settings rs 0 0) w = (res, w')"
    by (simp add: process_expired_reservations_def nofault_simps bindE_def get_clock_def)
  then have "conserves d0 (pg w')"
  proof (cases rule: bindE_cases)
    case (raised e)
    then show ?thesis using c keeps_pgD [OF keeps_reads(4)] by metis
  next
    case (ran rs w1)
    then have w1: "pg w1 = pg w" "rs = ?rs"
      unfolding find_expired_reservations_def by (auto elim!: sql_read_okE)
    then have "expiring d0 rs (pg w1)"
      using c read_owned [OF inv] by (auto simp: expiring_def)
    from keepsD [OF keeps_expire_all [of rs rs d0 settings 0 0] this] ran(2)
    show ?thesis by (simp add: expiring_def)
  qed
  then show "conserves d0 (pg (snd (process_expired_reservations settings w)))" by (simp add: run)
qed

lemma safe_cleanup [safe_rules]: "safe (cleanup_terminal_redis settings)"
  unfolding cleanup_terminal_redis_def safe_def by (intro allI keeps_rules)

lemma safe_watchdog_turn [safe_rules]: "safe (watchdog_turn settings)"
  unfolding watchdog_turn_def watchdog_cycle_def by (intro safe_rules)


section \<open>Without faults every expired reservation is released\<close>

definition overdue :: "int \<Rightarrow> s2db \<Rightarrow> uuid set" where
  "overdue as_of d = cr_task_id ` {r \<in> set (credit_reservations d). cr_state r = RESERVED \<and> cr_expires_at r \<le> as_of}"

definition lanes_ok :: "s2db \<Rightarrow> bool" where
  "lanes_ok d \<longleftrightarrow> (\<forall>c\<in>set (task_commands d). \<exists>q. resolve_queue (tc_tier c) (tc_mode c) (tc_model_class c) = Inr q)"

definition fresh_ids :: "nat \<Rightarrow> uuid list \<Rightarrow> s2db \<Rightarrow> bool" where
  "fresh_ids n ids d \<longleftrightarrow> n \<le> length ids \<and> distinct ids \<and> set ids \<inter> oe_event_id ` set (outbox_events d) = {}"

text \<open>No account is worth more than a 32-bit balance can hold, so that no refund overflows.\<close>

definition refundable :: "s2db \<Rightarrow> bool" where
  "refundable d \<longleftrightarrow> (\<forall>u. worth d u \<le> 2147483647)"

lemma in_update_rows:
  "x \<in> set (update_rows P f t) \<longleftrightarrow> x \<in> set t \<and> \<not> P x \<or> (\<exists>r\<in>set t. P r \<and> x = f r)"
  unfolding update_rows_def by (auto split: if_splits)

lemma released_member:
  "x \<in> set (update_rows (\<lambda>r. cr_task_id r = t \<and> cr_state r = RESERVED)
      (\<lambda>r. r\<lparr>cr_state := RELEASED, cr_updated_at := now\<rparr>) rs) \<and> cr_state x = RESERVED \<longleftrightarrow>
    x \<in> set rs \<and> cr_state x = RESERVED \<and> cr_task_id x \<noteq> t"
  unfolding in_update_rows by (cases "cr_state x = RESERVED") auto

lemma released_rows:
  "overdue as_of (d\<lparr>credit_reservations := update_rows (\<lambda>r. cr_task_id r = t \<and> cr_state r = RESERVED)
     (\<lambda>r. r\<lparr>cr_state := RELEASED, cr_updated_at := now\<rparr>) (credit_reservations d)\<rparr>) = overdue as_of d - {t}"
proof -
  let ?rows = "update_rows (\<lambda>r. cr_task_id r = t \<and> cr_state r = RESERVED)
     (\<lambda>r. r\<lparr>cr_state := RELEASED, cr_updated_at := now\<rparr>) (credit_reservations d)"
  have "{r \<in> set ?rows. cr_state r = RESERVED \<and> cr_expires_at r \<le> as_of} =
    {r \<in> set (credit_reservations d). cr_state r = RESERVED \<and> cr_expires_at r \<le> as_of} - {r. cr_task_id r = t}"
    using released_member by blast
  then show ?thesis by (simp add: overdue_def) blast
qed

lemma expire_runs:
  assumes inv: "s2_inv (pg w)" and calm: "faults w = []" and owned: "owned (pg w) r"
    and lanes: "lanes_ok (pg w)" and room: "refundable (pg w)" and ids: "fresh_ids (Suc n) (entropy w) (pg w)"
  obtains ok q w' where "expire_reservation (cr_task_id r) (cr_user_id r) (cr_amount r) w = (Inr (ok, q), w')"
    "faults w' = []" "lanes_ok (pg w')" "fresh_ids n (entropy w') (pg w')"
    "overdue as_of (pg w') = overdue as_of (pg w) - {cr_task_id r}"
proof -
  let ?t = "cr_task_id r"
  obtain s where "task_state (pg w) ?t = Some (cr_user_id r, cr_amount r, s)" using owned by (auto simp: owned_def)
  then obtain c where c: "find_command (pg w) ?t = Some c" by (auto simp: task_state_def)
  obtain q where q: "find_reservation (pg w) ?t = Some q" "cr_user_id q = cr_user_id r" "cr_amount q = cr_amount r"
    using owned_reservation [OF inv owned c] by metis
  show thesis
  proof (cases "cr_state q = RESERVED")
    case False
    have keyed: "keyed cr_task_id (credit_reservations (pg w))" using inv by (simp add: s2_inv_def ledger_ok_def)
    have "count_rows (\<lambda>r. cr_task_id r = ?t \<and> cr_state r = RESERVED) (credit_reservations (pg w)) = 0"
      using count_rows_keyed [OF keyed, of ?t "\<lambda>r. cr_state r = RESERVED"] q(1) False
      by (simp add: find_reservation_def)
    moreover from this settle_missed [OF inv, of ?t]
    have same: "(pg w)\<lparr>credit_reservations := update_rows (\<lambda>r. cr_task_id r = ?t \<and> cr_state r = RESERVED)
     (\<lambda>r. r\<lparr>cr_state := RELEASED, cr_updated_at := clock w\<rparr>) (credit_reservations (pg w))\<rparr> = pg w" by simp
    ultimately have "expire_reservation ?t (cr_user_id r) (cr_amount r) w = (Inr (False, None), w)"
      using c calm by (simp add: expire_reservation_def acquire_nofault transaction_def expire_reservation_body_def
          get_task_command_def nofault_simps settle_statements settle_reservation_def returnM_def)
    moreover have "overdue as_of (pg w) = overdue as_of (pg w) - {?t}"
      using released_rows [where as_of = as_of and d = "pg w" and t = ?t and now = "clock w"] same by simp
    ultimately show thesis using that calm lanes ids by (fastforce simp: fresh_ids_def)
  next
    case True
    note amount = reserved_within_worth [OF inv q(1) True, unfolded q(2,3)]
    obtain u where u: "find_user (pg w) (cr_user_id r) = Some u"
      using inv c q ledger_reservation [of "users (pg w)" "task_commands (pg w)" "credit_reservations (pg w)" ?t q]
      unfolding s2_inv_def find_user_def find_reservation_def by metis
    have "spendable (pg w) (cr_user_id r) = us_credits u" using u by (simp add: spendable_def)
    then have small: "int4_ok (cr_amount r)" "int4_ok (us_credits u + cr_amount r)" "0 \<le> us_credits u + cr_amount r"
      using amount room spendable_nonneg [OF inv, of "cr_user_id r"]
      by (auto simp: int4_ok_def refundable_def dest: spec [of _ "cr_user_id r"])
    have active: "task_active (tc_status c)"
      using inv c q(1) True ledger_reservation [of "users (pg w)" "task_commands (pg w)" "credit_reservations (pg w)" ?t q]
      unfolding s2_inv_def find_command_def find_reservation_def
      by (metis option.inject reservation_state_of_RESERVED)
    obtain lane where lane: "resolve_queue (tc_tier c) (tc_mode c) (tc_model_class c) = Inr lane"
      using lanes c lookup_row_Some by (fastforce simp: lanes_ok_def find_command_def)
    obtain eid us where e: "entropy w = eid # us" using ids by (cases "entropy w") (auto simp: fresh_ids_def)
    then have new: "lookup_row oe_event_id eid (outbox_events (pg w)) = None"
      using ids by (auto simp: fresh_ids_def lookup_row_None)
    have key: "\<not> 128 < length (compute_routing_key (tc_mode c) (tc_tier c) (tc_model_class c) @ ''.timed_out'')"
      by (cases "tc_mode c"; cases "tc_tier c"; cases "tc_model_class c") (simp_all add: compute_routing_key_def)
    let ?rows = "update_rows (\<lambda>r. cr_task_id r = ?t \<and> cr_state r = RESERVED)
       (\<lambda>r. r\<lparr>cr_state := RELEASED, cr_updated_at := clock w\<rparr>) (credit_reservations (pg w))"
    let ?cmds = "update_rows (\<lambda>c. tc_task_id c = ?t \<and> (tc_status c = PENDING \<or> tc_status c = RUNNING))
       (\<lambda>c. c\<lparr>tc_status := TIMEOUT, tc_updated_at := clock w\<rparr>) (task_commands (pg w))"
    have "\<exists>w' ev. expire_reservation ?t (cr_user_id r) (cr_amount r) w = (Inr (True, Some lane), w') \<and>
        faults w' = [] \<and> entropy w' = us \<and> task_commands (pg w') = ?cmds \<and> credit_reservations (pg w') = ?rows \<and>
        outbox_events (pg w') = outbox_events (pg w) @ [ev] \<and> oe_event_id ev = eid"
      using c calm count_reserved_one [OF inv q(1) True] u small lane e new key active
        count_status_one [OF inv c, of "\<lambda>s. s = PENDING \<or> s = RUNNING"]
      by (simp add: expire_reservation_def acquire_nofault transaction_def expire_reservation_body_def
          get_task_command_def nofault_simps status_statements settle_statements settle_reservation_def
          set_status_where_def add_user_credits_def insert_credit_transaction_def create_outbox_event_def
          find_user_set_credits task_active_def returnM_def)
    then obtain w' ev where w': "expire_reservation ?t (cr_user_id r) (cr_amount r) w = (Inr (True, Some lane), w')"
        "faults w' = []" "entropy w' = us" "task_commands (pg w') = ?cmds" "credit_reservations (pg w') = ?rows"
        "outbox_events (pg w') = outbox_events (pg w) @ [ev]" "oe_event_id ev = eid" by blast
    have "lanes_ok (pg w')" using lanes by (auto simp: lanes_ok_def w'(4) update_rows_def)
    moreover have "fresh_ids n (entropy w') (pg w')" using ids e by (auto simp: fresh_ids_def w'(3,6,7))
    moreover have "overdue as_of (pg w') = overdue as_of (pg w) - {?t}"
      using released_rows [where as_of = as_of and d = "pg w" and t = ?t and now = "clock w"] by (simp add: overdue_def w'(5))
    ultimately show thesis by (intro that [OF w'(1,2)])
  qed
qed


lemma write_timeout_cache_runs:
  assumes "faults w = []"
  obtains w' where "write_timeout_cache settings t u q w = (Inr (), w')" "pg w' = pg w" "faults w' = []"
    "entropy w' = entropy w"
  using assms
  by (auto simp: write_timeout_cache_def Let_def nofault_simps redis_hset_def redis_expire_def)

lemma expire_all_runs:
  assumes "s2_inv (pg w)" "faults w = []" "\<forall>r\<in>set rs. owned (pg w) r" "lanes_ok (pg w)" "refundable (pg w)"
    "fresh_ids (length rs) (entropy w) (pg w)"
  shows "\<exists>n' c' w'. expire_all settings rs n c w = (Inr (n', c'), w') \<and>
    overdue as_of (pg w') = overdue as_of (pg w) - cr_task_id ` set rs"
  using assms
proof (induction rs arbitrary: n c w)
  case Nil
  then show ?case by (simp add: returnM_def)
next
  case (Cons r rs)
  have "owned (pg w) r" and ids: "fresh_ids (Suc (length rs)) (entropy w) (pg w)" using Cons.prems by simp_all
  from expire_runs [OF Cons.prems(1,2) this(1) Cons.prems(4,5) ids, of as_of]
  obtain ok q w1 where run: "expire_reservation (cr_task_id r) (cr_user_id r) (cr_amount r) w = (Inr (ok, q), w1)"
    and w1: "faults w1 = []" "lanes_ok (pg w1)" "fresh_ids (length rs) (entropy w1) (pg w1)"
    "overdue as_of (pg w1) = overdue as_of (pg w) - {cr_task_id r}" by metis
  have step: "pg w1 = pg w \<or> settled TIMEOUT (cr_task_id r) (pg w) (pg w1)"
    using expire_reservation_outcome [OF Cons.prems(1) \<open>owned (pg w) r\<close> run] by blast
  then have "\<forall>r\<in>set rs. owned (pg w1) r" using Cons.prems(3) owned_settled by auto
  moreover from step have "conserves (pg w) (pg w1)"
    using settled_conserves conserves_refl [OF Cons.prems(1)] by auto
  ultimately have next_ok: "s2_inv (pg w1)" "\<forall>r\<in>set rs. owned (pg w1) r" "refundable (pg w1)"
    using Cons.prems(5) by (simp_all add: refundable_def conserves_def)
  have rest: "\<exists>n' c' w'. expire_all settings rs m k v = (Inr (n', c'), w') \<and>
      overdue as_of (pg w') = overdue as_of (pg w) - cr_task_id ` set (r # rs)"
    if v: "pg v = pg w1" "faults v = []" "entropy v = entropy w1" for m k v
  proof -
    from Cons.IH [of v m k] v next_ok w1 obtain n' c' w' where
      "expire_all settings rs m k v = (Inr (n', c'), w')"
      "overdue as_of (pg w') = overdue as_of (pg w1) - cr_task_id ` set rs" by auto
    with w1(4) show ?thesis by auto
  qed
  show ?case
  proof (cases ok)
    case False
    with run rest [of w1] w1(1) show ?thesis
      by (simp add: bindE_ran [of "expire_reservation _ _ _", OF run])
  next
    case True
    obtain w2 where "write_timeout_cache settings (cr_task_id r) (cr_user_id r) q w1 = (Inr (), w2)"
      "pg w2 = pg w1" "faults w2 = []" "entropy w2 = entropy w1"
      by (rule write_timeout_cache_runs [OF w1(1)])
    with rest [of w2] True show ?thesis
      by (simp add: bindE_ran [of "expire_reservation _ _ _", OF run] bindE_ran [of "write_timeout_cache _ _ _ _"])
  qed
qed

section \<open>Cleaning keeps what is not terminal\<close>

text \<open>A task state that Redis holds, as the cleaner sees it.\<close>

definition cleanable :: "int \<Rightarrow> int \<Rightarrow> (string \<times> rval) list \<Rightarrow> bool" where
  "cleanable now_epoch ttl_seconds state \<longleftrightarrow>
     List.member TERMINAL_STATUSES (text_of (map_of state ''status'')) \<and>
     (\<exists>c. coerce_epoch (map_of state ''completed_at_epoch'') = Inr (Some c) \<and> ttl_seconds \<le> now_epoch - c)"


lemma redis_cases:
  assumes "redis key f w = (r, w')"
  obtains (undone) e where "r = Inl e" "kv w' = kv w" "clock w' = clock w"
    | (ran) a where "f (clock w) (sweep (clock w) key (kv w)) = (a, kv w')" "r = Inr a \<or> (\<exists>e. r = Inl e)"
      "clock w' = clock w"
  using assms unfolding redis_def by (cases rule: remote_cases) auto

lemma live_sweep:
  assumes "\<not> expired now key k"
  shows "assoc [] (rd_hashes (sweep now other k)) key = assoc [] (rd_hashes k) key \<and> \<not> expired now key (sweep now other k)"
proof (cases "other = key")
  case False
  then have "assoc [] (rd_hashes (drop_key other k)) key = assoc [] (rd_hashes k) key"
    "expired now key (drop_key other k) = expired now key k"
    by (simp_all add: drop_key_def expired_def AList.delete_conv')
  with assms show ?thesis by (simp add: sweep_def)
qed (use assms in simp)

lemma live_drop:
  assumes "\<not> expired now key k" "other \<noteq> key"
  shows "assoc [] (rd_hashes (drop_key other k)) key = assoc [] (rd_hashes k) key \<and> \<not> expired now key (drop_key other k)"
  using assms by (simp add: drop_key_def expired_def AList.delete_conv')

text \<open>\<open>live w key\<close>: the hash that Redis would return for the key, when the key has not expired.\<close>

definition live :: "int \<Rightarrow> string \<Rightarrow> s2kv \<Rightarrow> (string \<times> rval) list option" where
  "live now key k = (if expired now key k then None else Some (assoc [] (rd_hashes k) key))"

lemma hgetall_live:
  assumes "redis_hgetall other w = (r, w')" "live (clock w) key (kv w) = Some h"
  shows "live (clock w) key (kv w') = Some h \<and> clock w' = clock w \<and> (other = key \<longrightarrow> (\<forall>a. r = Inr a \<longrightarrow> a = h))"
proof -
  from assms(2) have h: "\<not> expired (clock w) key (kv w)" "assoc [] (rd_hashes (kv w)) key = h"
    by (auto simp: live_def split: if_splits)
  from assms(1) [unfolded redis_hgetall_def] show ?thesis
  proof (cases rule: redis_cases)
    case (undone e)
    with assms(2) show ?thesis by simp
  next
    case (ran a)
    with live_sweep [OF h(1), of other] h(2) show ?thesis by (auto simp: live_def)
  qed
qed

lemma delete_live:
  assumes "redis_delete other w = (r, w')" "live (clock w) key (kv w) = Some h" "other \<noteq> key"
  shows "live (clock w) key (kv w') = Some h \<and> clock w' = clock w"
proof -
  from assms(2) have h: "\<not> expired (clock w) key (kv w)" "assoc [] (rd_hashes (kv w)) key = h"
    by (auto simp: live_def split: if_splits)
  from assms(1) [unfolded redis_delete_def] show ?thesis
  proof (cases rule: redis_cases)
    case (undone e)
    with assms(2) show ?thesis by simp
  next
    case (ran a)
    then have kv: "kv w' = drop_key other (sweep (clock w) other (kv w))" by auto
    from live_sweep [OF h(1), of other] have s: "\<not> expired (clock w) key (sweep (clock w) other (kv w))"
      "assoc [] (rd_hashes (sweep (clock w) other (kv w))) key = h" using h(2) by simp_all
    from live_drop [OF s(1) assms(3)] s(2) ran(3) show ?thesis by (simp add: live_def kv)
  qed
qed

lemma clean_keys_live:
  assumes "clean_keys now ttl keys n w = (r, w')" "live (clock w) key (kv w) = Some h" "\<not> cleanable now ttl h"
  shows "live (clock w) key (kv w') = Some h"
  using assms(1,2)
proof (induction keys arbitrary: n w)
  case Nil
  then show ?case by (auto simp: returnM_def)
next
  case (Cons k keys)
  from Cons.prems(1) show ?case unfolding clean_keys.simps
  proof (cases rule: bindE_cases)
    case (raised e)
    with hgetall_live [OF raised(1) Cons.prems(2)] show ?thesis by simp
  next
    case (ran state w1)
    have w1: "live (clock w1) key (kv w1) = Some h" "clock w1 = clock w" "k = key \<Longrightarrow> state = h"
      using hgetall_live [OF ran(1) Cons.prems(2)] by auto
    have skip: ?thesis if "clean_keys now ttl keys m v = (r, w')" "live (clock v) key (kv v) = Some h"
      "clock v = clock w" for m v
      using Cons.IH [OF that(1,2)] that(3) by simp
    show ?thesis
    proof (cases "\<exists>c. coerce_epoch (map_of state ''completed_at_epoch'') = Inr (Some c) \<and> \<not> now - c < ttl \<and>
        state \<noteq> [] \<and> List.member TERMINAL_STATUSES (text_of (map_of state ''status'')) \<and>
        task_id_from_task_key k \<noteq> None")
      case False
      with ran(2) w1 show ?thesis
        by (auto simp: bindE_def liftE_def split: if_splits option.splits sum.splits intro!: skip)
    next
      case True
      with w1(3) assms(3) have other: "k \<noteq> key" by (auto simp: cleanable_def)
      from True ran(2) have "bindE (redis_delete k) (\<lambda>a. clean_keys now ttl keys (n + a)) w1 = (r, w')"
        by (auto simp: bindE_def liftE_def)
      then show ?thesis
      proof (cases rule: bindE_cases)
        case (raised e)
        with delete_live [OF raised(1) w1(1) other] w1(2) show ?thesis by simp
      next
        case (ran a w2)
        with delete_live [OF ran(1) w1(1) other] w1(2) show ?thesis by (intro skip [of "n + a" w2]) auto
      qed
    qed
  qed
qed


section \<open>Properties\<close>

text \<open>The transaction that expires a reservation either leaves the database alone or settles its task as
  \<open>TIMEOUT\<close> with the full refund, whatever fails; it answers \<open>True\<close> only in the second case and
  \<open>False\<close> only in the first.\<close>

theorem expiry_contract:
  assumes "s2_inv (pg w)" "r \<in> set (credit_reservations (pg w))"
  shows "case expire_reservation (cr_task_id r) (cr_user_id r) (cr_amount r) w of (res, w') \<Rightarrow>
    pg w' = pg w \<and> (\<forall>q. res \<noteq> Inr (True, q)) \<or>
    settled TIMEOUT (cr_task_id r) (pg w) (pg w') \<and> (\<forall>q. res \<noteq> Inr (False, q))"
  using expire_reservation_outcome [OF assms(1) read_owned [OF assms]] by (auto split: prod.split)

theorem expiry_contract_witness:
  "case expire_reservation 7 1 10 (demo_app demo_pending [Fine, Fine, FailBefore (Exn ConnectionError [])]) of (res, w') \<Rightarrow>
    pg w' = demo_pending \<and> (\<forall>q. res \<noteq> Inr (True, q)) \<or>
    settled TIMEOUT 7 demo_pending (pg w') \<and> (\<forall>q. res \<noteq> Inr (False, q))"
  using expiry_contract [of "demo_app demo_pending [Fine, Fine, FailBefore (Exn ConnectionError [])]"
      "hd (credit_reservations demo_pending)"] demo_pending_inv
  by (simp add: demo_pending_def)

text \<open>One turn of the watchdog never raises, and whatever fails in it every account keeps what it is
  worth and nobody is charged.\<close>

theorem watchdog_turn_conserves:
  assumes "s2_inv (pg w)"
  shows "fst (watchdog_turn settings w) = Inr () \<and> conserves (pg w) (pg (snd (watchdog_turn settings w)))"
proof
  show "fst (watchdog_turn settings w) = Inr ()"
    by (simp add: watchdog_turn_def bindE_attempt sleep_seconds_def sleepM_def split: sum.split)
  show "conserves (pg w) (pg (snd (watchdog_turn settings w)))"
    by (rule safe_conserves [OF safe_watchdog_turn assms])
qed

theorem watchdog_turn_conserves_witness:
  "fst (watchdog_turn demo_settings (demo_app demo_pending [Fine, FailAfter (Exn ConnectionError [])])) = Inr ()"
  using watchdog_turn_conserves [of "demo_app demo_pending [Fine, FailAfter (Exn ConnectionError [])]" demo_settings]
    demo_pending_inv by simp


lemma worth_demo_pending: "worth demo_pending u = (if u = 1 then 500 else if u = 2 then 1000 else 0)"
  by (simp add: worth_def spendable_def find_user_def held_def charged_def sum_in_def demo_pending_def demo_db_def)


text \<open>The cleaner of Redis keeps, whatever fails, every task state that has not expired on its own and is
  not both terminal and past its retention.\<close>

theorem cleanup_keeps_unfinished:
  assumes "live (clock w) key (kv w) = Some h"
    "\<not> cleanable (epoch (clock w)) (st_task_result_ttl_seconds settings) h"
  shows "live (clock w) key (kv (snd (cleanup_terminal_redis settings w))) = Some h"
proof -
  obtain r w' where run: "bindE redis_scan_tasks (\<lambda>keys.
      clean_keys (epoch (clock w)) (st_task_result_ttl_seconds settings) keys 0) w = (r, w')" by fastforce
  have scan: "kv w1 = kv w \<and> clock w1 = clock w" if "redis_scan_tasks w = (q, w1)" for q w1
    using that unfolding redis_scan_tasks_def by (cases rule: remote_cases) auto
  from run have "live (clock w) key (kv w') = Some h"
  proof (cases rule: bindE_cases)
    case (raised e)
    with scan assms(1) show ?thesis by simp
  next
    case (ran keys w1)
    with clean_keys_live [OF ran(2), of key h] scan [OF ran(1)] assms show ?thesis by simp
  qed
  with run show ?thesis by (simp add: cleanup_terminal_redis_def nofault_simps)
qed

definition demo_running_state :: "(string \<times> rval) list" where
  "demo_running_state = [(''status'', Plain ''RUNNING''), (''user_id'', Plain (uuid_str 1))]"

theorem cleanup_keeps_unfinished_witness:
  "live 1700000000000000 ''task:x'' (kv (snd (cleanup_terminal_redis demo_settings
    ((demo_app demo_db [])\<lparr>kv := demo_kv\<lparr>rd_hashes := [(''task:x'', demo_running_state)]\<rparr>\<rparr>)))) = Some demo_running_state"
proof -
  have "\<not> cleanable t n demo_running_state" for t n
    by (simp add: cleanable_def demo_running_state_def TERMINAL_STATUSES_def text_of_def)
  with cleanup_keeps_unfinished [of "(demo_app demo_db [])\<lparr>kv := demo_kv\<lparr>rd_hashes := [(''task:x'', demo_running_state)]\<rparr>\<rparr>"
      "''task:x''" demo_running_state demo_settings]
  show ?thesis by (simp add: live_def expired_def demo_kv_def assoc_def)
qed

end
