(* ===== verification/S2_Worker.thy ===== *)
theory S2_Worker
  imports S2_Services S2_Settings S2_Demo
begin

text \<open>
  Solution 2, \<open>workers/worker.py\<close>: parsing a delivery, moving the task to \<open>RUNNING\<close>, running the
  model, settling the task once in a transaction guarded by the inbox, writing the result to
  Redis, and one turn of the consumer loop.  \<open>sleep_fn\<close> is the injected sleep of the model runtime;
  it tells whether it slept to the end, \<open>False\<close> standing for a turn that \<open>asyncio.wait_for\<close> cuts short.
\<close>

section \<open>Parsing a delivery\<close>

record TaskExecutionCommand =
  ec_event_id :: uuid
  ec_task_id :: uuid
  ec_user_id :: uuid
  ec_x :: int
  ec_y :: int
  ec_cost :: int
  ec_mode :: string
  ec_tier :: string
  ec_model_class :: ModelClass
  ec_queue_name :: string
  ec_routing_key :: string
  ec_event_type :: string
  ec_trace_id :: "string option"

definition WORKER_QUEUES :: "string list" where
  "WORKER_QUEUES = [''queue.realtime'', ''queue.fast'', ''queue.batch'']"

definition WORKER_CONSUMER_NAME :: string where
  "WORKER_CONSUMER_NAME = ''worker''"

definition required :: "dict \<Rightarrow> string \<Rightarrow> exn + json" where
  "required d k = (case dict_get d k of None \<Rightarrow> Inl (Exn KeyError k) | Some v \<Rightarrow> Inr v)"

text \<open>\<open>payload.get("event_id") or delivery.message_id\<close>, which must be a string.\<close>

definition event_id_of :: "dict \<Rightarrow> string option \<Rightarrow> exn + string" where
  "event_id_of payload message_id = (case dict_get payload ''event_id'' of
      Some v \<Rightarrow> (if truthy v then (case v of JStr s \<Rightarrow> Inr s | _ \<Rightarrow> Inl (Exn ValueError ''missing event_id''))
        else (case message_id of Some s \<Rightarrow> Inr s | None \<Rightarrow> Inl (Exn ValueError ''missing event_id'')))
    | None \<Rightarrow> (case message_id of Some s \<Rightarrow> Inr s | None \<Rightarrow> Inl (Exn ValueError ''missing event_id'')))"

definition parse_command_fields :: "(json \<Rightarrow> string) \<Rightarrow> RabbitMQDelivery \<Rightarrow> dict \<Rightarrow>
    exn + TaskExecutionCommand" where
  "parse_command_fields rp delivery payload =
    then_ok (event_id_of payload (rd_message_id delivery)) (\<lambda>event_id_raw.
    then_ok (required payload ''task_id'') (\<lambda>task_raw.
    then_ok (uuid_of_str (py_str rp task_raw)) (\<lambda>task_id.
    then_ok (required payload ''user_id'') (\<lambda>user_raw.
    then_ok (uuid_of_str (py_str rp user_raw)) (\<lambda>user_id.
    let mode = py_str rp (dict_get_or payload ''mode'' (JStr ''async''));
        tier = py_str rp (dict_get_or payload ''tier'' (JStr ''free'')) in
    then_ok (ModelClass_of (py_str rp (dict_get_or payload ''model_class'' (JStr ''small'')))) (\<lambda>model_class.
    let event_type = py_str rp (dict_get_or payload ''event_type'' (JStr ''task.submitted''));
        trace_id = (case dict_get payload ''trace_id'' of Some (JStr s) \<Rightarrow> Some s | _ \<Rightarrow> None);
        command = (\<lambda>event_id x y cost.
          \<lparr>ec_event_id = event_id, ec_task_id = task_id, ec_user_id = user_id, ec_x = x, ec_y = y,
           ec_cost = cost, ec_mode = mode, ec_tier = tier, ec_model_class = model_class,
           ec_queue_name = rd_queue_name delivery, ec_routing_key = rd_routing_key delivery,
           ec_event_type = event_type, ec_trace_id = trace_id\<rparr>) in
    if event_type \<noteq> ''task.submitted'' then
      then_ok (uuid_of_str event_id_raw) (\<lambda>event_id.
      then_ok (py_int_of (dict_get_or payload ''cost'' (JInt 0))) (\<lambda>cost.
      Inr (command event_id 0 0 cost)))
    else
      then_ok (required payload ''x'') (\<lambda>x_raw. then_ok (py_int_of x_raw) (\<lambda>x.
      then_ok (required payload ''y'') (\<lambda>y_raw. then_ok (py_int_of y_raw) (\<lambda>y.
      then_ok (required payload ''cost'') (\<lambda>cost_raw. then_ok (py_int_of cost_raw) (\<lambda>cost.
      then_ok (uuid_of_str event_id_raw) (\<lambda>event_id.
      Inr (command event_id x y cost))))))))))))))"

definition parse_task_command :: "(json \<Rightarrow> string) \<Rightarrow> RabbitMQDelivery \<Rightarrow> TaskExecutionCommand option" where
  "parse_task_command rp delivery = (case rd_body delivery of
      Decoded (JObj payload) \<Rightarrow> (case parse_command_fields rp delivery payload of
          Inl _ \<Rightarrow> None
        | Inr command \<Rightarrow> Some command)
    | _ \<Rightarrow> None)"

section \<open>Running and settling\<close>

definition set_running_state :: "TaskExecutionCommand \<Rightarrow> bool app" where
  "set_running_state command =
     bindE (get_task_command (ec_task_id command)) (\<lambda>existing. case existing of
       None \<Rightarrow> returnM False
     | Some c \<Rightarrow>
         if List.member [COMPLETED, FAILED, CANCELLED, TIMEOUT, EXPIRED] (tc_status c) then returnM False
         else if tc_status c = RUNNING then returnM True
         else update_task_command_running (ec_task_id command))"

definition completed_payload :: "TaskExecutionCommand \<Rightarrow> dict \<Rightarrow> int \<Rightarrow> dict" where
  "completed_payload command result_payload runtime_ms =
       [(''task_id'', JStr (uuid_str (ec_task_id command))),
        (''user_id'', JStr (uuid_str (ec_user_id command))),
        (''mode'', JStr (ec_mode command)), (''tier'', JStr (ec_tier command)),
        (''model_class'', JStr (ModelClass_value (ec_model_class command))),
        (''queue'', JStr (ec_queue_name command)), (''cost'', JInt (ec_cost command)),
        (''status'', JStr (TaskStatus_value COMPLETED)), (''result'', JObj result_payload),
        (''runtime_ms'', JInt runtime_ms), (''trace_id'', opt_str (ec_trace_id command))]"

definition persist_success_body :: "TaskExecutionCommand \<Rightarrow> dict \<Rightarrow> int \<Rightarrow> bool app" where
  "persist_success_body command result_payload runtime_ms =
     bindE (record_inbox_event (ec_event_id command) WORKER_CONSUMER_NAME) (\<lambda>dedup_inserted.
     if \<not> dedup_inserted then returnM False else
     bindE (update_task_command_completed (ec_task_id command)) (\<lambda>status_updated.
     if \<not> status_updated then returnM False else
     bindE (get_credit_reservation (ec_task_id command)) (\<lambda>reservation. case reservation of
       None \<Rightarrow> raiseM RuntimeError ''reservation missing for completed task''
     | Some r \<Rightarrow>
     if cr_state r \<noteq> RESERVED then raiseM RuntimeError ''reservation must be RESERVED before capture'' else
     bindE (capture_reservation (ec_task_id command)) (\<lambda>captured.
     if \<not> captured then raiseM RuntimeError ''reservation capture failed'' else
     bindE (create_outbox_event (ec_task_id command) ''task.completed'' (ec_routing_key command)
       (completed_payload command result_payload runtime_ms)) (\<lambda>_.
     returnM True)))))"

definition persist_success :: "TaskExecutionCommand \<Rightarrow> dict \<Rightarrow> int \<Rightarrow> bool app" where
  "persist_success command result_payload runtime_ms =
     acquire (transaction (persist_success_body command result_payload runtime_ms))"

definition failed_payload :: "TaskExecutionCommand \<Rightarrow> string \<Rightarrow> dict" where
  "failed_payload command error_message =
       [(''task_id'', JStr (uuid_str (ec_task_id command))),
        (''user_id'', JStr (uuid_str (ec_user_id command))),
        (''mode'', JStr (ec_mode command)), (''tier'', JStr (ec_tier command)),
        (''model_class'', JStr (ModelClass_value (ec_model_class command))),
        (''queue'', JStr (ec_queue_name command)), (''cost'', JInt (ec_cost command)),
        (''status'', JStr (TaskStatus_value FAILED)), (''error'', JStr error_message),
        (''trace_id'', opt_str (ec_trace_id command))]"

definition persist_failure_body :: "TaskExecutionCommand \<Rightarrow> string \<Rightarrow> bool app" where
  "persist_failure_body command error_message =
     bindE (record_inbox_event (ec_event_id command) WORKER_CONSUMER_NAME) (\<lambda>dedup_inserted.
     if \<not> dedup_inserted then returnM False else
     bindE (update_task_command_failed (ec_task_id command)) (\<lambda>status_updated.
     if \<not> status_updated then returnM False else
     bindE (get_credit_reservation (ec_task_id command)) (\<lambda>reservation. case reservation of
       None \<Rightarrow> raiseM RuntimeError ''reservation missing for failed task''
     | Some r \<Rightarrow>
     if cr_state r \<noteq> RESERVED then raiseM RuntimeError ''reservation must be RESERVED before release'' else
     bindE (release_reservation (ec_task_id command)) (\<lambda>released.
     if \<not> released then raiseM RuntimeError ''reservation release failed'' else
     bindE (add_user_credits (cr_user_id r) (cr_amount r)) (\<lambda>updated_balance. case updated_balance of
       None \<Rightarrow> raiseM RuntimeError ''credit refund target user not found''
     | Some _ \<Rightarrow>
     bindE (insert_credit_transaction (cr_user_id r) (Some (ec_task_id command)) (cr_amount r)
              ''task_failed_refund'') (\<lambda>_.
     bindE (create_outbox_event (ec_task_id command) ''task.failed'' (ec_routing_key command)
       (failed_payload command error_message)) (\<lambda>_.
     returnM True)))))))"

definition persist_failure :: "TaskExecutionCommand \<Rightarrow> string \<Rightarrow> bool app" where
  "persist_failure command error_message =
     acquire (transaction (persist_failure_body command error_message))"

definition write_terminal_cache :: "int \<Rightarrow> TaskExecutionCommand \<Rightarrow> TaskStatus \<Rightarrow> dict option \<Rightarrow>
    string option \<Rightarrow> int option \<Rightarrow> unit app" where
  "write_terminal_cache ttl command status result_payload error_message runtime_ms =
     bindE get_clock (\<lambda>now.
     let key = task_state_key (ec_task_id command);
         mapping = [(''status'', Plain (TaskStatus_value status)),
           (''task_id'', Plain (uuid_str (ec_task_id command))),
           (''user_id'', Plain (uuid_str (ec_user_id command))),
           (''queue'', Plain (ec_queue_name command)), (''cost'', Plain (str_of_int (ec_cost command))),
           (''completed_at_epoch'', Plain (str_of_int (epoch now))),
           (''error'', Plain (case error_message of None \<Rightarrow> [] | Some e \<Rightarrow> e))] @
           (case runtime_ms of None \<Rightarrow> [] | Some n \<Rightarrow> [(''runtime_ms'', Plain (str_of_int n))]) @
           (case result_payload of None \<Rightarrow> [] | Some p \<Rightarrow> [(''result'', Dumped (JObj p))]) in
     bindE (redis_hset key mapping) (\<lambda>_. redis_expire key ttl))"

section \<open>The model runtime\<close>

text \<open>\<open>WorkerModel\<close>; \<open>warmed\<close> is its flag.\<close>

definition warmup :: "(real \<Rightarrow> bool app) \<Rightarrow> real \<Rightarrow> bool \<Rightarrow> bool app" where
  "warmup sleep_fn warmup_seconds warmed =
     (if warmed \<or> max 0 warmup_seconds \<le> 0 then returnM True else sleep_fn (max 0 warmup_seconds))"

definition execute_model :: "(real \<Rightarrow> bool app) \<Rightarrow> real \<Rightarrow> bool \<Rightarrow> TaskExecutionCommand \<Rightarrow> (dict \<times> int) option app" where
  "execute_model sleep_fn warmup_seconds warmed command =
     bindE (warmup sleep_fn warmup_seconds warmed) (\<lambda>ready.
     if \<not> ready then returnM None else
     bindE get_clock (\<lambda>started_at.
     bindE (sleep_fn (runtime_seconds_for_model (ec_model_class command))) (\<lambda>done.
     if \<not> done then returnM None else
     bindE get_clock (\<lambda>ended_at.
     returnM (Some ([(''z'', JInt (ec_x command + ec_y command))],
              max 1 ((ended_at - started_at) div 1000)))))))"

section \<open>One delivery\<close>

definition process_delivery :: "(json \<Rightarrow> string) \<Rightarrow> (real \<Rightarrow> bool app) \<Rightarrow> real \<Rightarrow> bool \<Rightarrow> AppSettings \<Rightarrow>
    RabbitMQDelivery \<Rightarrow> TaskCompletionMetricStatus app" where
  "process_delivery rp sleep_fn warmup_seconds warmed settings delivery =
    (case parse_task_command rp delivery of
       None \<Rightarrow> returnM METRIC_SKIPPED
     | Some command \<Rightarrow>
         if ec_event_type command \<noteq> ''task.submitted'' then returnM METRIC_SKIPPED else
         bindE (set_running_state command) (\<lambda>running.
         if \<not> running then returnM METRIC_SKIPPED else
         bindE (attempt (execute_model sleep_fn warmup_seconds warmed command)) (\<lambda>outcome.
         case outcome of
           Inl e \<Rightarrow>
             let error_message = ''worker_execution_failed:'' @ exn_text e in
             bindE (persist_failure command error_message) (\<lambda>applied.
             if \<not> applied then returnM METRIC_SKIPPED else
             bindE (write_terminal_cache (st_redis_task_state_ttl_seconds settings) command FAILED None
               (Some error_message) None) (\<lambda>_.
             returnM METRIC_FAILED))
         | Inr None \<Rightarrow> raiseM TimeoutError []
         | Inr (Some (result_payload, runtime_ms)) \<Rightarrow>
             bindE (persist_success command result_payload runtime_ms) (\<lambda>applied.
             if \<not> applied then returnM METRIC_SKIPPED else
             bindE (write_terminal_cache (st_redis_task_state_ttl_seconds settings) command COMPLETED
               (Some result_payload) None (Some runtime_ms)) (\<lambda>_.
             returnM METRIC_COMPLETED)))))"

section \<open>The consumer loop\<close>

text \<open>The settings record has no idle interval of the worker: the default of the \<open>getattr\<close> applies.\<close>

definition worker_idle_sleep_seconds :: real where
  "worker_idle_sleep_seconds = max (1 / 100) (1 / 20)"

definition worker_error_backoff_seconds :: "AppSettings \<Rightarrow> real" where
  "worker_error_backoff_seconds settings = max (1 / 20) (st_worker_error_backoff_seconds settings)"

definition refresh_worker_heartbeat :: "AppSettings \<Rightarrow> unit app" where
  "refresh_worker_heartbeat settings = bindE get_clock (\<lambda>now.
     redis_set_ex (st_worker_heartbeat_key settings) (epoch now) (st_worker_heartbeat_ttl_seconds settings))"

definition refresh_queue_depth_metrics :: "unit app" where
  "refresh_queue_depth_metrics = bindE (attempt (queue_depths WORKER_QUEUES)) (\<lambda>_. returnM ())"

text \<open>
  One turn: take a delivery, process it and ack it; requeue it when it timed out or raised.  The
  heartbeat and the requeueing are outside of the handlers, so their failures end the loop.
\<close>

definition worker_turn :: "(json \<Rightarrow> string) \<Rightarrow> (real \<Rightarrow> bool app) \<Rightarrow> real \<Rightarrow> bool \<Rightarrow> AppSettings \<Rightarrow> unit app" where
  "worker_turn rp sleep_fn warmup_seconds warmed settings =
     bindE (refresh_worker_heartbeat settings) (\<lambda>_.
     bindE refresh_queue_depth_metrics (\<lambda>_.
     bindE (get_one WORKER_QUEUES) (\<lambda>delivery. case delivery of
       None \<Rightarrow> sleep_seconds worker_idle_sleep_seconds
     | Some d \<Rightarrow>
         bindE (attempt (bindE (process_delivery rp sleep_fn warmup_seconds warmed settings d) (\<lambda>_.
           ack (rd_delivery_tag d)))) (\<lambda>outcome. case outcome of
           Inr _ \<Rightarrow> returnM ()
         | Inl e \<Rightarrow>
             bindE (nack_requeue (rd_delivery_tag d)) (\<lambda>_.
             if exn_kind e = TimeoutError then returnM ()
             else sleep_seconds (worker_error_backoff_seconds settings))))))"

section \<open>What the settlements do\<close>

lemma persist_success_body_ok:
  assumes inv: "s2_inv (pg w)"
    and run: "persist_success_body command res ms w = (Inr ok, w')"
  shows "if ok then settled COMPLETED (ec_task_id command) (pg w) (pg w') \<and>
      first_time (ec_event_id command) WORKER_CONSUMER_NAME (pg w) (pg w')
    else conserves (pg w) (pg w') \<and> same_books (pg w) (pg w')"
proof (cases ok)
  case True
  with run inv have "settled COMPLETED (ec_task_id command) (pg w) (pg w')"
    unfolding persist_success_body_def status_statements settle_statements
    by (auto elim!: settle_elims create_outbox_okE split: if_splits option.splits)
      (rule captured_settled [OF inv];
        (assumption | simp add: task_active_def s2_inv_def keyed_append))
  moreover from True run have "first_time (ec_event_id command) WORKER_CONSUMER_NAME (pg w) (pg w')"
    unfolding persist_success_body_def status_statements settle_statements first_time_def
    by (auto elim!: settle_elims create_outbox_okE split: if_splits option.splits)
  ultimately show ?thesis using True by simp
next
  case False
  with run inv show ?thesis
    unfolding persist_success_body_def status_statements settle_statements
    by (auto elim!: settle_elims create_outbox_okE simp: conserves_refl conserves_inbox
        active_status_missed [OF inbox_inv, simplified] same_books_def split: if_splits option.splits)
qed

lemma persist_failure_body_ok:
  assumes inv: "s2_inv (pg w)"
    and run: "persist_failure_body command msg w = (Inr ok, w')"
  shows "if ok then settled FAILED (ec_task_id command) (pg w) (pg w') \<and>
      first_time (ec_event_id command) WORKER_CONSUMER_NAME (pg w) (pg w')
    else conserves (pg w) (pg w') \<and> same_books (pg w) (pg w')"
proof (cases ok)
  case True
  with run inv have "settled FAILED (ec_task_id command) (pg w) (pg w')"
    unfolding persist_failure_body_def status_statements settle_statements
    by (auto elim!: settle_elims create_outbox_okE split: if_splits option.splits)
      (rule refunded_settled [OF inv], (assumption |
        (simp add: task_active_def s2_inv_def keyed_append users_set_credits; fail))+)
  moreover from True run have "first_time (ec_event_id command) WORKER_CONSUMER_NAME (pg w) (pg w')"
    unfolding persist_failure_body_def status_statements settle_statements first_time_def
    by (auto elim!: settle_elims create_outbox_okE split: if_splits option.splits)
  ultimately show ?thesis using True by simp
next
  case False
  with run inv show ?thesis
    unfolding persist_failure_body_def status_statements settle_statements
    by (auto elim!: settle_elims create_outbox_okE simp: conserves_refl conserves_inbox
        active_status_missed [OF inbox_inv, simplified] same_books_def split: if_splits option.splits)
qed

text \<open>Outside the transaction: settled once, or nothing on the books changed.\<close>

lemma persist_outcome:
  assumes inv: "s2_inv (pg w)"
    and tx: "acquire (transaction m) w = (r, w')"
    and body: "\<And>w ok w'. s2_inv (pg w) \<Longrightarrow> m w = (Inr ok, w') \<Longrightarrow>
      if ok then settled st t (pg w) (pg w') \<and> first_time e c (pg w) (pg w')
      else conserves (pg w) (pg w') \<and> same_books (pg w) (pg w')"
  shows "same_books (pg w) (pg w') \<and> r \<noteq> Inr True \<or>
    settled st t (pg w) (pg w') \<and> first_time e c (pg w) (pg w') \<and> r \<noteq> Inr False"
  using tx
proof (cases rule: in_transaction)
  case (undone e)
  then show ?thesis by (simp add: same_books_def)
next
  case (ran ok fs w1)
  with body [OF _ ran(1)] inv show ?thesis by (cases ok) auto
qed

lemma persist_success_outcome:
  assumes "s2_inv (pg w)" "persist_success command res ms w = (r, w')"
  shows "same_books (pg w) (pg w') \<and> r \<noteq> Inr True \<or>
    settled COMPLETED (ec_task_id command) (pg w) (pg w') \<and>
    first_time (ec_event_id command) WORKER_CONSUMER_NAME (pg w) (pg w') \<and> r \<noteq> Inr False"
  using assms unfolding persist_success_def
  by (intro persist_outcome persist_success_body_ok)

lemma persist_failure_outcome:
  assumes "s2_inv (pg w)" "persist_failure command msg w = (r, w')"
  shows "same_books (pg w) (pg w') \<and> r \<noteq> Inr True \<or>
    settled FAILED (ec_task_id command) (pg w) (pg w') \<and>
    first_time (ec_event_id command) WORKER_CONSUMER_NAME (pg w) (pg w') \<and> r \<noteq> Inr False"
  using assms unfolding persist_failure_def
  by (intro persist_outcome persist_failure_body_ok)

lemma safe_settling:
  assumes body: "\<And>w ok w'. s2_inv (pg w) \<Longrightarrow> m w = (Inr ok, w') \<Longrightarrow>
      if ok then settled st t (pg w) (pg w') \<and> first_time e c (pg w) (pg w')
      else conserves (pg w) (pg w') \<and> same_books (pg w) (pg w')"
  shows "safe (acquire (transaction m))"
proof (intro safe_acquire safe_transaction)
  fix w ok w'
  assume "s2_inv (pg w)" "m w = (Inr ok, w')"
  from body [OF this] show "conserves (pg w) (pg w')" by (cases ok) (auto intro: settled_conserves)
qed

lemma safe_persist [safe_rules]:
  "safe (persist_success command res ms)" "safe (persist_failure command msg)"
  unfolding persist_success_def persist_failure_def
  by (rule safe_settling, erule (1) persist_success_body_ok)
    (rule safe_settling, erule (1) persist_failure_body_ok)

lemma safe_set_running [safe_rules]: "safe (set_running_state command)"
  unfolding set_running_state_def by (intro safe_rules)

lemma safe_write_terminal_cache [safe_rules]: "safe (write_terminal_cache ttl command st res err ms)"
  unfolding write_terminal_cache_def Let_def by (intro safe_rules)


section \<open>What a delivery does\<close>

lemma started_settled:
  assumes "started t d d1" "settled st t d1 d2"
  shows "settled st t d d2"
proof -
  from assms(1) obtain u n where t: "task_state d t = Some (u, n, PENDING)"
    and books: "book_of d1 = book_start t (book_of d)" "charged d1 = charged d" and c: "conserves d d1"
    by (auto simp: started_def)
  have start: "book_start t (book_of d) = (spendable d, (task_state d)(t := Some (u, n, RUNNING)))"
    using t by (simp add: book_start_def book_of_def)
  then have "task_state d1 t = Some (u, n, RUNNING)" using books(1) by (simp add: book_of_def)
  moreover have "book_settle st t (book_of d1) = book_settle st t (book_of d)"
    unfolding books(1) start using t by (simp add: book_settle_def book_of_def)
  ultimately show ?thesis
    using assms(2) t books(2) conserves_trans [OF c] by (auto simp: settled_def task_active_def)
qed

lemma set_running_outcome:
  assumes "s2_inv (pg w)" "set_running_state command w = (r, w')"
  shows "pg w' = pg w \<or> started (ec_task_id command) (pg w) (pg w') \<and> r \<noteq> Inr False"
  using assms(2) unfolding set_running_state_def
proof (cases rule: bindE_cases)
  case (raised e)
  then show ?thesis using keeps_pgD [OF keeps_reads(1)] by metis
next
  case (ran found w1)
  then have "pg w1 = pg w" using keeps_pgD [OF keeps_reads(1)] by metis
  with ran(2) start_outcome [of w1 "ec_task_id command" r w'] assms(1) show ?thesis
    by (auto simp: returnM_def split: option.splits if_splits)
qed

text \<open>The sleep of the model leaves the database alone.\<close>

definition quiet :: "(real \<Rightarrow> bool app) \<Rightarrow> bool" where
  "quiet sleep_fn \<longleftrightarrow> (\<forall>n w. pg (snd (sleep_fn n w)) = pg w)"

lemma quiet_keeps: "quiet sleep_fn \<Longrightarrow> keeps I (sleep_fn n)"
  by (simp add: quiet_def keeps_def)

lemma keeps_execute_model: "quiet sleep_fn \<Longrightarrow> keeps I (execute_model sleep_fn n warmed command)"
  unfolding execute_model_def warmup_def
  by (intro keeps_rules quiet_keeps)

lemma keeps_write_terminal_cache [keeps_rules]:
  "keeps I (write_terminal_cache ttl command st res err ms)"
  unfolding write_terminal_cache_def Let_def by (intro keeps_rules)

definition delivery_outcome :: "TaskExecutionCommand option \<Rightarrow> s2db \<Rightarrow> s2db \<Rightarrow>
    exn + TaskCompletionMetricStatus \<Rightarrow> bool" where
  "delivery_outcome parsed d d' r = (case parsed of
      None \<Rightarrow> d' = d \<and> r = Inr METRIC_SKIPPED
    | Some c \<Rightarrow>
        let t = ec_task_id c;
            settles = (\<lambda>st. settled st t d d' \<and> first_time (ec_event_id c) WORKER_CONSUMER_NAME d d') in
        (book_of d' = book_of d \<or> book_of d' = book_start t (book_of d)) \<and> charged d' = charged d \<and>
          conserves d d' \<and> r \<noteq> Inr METRIC_COMPLETED \<and> r \<noteq> Inr METRIC_FAILED \<or>
        settles COMPLETED \<and> (r = Inr METRIC_COMPLETED \<or> (\<exists>e. r = Inl e)) \<or>
        settles FAILED \<and> (r = Inr METRIC_FAILED \<or> (\<exists>e. r = Inl e)))"


lemma settlement_case:
  assumes "bindE persist (\<lambda>applied. if \<not> applied then returnM METRIC_SKIPPED else
      bindE cache (\<lambda>_. returnM metric)) w = (r, w')"
    and persist: "\<And>r w1. persist w = (r, w1) \<Longrightarrow> same_books (pg w) (pg w1) \<and> conserves (pg w) (pg w1) \<and> r \<noteq> Inr True \<or>
      settles (pg w1) \<and> r \<noteq> Inr False"
    and cache: "\<And>I. keeps I cache"
    and metric: "metric \<noteq> METRIC_SKIPPED"
  shows "same_books (pg w) (pg w') \<and> conserves (pg w) (pg w') \<and> r \<notin> {Inr METRIC_COMPLETED, Inr METRIC_FAILED} \<or>
    settles (pg w') \<and> (r = Inr metric \<or> (\<exists>e. r = Inl e))"
  using assms(1)
proof (cases rule: bindE_cases)
  case (raised e)
  then show ?thesis using persist by blast
next
  case (ran applied w1)
  show ?thesis
  proof (cases applied)
    case False
    with ran persist [OF ran(1)] show ?thesis by (auto simp: returnM_def)
  next
    case True
    with ran(2) have "bindE cache (\<lambda>_. returnM metric) w1 = (r, w')" by simp
    moreover from this have "pg w' = pg w1"
      by (rule keeps_pgD [rotated]) (intro keeps_rules cache)
    ultimately show ?thesis using persist [OF ran(1)] True
      by (auto simp: bindE_def returnM_def split: sum.splits prod.splits)
  qed
qed

lemma delivery_outcomeI:
  assumes inv: "s2_inv d" and first: "d1 = d \<or> started (ec_task_id c) d d1"
    and rest: "same_books d1 d' \<and> conserves d1 d' \<and> r \<notin> {Inr METRIC_COMPLETED, Inr METRIC_FAILED} \<or>
      (settled st (ec_task_id c) d1 d' \<and> first_time (ec_event_id c) WORKER_CONSUMER_NAME d1 d') \<and>
        (r = Inr m \<or> (\<exists>e. r = Inl e))"
    and pair: "(st, m) = (COMPLETED, METRIC_COMPLETED) \<or> (st, m) = (FAILED, METRIC_FAILED)"
  shows "delivery_outcome (Some c) d d' r"
proof -
  from first inv have d1: "conserves d d1" "charged d1 = charged d" "inbox_events d1 = inbox_events d"
    "book_of d1 = book_of d \<or> book_of d1 = book_start (ec_task_id c) (book_of d)"
    by (auto simp: started_def conserves_refl)
  from rest show ?thesis
  proof
    assume "same_books d1 d' \<and> conserves d1 d' \<and> r \<notin> {Inr METRIC_COMPLETED, Inr METRIC_FAILED}"
    then show ?thesis
      using d1 same_books_book [of d1 d'] conserves_trans [OF d1(1), of d']
      unfolding delivery_outcome_def Let_def by auto
  next
    assume s: "(settled st (ec_task_id c) d1 d' \<and> first_time (ec_event_id c) WORKER_CONSUMER_NAME d1 d') \<and>
        (r = Inr m \<or> (\<exists>e. r = Inl e))"
    then have "settled st (ec_task_id c) d d'" "first_time (ec_event_id c) WORKER_CONSUMER_NAME d d'"
      using first started_settled d1(3) by (auto simp: first_time_def)
    with s pair show ?thesis unfolding delivery_outcome_def Let_def by auto
  qed
qed

lemma persist_cases:
  assumes "s2_inv (pg w)"
  shows "persist_success c res ms w = (r, w1) \<Longrightarrow>
      same_books (pg w) (pg w1) \<and> conserves (pg w) (pg w1) \<and> r \<noteq> Inr True \<or>
      (settled COMPLETED (ec_task_id c) (pg w) (pg w1) \<and>
       first_time (ec_event_id c) WORKER_CONSUMER_NAME (pg w) (pg w1)) \<and> r \<noteq> Inr False"
    and "persist_failure c msg w = (r, w1) \<Longrightarrow>
      same_books (pg w) (pg w1) \<and> conserves (pg w) (pg w1) \<and> r \<noteq> Inr True \<or>
      (settled FAILED (ec_task_id c) (pg w) (pg w1) \<and>
       first_time (ec_event_id c) WORKER_CONSUMER_NAME (pg w) (pg w1)) \<and> r \<noteq> Inr False"
  using persist_success_outcome [OF assms] persist_failure_outcome [OF assms]
    safe_conserves [OF safe_persist(1) assms] safe_conserves [OF safe_persist(2) assms]
  by (metis snd_conv)+

definition settle_outcome :: "AppSettings \<Rightarrow> TaskExecutionCommand \<Rightarrow> exn + (dict \<times> int) option \<Rightarrow>
    TaskCompletionMetricStatus app" where
  "settle_outcome settings command outcome = (case outcome of
      Inl e \<Rightarrow>
        let error_message = ''worker_execution_failed:'' @ exn_text e in
        bindE (persist_failure command error_message) (\<lambda>applied.
        if \<not> applied then returnM METRIC_SKIPPED else
        bindE (write_terminal_cache (st_redis_task_state_ttl_seconds settings) command FAILED None
          (Some error_message) None) (\<lambda>_.
        returnM METRIC_FAILED))
    | Inr None \<Rightarrow> raiseM TimeoutError []
    | Inr (Some (result_payload, runtime_ms)) \<Rightarrow>
        bindE (persist_success command result_payload runtime_ms) (\<lambda>applied.
        if \<not> applied then returnM METRIC_SKIPPED else
        bindE (write_terminal_cache (st_redis_task_state_ttl_seconds settings) command COMPLETED
          (Some result_payload) None (Some runtime_ms)) (\<lambda>_.
        returnM METRIC_COMPLETED)))"

lemma settle_outcome_cases:
  assumes inv: "s2_inv (pg w)" and run: "settle_outcome settings c outcome w = (r, w')"
  obtains st m where "(st, m) = (COMPLETED, METRIC_COMPLETED) \<or> (st, m) = (FAILED, METRIC_FAILED)"
    "same_books (pg w) (pg w') \<and> conserves (pg w) (pg w') \<and> r \<notin> {Inr METRIC_COMPLETED, Inr METRIC_FAILED} \<or>
      (settled st (ec_task_id c) (pg w) (pg w') \<and> first_time (ec_event_id c) WORKER_CONSUMER_NAME (pg w) (pg w')) \<and>
        (r = Inr m \<or> (\<exists>e. r = Inl e))"
proof (cases outcome)
  case (Inl e)
  note tail = run [unfolded settle_outcome_def Inl sum.case Let_def]
  show thesis
    by (rule that [of FAILED METRIC_FAILED], simp,
      rule settlement_case [OF tail persist_cases(2) [OF inv]]) (simp_all add: keeps_write_terminal_cache)
next
  case (Inr res)
  show thesis
  proof (cases res)
    case None
    with run Inr inv show thesis
      by (intro that [of FAILED METRIC_FAILED])
        (auto simp: settle_outcome_def raiseM_def same_books_def conserves_refl)
  next
    case (Some rm)
    obtain p n where "rm = (p, n)" by fastforce
    note tail = run [unfolded settle_outcome_def Inr Some this sum.case option.case prod.case]
    show thesis
      by (rule that [of COMPLETED METRIC_COMPLETED], simp,
        rule settlement_case [OF tail persist_cases(1) [OF inv]]) (simp_all add: keeps_write_terminal_cache)
  qed
qed

text \<open>\<open>process_delivery\<close> with the two paths after the model run folded.\<close>

lemma process_delivery_settle:
  "process_delivery rp sleep_fn wu warmed settings delivery =
    (case parse_task_command rp delivery of
       None \<Rightarrow> returnM METRIC_SKIPPED
     | Some command \<Rightarrow>
         if ec_event_type command \<noteq> ''task.submitted'' then returnM METRIC_SKIPPED else
         bindE (set_running_state command) (\<lambda>running.
         if \<not> running then returnM METRIC_SKIPPED else
         bindE (attempt (execute_model sleep_fn wu warmed command)) (settle_outcome settings command)))"
  unfolding process_delivery_def settle_outcome_def ..

lemma process_delivery_outcome:
  assumes inv: "s2_inv (pg w)" and quiet: "quiet sleep_fn"
    and run: "process_delivery rp sleep_fn wu warmed settings delivery w = (r, w')"
  shows "delivery_outcome (parse_task_command rp delivery) (pg w) (pg w') r"
proof (cases "parse_task_command rp delivery")
  case None
  with run show ?thesis by (simp add: process_delivery_def delivery_outcome_def returnM_def)
next
  case (Some c)
  have unsettled: "delivery_outcome (Some c) (pg w) d r"
    if "d = pg w \<or> started (ec_task_id c) (pg w) d" "r \<noteq> Inr METRIC_COMPLETED" "r \<noteq> Inr METRIC_FAILED" for d
    using that inv by (intro delivery_outcomeI [OF inv that(1), where st = FAILED])
      (auto simp: same_books_def conserves_refl started_def conserves_def)
  show ?thesis
  proof (cases "ec_event_type c = ''task.submitted''")
    case False
    with run Some have "pg w' = pg w" "r = Inr METRIC_SKIPPED"
      by (auto simp: process_delivery_def returnM_def)
    with unsettled [of "pg w'"] Some show ?thesis by simp
  next
    case True
    with run Some have "bindE (set_running_state c) (\<lambda>running.
         if \<not> running then returnM METRIC_SKIPPED else
         bindE (attempt (execute_model sleep_fn wu warmed c)) (settle_outcome settings c)) w = (r, w')"
      by (simp add: process_delivery_settle)
    then show ?thesis
    proof (cases rule: bindE_cases)
      case (raised e)
      with set_running_outcome [OF inv raised(1)] Some unsettled [of "pg w'"] show ?thesis by auto
    next
      case (ran running w1)
      note first = set_running_outcome [OF inv ran(1)]
      show ?thesis
      proof (cases running)
        case False
        with ran(2) have "pg w' = pg w1" "r = Inr METRIC_SKIPPED" by (auto simp: returnM_def)
        with first Some unsettled [of "pg w'"] show ?thesis by auto
      next
        case True
        define w2 where "w2 = snd (execute_model sleep_fn wu warmed c w1)"
        have w2: "pg w2 = pg w1"
          using keeps_pg [OF keeps_execute_model [OF quiet]] by (simp add: w2_def)
        from True ran(2) have
          "settle_outcome settings c (fst (execute_model sleep_fn wu warmed c w1)) w2 = (r, w')"
          by (simp add: bindE_attempt w2_def)
        moreover have "s2_inv (pg w2)" using first inv w2 by (auto simp: started_def conserves_def)
        moreover have "pg w2 = pg w \<or> started (ec_task_id c) (pg w) (pg w2)" using first w2 by auto
        ultimately show ?thesis
          unfolding Some by (elim settle_outcome_cases [rotated]) (rule delivery_outcomeI [OF inv])
      qed
    qed
  qed
qed


section \<open>Redelivery\<close>

text \<open>\<open>asyncio.sleep\<close>, the default of \<open>sleep_fn\<close>; \<open>late\<close> stands for a turn that times out.\<close>

definition model_sleep :: "bool \<Rightarrow> real \<Rightarrow> bool app" where
  "model_sleep late n = bindE (sleep_seconds n) (\<lambda>_. returnM (\<not> late))"

lemma quiet_model_sleep: "quiet (model_sleep late)"
  unfolding quiet_def model_sleep_def by (intro allI keeps_pg keeps_rules)

text \<open>A delivery as it happens: the message, the faults on the way, and whether the turn timed out.\<close>

type_synonym delivery_event = "RabbitMQDelivery \<times> fault list \<times> bool"

definition deliver :: "(json \<Rightarrow> string) \<Rightarrow> real \<Rightarrow> bool \<Rightarrow> AppSettings \<Rightarrow> delivery_event \<Rightarrow>
    (s2db, s2kv) world \<Rightarrow> (s2db, s2kv) world" where
  "deliver rp wu warmed settings m w = (case m of (d, fs, late) \<Rightarrow>
     snd (process_delivery rp (model_sleep late) wu warmed settings d (w\<lparr>faults := fs\<rparr>)))"

definition event_of :: "(json \<Rightarrow> string) \<Rightarrow> delivery_event \<Rightarrow> uuid option" where
  "event_of rp m = map_option ec_event_id (parse_task_command rp (fst m))"

definition handled :: "(s2db, s2kv) world \<Rightarrow> uuid option \<Rightarrow> bool" where
  "handled w e = (case e of None \<Rightarrow> False | Some e \<Rightarrow> (e, WORKER_CONSUMER_NAME) \<in> set (inbox_events (pg w)))"

definition ends_task :: "s2db \<Rightarrow> s2db \<Rightarrow> bool" where
  "ends_task d d' \<longleftrightarrow> (\<exists>t u n s s'. task_state d t = Some (u, n, s) \<and> task_active s \<and>
     task_state d' t = Some (u, n, s') \<and> \<not> task_active s')"

lemma book_same_task: "book_of d' = book_of d \<Longrightarrow> task_state d' = task_state d"
  by (simp add: book_of_def)

lemma book_start_task: "book_of d' = book_start t (book_of d) \<Longrightarrow>
    task_state d' s = (if s = t then map_option (\<lambda>(u, n, _). (u, n, RUNNING)) (task_state d t) else task_state d s)"
  by (cases "task_state d t") (auto simp: book_of_def book_start_def simp del: task_state_None)

lemma outcome_ends_task:
  assumes "delivery_outcome parsed d d' r" "ends_task d d'"
  obtains c where "parsed = Some c" "first_time (ec_event_id c) WORKER_CONSUMER_NAME d d'"
proof (cases parsed)
  case None
  with assms show thesis by (auto simp: delivery_outcome_def ends_task_def)
next
  case (Some c)
  have "\<not> (book_of d' = book_of d \<or> book_of d' = book_start (ec_task_id c) (book_of d))"
    using assms(2) book_same_task [of d' d] book_start_task [of d' "ec_task_id c" d]
    unfolding ends_task_def by (auto simp: task_active_def split: if_splits)
  with assms(1) Some that show thesis unfolding delivery_outcome_def Let_def by auto
qed

lemma inbox_statements:
  "keeps (\<lambda>d. x \<in> set (inbox_events d)) (set_status_where allowed st t)"
  "keeps (\<lambda>d. x \<in> set (inbox_events d)) (settle_reservation s t)"
  "keeps (\<lambda>d. x \<in> set (inbox_events d)) (add_user_credits u n)"
  "keeps (\<lambda>d. x \<in> set (inbox_events d)) (insert_credit_transaction u tid n txt)"
  "keeps (\<lambda>d. x \<in> set (inbox_events d)) (record_inbox_event e con)"
  unfolding set_status_where_def settle_reservation_def add_user_credits_def
    insert_credit_transaction_def record_inbox_event_def
  by (rule keeps_sql, force simp: Let_def split: if_splits option.splits)+

lemma inbox_outbox: "keeps (\<lambda>d. x \<in> set (inbox_events d)) (create_outbox_event agg ty rk p)"
  unfolding create_outbox_event_def
  by (intro keeps_rules keeps_sql) (auto split: if_splits)

lemma inbox_persist:
  "keeps (\<lambda>d. x \<in> set (inbox_events d)) (persist_success command res ms)"
  "keeps (\<lambda>d. x \<in> set (inbox_events d)) (persist_failure command msg)"
  unfolding persist_success_def persist_success_body_def persist_failure_def persist_failure_body_def
    status_statements settle_statements
  by (intro keeps_rules inbox_statements inbox_outbox)+

lemma inbox_set_running: "keeps (\<lambda>d. x \<in> set (inbox_events d)) (set_running_state command)"
  unfolding set_running_state_def status_statements
  by (intro keeps_rules inbox_statements)

lemma inbox_process_delivery:
  assumes "quiet sleep_fn"
  shows "keeps (\<lambda>d. x \<in> set (inbox_events d)) (process_delivery rp sleep_fn wu warmed settings delivery)"
  unfolding process_delivery_settle settle_outcome_def Let_def
  by (intro keeps_rules keeps_execute_model [OF assms] inbox_persist inbox_set_running)

interpretation worker_inbox: deduplicated "\<lambda>w. s2_inv (pg w)" "deliver rp wu warmed settings"
  "\<lambda>w w'. ends_task (pg w) (pg w')" "event_of rp" handled for rp wu warmed settings
proof unfold_locales
  fix w :: "(s2db, s2kv) world" and m :: delivery_event
  assume inv: "s2_inv (pg w)"
  obtain d fs late where m: "m = (d, fs, late)" by (cases m)
  obtain r w' where run: "process_delivery rp (model_sleep late) wu warmed settings d (w\<lparr>faults := fs\<rparr>) = (r, w')"
    by fastforce
  then have w': "deliver rp wu warmed settings m w = w'" by (simp add: deliver_def m)
  have out: "delivery_outcome (parse_task_command rp d) (pg w) (pg w') r"
    using process_delivery_outcome [OF _ quiet_model_sleep run] inv by simp
  then have "conserves (pg w) (pg w')"
    by (auto simp: delivery_outcome_def Let_def conserves_refl [OF inv] settled_def split: option.splits)
  then show "s2_inv (pg (deliver rp wu warmed settings m w))"
    by (simp add: w' conserves_def)
  show "handled w i \<Longrightarrow> handled (deliver rp wu warmed settings m w) i" for i
    using keepsD [OF inbox_process_delivery [OF quiet_model_sleep], of _ "w\<lparr>faults := fs\<rparr>"]
    by (auto simp: handled_def deliver_def m split: option.splits)
  assume "ends_task (pg w) (pg (deliver rp wu warmed settings m w))"
  then obtain c where "parse_task_command rp d = Some c"
    "first_time (ec_event_id c) WORKER_CONSUMER_NAME (pg w) (pg w')"
    using outcome_ends_task [OF out] unfolding w' by blast
  then show "\<not> handled w (event_of rp m)" "handled (deliver rp wu warmed settings m w) (event_of rp m)"
    unfolding w' by (simp_all add: handled_def event_of_def m first_time_def)
qed


section \<open>Without faults\<close>

lemma persist_success_runs:
  assumes inv: "s2_inv (pg w)" and calm: "faults w = []"
    and c: "find_command (pg w) (ec_task_id command) = Some c" "task_active (tc_status c)"
    and new: "(ec_event_id command, WORKER_CONSUMER_NAME) \<notin> set (inbox_events (pg w))"
    and ids: "entropy w = eid # us" "lookup_row oe_event_id eid (outbox_events (pg w)) = None"
    and key: "length (ec_routing_key command) \<le> 128"
  shows "\<exists>w'. persist_success command res ms w = (Inr True, w') \<and> faults w' = []"
proof -
  obtain r where r: "find_reservation (pg w) (ec_task_id command) = Some r" "cr_state r = RESERVED"
    using settled_reservation [OF inv c] by blast
  have "\<not> 128 < length (ec_routing_key command)" using key by simp
  with r show ?thesis
    using count_status_one [OF inv c(1), of "\<lambda>s. s = PENDING \<or> s = RUNNING"] c(2)
      count_reserved_one [OF inv r] new ids calm
    by (simp add: persist_success_def acquire_nofault transaction_def persist_success_body_def
        record_inbox_event_def status_statements settle_statements set_status_where_def
        settle_reservation_def get_credit_reservation_def create_outbox_event_def nofault_simps
        task_active_def returnM_def)
qed


lemma set_running_runs:
  assumes inv: "s2_inv (pg w)" and calm: "faults w = []"
    and c: "find_command (pg w) (ec_task_id command) = Some c" "task_active (tc_status c)"
  obtains w1 c1 where "set_running_state command w = (Inr True, w1)" "faults w1 = []" "entropy w1 = entropy w"
    "inbox_events (pg w1) = inbox_events (pg w)" "outbox_events (pg w1) = outbox_events (pg w)" "s2_inv (pg w1)"
    "find_command (pg w1) (ec_task_id command) = Some c1" "task_active (tc_status c1)"
proof (cases "tc_status c = RUNNING")
  case True
  with c(1) calm show thesis
    by (intro that [of w c]) (auto simp: set_running_state_def get_task_command_def nofault_simps returnM_def
        inv task_active_def)
next
  case False
  with c(2) have pending: "tc_status c = PENDING" by (auto simp: task_active_def)
  let ?w1 = "w\<lparr>pg := (pg w)\<lparr>task_commands := update_rows
      (\<lambda>c. tc_task_id c = ec_task_id command \<and> tc_status c = PENDING)
      (\<lambda>c. c\<lparr>tc_status := RUNNING, tc_updated_at := clock w\<rparr>) (task_commands (pg w))\<rparr>\<rparr>"
  have "s2_inv (pg ?w1)"
    using conserves_inv [OF conserves_start [OF inv, where allowed = "\<lambda>s. s = PENDING"]] by simp
  moreover have "find_command (pg ?w1) (ec_task_id command) = Some (c\<lparr>tc_status := RUNNING, tc_updated_at := clock w\<rparr>)"
    using c(1) pending by (simp add: find_command_def lookup_row_update)
  moreover have "set_running_state command w = (Inr True, ?w1)"
    using c(1) pending calm count_status_one [OF inv c(1), of "\<lambda>s. s = PENDING"]
    by (simp add: set_running_state_def get_task_command_def nofault_simps status_statements set_status_where_def)
  ultimately show thesis
    using that [of ?w1 "c\<lparr>tc_status := RUNNING, tc_updated_at := clock w\<rparr>"] calm by (simp add: task_active_def)
qed

lemma execute_model_runs:
  "\<exists>ms w2. execute_model (model_sleep False) wu warmed c w = (Inr (Some ([(''z'', JInt (ec_x c + ec_y c))], ms)), w2) \<and>
    pg w2 = pg w \<and> faults w2 = faults w \<and> entropy w2 = entropy w"
  by (simp add: execute_model_def warmup_def model_sleep_def bindE_def returnM_def get_clock_def
      sleep_seconds_def sleepM_def)

definition cached :: "(s2db, s2kv) world \<Rightarrow> uuid \<Rightarrow> string \<Rightarrow> rval option" where
  "cached w t field = map_of (assoc [] (rd_hashes (kv w)) (task_state_key t)) field"

lemma write_terminal_cache_runs:
  assumes "faults w = []" "0 < ttl"
  shows "\<exists>w'. write_terminal_cache ttl c st (Some p) err (Some ms) w = (Inr (), w') \<and> pg w' = pg w \<and>
    cached w' (ec_task_id c) ''status'' = Some (Plain (TaskStatus_value st)) \<and>
    cached w' (ec_task_id c) ''result'' = Some (Dumped (JObj p))"
  using assms
  by (simp add: write_terminal_cache_def Let_def nofault_simps redis_hset_def redis_expire_def cached_def
      has_key_def AList.update_conv')

lemma process_delivery_completes:
  assumes inv: "s2_inv (pg w)" and calm: "faults w = []" and cmd: "parse_task_command rp d = Some c"
    and submitted: "ec_event_type c = ''task.submitted''"
    and active: "task_state (pg w) (ec_task_id c) = Some (u, n, s)" "task_active s"
    and new: "(ec_event_id c, WORKER_CONSUMER_NAME) \<notin> set (inbox_events (pg w))"
    and ids: "entropy w = eid # us" "lookup_row oe_event_id eid (outbox_events (pg w)) = None"
    and key: "length (ec_routing_key c) \<le> 128" and ttl: "0 < st_redis_task_state_ttl_seconds settings"
  obtains w' where "process_delivery rp (model_sleep False) wu warmed settings d w = (Inr METRIC_COMPLETED, w')"
    "cached w' (ec_task_id c) ''status'' = Some (Plain ''COMPLETED'')"
    "cached w' (ec_task_id c) ''result'' = Some (Dumped (JObj [(''z'', JInt (ec_x c + ec_y c))]))"
proof -
  from active obtain tc where tc: "find_command (pg w) (ec_task_id c) = Some tc" "task_active (tc_status tc)"
    by (auto simp: task_state_def)
  obtain w1 tc1 where w1: "set_running_state c w = (Inr True, w1)" "faults w1 = []" "entropy w1 = entropy w"
    "inbox_events (pg w1) = inbox_events (pg w)" "outbox_events (pg w1) = outbox_events (pg w)" "s2_inv (pg w1)"
    "find_command (pg w1) (ec_task_id c) = Some tc1" "task_active (tc_status tc1)"
    using set_running_runs [OF inv calm tc] by metis
  let ?res = "[(''z'', JInt (ec_x c + ec_y c))]"
  obtain ms w2 where w2: "execute_model (model_sleep False) wu warmed c w1 = (Inr (Some (?res, ms)), w2)"
    "pg w2 = pg w1" "faults w2 = []" "entropy w2 = entropy w"
    using execute_model_runs [of wu warmed c w1] w1(2,3) by auto
  obtain w3 where w3: "persist_success c ?res ms w2 = (Inr True, w3)" "faults w3 = []"
    using persist_success_runs [of w2 c tc1 eid us ?res ms] w1 w2 new ids key by auto
  obtain w4 where w4: "write_terminal_cache (st_redis_task_state_ttl_seconds settings) c COMPLETED (Some ?res) None
      (Some ms) w3 = (Inr (), w4)"
    "cached w4 (ec_task_id c) ''status'' = Some (Plain ''COMPLETED'')"
    "cached w4 (ec_task_id c) ''result'' = Some (Dumped (JObj ?res))"
    using write_terminal_cache_runs [OF w3(2) ttl, of c COMPLETED ?res None ms] by auto
  have "process_delivery rp (model_sleep False) wu warmed settings d w = (Inr METRIC_COMPLETED, w4)"
    by (simp add: process_delivery_settle cmd submitted bindE_ran [of "set_running_state c", OF w1(1)]
        bindE_attempt w2(1) settle_outcome_def bindE_ran [of "persist_success c ?res ms", OF w3(1)]
        bindE_ran [of "write_terminal_cache _ _ _ _ _ _", OF w4(1)] returnM_def)
  then show thesis by (rule that) (fact w4(2,3))+
qed


section \<open>Properties\<close>

definition demo_message :: dict where
  "demo_message = [(''event_id'', JStr (uuid_str 21)), (''task_id'', JStr (uuid_str 7)),
     (''user_id'', JStr (uuid_str 1)), (''x'', JInt 3), (''y'', JInt 4), (''cost'', JInt 10)]"

definition demo_delivery :: RabbitMQDelivery where
  "demo_delivery = \<lparr>rd_queue_name = ''queue.realtime'', rd_routing_key = ''tasks.async.enterprise.small'',
     rd_delivery_tag = 1, rd_message_id = None, rd_body = Decoded (JObj demo_message)\<rparr>"

definition demo_command :: TaskExecutionCommand where
  "demo_command = \<lparr>ec_event_id = 21, ec_task_id = 7, ec_user_id = 1, ec_x = 3, ec_y = 4, ec_cost = 10,
     ec_mode = ''async'', ec_tier = ''free'', ec_model_class = SMALL, ec_queue_name = ''queue.realtime'',
     ec_routing_key = ''tasks.async.enterprise.small'', ec_event_type = ''task.submitted'', ec_trace_id = None\<rparr>"

lemma demo_parsed: "parse_task_command rp demo_delivery = Some demo_command"
  by (simp add: parse_task_command_def demo_delivery_def demo_message_def parse_command_fields_def
      event_id_of_def uuid_str_def [symmetric] uuid_roundtrip required_def dict_get_or_def Let_def
      enum_of_def ModelClasses_def demo_command_def)



text \<open>C2 A message is redelivered as often as the broker likes, with any faults and timeouts on the way and
  any other messages between: the deliveries that carry one event identifier settle a task at most
  once.\<close>

theorem worker_settles_once:
  assumes "s2_inv (pg w)"
  shows "effect_count (deliver rp wu warmed settings) (\<lambda>w w'. ends_task (pg w) (pg w'))
    (event_of rp) (Some e) ms w \<le> 1"
  using assms by (rule worker_inbox.effect_at_most_once)

theorem worker_settles_once_witness:
  "effect_count (deliver (\<lambda>_. []) 10 True demo_settings) (\<lambda>w w'. ends_task (pg w) (pg w')) (event_of (\<lambda>_. []))
    (Some 21) [(demo_delivery, [], False), (demo_delivery, [Fine, Fine], True)] (demo_app demo_pending []) \<le> 1"
  by (rule worker_settles_once) (simp add: demo_pending_inv)



end
