(* ===== verification/S2_Relay.thy ===== *)
theory S2_Relay
  imports S2_Billing S2_Worker
begin

text \<open>
  Solution 2, \<open>workers/outbox_relay.py\<close>: publishing the outbox in the order of its rows, marking each
  event after the broker confirmed it, purging old ones, and the loop around both.  \<open>matches\<close> is
  the broker's comparison of binding patterns with routing keys.  The lemmas follow an event from the
  admission that wrote it to the worker that reads it.
\<close>

section \<open>Settings\<close>

definition relay_batch_size :: "AppSettings \<Rightarrow> int" where
  "relay_batch_size settings = max 1 (st_outbox_relay_batch_size settings)"

definition empty_cycle_sleep_seconds :: "AppSettings \<Rightarrow> real" where
  "empty_cycle_sleep_seconds settings = max (1 / 100) (st_outbox_relay_empty_backoff_seconds settings)"

definition error_cycle_sleep_seconds :: "AppSettings \<Rightarrow> real" where
  "error_cycle_sleep_seconds settings = max (1 / 20) (st_outbox_relay_error_backoff_seconds settings)"

definition purge_interval_seconds :: "AppSettings \<Rightarrow> real" where
  "purge_interval_seconds settings = max 1 (st_outbox_relay_purge_interval_seconds settings)"

definition purge_retention_seconds :: "AppSettings \<Rightarrow> int" where
  "purge_retention_seconds settings = max 1 (st_outbox_relay_purge_retention_seconds settings)"

definition purge_batch_size :: "AppSettings \<Rightarrow> int" where
  "purge_batch_size settings = max 1 (st_outbox_relay_purge_batch_size settings)"

section \<open>Publishing\<close>

definition outgoing_payload :: "OutboxEvent \<Rightarrow> dict" where
  "outgoing_payload event =
     dict_setdefault
       (dict_setdefault (dict_set (oe_payload event) ''event_id'' (JStr (uuid_str (oe_event_id event))))
          ''aggregate_id'' (JStr (uuid_str (oe_aggregate_id event))))
       ''event_type'' (JStr (oe_event_type event))"

fun publish_events :: "(string list \<Rightarrow> string list \<Rightarrow> bool) \<Rightarrow> OutboxEvent list \<Rightarrow> nat \<Rightarrow> nat app" where
  "publish_events matches [] published = returnM published"
| "publish_events matches (event # events) published =
     bindE (attempt (relay_publish matches (uuid_str (oe_event_id event)) (oe_routing_key event)
       (outgoing_payload event))) (\<lambda>sent. case sent of
       Inl _ \<Rightarrow> returnM published
     | Inr _ \<Rightarrow>
         bindE (attempt (mark_outbox_event_published (oe_event_id event))) (\<lambda>marked. case marked of
           Inl _ \<Rightarrow> returnM published
         | Inr marked \<Rightarrow> publish_events matches events (if marked then published + 1 else published)))"

definition publish_batch :: "(string list \<Rightarrow> string list \<Rightarrow> bool) \<Rightarrow> AppSettings \<Rightarrow> nat app" where
  "publish_batch matches settings =
     bindE (list_unpublished_outbox_events (nat (relay_batch_size settings))) (\<lambda>events.
     if events = [] then returnM 0 else publish_events matches events 0)"

definition purge_published_events :: "AppSettings \<Rightarrow> nat app" where
  "purge_published_events settings =
     bindE (attempt (purge_old_outbox_events (purge_retention_seconds settings) (purge_batch_size settings)))
       (\<lambda>purged. case purged of Inl _ \<Rightarrow> returnM 0 | Inr n \<Rightarrow> returnM n)"

text \<open>One turn of the loop; \<open>last_purge\<close> is the loop's variable.\<close>

definition relay_turn :: "(string list \<Rightarrow> string list \<Rightarrow> bool) \<Rightarrow> AppSettings \<Rightarrow> int \<Rightarrow> int app" where
  "relay_turn matches settings last_purge =
     bindE (attempt (publish_batch matches settings)) (\<lambda>outcome. case outcome of
       Inl _ \<Rightarrow> bindE (sleep_seconds (error_cycle_sleep_seconds settings)) (\<lambda>_. returnM last_purge)
     | Inr published_count \<Rightarrow>
         bindE get_clock (\<lambda>now_monotonic.
         bindE (if microseconds (purge_interval_seconds settings) \<le> now_monotonic - last_purge
           then bindE (purge_published_events settings) (\<lambda>_. returnM now_monotonic)
           else returnM last_purge) (\<lambda>purged_at.
         bindE (sleep_seconds (if published_count = 0 then empty_cycle_sleep_seconds settings else 0)) (\<lambda>_.
         returnM purged_at))))"

section \<open>Credits are not touched\<close>

lemma keyed_delete_rows: "keyed key t \<Longrightarrow> keyed key (delete_rows k ks t)"
  unfolding delete_rows_def by (rule keyed_filter)

lemma safe_mark_published [safe_rules]: "safe (mark_outbox_event_published e)"
  unfolding mark_outbox_event_published_def
  by (rule safe_sql) (auto simp: Let_def s2_inv_def intro!: conserves_frame)

lemma safe_purge_outbox [safe_rules]: "safe (purge_old_outbox_events s n)"
  unfolding purge_old_outbox_events_def
  by (intro safe_if safe_returnM safe_sql) (auto simp: Let_def s2_inv_def keyed_delete_rows intro!: conserves_frame)

lemma safe_publish_events [safe_rules]: "safe (publish_events matches es n)"
  by (induction es arbitrary: n) (auto intro!: safe_rules)

lemma safe_relay_turn [safe_rules]: "safe (relay_turn matches settings t)"
  unfolding relay_turn_def publish_batch_def purge_published_events_def by (intro safe_rules)

section \<open>No event is lost\<close>

definition message_of :: "OutboxEvent \<Rightarrow> Message" where
  "message_of e = \<lparr>mg_routing_key = oe_routing_key e, mg_message_id = Some (uuid_str (oe_event_id e)),
     mg_body = Decoded (JObj (outgoing_payload e))\<rparr>"

text \<open>The event's message is in every queue its key is routed to, and there is one.\<close>

definition on_broker :: "(string list \<Rightarrow> string list \<Rightarrow> bool) \<Rightarrow> OutboxEvent \<Rightarrow> s2kv \<Rightarrow> bool" where
  "on_broker matches e k \<longleftrightarrow> routed_queues matches (oe_routing_key e) \<noteq> [] \<and>
     (\<forall>q\<in>set (routed_queues matches (oe_routing_key e)). message_of e \<in> set (assoc [] (mq_queues k) q))"

lemma enqueue_grows: "set (assoc [] (mq_queues k) q) \<subseteq> set (assoc [] (mq_queues (fold (enqueue_message m) qs k)) q)"
proof (induction qs arbitrary: k)
  case (Cons p qs)
  have "set (assoc [] (mq_queues k) q) \<subseteq> set (assoc [] (mq_queues (enqueue_message m p k)) q)"
    by (auto simp: enqueue_message_def)
  with Cons show ?case by (simp, blast)
qed simp

lemma enqueue_reaches: "q \<in> set qs \<Longrightarrow> m \<in> set (assoc [] (mq_queues (fold (enqueue_message m) qs k)) q)"
proof (induction qs arbitrary: k)
  case (Cons p qs)
  show ?case
  proof (cases "q = p")
    case True
    then have "m \<in> set (assoc [] (mq_queues (enqueue_message m p k)) q)" by (simp add: enqueue_message_def)
    then show ?thesis using enqueue_grows [of "enqueue_message m p k" q m qs] by auto
  next
    case False
    with Cons show ?thesis by simp
  qed
qed simp


lemma on_broker_grows:
  assumes "on_broker matches e k"
  shows "on_broker matches e (fold (enqueue_message m) qs k)"
  using assms enqueue_grows unfolding on_broker_def by blast

lemma relay_publish_cases:
  assumes "relay_publish matches (uuid_str (oe_event_id e)) (oe_routing_key e) (outgoing_payload e) w = (r, w')"
  obtains (kept) x where "r = Inl x" "kv w' = kv w" "pg w' = pg w"
    | (sent) "routed_queues matches (oe_routing_key e) \<noteq> []" "pg w' = pg w"
      "kv w' = fold (enqueue_message (message_of e)) (routed_queues matches (oe_routing_key e)) (kv w)"
proof -
  have pg: "pg w' = pg w"
    using keeps_pg [of "relay_publish matches (uuid_str (oe_event_id e)) (oe_routing_key e) (outgoing_payload e)" w]
      assms by (simp add: keeps_services)
  from assms [unfolded relay_publish_def] show thesis
  proof (cases rule: remote_cases)
    case (undone x)
    with pg show thesis by (intro kept)
  next
    case (ran a)
    with pg show thesis by (intro sent) (auto simp: Let_def message_of_def split: if_splits)
  qed
qed

lemma published_on_broker:
  "routed_queues matches (oe_routing_key e) \<noteq> [] \<Longrightarrow>
   on_broker matches e (fold (enqueue_message (message_of e)) (routed_queues matches (oe_routing_key e)) k)"
  unfolding on_broker_def using enqueue_reaches by blast

text \<open>Every row of \<open>pending\<close> is still in the outbox as it was, or its message is on the broker.\<close>

definition not_lost :: "(string list \<Rightarrow> string list \<Rightarrow> bool) \<Rightarrow> OutboxEvent set \<Rightarrow> (s2db, s2kv) world \<Rightarrow> bool" where
  "not_lost matches pending w \<longleftrightarrow>
     (\<forall>e\<in>pending. e \<in> set (outbox_events (pg w)) \<or> on_broker matches e (kv w))"

lemma not_lost_mark:
  assumes lost: "not_lost matches pending w" and sent: "on_broker matches e (kv w)"
    and ids: "\<And>x. x \<in> pending \<Longrightarrow> oe_event_id x = oe_event_id e \<Longrightarrow> x = e"
    and run: "mark_outbox_event_published (oe_event_id e) w = (r, w')"
  shows "not_lost matches pending w'"
proof -
  have kv: "kv w' = kv w" using run unfolding mark_outbox_event_published_def
    by (auto simp: sql_def ext_def Let_def split: list.splits fault.splits)
  from run [unfolded mark_outbox_event_published_def] have
    "set (outbox_events (pg w)) - {x. oe_event_id x = oe_event_id e} \<subseteq> set (outbox_events (pg w'))"
  proof (cases rule: sql_cases)
    case (ran a)
    then have "pg w' = (pg w)\<lparr>outbox_events :=
        update_rows (\<lambda>x. oe_event_id x = oe_event_id e \<and> oe_published_at x = None)
          (\<lambda>x. x\<lparr>oe_published_at := Some (clock w)\<rparr>) (outbox_events (pg w))\<rparr>"
      by (simp add: Let_def)
    then show ?thesis by (force simp: update_rows_def image_iff)
  qed simp
  with lost sent ids kv show ?thesis unfolding not_lost_def by fastforce
qed

lemma publish_events_not_lost:
  assumes "not_lost matches pending w" "set es \<subseteq> pending" "inj_on oe_event_id pending"
  shows "not_lost matches pending (snd (publish_events matches es n w))"
  using assms(1,2)
proof (induction es arbitrary: n w)
  case (Cons e es)
  let ?publish = "relay_publish matches (uuid_str (oe_event_id e)) (oe_routing_key e) (outgoing_payload e)"
  obtain r w1 where pub: "?publish w = (r, w1)" by fastforce
  have ids: "x = e" if "x \<in> pending" "oe_event_id x = oe_event_id e" for x
    using inj_onD [OF assms(3) that(2)] that(1) Cons.prems(2) by simp
  from pub have w1: "not_lost matches pending w1 \<and> (r = Inr () \<longrightarrow> on_broker matches e (kv w1))"
  proof (cases rule: relay_publish_cases)
    case kept
    with Cons.prems(1) show ?thesis by (simp add: not_lost_def)
  next
    case sent
    with Cons.prems(1) show ?thesis
      by (auto simp: not_lost_def published_on_broker intro: on_broker_grows)
  qed
  obtain b w2 where mark: "mark_outbox_event_published (oe_event_id e) w1 = (b, w2)" by fastforce
  have "not_lost matches pending w2" if "r = Inr ()"
    using not_lost_mark [OF _ _ ids mark] w1 that by blast
  with w1 Cons.IH Cons.prems(2) pub mark show ?case
    by (cases r; cases b) (simp_all add: bindE_attempt returnM_def)
qed (simp add: returnM_def)

lemma purge_keeps_unpublished:
  assumes inv: "s2_inv (pg w)" and e: "e \<in> set (outbox_events (pg w))" "oe_published_at e = None"
  shows "e \<in> set (outbox_events (pg (snd (purge_old_outbox_events s n w))))"
proof -
  obtain r w' where run: "purge_old_outbox_events s n w = (r, w')" by fastforce
  have keyed: "keyed oe_event_id (outbox_events (pg w))" using inv by (simp add: s2_inv_def)
  show ?thesis
  proof (cases "s \<le> 0 \<or> n \<le> 0")
    case True
    then show ?thesis using e by (auto simp: purge_old_outbox_events_def returnM_def)
  next
    case False
    from run [unfolded purge_old_outbox_events_def if_not_P [OF False]]
    have "e \<in> set (outbox_events (pg w'))"
    proof (cases rule: sql_cases)
      case (ran a)
      let ?published = "\<lambda>e. case oe_published_at e of None \<Rightarrow> clock w | Some p \<Rightarrow> p"
      let ?victims = "oldest_rows (\<lambda>e. oe_published_at e \<noteq> None \<and> ?published e \<le> clock w - seconds s)
        ?published (nat n) (outbox_events (pg w))"
      have "oe_event_id x \<noteq> oe_event_id e" if "x \<in> set ?victims" for x
      proof -
        have "x \<in> set (outbox_events (pg w)) \<and> oe_published_at x \<noteq> None"
          using that unfolding oldest_rows_def by (drule_tac in_set_takeD) simp
        with e keyed show ?thesis by (metis lookup_row_member option.inject)
      qed
      moreover have "pg w' = (pg w)\<lparr>outbox_events :=
          delete_rows oe_event_id (map oe_event_id ?victims) (outbox_events (pg w))\<rparr>"
        using ran(1) by (simp add: Let_def)
      ultimately show ?thesis using e(1) by (force simp: delete_rows_def)
    qed (use e in simp)
    with run show ?thesis by simp
  qed
qed


lemma list_unpublished_run:
  assumes "list_unpublished_outbox_events n w = (Inr es, w')"
  shows "es = oldest_rows (\<lambda>e. oe_published_at e = None) oe_created_at n (outbox_events (pg w))"
    and "pg w' = pg w" and "kv w' = kv w"
  using assms unfolding list_unpublished_outbox_events_def by (auto elim: sql_read_okE)

lemma purge_kv: "kv (snd (purge_old_outbox_events s n w)) = kv w"
  by (auto simp: purge_old_outbox_events_def returnM_def sql_kv)

definition unpublished :: "s2db \<Rightarrow> OutboxEvent list" where
  "unpublished d = filter (\<lambda>e. oe_published_at e = None) (outbox_events d)"

lemma publish_batch_not_lost:
  assumes inv: "s2_inv (pg w)"
  shows "not_lost matches (set (unpublished (pg w))) (snd (publish_batch matches settings w))"
proof -
  let ?n = "nat (relay_batch_size settings)"
  have start: "not_lost matches (set (unpublished (pg w))) v" if "pg v = pg w" for v
    using that by (auto simp: not_lost_def unpublished_def)
  obtain r w1 where read: "list_unpublished_outbox_events ?n w = (r, w1)" by fastforce
  have w1: "pg w1 = pg w"
    using read sql_read_frame(1) [of _ w] unfolding list_unpublished_outbox_events_def by (metis snd_conv)
  show ?thesis
  proof (cases r)
    case (Inl e)
    with read start [OF w1] show ?thesis by (simp add: publish_batch_def bindE_def)
  next
    case (Inr es)
    have "set es \<subseteq> set (unpublished (pg w))"
      using list_unpublished_run(1) [OF read [unfolded Inr]]
      by (auto simp: oldest_rows_def unpublished_def dest: in_set_takeD)
    moreover have "inj_on oe_event_id (set (unpublished (pg w)))"
      using inv by (auto simp: s2_inv_def keyed_def distinct_map unpublished_def intro: inj_on_subset)
    ultimately have "not_lost matches (set (unpublished (pg w))) (snd (publish_events matches es 0 w1))"
      by (rule publish_events_not_lost [OF start [OF w1]])
    with read Inr start [OF w1] show ?thesis by (simp add: publish_batch_def bindE_def returnM_def)
  qed
qed

lemma purge_events_not_lost:
  assumes "s2_inv (pg w)" "not_lost matches pending w" "\<And>e. e \<in> pending \<Longrightarrow> oe_published_at e = None"
  shows "not_lost matches pending (snd (purge_published_events settings w))"
  using assms purge_keeps_unpublished [OF assms(1)]
  by (auto simp: not_lost_def purge_published_events_def bindE_attempt returnM_def purge_kv split: sum.split)

lemma not_lost_world: "pg v = pg w \<Longrightarrow> kv v = kv w \<Longrightarrow> not_lost matches es v = not_lost matches es w"
  by (simp add: not_lost_def)

lemma relay_turn_not_lost:
  assumes inv: "s2_inv (pg w)"
  shows "not_lost matches (set (unpublished (pg w))) (snd (relay_turn matches settings t w))"
proof -
  let ?U = "set (unpublished (pg w))" and ?w1 = "snd (publish_batch matches settings w)"
  have 1: "not_lost matches ?U ?w1" by (rule publish_batch_not_lost [OF inv])
  have "safe (publish_batch matches settings)" unfolding publish_batch_def by (intro safe_rules)
  from safe_conserves [OF this inv] have inv1: "s2_inv (pg ?w1)" by (rule conserves_inv)
  have "oe_published_at e = None" if "e \<in> ?U" for e using that by (simp add: unpublished_def)
  from purge_events_not_lost [OF inv1 1 this]
  have 2: "not_lost matches ?U (snd (purge_published_events settings ?w1))" by blast
  have ok: "\<exists>n. purge_published_events settings v = (Inr n, snd (purge_published_events settings v))" for v
    by (auto simp: purge_published_events_def bindE_attempt returnM_def split: sum.split)
  obtain n where n: "purge_published_events settings ?w1 = (Inr n, snd (purge_published_events settings ?w1))"
    using ok by blast
  show ?thesis
    using 1 2 unfolding relay_turn_def bindE_attempt
    by (simp add: bindE_pure bindE_assoc bindE_ran [of "purge_published_events settings", OF n]
        bindE_sleep_seconds returnM_def not_lost_def split: sum.split)
qed

section \<open>The outbox drains in order\<close>

definition routable :: "(string list \<Rightarrow> string list \<Rightarrow> bool) \<Rightarrow> OutboxEvent \<Rightarrow> bool" where
  "routable matches e \<longleftrightarrow> routed_queues matches (oe_routing_key e) \<noteq> []"

definition enqueue_event :: "(string list \<Rightarrow> string list \<Rightarrow> bool) \<Rightarrow> OutboxEvent \<Rightarrow> s2kv \<Rightarrow> s2kv" where
  "enqueue_event matches e k = fold (enqueue_message (message_of e)) (routed_queues matches (oe_routing_key e)) k"

lemma enqueue_all:
  "distinct qs \<Longrightarrow> assoc [] (mq_queues (fold (enqueue_message m) qs k)) q =
     assoc [] (mq_queues k) q @ (if q \<in> set qs then [m] else [])"
  by (induction qs arbitrary: k) (auto simp: enqueue_message_def)

lemma enqueue_event_queue:
  "assoc [] (mq_queues (enqueue_event matches e k)) q = assoc [] (mq_queues k) q @
     (if q \<in> set (routed_queues matches (oe_routing_key e)) then [message_of e] else [])"
  unfolding enqueue_event_def by (rule enqueue_all) (simp add: routed_queues_def)

lemma enqueue_events_queue:
  "assoc [] (mq_queues (fold (enqueue_event matches) es k)) q = assoc [] (mq_queues k) q @
     map message_of (filter (\<lambda>e. q \<in> set (routed_queues matches (oe_routing_key e))) es)"
  by (induction es arbitrary: k) (auto simp: enqueue_event_queue)


lemma relay_publish_runs:
  "faults w = [] \<Longrightarrow> routable matches e \<Longrightarrow>
   relay_publish matches (uuid_str (oe_event_id e)) (oe_routing_key e) (outgoing_payload e) w =
     (Inr (), w\<lparr>kv := enqueue_event matches e (kv w)\<rparr>)"
  by (simp add: relay_publish_def remote_nofault Let_def routable_def enqueue_event_def message_of_def)

lemma mark_runs:
  "faults w = [] \<Longrightarrow> mark_outbox_event_published i w =
     (Inr (count_rows (\<lambda>e. oe_event_id e = i \<and> oe_published_at e = None) (outbox_events (pg w)) = 1),
      w\<lparr>pg := (pg w)\<lparr>outbox_events := update_rows (\<lambda>e. oe_event_id e = i \<and> oe_published_at e = None)
        (\<lambda>e. e\<lparr>oe_published_at := Some (clock w)\<rparr>) (outbox_events (pg w))\<rparr>\<rparr>)"
  by (simp add: mark_outbox_event_published_def sql_nofault Let_def)

lemma publish_events_runs:
  assumes "faults w = []" "list_all (routable matches) es"
    and "set es = set (unpublished (pg w))" "distinct (map oe_event_id es)"
    and "keyed oe_event_id (outbox_events (pg w))"
  shows "\<exists>n d. publish_events matches es m w =
      (Inr n, w\<lparr>kv := fold (enqueue_event matches) es (kv w), pg := d\<rparr>) \<and> unpublished d = []"
  using assms
proof (induction es arbitrary: m w)
  case Nil
  then show ?case by (intro exI [of _ m] exI [of _ "pg w"]) (simp add: returnM_def)
next
  case (Cons e es)
  define d1 where "d1 = (pg w)\<lparr>outbox_events := update_rows
      (\<lambda>x. oe_event_id x = oe_event_id e \<and> oe_published_at x = None)
      (\<lambda>x. x\<lparr>oe_published_at := Some (clock w)\<rparr>) (outbox_events (pg w))\<rparr>"
  define w1 where "w1 = w\<lparr>kv := enqueue_event matches e (kv w), pg := d1\<rparr>"
  have e: "e \<in> set (unpublished (pg w))" using Cons.prems(3) by auto
  then have one: "count_rows (\<lambda>x. oe_event_id x = oe_event_id e \<and> oe_published_at x = None)
      (outbox_events (pg w)) = 1"
    using count_rows_keyed_one [OF Cons.prems(5)] lookup_row_member [OF Cons.prems(5)]
    by (auto simp: unpublished_def)
  have "set (unpublished d1) = set (unpublished (pg w)) - {x. oe_event_id x = oe_event_id e}"
    by (auto simp: unpublished_def d1_def update_rows_def)
  moreover have "oe_event_id x \<noteq> oe_event_id e" if "x \<in> set es" for x
    using Cons.prems(4) that by (metis distinct.simps(2) image_eqI list.map(2) list.set_map)
  ultimately have rest: "set es = set (unpublished d1)" using Cons.prems(3) [symmetric] by auto
  have "keyed oe_event_id (outbox_events d1)" using Cons.prems(5) by (simp add: d1_def)
  then have "\<exists>n d. publish_events matches es (m + 1) w1 =
      (Inr n, w1\<lparr>kv := fold (enqueue_event matches) es (kv w1), pg := d\<rparr>) \<and> unpublished d = []"
    using Cons.prems(1,2,4) rest by (intro Cons.IH) (simp_all add: w1_def)
  then obtain n d where "publish_events matches es (m + 1) w1 =
      (Inr n, w1\<lparr>kv := fold (enqueue_event matches) es (kv w1), pg := d\<rparr>)" "unpublished d = []"
    by blast
  moreover have "publish_events matches (e # es) m w = publish_events matches es (m + 1) w1"
    using Cons.prems(1,2) one
    by (simp add: bindE_attempt relay_publish_runs mark_runs w1_def d1_def)
  ultimately show ?case by (intro exI [of _ n] exI [of _ d]) (simp add: w1_def)
qed

lemma publish_batch_drains:
  assumes inv: "s2_inv (pg w)" and fine: "faults w = []"
    and all: "\<And>e. e \<in> set (unpublished (pg w)) \<Longrightarrow> routable matches e"
    and fits: "int (length (unpublished (pg w))) \<le> relay_batch_size settings"
  shows "\<exists>n d. publish_batch matches settings w =
      (Inr n, w\<lparr>kv := fold (enqueue_event matches) (sort_key oe_created_at (unpublished (pg w))) (kv w), pg := d\<rparr>)
      \<and> unpublished d = []"
proof -
  let ?es = "sort_key oe_created_at (unpublished (pg w))"
  have keyed: "keyed oe_event_id (outbox_events (pg w))" using inv by (simp add: s2_inv_def)
  then have dist: "distinct (map oe_event_id (unpublished (pg w)))"
    unfolding unpublished_def by (simp add: keyed_def distinct_map_filter)
  then have dist': "distinct (map oe_event_id ?es)" by (simp add: distinct_map)
  have read: "list_unpublished_outbox_events (nat (relay_batch_size settings)) w = (Inr ?es, w)"
    using fits by (simp add: list_unpublished_outbox_events_def sql_read_nofault fine oldest_rows_def
        unpublished_def [symmetric])
  obtain n d where "publish_events matches ?es 0 w =
      (Inr n, w\<lparr>kv := fold (enqueue_event matches) ?es (kv w), pg := d\<rparr>)" "unpublished d = []"
    using publish_events_runs [OF fine _ _ dist' keyed, of matches 0] all by (auto simp: list_all_iff)
  moreover have "publish_batch matches settings w = publish_events matches ?es 0 w"
    unfolding publish_batch_def bindE_ran [of "list_unpublished_outbox_events (nat (relay_batch_size settings))", OF read]
    by (simp add: returnM_def)
  ultimately show ?thesis by (intro exI [of _ n] exI [of _ d]) simp
qed


section \<open>From the admission to the worker's lane\<close>

text \<open>The laws of a topic exchange leave one function.\<close>

lemma topic_exchange_unique:
  assumes "topic_exchange matches"
  shows "matches = topic_matches"
proof -
  note laws = topic_exchange.matches_Nil topic_exchange.matches_star topic_exchange.matches_hash
    and word = topic_exchange.matches_word
  have "matches ps ks = topic_matches ps ks" for ps ks
  proof (induction ps arbitrary: ks)
    case Nil
    show ?case unfolding laws(1) [OF assms] laws(1) [OF rabbit.topic_exchange_axioms] ..
  next
    case (Cons p ps)
    consider (star) "p = ''*''" | (hash) "p = ''#''" | (other) "p \<noteq> ''*''" "p \<noteq> ''#''" by blast
    then show ?case
    proof cases
      case star
      show ?thesis unfolding star laws(2) [OF assms] laws(2) [OF rabbit.topic_exchange_axioms] Cons ..
    next
      case hash
      show ?thesis unfolding hash laws(3) [OF assms] laws(3) [OF rabbit.topic_exchange_axioms] Cons ..
    next
      case other
      show ?thesis unfolding word [OF assms other] word [OF rabbit.topic_exchange_axioms other] Cons ..
    qed
  qed
  then show ?thesis by blast
qed

lemma lane_of_key:
  assumes "topic_exchange matches" "resolve_queue t m c = Inr lane"
  shows "routed_queues matches (compute_routing_key m t c) = [lane, ''queue.projector'']"
  using assms(2) unfolding topic_exchange_unique [OF assms(1)]
  by (cases t; cases m; cases c)
    (auto simp: resolve_queue_def routed_queues_def default_bindings_def compute_routing_key_def)

lemma terminal_key_lanes:
  assumes "topic_exchange matches" "suffix = ''timed_out'' \<or> suffix = ''cancelled''"
  shows "routed_queues matches (compute_routing_key m t c @ ''.'' @ suffix) = [''queue.projector'']"
  using assms(2) unfolding topic_exchange_unique [OF assms(1)]
  by (cases t; cases m; cases c)
    (auto simp: routed_queues_def default_bindings_def compute_routing_key_def)

definition delivery_of :: "string \<Rightarrow> nat \<Rightarrow> Message \<Rightarrow> RabbitMQDelivery" where
  "delivery_of q tag msg = \<lparr>rd_queue_name = q, rd_routing_key = mg_routing_key msg, rd_delivery_tag = tag,
     rd_message_id = (case mg_message_id msg of Some s \<Rightarrow> if s = [] then None else Some s | None \<Rightarrow> None),
     rd_body = mg_body msg\<rparr>"

lemma parse_submitted:
  assumes "oe_event_type e = ''task.submitted''"
    and "oe_payload e = submitted_payload t u mode tier mc cost (JInt x) (JInt y) i cb lane trace"
  shows "parse_task_command rp (delivery_of q tag (message_of e)) = Some
    \<lparr>ec_event_id = oe_event_id e, ec_task_id = t, ec_user_id = u, ec_x = x, ec_y = y, ec_cost = cost,
     ec_mode = RequestMode_value mode, ec_tier = SubscriptionTier_value tier, ec_model_class = mc,
     ec_queue_name = q, ec_routing_key = oe_routing_key e, ec_event_type = ''task.submitted'',
     ec_trace_id = (case trace of JStr s \<Rightarrow> Some s | _ \<Rightarrow> None)\<rparr>"
  using assms
  by (simp add: parse_task_command_def parse_command_fields_def delivery_of_def message_of_def
      outgoing_payload_def submitted_payload_def dict_get_setdefault event_id_of_def required_def
      dict_get_or_def uuid_roundtrip Let_def opt_str_def
      split: json.splits)


section \<open>Properties\<close>

definition demo_event :: OutboxEvent where
  "demo_event = \<lparr>oe_event_id = 21, oe_aggregate_id = 7, oe_event_type = ''task.submitted'',
     oe_routing_key = compute_routing_key ASYNC ENTERPRISE SMALL,
     oe_payload = submitted_payload 7 1 ASYNC ENTERPRISE SMALL 10 (JInt 3) (JInt 4) ''k'' None ''queue.realtime'' JNull,
     oe_published_at = None, oe_created_at = 1700000000000000\<rparr>"

definition demo_outbox :: s2db where
  "demo_outbox = demo_pending\<lparr>outbox_events := [demo_event]\<rparr>"

lemma demo_outbox_inv: "s2_inv demo_outbox"
  using demo_pending_inv by (simp add: demo_outbox_def s2_inv_def keyed_def)

lemma demo_unpublished: "unpublished demo_outbox = [demo_event]"
  by (simp add: unpublished_def demo_outbox_def demo_event_def)

lemma demo_routed: "routed_queues topic_matches (oe_routing_key demo_event) = [''queue.realtime'', ''queue.projector'']"
  using lane_of_key [OF rabbit.topic_exchange_axioms, of ENTERPRISE ASYNC SMALL "''queue.realtime''"]
  by (simp add: demo_event_def resolve_queue_def)

text \<open>C4 No event is lost: whatever fails in a turn of the relay, an event that was waiting in the outbox is
  still there unpublished, or the broker has its message in every queue its routing key is bound to.  This
  covers the purge of the same turn, and the turn leaves all accounts as they are.\<close>

theorem relay_loses_nothing:
  assumes "s2_inv (pg w)" "e \<in> set (unpublished (pg w))"
  shows "case relay_turn matches settings last_purge w of (r, w') \<Rightarrow>
    (e \<in> set (unpublished (pg w')) \<or> on_broker matches e (kv w')) \<and> conserves (pg w) (pg w')"
proof -
  have "not_lost matches (set (unpublished (pg w))) (snd (relay_turn matches settings last_purge w))"
    by (rule relay_turn_not_lost [OF assms(1)])
  moreover have "oe_published_at e = None" using assms(2) by (simp add: unpublished_def)
  ultimately show ?thesis
    using assms(2) safe_conserves [OF safe_relay_turn assms(1), of matches settings last_purge]
    by (auto simp: not_lost_def unpublished_def split: prod.splits)
qed

theorem relay_loses_nothing_witness:
  "case relay_turn topic_matches demo_settings 0
      (demo_app demo_outbox [Fine, Fine, FailAfter (Exn ConnectionError [])]) of (r, w') \<Rightarrow>
    (demo_event \<in> set (unpublished (pg w')) \<or> on_broker topic_matches demo_event (kv w')) \<and>
    conserves demo_outbox (pg w')"
  using relay_loses_nothing [of "demo_app demo_outbox [Fine, Fine, FailAfter (Exn ConnectionError [])]" demo_event
      topic_matches demo_settings 0]
  by (simp add: demo_outbox_inv demo_unpublished)

text \<open>When nothing fails, one batch empties an outbox that fits into it: nothing stays unpublished, and every
  queue receives exactly the messages routed to it, in the order in which their events were created.\<close>

theorem relay_drains_in_order:
  assumes "s2_inv (pg w)" "faults w = []" "\<And>e. e \<in> set (unpublished (pg w)) \<Longrightarrow> routable matches e"
    and "int (length (unpublished (pg w))) \<le> relay_batch_size settings"
  shows "case publish_batch matches settings w of (r, w') \<Rightarrow> unpublished (pg w') = [] \<and>
    (\<forall>q. assoc [] (mq_queues (kv w')) q = assoc [] (mq_queues (kv w)) q @
       map message_of (filter (\<lambda>e. q \<in> set (routed_queues matches (oe_routing_key e)))
         (sort_key oe_created_at (unpublished (pg w)))))"
  using publish_batch_drains [OF assms] by (auto simp: enqueue_events_queue)

theorem relay_drains_in_order_witness:
  "case publish_batch topic_matches demo_settings (demo_app demo_outbox []) of (r, w') \<Rightarrow>
    unpublished (pg w') = [] \<and> assoc [] (mq_queues (kv w')) ''queue.realtime'' = [message_of demo_event]"
  using relay_drains_in_order [of "demo_app demo_outbox []" topic_matches demo_settings]
  by (auto simp: demo_outbox_inv demo_unpublished routable_def demo_routed demo_kv_def assoc_def
      relay_batch_size_def demo_settings_def settings_of_def split: prod.splits)

text \<open>C9 The lane the API announces is the lane the broker delivers to: for every combination the policy
  accepts, \<open>resolve_queue\<close> names the one worker queue that the bindings route the task's key to, the
  projector's queue gets a copy, and the keys of expiry and cancellation reach the projector only.\<close>

theorem announced_lane_is_routed:
  assumes "topic_exchange matches" "resolve_queue tier mode mc = Inr lane"
  shows "routed_queues matches (compute_routing_key mode tier mc) = [lane, ''queue.projector''] \<and>
    lane \<in> set WORKER_QUEUES \<and>
    routed_queues matches (compute_routing_key mode tier mc @ ''.timed_out'') = [''queue.projector''] \<and>
    routed_queues matches (compute_routing_key mode tier mc @ ''.cancelled'') = [''queue.projector'']"
  using lane_of_key [OF assms] assms(2)
    terminal_key_lanes [OF assms(1), of "''timed_out''"] terminal_key_lanes [OF assms(1), of "''cancelled''"]
  by (auto simp: resolve_queue_def WORKER_QUEUES_def split: if_splits)

theorem announced_lane_is_routed_witness:
  "routed_queues topic_matches (compute_routing_key SYNC PRO SMALL) = [''queue.fast'', ''queue.projector'']"
  using announced_lane_is_routed [OF rabbit.topic_exchange_axioms, of PRO SYNC SMALL "''queue.fast''"]
  by (simp add: resolve_queue_def)

text \<open>C10 A submitted task survives the trip: the worker parses the message that the relay makes of an admission's
  outbox event back into the task that was admitted, with its owner, price, arguments and model class.\<close>

theorem submission_roundtrip:
  "parse_task_command rp (delivery_of q tag (message_of
      \<lparr>oe_event_id = eid, oe_aggregate_id = t, oe_event_type = ''task.submitted'', oe_routing_key = key,
        oe_payload = submitted_payload t u mode tier mc cost (JInt x) (JInt y) i cb lane trace,
        oe_published_at = pub, oe_created_at = created\<rparr>)) =
    Some \<lparr>ec_event_id = eid, ec_task_id = t, ec_user_id = u, ec_x = x, ec_y = y, ec_cost = cost,
      ec_mode = RequestMode_value mode, ec_tier = SubscriptionTier_value tier, ec_model_class = mc,
      ec_queue_name = q, ec_routing_key = key, ec_event_type = ''task.submitted'',
      ec_trace_id = (case trace of JStr s \<Rightarrow> Some s | _ \<Rightarrow> None)\<rparr>"
  by (simp add: parse_submitted)

end
