(* ===== verification/S2_Projector.thy ===== *)
theory S2_Projector
  imports S2_Relay S2_Watchdog "HOL-Library.Sublist"
begin

text \<open>
  Solution 2, \<open>workers/projector.py\<close>: the consumer that keeps the query view.  Parsing an event,
  the transaction that records it in the inbox and rewrites the task's row of the view, the cached
  task state, and the loop.  The abstract view is a map from tasks to what was last said about
  them and a set of events already counted; the lemmas show that a delivery refines one step of it.
\<close>

section \<open>Parsing\<close>

definition PROJECTOR_CONSUMER_NAME :: string where
  "PROJECTOR_CONSUMER_NAME = ''projector''"

definition PROJECTOR_QUEUE :: string where
  "PROJECTOR_QUEUE = ''queue.projector''"

definition EVENT_TO_STATUS :: "(string \<times> TaskStatus) list" where
  "EVENT_TO_STATUS = [(''task.submitted'', PENDING), (''task.completed'', COMPLETED),
     (''task.failed'', FAILED), (''task.cancelled'', CANCELLED), (''task.timed_out'', TIMEOUT)]"

record ProjectionEvent =
  pe_event_id :: uuid
  pe_task_id :: uuid
  pe_event_type :: string
  pe_status :: TaskStatus
  pe_result :: "dict option"
  pe_error :: "string option"
  pe_queue_name :: "string option"
  pe_runtime_ms :: "int option"
  pe_occurred_at_epoch :: "int option"

text \<open>The settings record has neither interval: the defaults of the \<open>getattr\<close>s apply.\<close>

definition projector_idle_sleep_seconds :: real where
  "projector_idle_sleep_seconds = max (1 / 100) (5 / 100)"

definition projector_error_backoff_seconds :: real where
  "projector_error_backoff_seconds = max (5 / 100) 1"

fun coerce_json_epoch :: "json option \<Rightarrow> exn + int option" where
  "coerce_json_epoch (Some (JInt i)) = Inr (Some i)"
| "coerce_json_epoch (Some (JBool b)) = Inr (Some (if b then 1 else 0))"
| "coerce_json_epoch (Some (JStr s)) = epoch_of_text s"
| "coerce_json_epoch _ = Inr None"

definition resolve_status :: "string \<Rightarrow> dict \<Rightarrow> TaskStatus option" where
  "resolve_status event_type payload = (case dict_get payload ''status'' of
      Some (JStr s) \<Rightarrow> (case TaskStatus_of s of Inl _ \<Rightarrow> None | Inr st \<Rightarrow> Some st)
    | _ \<Rightarrow> map_of EVENT_TO_STATUS event_type)"

definition str_field :: "dict \<Rightarrow> string \<Rightarrow> string option" where
  "str_field d k = (case dict_get d k of Some (JStr s) \<Rightarrow> Some s | _ \<Rightarrow> None)"

text \<open>\<open>int(v) if isinstance(v, (int, float, str)) else None\<close>.\<close>

definition runtime_field :: "dict \<Rightarrow> exn + int option" where
  "runtime_field d = (case dict_get d ''runtime_ms'' of
      None \<Rightarrow> Inr None
    | Some JNull \<Rightarrow> Inr None
    | Some (JArr _) \<Rightarrow> Inr None
    | Some (JObj _) \<Rightarrow> Inr None
    | Some v \<Rightarrow> then_ok (py_int_of v) (\<lambda>i. Inr (Some i)))"

definition parse_projection_fields :: "(json \<Rightarrow> string) \<Rightarrow> string option \<Rightarrow> dict \<Rightarrow>
    exn + ProjectionEvent option" where
  "parse_projection_fields rp message_id payload =
    then_ok (event_id_of payload message_id) (\<lambda>event_id_raw.
    then_ok (required payload ''task_id'') (\<lambda>task_raw.
    then_ok (uuid_of_str (py_str rp task_raw)) (\<lambda>task_id.
    let event_type = py_str rp (dict_get_or payload ''event_type'' (JStr ''task.submitted'')) in
    case resolve_status event_type payload of
      None \<Rightarrow> Inr None
    | Some status \<Rightarrow>
      then_ok (runtime_field payload) (\<lambda>runtime_ms.
      then_ok (coerce_json_epoch (dict_get payload ''occurred_at_epoch'')) (\<lambda>occurred.
      then_ok (if occurred = None \<or> occurred = Some 0
        then coerce_json_epoch (dict_get payload ''created_at_epoch'') else Inr occurred) (\<lambda>occurred_at_epoch.
      then_ok (uuid_of_str event_id_raw) (\<lambda>event_id.
      Inr (Some \<lparr>pe_event_id = event_id, pe_task_id = task_id, pe_event_type = event_type,
        pe_status = status,
        pe_result = (case dict_get payload ''result'' of Some (JObj d) \<Rightarrow> Some d | _ \<Rightarrow> None),
        pe_error = str_field payload ''error'', pe_queue_name = str_field payload ''queue'',
        pe_runtime_ms = runtime_ms, pe_occurred_at_epoch = occurred_at_epoch\<rparr>))))))))"

definition parse_projection_event :: "(json \<Rightarrow> string) \<Rightarrow> RabbitMQDelivery \<Rightarrow> ProjectionEvent option" where
  "parse_projection_event rp delivery = (case rd_body delivery of
      Decoded (JObj payload) \<Rightarrow> (case parse_projection_fields rp (rd_message_id delivery) payload of
          Inl _ \<Rightarrow> None
        | Inr event \<Rightarrow> event)
    | _ \<Rightarrow> None)"

section \<open>Projecting\<close>

definition persist_projection_body :: "ProjectionEvent \<Rightarrow> (bool \<times> string option \<times> uuid option) app" where
  "persist_projection_body event =
     bindE (record_inbox_event (pe_event_id event) PROJECTOR_CONSUMER_NAME) (\<lambda>inserted.
     if \<not> inserted then returnM (False, None, None) else
     bindE (get_task_command (pe_task_id event)) (\<lambda>command. case command of
       None \<Rightarrow> returnM (False, None, None)
     | Some c \<Rightarrow>
     bindE (liftE (case pe_queue_name event of
         Some (ch # cs) \<Rightarrow> Inr (ch # cs)
       | _ \<Rightarrow> resolve_queue (tc_tier c) (tc_mode c) (tc_model_class c))) (\<lambda>queue_name.
     bindE (upsert_task_query_view (tc_task_id c) (tc_user_id c) (tc_tier c) (tc_mode c) (tc_model_class c)
       (pe_status event) (pe_result event) (pe_error event) (Some queue_name) (pe_runtime_ms event)) (\<lambda>_.
     returnM (True, Some queue_name, Some (tc_user_id c))))))"

definition persist_projection :: "ProjectionEvent \<Rightarrow> (bool \<times> string option \<times> uuid option) app" where
  "persist_projection event = acquire (transaction (persist_projection_body event))"

definition write_projection_cache :: "AppSettings \<Rightarrow> ProjectionEvent \<Rightarrow> string \<Rightarrow> uuid \<Rightarrow> unit app" where
  "write_projection_cache settings event queue_name user_id =
     (let task_key = task_state_key (pe_task_id event);
          task_mapping = [(''task_id'', Plain (uuid_str (pe_task_id event))),
            (''user_id'', Plain (uuid_str user_id)), (''status'', Plain (TaskStatus_value (pe_status event))),
            (''queue'', Plain queue_name),
            (''error'', Plain (case pe_error event of None \<Rightarrow> [] | Some e \<Rightarrow> e))] @
            (case pe_runtime_ms event of None \<Rightarrow> [] | Some n \<Rightarrow> [(''runtime_ms'', Plain (str_of_int n))]) @
            (case pe_result event of None \<Rightarrow> [] | Some d \<Rightarrow> [(''result'', Dumped (JObj d))])
      in bindE (redis_hset task_key task_mapping) (\<lambda>_.
         redis_expire task_key (st_redis_task_state_ttl_seconds settings)))"

definition project_delivery :: "(json \<Rightarrow> string) \<Rightarrow> AppSettings \<Rightarrow> RabbitMQDelivery \<Rightarrow> (string \<times> string) app" where
  "project_delivery rp settings delivery = (case parse_projection_event rp delivery of
      None \<Rightarrow> returnM (''invalid'', ''unknown'')
    | Some event \<Rightarrow>
        bindE (persist_projection event) (\<lambda>(projected, queue_name, user_id).
        case (projected, queue_name, user_id) of
          (True, Some q, Some u) \<Rightarrow>
            bindE (write_projection_cache settings event q u) (\<lambda>_.
            returnM (''projected'', pe_event_type event))
        | _ \<Rightarrow> returnM (''skipped'', pe_event_type event)))"

definition projector_turn :: "(json \<Rightarrow> string) \<Rightarrow> AppSettings \<Rightarrow> unit app" where
  "projector_turn rp settings =
     bindE (get_one [PROJECTOR_QUEUE]) (\<lambda>delivery. case delivery of
       None \<Rightarrow> sleep_seconds projector_idle_sleep_seconds
     | Some d \<Rightarrow>
         bindE (attempt (bindE (project_delivery rp settings d) (\<lambda>_. ack (rd_delivery_tag d)))) (\<lambda>outcome.
         case outcome of
           Inr _ \<Rightarrow> returnM ()
         | Inl _ \<Rightarrow> bindE (nack_requeue (rd_delivery_tag d)) (\<lambda>_.
             sleep_seconds projector_error_backoff_seconds)))"


section \<open>The abstract view\<close>

text \<open>Per task, what was last said about it; and which events were counted.\<close>

type_synonym view_entry =
  "uuid \<times> SubscriptionTier \<times> RequestMode \<times> ModelClass \<times> TaskStatus \<times> dict option \<times> string option \<times>
   string option \<times> int option"

type_synonym projection = "(uuid \<Rightarrow> view_entry option) \<times> uuid set"

definition view_entry :: "TaskQueryView \<Rightarrow> view_entry" where
  "view_entry v = (tv_user_id v, tv_tier v, tv_mode v, tv_model_class v, tv_status v, tv_result v,
     tv_error v, tv_queue_name v, tv_runtime_ms v)"

definition view_of :: "s2db \<Rightarrow> uuid \<Rightarrow> view_entry option" where
  "view_of d t = map_option view_entry (lookup_row tv_task_id t (task_query_view d))"

definition projection_of :: "s2db \<Rightarrow> projection" where
  "projection_of d = (view_of d, {e. (e, PROJECTOR_CONSUMER_NAME) \<in> set (inbox_events d)})"

definition announced_queue :: "ProjectionEvent \<Rightarrow> TaskCommand \<Rightarrow> exn + string" where
  "announced_queue e c = (case pe_queue_name e of
      Some (ch # cs) \<Rightarrow> Inr (ch # cs)
    | _ \<Rightarrow> resolve_queue (tc_tier c) (tc_mode c) (tc_model_class c))"

definition entry_for :: "ProjectionEvent \<Rightarrow> TaskCommand \<Rightarrow> string \<Rightarrow> view_entry" where
  "entry_for e c q = (tc_user_id c, tc_tier c, tc_mode c, tc_model_class c, pe_status e, pe_result e,
     pe_error e, Some q, pe_runtime_ms e)"

definition project_step :: "(uuid \<Rightarrow> TaskCommand option) \<Rightarrow> ProjectionEvent \<Rightarrow> projection \<Rightarrow> projection" where
  "project_step cmds e p =
     (if pe_event_id e \<in> snd p then p
      else (case cmds (pe_task_id e) of
          None \<Rightarrow> fst p
        | Some c \<Rightarrow> (case announced_queue e c of
              Inl _ \<Rightarrow> fst p
            | Inr q \<Rightarrow> (fst p)(pe_task_id e \<mapsto> entry_for e c q)),
        insert (pe_event_id e) (snd p)))"

definition only_view :: "s2db \<Rightarrow> s2db \<Rightarrow> bool" where
  "only_view d d' \<longleftrightarrow> d'\<lparr>task_query_view := [], inbox_events := []\<rparr> = d\<lparr>task_query_view := [], inbox_events := []\<rparr>"

lemma only_view_refl: "only_view d d"
  by (simp add: only_view_def)

lemma only_view_trans: "only_view d d' \<Longrightarrow> only_view d' d'' \<Longrightarrow> only_view d d''"
  by (simp add: only_view_def)

lemma only_viewD:
  assumes "only_view d d'"
  shows "users d' = users d" "task_commands d' = task_commands d"
    "credit_reservations d' = credit_reservations d" "outbox_events d' = outbox_events d"
  using arg_cong [where f = users, OF assms [unfolded only_view_def]]
    arg_cong [where f = task_commands, OF assms [unfolded only_view_def]]
    arg_cong [where f = credit_reservations, OF assms [unfolded only_view_def]]
    arg_cong [where f = outbox_events, OF assms [unfolded only_view_def]] by simp_all

lemma lookup_view_update:
  assumes "\<And>v. tv_task_id (f v) = t"
  shows "lookup_row tv_task_id x (update_rows (\<lambda>v. tv_task_id v = t) f vs) =
    (if x = t then map_option f (lookup_row tv_task_id x vs) else lookup_row tv_task_id x vs)"
  using assms by (induction vs) (auto simp: update_rows_def)

lemma upsert_view_entry:
  assumes "upsert_task_query_view t u tier mode mc st res err q ms w = (Inr x, w')"
  shows "view_of (pg w') = (view_of (pg w))(t \<mapsto> (u, tier, mode, mc, st, res, err, q, ms))"
    and "inbox_events (pg w') = inbox_events (pg w)"
    and "only_view (pg w) (pg w')"
proof -
  define new where "new = (\<lambda>created. \<lparr>tv_task_id = t, tv_user_id = u, tv_tier = tier,
      tv_mode = mode, tv_model_class = mc, tv_status = st, tv_result = res, tv_error = err,
      tv_queue_name = q, tv_runtime_ms = ms, tv_created_at = created, tv_updated_at = clock w\<rparr>)"
  have pg: "pg w' = (pg w)\<lparr>task_query_view :=
      (if lookup_row tv_task_id t (task_query_view (pg w)) = None then task_query_view (pg w) @ [new (clock w)]
       else update_rows (\<lambda>v. tv_task_id v = t) (\<lambda>v. new (tv_created_at v)) (task_query_view (pg w)))\<rparr>"
    using assms unfolding upsert_task_query_view_def
    by (elim sql_okE) (auto simp: Let_def new_def split: if_splits option.splits)
  have new: "tv_task_id (new c) = t" "view_entry (new c) = (u, tier, mode, mc, st, res, err, q, ms)" for c
    by (simp_all add: new_def view_entry_def)
  show "view_of (pg w') = (view_of (pg w))(t \<mapsto> (u, tier, mode, mc, st, res, err, q, ms))"
    by (rule ext) (auto simp: pg view_of_def lookup_row_append lookup_view_update new split: option.splits)
  show "inbox_events (pg w') = inbox_events (pg w)" by (simp add: pg)
  show "only_view (pg w) (pg w')" by (simp add: only_view_def pg)
qed

lemma find_command_key: "find_command d t = Some c \<Longrightarrow> tc_task_id c = t"
  unfolding find_command_def by (drule lookup_row_Some) simp

lemma persist_projection_body_ok:
  assumes run: "persist_projection_body event w = (Inr (ok, q, u), w')"
  shows "projection_of (pg w') = project_step (find_command (pg w)) event (projection_of (pg w)) \<and>
    only_view (pg w) (pg w') \<and>
    (ok \<longrightarrow> pe_event_id event \<notin> snd (projection_of (pg w)) \<and> (\<exists>c q'. find_command (pg w) (pe_task_id event) = Some c \<and>
       q = Some q' \<and> u = Some (tc_user_id c) \<and>
       view_of (pg w') (pe_task_id event) = Some (entry_for event c q')))"
proof -
  let ?id = "pe_event_id event" and ?t = "pe_task_id event"
  from run obtain b w1 where inbox: "record_inbox_event ?id PROJECTOR_CONSUMER_NAME w = (Inr b, w1)"
    and rest: "(if \<not> b then returnM (False, None, None) else
      bindE (get_task_command ?t) (\<lambda>command. case command of
        None \<Rightarrow> returnM (False, None, None)
      | Some c \<Rightarrow> bindE (liftE (announced_queue event c)) (\<lambda>queue_name.
          bindE (upsert_task_query_view (tc_task_id c) (tc_user_id c) (tc_tier c) (tc_mode c) (tc_model_class c)
            (pe_status event) (pe_result event) (pe_error event) (Some queue_name) (pe_runtime_ms event)) (\<lambda>_.
          returnM (True, Some queue_name, Some (tc_user_id c)))))) w1 = (Inr (ok, q, u), w')"
    unfolding persist_projection_body_def announced_queue_def by (elim bindE_okE)
  from inbox show ?thesis
  proof (cases rule: record_inbox_okE)
    case 1
    with rest show ?thesis by (simp add: project_step_def projection_of_def only_view_refl)
  next
    case 2
    have seen: "{e. (e, PROJECTOR_CONSUMER_NAME) \<in> set (inbox_events (pg w1))} =
        insert ?id {e. (e, PROJECTOR_CONSUMER_NAME) \<in> set (inbox_events (pg w))}"
      and same: "view_of (pg w1) = view_of (pg w)" "find_command (pg w1) = find_command (pg w)"
      using 2 by (auto simp: view_of_def find_command_def)
    have only1: "only_view (pg w) (pg w1)"
      by (simp add: only_view_def 2)
    show ?thesis
    proof (cases "find_command (pg w) ?t")
      case None
      with rest 2 same(2) have "pg w' = pg w1" "\<not> ok" by (auto elim!: bindE_okE get_task_command_okE)
      with None 2 seen same only1 show ?thesis by (simp add: project_step_def projection_of_def)
    next
      case (Some c)
      with rest 2 same(2) obtain qn w2 where qn: "announced_queue event c = Inr qn"
        and up: "upsert_task_query_view ?t (tc_user_id c) (tc_tier c) (tc_mode c) (tc_model_class c)
          (pe_status event) (pe_result event) (pe_error event) (Some qn) (pe_runtime_ms event) w2 = (Inr (), w')"
        and w2: "pg w2 = pg w1" and res: "q = Some qn" "u = Some (tc_user_id c)"
        by (auto elim!: bindE_okE get_task_command_okE simp: find_command_key)
      from upsert_view_entry(3) [OF up] w2 only1 have "only_view (pg w) (pg w')"
        by (metis only_view_trans)
      with upsert_view_entry(1,2) [OF up] w2 seen same 2 qn res Some show ?thesis
        by (simp add: project_step_def projection_of_def entry_for_def)
    qed
  qed
qed


lemma persist_projection_outcome:
  assumes run: "persist_projection event w = (r, w')"
  obtains (kept) e where "r = Inl e" "pg w' = pg w"
    | (counted) ok q u where "projection_of (pg w') = project_step (find_command (pg w)) event (projection_of (pg w))"
      "only_view (pg w) (pg w')" "r = Inr (ok, q, u) \<or> (\<exists>e. r = Inl e)"
      "ok \<Longrightarrow> pe_event_id event \<notin> snd (projection_of (pg w)) \<and> (\<exists>c q'. find_command (pg w) (pe_task_id event) = Some c \<and>
         q = Some q' \<and> u = Some (tc_user_id c) \<and>
         view_of (pg w') (pe_task_id event) = Some (entry_for event c q'))"
  using run [unfolded persist_projection_def]
proof (cases rule: in_transaction)
  case (undone e)
  then show thesis by (rule kept)
next
  case (ran a fs w1)
  obtain ok q u where a: "a = (ok, q, u)" by (cases a)
  from persist_projection_body_ok [OF ran(1) [unfolded a]] ran(2,3) a show thesis
    by (intro counted [of ok q u]) auto
qed

definition projection_outcome :: "ProjectionEvent option \<Rightarrow> s2db \<Rightarrow> s2db \<Rightarrow> exn + (string \<times> string) \<Rightarrow> bool" where
  "projection_outcome parsed d d' r = (case parsed of
      None \<Rightarrow> d' = d \<and> r = Inr (''invalid'', ''unknown'')
    | Some e \<Rightarrow> only_view d d' \<and>
        (projection_of d' = project_step (find_command d) e (projection_of d) \<and>
           (r = Inr (''projected'', pe_event_type e) \<longrightarrow> pe_event_id e \<notin> snd (projection_of d) \<and>
              (\<exists>c q. find_command d (pe_task_id e) = Some c \<and> view_of d' (pe_task_id e) = Some (entry_for e c q))) \<or>
         d' = d \<and> (\<exists>x. r = Inl x)))"

lemma keeps_write_projection_cache [keeps_rules]: "keeps I (write_projection_cache settings e q u)"
  unfolding write_projection_cache_def Let_def by (intro keeps_rules)

lemma project_delivery_outcome:
  assumes run: "project_delivery rp settings delivery w = (r, w')"
  shows "projection_outcome (parse_projection_event rp delivery) (pg w) (pg w') r"
proof (cases "parse_projection_event rp delivery")
  case None
  with run show ?thesis by (simp add: project_delivery_def projection_outcome_def returnM_def)
next
  case (Some event)
  let ?k = "\<lambda>(projected, queue_name, user_id). case (projected, queue_name, user_id) of
          (True, Some q, Some u) \<Rightarrow>
            bindE (write_projection_cache settings event q u) (\<lambda>_.
            returnM (''projected'', pe_event_type event))
        | _ \<Rightarrow> returnM (''skipped'', pe_event_type event)"
  have keeps: "keeps I (?k x)" for I x
    by (auto split: prod.split option.split bool.split intro!: keeps_rules)
  from run Some have "bindE (persist_projection event) ?k w = (r, w')" by (simp add: project_delivery_def)
  then show ?thesis
  proof (cases rule: bindE_cases)
    case (raised e)
    from raised(1) show ?thesis
    proof (cases rule: persist_projection_outcome)
      case kept
      with raised Some show ?thesis by (simp add: projection_outcome_def only_view_refl)
    next
      case (counted ok q u)
      with raised Some show ?thesis by (simp add: projection_outcome_def)
    qed
  next
    case (ran a w1)
    have pg: "pg w' = pg w1" using keeps_pg [OF keeps, of a w1] ran(2) by simp
    from ran(1) show ?thesis
    proof (cases rule: persist_projection_outcome)
      case (counted ok q u)
      have "ok" if "r = Inr (''projected'', pe_event_type event)"
        using ran(2) counted(3) that by (auto simp: returnM_def split: bool.splits)
      with counted pg Some show ?thesis by (auto simp: projection_outcome_def)
    qed simp
  qed
qed


section \<open>Sequences of deliveries\<close>

definition project_with :: "(json \<Rightarrow> string) \<Rightarrow> AppSettings \<Rightarrow> RabbitMQDelivery \<times> fault list \<Rightarrow>
    (s2db, s2kv) world \<Rightarrow> (s2db, s2kv) world" where
  "project_with rp settings m w = snd (project_delivery rp settings (fst m) (w\<lparr>faults := snd m\<rparr>))"

definition parsed_events :: "(json \<Rightarrow> string) \<Rightarrow> (RabbitMQDelivery \<times> fault list) list \<Rightarrow> ProjectionEvent list" where
  "parsed_events rp ms = List.map_filter (\<lambda>m. parse_projection_event rp (fst m)) ms"

lemma project_with_outcome:
  "projection_outcome (parse_projection_event rp (fst m)) (pg w) (pg (project_with rp settings m w))
     (fst (project_delivery rp settings (fst m) (w\<lparr>faults := snd m\<rparr>)))"
  using project_delivery_outcome [of rp settings "fst m" "w\<lparr>faults := snd m\<rparr>"]
  by (simp add: project_with_def)

lemma project_with_steps:
  obtains es where "subseq es (parsed_events rp [m])"
    "projection_of (pg (project_with rp settings m w)) =
       fold (project_step (find_command (pg w))) es (projection_of (pg w))"
    "only_view (pg w) (pg (project_with rp settings m w))"
proof (cases "parse_projection_event rp (fst m)")
  case None
  then show thesis using project_with_outcome [of rp m w settings]
    by (intro that [of "[]"]) (simp_all add: projection_outcome_def only_view_refl)
next
  case (Some e)
  have "projection_of (pg (project_with rp settings m w)) = projection_of (pg w) \<or>
      projection_of (pg (project_with rp settings m w)) = project_step (find_command (pg w)) e (projection_of (pg w))"
    and only: "only_view (pg w) (pg (project_with rp settings m w))"
    using project_with_outcome [of rp m w settings] Some by (auto simp: projection_outcome_def)
  then show thesis
  proof (elim disjE)
    assume "projection_of (pg (project_with rp settings m w)) = projection_of (pg w)"
    with only show thesis by (intro that [of "[]"]) simp_all
  next
    assume "projection_of (pg (project_with rp settings m w)) = project_step (find_command (pg w)) e (projection_of (pg w))"
    with only Some show thesis
      by (intro that [of "[e]"]) (simp_all add: parsed_events_def List.map_filter_def)
  qed
qed

lemma only_view_commands: "only_view d d' \<Longrightarrow> find_command d' = find_command d"
  using only_viewD(2) by (fastforce simp: find_command_def)

lemma project_run_steps:
  "\<exists>es. subseq es (parsed_events rp ms) \<and>
     projection_of (pg (fold (project_with rp settings) ms w)) =
       fold (project_step (find_command (pg w))) es (projection_of (pg w)) \<and>
     only_view (pg w) (pg (fold (project_with rp settings) ms w))"
proof (induction ms arbitrary: w)
  case Nil
  then show ?case by (intro exI [of _ "[]"]) (simp add: parsed_events_def only_view_refl)
next
  case (Cons m ms)
  let ?w1 = "project_with rp settings m w"
  obtain es where es: "subseq es (parsed_events rp [m])"
    "projection_of (pg ?w1) = fold (project_step (find_command (pg w))) es (projection_of (pg w))"
    "only_view (pg w) (pg ?w1)"
    by (rule project_with_steps)
  obtain fs where fs: "subseq fs (parsed_events rp ms)"
    "projection_of (pg (fold (project_with rp settings) ms ?w1)) =
       fold (project_step (find_command (pg ?w1))) fs (projection_of (pg ?w1))"
    "only_view (pg ?w1) (pg (fold (project_with rp settings) ms ?w1))"
    using Cons.IH [of ?w1] by blast
  have "parsed_events rp (m # ms) = parsed_events rp [m] @ parsed_events rp ms"
    by (simp add: parsed_events_def List.map_filter_def)
  with es fs show ?case
    by (intro exI [of _ "es @ fs"])
      (auto simp: list_emb_append_mono only_view_commands [OF es(3)] intro: only_view_trans)
qed

text \<open>The projector is a client of the at-most-once interface: its effect is a change of the view.\<close>

interpretation projector_inbox: deduplicated "\<lambda>_. True" "project_with rp settings"
  "\<lambda>w w'. view_of (pg w') \<noteq> view_of (pg w)" "\<lambda>m. map_option pe_event_id (parse_projection_event rp (fst m))"
  "\<lambda>w i. \<exists>e. i = Some e \<and> e \<in> snd (projection_of (pg w))" for rp settings
proof unfold_locales
  fix w :: "(s2db, s2kv) world" and m :: "RabbitMQDelivery \<times> fault list" and i :: "uuid option"
  let ?w1 = "project_with rp settings m w"
  obtain es where es: "subseq es (parsed_events rp [m])"
    "projection_of (pg ?w1) = fold (project_step (find_command (pg w))) es (projection_of (pg w))"
    by (rule project_with_steps)
  then consider (none) "es = []" | (one) e where "es = [e]" "parse_projection_event rp (fst m) = Some e"
    by (cases "parse_projection_event rp (fst m)"; cases es)
      (auto simp: parsed_events_def List.map_filter_def subseq_Cons2_iff split: if_splits)
  note cases = this
  have view: "view_of d = fst (projection_of d)" for d by (simp add: projection_of_def)
  show "\<exists>e. i = Some e \<and> e \<in> snd (projection_of (pg w)) \<Longrightarrow>
      \<exists>e. i = Some e \<and> e \<in> snd (projection_of (pg ?w1))"
    using cases by cases (auto simp: es(2) project_step_def)
  assume "view_of (pg ?w1) \<noteq> view_of (pg w)"
  with cases show "\<not> (\<exists>e. map_option pe_event_id (parse_projection_event rp (fst m)) = Some e \<and>
        e \<in> snd (projection_of (pg w)))"
    and "\<exists>e. map_option pe_event_id (parse_projection_event rp (fst m)) = Some e \<and>
        e \<in> snd (projection_of (pg ?w1))"
    by (cases; simp add: es(2) view project_step_def split: if_splits)+
qed simp


section \<open>Progress\<close>

definition projectable :: "(s2db, s2kv) world \<Rightarrow> ProjectionEvent \<Rightarrow> bool" where
  "projectable w e \<longleftrightarrow> pe_event_id e \<notin> snd (projection_of (pg w)) \<and>
     (\<exists>c q. find_command (pg w) (pe_task_id e) = Some c \<and> announced_queue e c = Inr q \<and> length q \<le> 32) \<and>
     (case pe_runtime_ms e of None \<Rightarrow> True | Some n \<Rightarrow> int4_ok n)"

lemma upsert_view_runs:
  assumes "faults w = []" "case ms of None \<Rightarrow> True | Some n \<Rightarrow> int4_ok n" "length q \<le> 32"
  shows "\<exists>d. upsert_task_query_view t u tier mode mc st res err (Some q) ms w = (Inr (), w\<lparr>pg := d\<rparr>)"
  using assms by (cases ms) (auto simp: upsert_task_query_view_def sql_nofault Let_def)

lemma persist_projection_runs:
  assumes fine: "faults w = []" and e: "projectable w e"
  shows "\<exists>q u d. persist_projection e w = (Inr (True, Some q, Some u), w\<lparr>pg := d\<rparr>)"
proof -
  from e obtain c q where c: "find_command (pg w) (pe_task_id e) = Some c" "announced_queue e c = Inr q" "length q \<le> 32"
    and fresh: "(pe_event_id e, PROJECTOR_CONSUMER_NAME) \<notin> set (inbox_events (pg w))"
    and ms: "case pe_runtime_ms e of None \<Rightarrow> True | Some n \<Rightarrow> int4_ok n"
    by (auto simp: projectable_def projection_of_def)
  define w1 where "w1 = w\<lparr>pg := (pg w)\<lparr>inbox_events := inbox_events (pg w) @ [(pe_event_id e, PROJECTOR_CONSUMER_NAME)]\<rparr>\<rparr>"
  have "faults w1 = []" by (simp add: w1_def fine)
  from upsert_view_runs [OF this ms c(3)] obtain d where
    up: "upsert_task_query_view (tc_task_id c) (tc_user_id c) (tc_tier c) (tc_mode c) (tc_model_class c)
       (pe_status e) (pe_result e) (pe_error e) (Some q) (pe_runtime_ms e) w1 = (Inr (), w1\<lparr>pg := d\<rparr>)" by blast
  have "persist_projection_body e w = (Inr (True, Some q, Some (tc_user_id c)), w1\<lparr>pg := d\<rparr>)"
    unfolding persist_projection_body_def announced_queue_def [symmetric]
    using fine fresh c up
    by (simp add: record_inbox_event_def get_task_command_def nofault_simps w1_def bindE_def [of "upsert_task_query_view a b c d e f g h i j" for a b c d e f g h i j]
        returnM_def)
  then show ?thesis using fine
    by (auto simp: persist_projection_def acquire_nofault transaction_def w1_def)
qed

lemma write_projection_cache_runs:
  assumes fine: "faults w = []"
  shows "\<exists>k. write_projection_cache settings e q u w = (Inr (), w\<lparr>kv := k\<rparr>)"
proof -
  obtain mapping where m: "write_projection_cache settings e q u = bindE (redis_hset (task_state_key (pe_task_id e)) mapping)
      (\<lambda>_. redis_expire (task_state_key (pe_task_id e)) (st_redis_task_state_ttl_seconds settings))"
    unfolding write_projection_cache_def Let_def by blast
  obtain k where "redis_hset (task_state_key (pe_task_id e)) mapping w = (Inr (), w\<lparr>kv := k\<rparr>)"
    using redis_runs(1) [OF fine] by blast
  with m redis_runs(2) [of "w\<lparr>kv := k\<rparr>" "task_state_key (pe_task_id e)" "st_redis_task_state_ttl_seconds settings"] fine
  show ?thesis by (simp add: bindE_def)
qed

lemma project_delivery_runs:
  assumes fine: "faults w = []" and e: "parse_projection_event rp delivery = Some e" "projectable w e"
  shows "fst (project_delivery rp settings delivery w) = Inr (''projected'', pe_event_type e)"
proof -
  obtain q u d where p: "persist_projection e w = (Inr (True, Some q, Some u), w\<lparr>pg := d\<rparr>)"
    using persist_projection_runs [OF fine e(2)] by blast
  obtain k where "write_projection_cache settings e q u (w\<lparr>pg := d\<rparr>) = (Inr (), w\<lparr>pg := d, kv := k\<rparr>)"
    using write_projection_cache_runs [of "w\<lparr>pg := d\<rparr>" settings e q u] fine by auto
  then show ?thesis
    by (simp add: project_delivery_def e(1) bindE_ran [of "persist_projection e", OF p]
        bindE_ran [of "write_projection_cache settings e q u"] returnM_def)
qed

section \<open>The events of the worker\<close>

lemma parse_completed:
  assumes "oe_event_type e = ''task.completed''"
    and "oe_payload e = completed_payload command result ms"
  shows "parse_projection_event rp (delivery_of q tag (message_of e)) = Some
    \<lparr>pe_event_id = oe_event_id e, pe_task_id = ec_task_id command, pe_event_type = ''task.completed'',
     pe_status = COMPLETED, pe_result = Some result, pe_error = None,
     pe_queue_name = Some (ec_queue_name command), pe_runtime_ms = Some ms, pe_occurred_at_epoch = None\<rparr>"
  using assms
  by (simp add: parse_projection_event_def parse_projection_fields_def delivery_of_def message_of_def
      outgoing_payload_def completed_payload_def dict_get_setdefault event_id_of_def required_def
      dict_get_or_def uuid_roundtrip Let_def runtime_field_def resolve_status_def str_field_def
      enum_of_def TaskStatuses_def)

lemma parse_failed:
  assumes "oe_event_type e = ''task.failed''"
    and "oe_payload e = failed_payload command message"
  shows "parse_projection_event rp (delivery_of q tag (message_of e)) = Some
    \<lparr>pe_event_id = oe_event_id e, pe_task_id = ec_task_id command, pe_event_type = ''task.failed'',
     pe_status = FAILED, pe_result = None, pe_error = Some message,
     pe_queue_name = Some (ec_queue_name command), pe_runtime_ms = None, pe_occurred_at_epoch = None\<rparr>"
  using assms
  by (simp add: parse_projection_event_def parse_projection_fields_def delivery_of_def message_of_def
      outgoing_payload_def failed_payload_def dict_get_setdefault event_id_of_def required_def
      dict_get_or_def uuid_roundtrip Let_def runtime_field_def resolve_status_def str_field_def
      enum_of_def TaskStatuses_def)


section \<open>Credits are not touched\<close>

lemma safe_projector_turn [safe_rules]: "safe (projector_turn rp settings)"
  unfolding projector_turn_def project_delivery_def persist_projection_def persist_projection_body_def
    write_projection_cache_def Let_def
  by (auto intro!: safe_rules split: prod.split bool.split option.split)

section \<open>Properties\<close>

text \<open>C12 The projector implements the abstract view: whatever is delivered, in whatever order, and whatever
  fails, the tables are those that the abstract projection reaches on some of the delivered events, taken in
  their order; nothing of the database but the view and the inbox changes.\<close>

theorem projector_refines_view:
  "\<exists>es. subseq es (parsed_events rp ms) \<and>
     projection_of (pg (fold (project_with rp settings) ms w)) =
       fold (project_step (find_command (pg w))) es (projection_of (pg w)) \<and>
     only_view (pg w) (pg (fold (project_with rp settings) ms w))"
  by (rule project_run_steps)

text \<open>C13 However often an event is delivered, and whatever fails, it changes the view at most once.\<close>

theorem projector_counts_once:
  "effect_count (project_with rp settings) (\<lambda>w w'. view_of (pg w') \<noteq> view_of (pg w))
     (\<lambda>m. map_option pe_event_id (parse_projection_event rp (fst m))) e ms w \<le> 1"
  by (rule projector_inbox.effect_at_most_once) simp

text \<open>When nothing fails, the event with which the worker announces a completion is projected on its first
  delivery, and the view then shows the task as completed with the worker's result and runtime.\<close>

theorem projector_shows_completion:
  assumes "faults w = []" "find_command (pg w) (ec_task_id command) = Some c"
    and "eid \<notin> snd (projection_of (pg w))" "int4_ok ms" "1 \<le> length lane" "length lane \<le> 32"
    and "ec_queue_name command = lane"
  shows "case project_delivery rp settings (delivery_of q tag (message_of
      \<lparr>oe_event_id = eid, oe_aggregate_id = ec_task_id command, oe_event_type = ''task.completed'',
        oe_routing_key = key, oe_payload = completed_payload command result ms, oe_published_at = pub,
        oe_created_at = created\<rparr>)) w of (r, w') \<Rightarrow>
    r = Inr (''projected'', ''task.completed'') \<and>
    view_of (pg w') (ec_task_id command) = Some (tc_user_id c, tc_tier c, tc_mode c, tc_model_class c,
      COMPLETED, Some result, None, Some lane, Some ms)"
proof -
  let ?m = "\<lparr>oe_event_id = eid, oe_aggregate_id = ec_task_id command, oe_event_type = ''task.completed'',
        oe_routing_key = key, oe_payload = completed_payload command result ms, oe_published_at = pub,
        oe_created_at = created\<rparr>"
  obtain e where e: "parse_projection_event rp (delivery_of q tag (message_of ?m)) = Some e"
    "pe_event_id e = eid" "pe_task_id e = ec_task_id command" "pe_event_type e = ''task.completed''"
    "pe_queue_name e = Some lane" "pe_runtime_ms e = Some ms"
    "entry_for e c lane = (tc_user_id c, tc_tier c, tc_mode c, tc_model_class c, COMPLETED, Some result, None, Some lane, Some ms)"
    using parse_completed [of ?m command result ms rp q tag] assms(7) by (simp add: entry_for_def)
  have lane: "announced_queue e c = Inr lane" using assms(5) by (cases lane) (simp_all add: announced_queue_def e)
  with assms e have can: "projectable w e" by (simp add: projectable_def)
  obtain r w' where run: "project_delivery rp settings (delivery_of q tag (message_of ?m)) w = (r, w')" by fastforce
  have r: "r = Inr (''projected'', ''task.completed'')"
    using project_delivery_runs [OF assms(1) e(1) can, of settings] run e(4) by simp
  with project_delivery_outcome [OF run] e assms(2,3) lane
  have "view_of (pg w') (ec_task_id command) = Some (entry_for e c lane)"
    by (auto simp: projection_outcome_def projection_of_def project_step_def)
  with r run e show ?thesis by simp
qed

theorem projector_shows_completion_witness:
  "case project_delivery (\<lambda>_. []) demo_settings (delivery_of ''queue.projector'' 1 (message_of
      \<lparr>oe_event_id = 22, oe_aggregate_id = 7, oe_event_type = ''task.completed'',
        oe_routing_key = ''tasks.async.enterprise.small'',
        oe_payload = completed_payload demo_command [(''z'', JInt 7)] 2000, oe_published_at = None,
        oe_created_at = 0\<rparr>)) (demo_app demo_pending []) of (r, w') \<Rightarrow>
    r = Inr (''projected'', ''task.completed'') \<and>
    view_of (pg w') 7 = Some (1, ENTERPRISE, ASYNC, SMALL, COMPLETED, Some [(''z'', JInt 7)], None,
      Some ''queue.realtime'', Some 2000)"
  using projector_shows_completion [where w = "demo_app demo_pending []" and command = demo_command
      and c = "hd (task_commands demo_pending)" and eid = 22 and ms = 2000 and lane = "''queue.realtime''"
      and rp = "\<lambda>_. []" and settings = demo_settings and q = "''queue.projector''" and tag = 1
      and key = "''tasks.async.enterprise.small''" and result = "[(''z'', JInt 7)]" and pub = None and created = 0]
  by (simp add: demo_pending_def demo_db_def demo_command_def find_command_def projection_of_def int4_ok_def)

end
