(* ===== verification/S2_Auth.thy ===== *)
theory S2_Auth
  imports S2_Settings S2_Demo "HOL-Library.Char_ord" "HOL-Library.List_Lexorder"
begin

text \<open>
  Solution 2, \<open>services/auth.py\<close> and the authentication part of \<open>app.py\<close>: resolving API keys through
  the Redis cache, verifying bearer tokens, scopes, revoking tokens and checking revocations, and
  the OAuth token exchange with its rate limit.  The JWT library with its key set, the digest and
  the identity provider are parameters.  The lemmas say who is let in, what a token can carry, and
  how long a revocation is seen.
\<close>

section \<open>Responses\<close>

datatype reply = JSONResponse (reply_status: int) (reply_body: json)

definition opt_json :: "('a \<Rightarrow> json) \<Rightarrow> 'a option \<Rightarrow> json" where
  "opt_json f x = (case x of None \<Rightarrow> JNull | Some a \<Rightarrow> f a)"

definition error_response :: "int \<Rightarrow> string \<Rightarrow> string \<Rightarrow> int option \<Rightarrow> reply" where
  "error_response status_code code message retry_after = JSONResponse status_code
     (JObj [(''error'', JObj [(''code'', JStr code), (''message'', JStr message),
        (''retry_after'', opt_json JInt retry_after)])])"

definition api_error_response :: "int \<Rightarrow> string \<Rightarrow> string \<Rightarrow> reply" where
  "api_error_response status_code code message = error_response status_code code message None"

text \<open>The exception handler of the application; an exception it does not know is a 500.\<close>

definition http_exception_handler :: "int \<Rightarrow> string \<Rightarrow> reply" where
  "http_exception_handler status_code detail =
     (if status_code = 401 then
        (if detail = ''TOKEN_EXPIRED''
         then error_response 401 ''TOKEN_EXPIRED'' ''Bearer token expired; request a new access token'' None
         else error_response 401 ''UNAUTHORIZED'' ''Missing or invalid bearer token'' None)
      else if status_code = 403 then error_response 403 ''FORBIDDEN'' (if detail \<noteq> [] then detail else ''Forbidden'') None
      else if status_code = 503 then error_response 503 ''SERVICE_DEGRADED'' ''Service temporarily unavailable'' None
      else if status_code = 404 then error_response 404 ''NOT_FOUND'' ''Resource not found'' None
      else if status_code = 409 then error_response 409 ''CONFLICT'' detail None
      else error_response status_code ''HTTP_ERROR'' detail None)"

definition respond :: "reply app \<Rightarrow> reply app" where
  "respond route = bindE (attempt route) (\<lambda>outcome. case outcome of
      Inr r \<Rightarrow> returnM r
    | Inl e \<Rightarrow> (case exn_kind e of
          HTTPException status \<Rightarrow> returnM (http_exception_handler status (exn_text e))
        | _ \<Rightarrow> returnM (JSONResponse 500 (JStr ''Internal Server Error''))))"

section \<open>API keys\<close>

definition auth_cache_key :: "string \<Rightarrow> string" where
  "auth_cache_key api_key = ''auth:'' @ api_key"

fun rval_text :: "rval \<Rightarrow> string" where
  "rval_text (Plain s) = s"
| "rval_text (Dumped v) = ''{}''"

definition cached_user :: "string \<Rightarrow> (string \<times> rval) list \<Rightarrow> (exn + AuthUser) option" where
  "cached_user api_key cached = (case (map_of cached ''user_id'', map_of cached ''name'', map_of cached ''role'') of
      (Some uid, Some name, Some role) \<Rightarrow>
        (case (UserRole_of (rval_text role),
               SubscriptionTier_of (case map_of cached ''tier'' of None \<Rightarrow> SubscriptionTier_value FREE | Some t \<Rightarrow> rval_text t)) of
           (Inr role, Inr tier) \<Rightarrow> Some (then_ok (uuid_of_str (rval_text uid)) (\<lambda>u.
             Inr \<lparr>au_api_key = api_key, au_user_id = u, au_name = rval_text name, au_role = role,
               au_credits = 0, au_tier = tier, au_scopes = []\<rparr>))
         | _ \<Rightarrow> None)
    | _ \<Rightarrow> None)"

definition populate_auth_cache :: "string \<Rightarrow> int \<Rightarrow> AuthUser \<Rightarrow> unit app" where
  "populate_auth_cache api_key ttl user =
     bindE (redis_hset (auth_cache_key api_key)
       [(''user_id'', Plain (uuid_str (au_user_id user))), (''name'', Plain (au_name user)),
        (''role'', Plain (UserRole_value (au_role user))), (''tier'', Plain (SubscriptionTier_value (au_tier user)))])
       (\<lambda>_. redis_expire (auth_cache_key api_key) ttl)"

definition resolve_user_from_api_key :: "string \<Rightarrow> int \<Rightarrow> AuthUser option app" where
  "resolve_user_from_api_key api_key auth_cache_ttl_seconds =
     bindE (attempt (redis_hgetall (auth_cache_key api_key))) (\<lambda>outcome.
     bindE (case outcome of
         Inr c \<Rightarrow> returnM (c, True)
       | Inl e \<Rightarrow> if is_redis_error (exn_kind e) then returnM ([], False) else liftE (Inl e)) (\<lambda>(cached, cache_available).
     case cached_user api_key cached of
       Some user \<Rightarrow> bindE (liftE user) (\<lambda>u. returnM (Some u))
     | None \<Rightarrow>
         bindE (fetch_user_by_api_key api_key) (\<lambda>user. case user of
           None \<Rightarrow> returnM None
         | Some u \<Rightarrow>
             if cache_available then
               bindE (attempt (populate_auth_cache api_key auth_cache_ttl_seconds u)) (\<lambda>populated. case populated of
                 Inr _ \<Rightarrow> returnM (Some u)
               | Inl e \<Rightarrow> if is_redis_error (exn_kind e) then returnM (Some u) else liftE (Inl e))
             else returnM (Some u))))"

definition invalidate_user_auth_cache :: "string \<Rightarrow> unit app" where
  "invalidate_user_auth_cache api_key = bindE (redis_delete (auth_cache_key api_key)) (\<lambda>_. returnM ())"

section \<open>Bearer tokens\<close>

text \<open>\<open>s.split(" ", 1)\<close> into two parts.\<close>

fun split_space :: "string \<Rightarrow> (string \<times> string) option" where
  "split_space [] = None"
| "split_space (c # cs) = (if c = CHR '' '' then Some ([], cs)
     else map_option (\<lambda>(a, b). (c # a, b)) (split_space cs))"

definition parse_bearer_token :: "string option \<Rightarrow> string option" where
  "parse_bearer_token raw_authorization = (case raw_authorization of
      None \<Rightarrow> None
    | Some raw \<Rightarrow> (case split_space (strip raw) of
          None \<Rightarrow> None
        | Some (scheme, token) \<Rightarrow>
            if lower scheme \<noteq> ''bearer'' then None
            else let token_value = strip token in if token_value = [] then None else Some token_value))"

text \<open>\<open>str.split()\<close>: the words between runs of white space.\<close>

fun split_words :: "string \<Rightarrow> string \<Rightarrow> string list" where
  "split_words word [] = (if word = [] then [] else [word])"
| "split_words word (c # cs) = (if is_space_char c
     then (if word = [] then split_words [] cs else word # split_words [] cs)
     else split_words (word @ [c]) cs)"

definition scope_tokens :: "string \<Rightarrow> string list" where
  "scope_tokens s = split_words [] (map (\<lambda>c. if c = CHR '','' then CHR '' '' else c) s)"

definition parse_scope_claim :: "json option \<Rightarrow> string list" where
  "parse_scope_claim raw_scope = (case raw_scope of
      Some (JStr s) \<Rightarrow> scope_tokens s
    | Some (JArr items) \<Rightarrow> concat (map (\<lambda>item. case item of JStr s \<Rightarrow> scope_tokens s | _ \<Rightarrow> []) items)
    | _ \<Rightarrow> [])"

definition require_scopes :: "AuthUser \<Rightarrow> string list \<Rightarrow> unit app" where
  "require_scopes current_user required_scopes =
     (case sort (remdups (filter (\<lambda>s. \<not> List.member (au_scopes current_user) s) required_scopes)) of
        [] \<Rightarrow> returnM ()
      | missing_scope # _ \<Rightarrow> raiseM (HTTPException 403) (''Missing required scope: '' @ missing_scope))"

section \<open>Claims\<close>

definition oauth_principal_for_client :: "string \<Rightarrow> AppSettings \<Rightarrow> AuthUser option" where
  "oauth_principal_for_client client_id settings =
     (let principal_of = (\<lambda>key uid name role tier. Some \<lparr>au_api_key = key, au_user_id = uid, au_name = name,
            au_role = role, au_credits = 0, au_tier = tier, au_scopes = []\<rparr>) in
      if client_id = st_oauth_admin_client_id settings
      then principal_of (st_admin_api_key settings) (st_oauth_admin_user_id settings)
             (st_oauth_admin_client_id settings) ADMIN (st_oauth_admin_tier settings)
      else if client_id = st_oauth_user1_client_id settings
      then principal_of (st_alice_api_key settings) (st_oauth_user1_user_id settings)
             (st_oauth_user1_client_id settings) USER (st_oauth_user1_tier settings)
      else if client_id = st_oauth_user2_client_id settings
      then principal_of (st_bob_api_key settings) (st_oauth_user2_user_id settings)
             (st_oauth_user2_client_id settings) USER (st_oauth_user2_tier settings)
      else None)"

text \<open>
  \<open>decode force_refresh\<close> fetches the key and verifies the token with the JWT library.  The handlers
  of the first attempt do not cover the second one.
\<close>

definition load_jwt_claims :: "(bool \<Rightarrow> dict app) \<Rightarrow> (dict option \<times> string) app" where
  "load_jwt_claims decode =
     bindE (attempt (decode False)) (\<lambda>first. case first of
       Inr claims \<Rightarrow> returnM (Some claims, ''ok'')
     | Inl e \<Rightarrow>
         if exn_kind e = PyJWKError then
           bindE (attempt (decode True)) (\<lambda>second. case second of
             Inr claims \<Rightarrow> returnM (Some claims, ''ok'')
           | Inl e2 \<Rightarrow> if exn_kind e2 = PyJWKError then returnM (None, ''invalid'') else liftE (Inl e2))
         else if exn_kind e = ExpiredSignatureError then raiseM ExpiredBearerToken []
         else if exn_kind e = PyJWTError then returnM (None, ''invalid'')
         else returnM (None, ''error''))"

definition extract_client_id_from_claims :: "dict \<Rightarrow> string option" where
  "extract_client_id_from_claims claims =
     (let claim = (\<lambda>k. case dict_get claims k of Some (JStr s) \<Rightarrow> if s = [] then None else Some s | _ \<Rightarrow> None)
      in case claim ''client_id'' of
          Some client_id \<Rightarrow> (case claim ''sub'' of
              Some sub \<Rightarrow> if sub \<noteq> client_id then None else Some client_id
            | None \<Rightarrow> Some client_id)
        | None \<Rightarrow> claim ''sub'')"

text \<open>A claim that is a string must name the member; any other claim is ignored.\<close>

definition claim_agrees :: "(string \<Rightarrow> exn + 'e) \<Rightarrow> json option \<Rightarrow> 'e \<Rightarrow> bool" where
  "claim_agrees parse raw e = (case raw of Some (JStr s) \<Rightarrow> (case parse s of Inl _ \<Rightarrow> False | Inr m \<Rightarrow> m = e) | _ \<Rightarrow> True)"

definition authorize_jwt_claims :: "dict \<Rightarrow> AuthUser \<Rightarrow> (AuthUser \<times> string) option" where
  "authorize_jwt_claims claims principal_user =
     (if \<not> claim_agrees UserRole_of (dict_get claims ''role'') (au_role principal_user) then None
      else if \<not> claim_agrees SubscriptionTier_of (dict_get claims ''tier'') (au_tier principal_user) then None
      else let scopes = parse_scope_claim (dict_get claims ''scope'') @ parse_scope_claim (dict_get claims ''scp'')
        in case dict_get claims ''jti'' of
             Some (JStr s) \<Rightarrow> if strip s = [] then None
               else Some (principal_user\<lparr>au_credits := 0, au_scopes := scopes\<rparr>, strip s)
           | _ \<Rightarrow> None)"

lemma claim_agrees_role: "claim_agrees UserRole_of (Some (JStr s)) r \<Longrightarrow> s = UserRole_value r"
  by (auto simp: claim_agrees_def dest!: enum_of_Inr split: sum.splits)

lemma claim_agrees_tier: "claim_agrees SubscriptionTier_of (Some (JStr s)) r \<Longrightarrow> s = SubscriptionTier_value r"
  by (auto simp: claim_agrees_def dest!: enum_of_Inr split: sum.splits)

text \<open>\<open>datetime.fromtimestamp\<close> rounds to microseconds, half to even, and takes the years 1 to 9999.\<close>

definition round_half_even :: "real \<Rightarrow> int" where
  "round_half_even r = (let f = \<lfloor>r\<rfloor>; rest = r - of_int f in
     if rest < 1 / 2 \<or> (rest = 1 / 2 \<and> even f) then f else f + 1)"

definition datetime_of_timestamp :: "real \<Rightarrow> int option" where
  "datetime_of_timestamp t = (let us = round_half_even (t * 1000000) in
     if - 62135596800000000 \<le> us \<and> us < 253402300800000000 then Some us else None)"

definition jwt_expiry_from_claims :: "dict \<Rightarrow> int option" where
  "jwt_expiry_from_claims claims = (case dict_get claims ''exp'' of
      Some (JInt i) \<Rightarrow> datetime_of_timestamp (of_int i)
    | Some (JReal r) \<Rightarrow> datetime_of_timestamp r
    | Some (JBool b) \<Rightarrow> datetime_of_timestamp (if b then 1 else 0)
    | _ \<Rightarrow> None)"


section \<open>Revocation\<close>

definition revoked_tokens_day_key :: "uuid \<Rightarrow> string \<Rightarrow> string" where
  "revoked_tokens_day_key user_id day_iso = ''revoked:'' @ uuid_str user_id @ '':'' @ day_iso"

definition revoked_tokens_lookup_keys :: "uuid \<Rightarrow> int \<Rightarrow> string \<times> string" where
  "revoked_tokens_lookup_keys user_id current =
     (revoked_tokens_day_key user_id (iso_day current),
      revoked_tokens_day_key user_id (iso_day (current - seconds 86400)))"

definition remember_revocation :: "string \<Rightarrow> string \<Rightarrow> int \<Rightarrow> unit app" where
  "remember_revocation key jti ttl = bindE (redis_sadd key jti) (\<lambda>_. redis_expire key ttl)"

definition revoke_jti :: "uuid \<Rightarrow> string \<Rightarrow> int \<Rightarrow> int \<Rightarrow> unit app" where
  "revoke_jti user_id jti expires_at bucket_ttl =
     bindE get_clock (\<lambda>now.
     let bucket_key = revoked_tokens_day_key user_id (iso_day now) in
     bindE (attempt (remember_revocation bucket_key jti (max 1 bucket_ttl))) (\<lambda>cached. case cached of
       Inr _ \<Rightarrow> insert_revoked_jti jti user_id expires_at
     | Inl e \<Rightarrow> if is_redis_error (exn_kind e) then insert_revoked_jti jti user_id expires_at
         else liftE (Inl e)))"

text \<open>The two membership tests go out in one pipeline.\<close>

definition revoked_in_cache :: "string \<times> string \<Rightarrow> string \<Rightarrow> bool app" where
  "revoked_in_cache keys jti =
     bindE (redis_sismember (fst keys) jti) (\<lambda>a.
     bindE (redis_sismember (snd keys) jti) (\<lambda>b. returnM (a \<or> b)))"

definition is_token_revoked :: "AppSettings \<Rightarrow> uuid \<Rightarrow> string \<Rightarrow> bool app" where
  "is_token_revoked settings user_id jti =
     bindE get_clock (\<lambda>now.
     bindE (attempt (revoked_in_cache (revoked_tokens_lookup_keys user_id now) jti)) (\<lambda>cached. case cached of
       Inr revoked \<Rightarrow> returnM revoked
     | Inl _ \<Rightarrow>
         bindE (is_jti_revoked jti) (\<lambda>revoked.
         if \<not> revoked then returnM False else
         bindE get_clock (\<lambda>later.
         bindE (attempt (remember_revocation (revoked_tokens_day_key user_id (iso_day later)) jti
           (st_revocation_bucket_ttl_seconds settings))) (\<lambda>_. returnM True)))))"

fun rehydrate_entries :: "int \<Rightarrow> (string \<times> uuid \<times> string) list \<Rightarrow> unit app" where
  "rehydrate_entries ttl [] = returnM ()"
| "rehydrate_entries ttl ((jti, user_id, day_iso) # entries) =
     bindE (remember_revocation (revoked_tokens_day_key user_id day_iso) jti ttl) (\<lambda>_.
     rehydrate_entries ttl entries)"

definition rehydrate_revocation_cache :: "int \<Rightarrow> nat app" where
  "rehydrate_revocation_cache bucket_ttl_seconds =
     bindE get_clock (\<lambda>now.
     bindE (load_active_revoked_jtis (now - seconds 86400)) (\<lambda>revoked_entries.
     if revoked_entries = [] then returnM 0 else
     bindE (rehydrate_entries bucket_ttl_seconds revoked_entries) (\<lambda>_.
     returnM (length revoked_entries))))"

section \<open>Authentication\<close>

definition resolve_user_from_jwt_token :: "(bool \<Rightarrow> dict app) \<Rightarrow> AppSettings \<Rightarrow> (AuthUser \<times> dict) option app" where
  "resolve_user_from_jwt_token decode settings =
     bindE (load_jwt_claims decode) (\<lambda>(claims, result). case claims of
       None \<Rightarrow> returnM None
     | Some claims \<Rightarrow> (case extract_client_id_from_claims claims of
         None \<Rightarrow> returnM None
       | Some client_id \<Rightarrow> (case oauth_principal_for_client client_id settings of
           None \<Rightarrow> returnM None
         | Some principal_user \<Rightarrow> (case authorize_jwt_claims claims principal_user of
             None \<Rightarrow> returnM None
           | Some (auth_user, jti) \<Rightarrow>
               bindE (is_token_revoked settings (au_user_id principal_user) jti) (\<lambda>is_revoked.
               returnM (if is_revoked then None else Some (auth_user, claims)))))))"

definition authenticate :: "(string \<Rightarrow> bool \<Rightarrow> dict app) \<Rightarrow> AppSettings \<Rightarrow> string option \<Rightarrow> (AuthUser \<times> dict) app" where
  "authenticate decode settings authorization = (case parse_bearer_token authorization of
      None \<Rightarrow> raiseM (HTTPException 401) ''Missing bearer token''
    | Some token \<Rightarrow>
        if length (filter (\<lambda>c. c = CHR ''.'') token) \<noteq> 2
        then raiseM (HTTPException 401) ''Invalid bearer token'' else
        bindE (attempt (resolve_user_from_jwt_token (decode token) settings)) (\<lambda>outcome. case outcome of
          Inl e \<Rightarrow> if exn_kind e = ExpiredBearerToken then raiseM (HTTPException 401) ''TOKEN_EXPIRED''
            else raiseM (HTTPException 503) ''Authentication backend unavailable''
        | Inr None \<Rightarrow> raiseM (HTTPException 401) ''Invalid bearer token''
        | Inr (Some user) \<Rightarrow> returnM user))"

definition revoke_auth_token :: "(string \<Rightarrow> bool \<Rightarrow> dict app) \<Rightarrow> AppSettings \<Rightarrow> string option \<Rightarrow> reply app" where
  "revoke_auth_token decode settings authorization =
     bindE (authenticate decode settings authorization) (\<lambda>(current_user, claims).
     let invalid = raiseM (HTTPException 401) ''Invalid bearer token'' in
     case dict_get claims ''jti'' of
       Some (JStr jti) \<Rightarrow>
         if strip jti = [] then invalid else
         (case jwt_expiry_from_claims claims of
            None \<Rightarrow> invalid
          | Some expires_at \<Rightarrow>
              bindE (attempt (revoke_jti (au_user_id current_user) (strip jti) expires_at
                (st_revocation_bucket_ttl_seconds settings))) (\<lambda>outcome. case outcome of
                Inl _ \<Rightarrow> raiseM (HTTPException 503) ''Service temporarily unavailable''
              | Inr _ \<Rightarrow> returnM (JSONResponse 200 (JObj [(''revoked'', JBool True)]))))
     | _ \<Rightarrow> invalid)"

section \<open>OAuth tokens\<close>

record OAuthTokenRequest =
  ot_client_id :: "string option"
  ot_client_secret :: "string option"
  ot_api_key :: "string option"
  ot_scope :: "string option"

definition given :: "string option \<Rightarrow> bool" where
  "given s = (case s of None \<Rightarrow> False | Some x \<Rightarrow> x \<noteq> [])"

definition validate_credential_shape :: "OAuthTokenRequest \<Rightarrow> exn + OAuthTokenRequest" where
  "validate_credential_shape p =
     (if given (ot_api_key p) then
        (if given (ot_client_id p) \<or> given (ot_client_secret p)
         then Inl (Exn ValueError ''api_key cannot be combined with client credentials'') else Inr p)
      else if given (ot_client_id p) \<noteq> given (ot_client_secret p)
        then Inl (Exn ValueError ''client_id and client_secret are required together'')
      else if \<not> given (ot_client_id p) \<and> \<not> given (ot_client_secret p)
        then Inl (Exn ValueError ''provide api_key or client credentials'')
      else Inr p)"

definition resolve_oauth_client_credentials :: "AppSettings \<Rightarrow> OAuthTokenRequest \<Rightarrow> exn + string \<times> string" where
  "resolve_oauth_client_credentials settings p =
     (if given (ot_api_key p) then
        (let api_key = the (ot_api_key p) in
         if api_key = st_admin_api_key settings
         then Inr (st_oauth_admin_client_id settings, st_oauth_admin_client_secret settings)
         else if api_key = st_alice_api_key settings
         then Inr (st_oauth_user1_client_id settings, st_oauth_user1_client_secret settings)
         else if api_key = st_bob_api_key settings
         then Inr (st_oauth_user2_client_id settings, st_oauth_user2_client_secret settings)
         else Inl (Exn ValueError ''Unsupported api_key for OAuth exchange''))
      else if given (ot_client_id p) \<and> given (ot_client_secret p)
        then Inr (the (ot_client_id p), the (ot_client_secret p))
      else Inl (Exn ValueError ''client_id and client_secret are required''))"

definition oauth_rate_limit_subject :: "(string \<Rightarrow> string) \<Rightarrow> string option \<Rightarrow> OAuthTokenRequest \<Rightarrow> string" where
  "oauth_rate_limit_subject sha256 client_host p =
     (if given (ot_client_id p) then ''client:'' @ strip (the (ot_client_id p))
      else if given (ot_api_key p) then ''api_key:'' @ take 16 (sha256 (the (ot_api_key p)))
      else ''ip:'' @ (case client_host of None \<Rightarrow> ''unknown'' | Some h \<Rightarrow> h))"

definition count_request :: "string \<Rightarrow> int \<Rightarrow> int app" where
  "count_request key window_seconds =
     bindE (redis_incr key) (\<lambda>count.
     if count = 1 then bindE (redis_expire key (window_seconds + 1)) (\<lambda>_. returnM count)
     else returnM count)"

definition check_oauth_token_rate_limit :: "(string \<Rightarrow> string) \<Rightarrow> AppSettings \<Rightarrow> string option \<Rightarrow> OAuthTokenRequest \<Rightarrow>
    int option app" where
  "check_oauth_token_rate_limit sha256 settings client_host p =
     (if \<not> st_oauth_token_rate_limit_enabled settings then returnM None else
      let window_seconds = max 1 (st_oauth_token_rate_limit_window_seconds settings);
          max_requests = max 1 (st_oauth_token_rate_limit_max_requests settings) in
      bindE get_clock (\<lambda>now.
      let now_epoch = epoch now; window_bucket = now_epoch div window_seconds;
          key = ''ratelimit:oauth:'' @ oauth_rate_limit_subject sha256 client_host p @ '':'' @ str_of_int window_bucket in
      bindE (attempt (count_request key window_seconds)) (\<lambda>outcome. case outcome of
        Inl _ \<Rightarrow> returnM None
      | Inr count \<Rightarrow> if count \<le> max_requests then returnM None
          else returnM (Some (max 1 (window_seconds - now_epoch mod window_seconds))))))"

text \<open>\<open>post\<close> is the request to the identity provider: a status and a body, or an \<open>HTTPError\<close>.\<close>

definition token_of_body :: "(json \<Rightarrow> string) \<Rightarrow> jtext \<Rightarrow> exn + dict" where
  "token_of_body rp body = (case body of
      Decoded (JObj b) \<Rightarrow>
        then_ok (case dict_get b ''access_token'' of None \<Rightarrow> Inl (Exn KeyError ''access_token'') | Some v \<Rightarrow> Inr v) (\<lambda>token.
        then_ok (py_int_of (dict_get_or b ''expires_in'' (JInt 0))) (\<lambda>expires_in.
        Inr [(''access_token'', JStr (py_str rp token)),
             (''token_type'', JStr (py_str rp (dict_get_or b ''token_type'' (JStr ''bearer'')))),
             (''expires_in'', JInt expires_in),
             (''scope'', case dict_get b ''scope'' of None \<Rightarrow> JNull | Some JNull \<Rightarrow> JNull | Some v \<Rightarrow> JStr (py_str rp v))]))
    | Decoded _ \<Rightarrow> Inl (Exn TypeError [])
    | Undecodable \<Rightarrow> Inl (Exn ValueError []))"

definition exchange_client_credentials_for_token :: "(json \<Rightarrow> string) \<Rightarrow> (string \<Rightarrow> string \<Rightarrow> string \<Rightarrow> (int \<times> jtext) app) \<Rightarrow>
    string \<Rightarrow> string \<Rightarrow> string \<Rightarrow> dict app" where
  "exchange_client_credentials_for_token rp post client_id client_secret scope =
     bindE (attempt (post client_id client_secret scope)) (\<lambda>outcome. case outcome of
       Inl e \<Rightarrow> if exn_kind e = HTTPError then raiseM (HTTPException 503) ''OAuth backend unavailable'' else liftE (Inl e)
     | Inr (status_code, body) \<Rightarrow>
         if status_code = 400 \<or> status_code = 401 then raiseM (HTTPException 401) ''Invalid OAuth credentials''
         else if 500 \<le> status_code then raiseM (HTTPException 503) ''OAuth backend unavailable''
         else if status_code \<noteq> 200 then raiseM (HTTPException 503) ''OAuth backend returned unexpected response''
         else liftE (token_of_body rp body))"

definition oauth_token :: "(string \<Rightarrow> string) \<Rightarrow> (json \<Rightarrow> string) \<Rightarrow> (string \<Rightarrow> string \<Rightarrow> string \<Rightarrow> (int \<times> jtext) app) \<Rightarrow>
    AppSettings \<Rightarrow> string option \<Rightarrow> OAuthTokenRequest \<Rightarrow> reply app" where
  "oauth_token sha256 rp post settings client_host p =
     bindE (check_oauth_token_rate_limit sha256 settings client_host p) (\<lambda>retry_after. case retry_after of
       Some n \<Rightarrow> returnM (error_response 429 ''TOO_MANY_REQUESTS'' ''OAuth token rate limit exceeded'' (Some n))
     | None \<Rightarrow>
     bindE (case ot_api_key p of
         None \<Rightarrow> returnM (Inr True)
       | Some api_key \<Rightarrow> attempt (is_active_api_key_hash sha256 api_key)) (\<lambda>key_check. case key_check of
       Inl _ \<Rightarrow> returnM (error_response 503 ''SERVICE_DEGRADED'' ''Service temporarily unavailable'' None)
     | Inr valid \<Rightarrow>
     if \<not> valid then returnM (error_response 401 ''UNAUTHORIZED'' ''Invalid OAuth credentials'' None) else
     (case resolve_oauth_client_credentials settings p of
        Inl e \<Rightarrow> if exn_kind e = ValueError then returnM (error_response 400 ''BAD_REQUEST'' (exn_text e) None)
          else liftE (Inl e)
      | Inr (client_id, client_secret) \<Rightarrow>
          bindE (exchange_client_credentials_for_token rp post client_id client_secret
            (if given (ot_scope p) then the (ot_scope p) else st_oauth_default_scope settings)) (\<lambda>token.
          returnM (JSONResponse 200 (JObj token))))))"


section \<open>Who is let in\<close>

text \<open>The claims came out of the decoder, at some moment of the request.\<close>

definition decoded_claims :: "(bool \<Rightarrow> dict app) \<Rightarrow> dict \<Rightarrow> bool" where
  "decoded_claims decode claims \<longleftrightarrow> (\<exists>force v v'. decode force v = (Inr claims, v'))"

lemma load_jwt_claims_ok:
  assumes "load_jwt_claims decode w = (Inr (Some claims, s), w')"
  shows "decoded_claims decode claims"
  using assms unfolding load_jwt_claims_def decoded_claims_def
  by (elim bindE_okE) (auto elim!: bindE_okE split: sum.splits if_splits, blast)

definition granted :: "AppSettings \<Rightarrow> dict \<Rightarrow> AuthUser \<Rightarrow> bool" where
  "granted settings claims u \<longleftrightarrow> (\<exists>client_id p. extract_client_id_from_claims claims = Some client_id \<and>
     oauth_principal_for_client client_id settings = Some p \<and>
     u = p\<lparr>au_credits := 0, au_scopes := au_scopes u\<rparr> \<and>
     set (au_scopes u) = set (parse_scope_claim (dict_get claims ''scope'')) \<union> set (parse_scope_claim (dict_get claims ''scp'')) \<and>
     (\<forall>s. dict_get claims ''role'' = Some (JStr s) \<longrightarrow> s = UserRole_value (au_role u)) \<and>
     (\<forall>s. dict_get claims ''tier'' = Some (JStr s) \<longrightarrow> s = SubscriptionTier_value (au_tier u)))"

lemma authorize_granted:
  assumes "extract_client_id_from_claims claims = Some client_id" "oauth_principal_for_client client_id settings = Some p"
    and "authorize_jwt_claims claims p = Some (u, jti)"
  shows "granted settings claims u"
proof -
  let ?scopes = "parse_scope_claim (dict_get claims ''scope'') @ parse_scope_claim (dict_get claims ''scp'')"
  have u: "u = p\<lparr>au_credits := 0, au_scopes := ?scopes\<rparr>"
    and role: "claim_agrees UserRole_of (dict_get claims ''role'') (au_role p)"
    and tier: "claim_agrees SubscriptionTier_of (dict_get claims ''tier'') (au_tier p)"
    using assms(3) unfolding authorize_jwt_claims_def Let_def
    by (auto split: if_splits option.splits json.splits)
  show ?thesis
    unfolding granted_def
    by (intro exI [of _ client_id] exI [of _ p] conjI assms(1,2) allI impI)
      (use role tier claim_agrees_role claim_agrees_tier in \<open>auto simp: u\<close>)
qed

lemma resolve_user_granted:
  assumes "resolve_user_from_jwt_token decode settings w = (Inr (Some (u, claims)), w')"
  shows "decoded_claims decode claims \<and> granted settings claims u"
  using assms unfolding resolve_user_from_jwt_token_def
  by (elim bindE_okE)
    (auto elim!: bindE_okE dest!: load_jwt_claims_ok intro: authorize_granted split: option.splits prod.splits if_splits)

lemma authenticate_outcome:
  assumes "authenticate decode settings header w = (r, w')"
  shows "case r of
      Inl e \<Rightarrow> exn_kind e = HTTPException 401 \<or> exn_kind e = HTTPException 503
    | Inr (u, claims) \<Rightarrow> \<exists>token. parse_bearer_token header = Some token \<and> decoded_claims (decode token) claims \<and>
        granted settings claims u"
proof (cases r)
  case (Inl e)
  with assms show ?thesis
    by (auto simp: authenticate_def raiseM_def bindE_attempt returnM_def split: option.splits if_splits sum.splits)
next
  case (Inr x)
  obtain u claims where x: "x = (u, claims)" by (cases x)
  with assms Inr obtain token where token: "parse_bearer_token header = Some token"
    and run: "fst (resolve_user_from_jwt_token (decode token) settings w) = Inr (Some (u, claims))"
    by (auto simp: authenticate_def raiseM_def bindE_attempt returnM_def split: option.splits if_splits sum.splits)
  obtain y w1 where yw: "resolve_user_from_jwt_token (decode token) settings w = (y, w1)" by fastforce
  with run have "decoded_claims (decode token) claims \<and> granted settings claims u"
    by (intro resolve_user_granted [of "decode token" settings w u claims w1]) simp
  with token show ?thesis by (simp add: Inr x)
qed

section \<open>How long a revocation is seen\<close>

lemma iso_day_cong: "day_of s = day_of t \<Longrightarrow> iso_day s = iso_day t"
  by (simp add: iso_day_def)

lemma lookup_covers:
  assumes "day_of t \<le> day_of t'" "day_of t' \<le> day_of t + 1"
  shows "revoked_tokens_day_key u (iso_day t) = fst (revoked_tokens_lookup_keys u t') \<or>
    revoked_tokens_day_key u (iso_day t) = snd (revoked_tokens_lookup_keys u t')"
proof (cases "day_of t' = day_of t")
  case True
  then show ?thesis using iso_day_cong [of t t'] by (simp add: revoked_tokens_lookup_keys_def)
next
  case False
  with assms have "day_of t' = day_of t + 1" by simp
  moreover have "day_of (t' - seconds 86400) = day_of t' - 1" by (simp add: day_of_def seconds_def)
  ultimately show ?thesis using iso_day_cong [of t "t' - seconds 86400"]
    by (simp add: revoked_tokens_lookup_keys_def)
qed

text \<open>The token is in the bucket, and the bucket does not expire before \<open>until\<close>.\<close>

definition remembered :: "string \<Rightarrow> string \<Rightarrow> int \<Rightarrow> s2kv \<Rightarrow> bool" where
  "remembered key jti till k \<longleftrightarrow> jti \<in> set (assoc [] (rd_sets k) key) \<and> map_of (rd_expiry k) key = Some till"

lemma remember_revocation_runs:
  assumes "faults w = []" "1 \<le> ttl"
  shows "\<exists>k. remember_revocation key jti ttl w = (Inr (), w\<lparr>kv := k\<rparr>) \<and>
    remembered key jti (clock w + seconds ttl) k"
proof -
  let ?k = "sweep (clock w) key (kv w)"
  let ?s = "List.insert jti (assoc [] (rd_sets ?k) key)"
  let ?k1 = "?k\<lparr>rd_sets := AList.update key ?s (rd_sets ?k)\<rparr>"
  have "jti \<in> set ?s" by simp
  then have "?s \<noteq> []" by (metis empty_iff list.set(1))
  then have has: "has_key key ?k1" by (simp add: has_key_def)
  let ?k2 = "?k1\<lparr>rd_expiry := AList.update key (clock w + seconds ttl) (rd_expiry ?k1)\<rparr>"
  have "remember_revocation key jti ttl w = (Inr (), w\<lparr>kv := ?k2\<rparr>)"
    using assms has by (simp add: remember_revocation_def redis_sadd_def redis_expire_def nofault_simps)
  moreover have "remembered key jti (clock w + seconds ttl) ?k2"
    by (simp add: remembered_def AList.update_conv')
  ultimately show ?thesis by blast
qed

lemma remembered_sweep:
  assumes "remembered key jti till k" "now < till"
  shows "remembered key jti till (sweep now other k)"
proof (cases "other = key")
  case True
  with assms have "\<not> expired now other k" by (simp add: remembered_def expired_def)
  with assms show ?thesis by simp
next
  case False
  with assms show ?thesis
    by (auto simp: sweep_def drop_key_def remembered_def AList.delete_conv')
qed

lemma sismember_cases:
  assumes "redis_sismember key jti w = (r, w')"
  obtains (undone) e where "r = Inl e" "kv w' = kv w" "clock w' = clock w" "pg w' = pg w"
    | (ran) "kv w' = sweep (clock w) key (kv w)" "clock w' = clock w" "pg w' = pg w"
        "r = Inr (jti \<in> set (assoc [] (rd_sets (kv w')) key)) \<or> (\<exists>e. r = Inl e)"
proof -
  have pg: "pg w' = pg w" using keeps_pg [of "redis_sismember key jti" w] assms by (simp add: keeps_services)
  from assms [unfolded redis_sismember_def redis_def] show thesis
  proof (cases rule: remote_cases)
    case (undone e)
    with pg show thesis by (intro that(1)) auto
  next
    case (ran a)
    with pg show thesis by (intro that(2)) auto
  qed
qed

lemma revoked_in_cache_sees:
  assumes run: "revoked_in_cache keys jti w = (r, w')"
    and key: "remembered key jti till (kv w)" "clock w < till" "key = fst keys \<or> key = snd keys"
  shows "r \<noteq> Inr False \<and> pg w' = pg w \<and> clock w' = clock w"
  using run unfolding revoked_in_cache_def
proof (cases rule: bindE_cases)
  case (raised e)
  from raised(1) show ?thesis by (cases rule: sismember_cases) (use raised(2) in auto)
next
  case (ran a w1)
  from ran(1) have 1: "remembered key jti till (kv w1)" "clock w1 = clock w" "pg w1 = pg w"
    and a: "key = fst keys \<Longrightarrow> a"
    by (cases rule: sismember_cases; use key remembered_sweep [OF key(1,2)] in \<open>auto simp: remembered_def\<close>)+
  from ran(2) show ?thesis
  proof (cases rule: bindE_cases)
    case (raised e)
    from raised(1) show ?thesis by (cases rule: sismember_cases) (use raised(2) 1 in auto)
  next
    case (ran b w2)
    from ran(1) have "key = snd keys \<Longrightarrow> b" "clock w2 = clock w1" "pg w2 = pg w1"
      by (cases rule: sismember_cases; use key 1 remembered_sweep [OF 1(1)] in \<open>auto simp: remembered_def\<close>)+
    with ran(2) a key(3) 1 show ?thesis by (auto simp: returnM_def)
  qed
qed


lemma insert_revoked_runs:
  assumes "insert_revoked_jti jti u expires w = (Inr x, w')"
  shows "\<exists>row\<in>set (token_revocations (pg w')). rt_jti row = jti \<and> rt_expires_at row = expires" "kv w' = kv w"
  using assms unfolding insert_revoked_jti_def by (auto elim!: sql_okE split: if_splits)

lemma revoke_jti_remembers:
  assumes fine: "faults w = []" and run: "revoke_jti u jti expires ttl w = (Inr (), w')"
  shows "remembered (revoked_tokens_day_key u (iso_day (clock w))) jti (clock w + seconds (max 1 ttl)) (kv w') \<and>
    (\<exists>row\<in>set (token_revocations (pg w')). rt_jti row = jti \<and> rt_expires_at row = expires)"
proof -
  let ?key = "revoked_tokens_day_key u (iso_day (clock w))"
  have "1 \<le> max 1 ttl" by simp
  from remember_revocation_runs [OF fine this] obtain k where
    k: "remember_revocation ?key jti (max 1 ttl) w = (Inr (), w\<lparr>kv := k\<rparr>)"
    "remembered ?key jti (clock w + seconds (max 1 ttl)) k" by blast
  have "insert_revoked_jti jti u expires (w\<lparr>kv := k\<rparr>) = (Inr (), w')"
    using run by (simp add: revoke_jti_def bindE_pure bindE_attempt k(1) Let_def)
  with insert_revoked_runs k(2) show ?thesis by fastforce
qed

lemma is_token_revoked_sees:
  assumes key: "remembered (revoked_tokens_day_key u (iso_day t)) jti till (kv v)" "clock v < till"
    and days: "day_of t \<le> day_of (clock v)" "day_of (clock v) \<le> day_of t + 1"
    and row: "\<exists>row\<in>set (token_revocations (pg v)). rt_jti row = jti \<and> clock v < rt_expires_at row"
  shows "fst (is_token_revoked settings u jti v) \<noteq> Inr False"
proof
  assume neg: "fst (is_token_revoked settings u jti v) = Inr False"
  let ?keys = "revoked_tokens_lookup_keys u (clock v)"
  obtain r v1 where cached: "revoked_in_cache ?keys jti v = (r, v1)" by fastforce
  from revoked_in_cache_sees [OF this key] lookup_covers [OF days]
  have r: "r \<noteq> Inr False" "pg v1 = pg v" "clock v1 = clock v" by blast+
  show False
  proof (cases r)
    case (Inr b)
    with r neg cached show False
      by (simp add: is_token_revoked_def bindE_pure bindE_attempt returnM_def)
  next
    case (Inl e)
    let ?k = "\<lambda>revoked. if \<not> revoked then returnM False else
         bindE get_clock (\<lambda>later.
         bindE (attempt (remember_revocation (revoked_tokens_day_key u (iso_day later)) jti
           (st_revocation_bucket_ttl_seconds settings))) (\<lambda>_. returnM True))"
    from Inl cached have "is_token_revoked settings u jti v = bindE (is_jti_revoked jti) ?k v1"
      by (simp add: is_token_revoked_def bindE_pure bindE_attempt)
    with neg obtain v2 where "bindE (is_jti_revoked jti) ?k v1 = (Inr False, v2)" by (metis prod.collapse)
    then obtain b v3 where "is_jti_revoked jti v1 = (Inr b, v3)" and k: "?k b v3 = (Inr False, v2)"
      by (elim bindE_okE)
    then have "b = list_ex (\<lambda>t. rt_jti t = jti \<and> clock v1 < rt_expires_at t) (token_revocations (pg v1))"
      unfolding is_jti_revoked_def by (elim sql_read_okE)
    then have b using row r by (auto simp: list_ex_iff)
    with k show False by (auto elim!: bindE_okE)
  qed
qed

section \<open>How many token requests a window lets through\<close>

definition rate_key :: "(string \<Rightarrow> string) \<Rightarrow> AppSettings \<Rightarrow> string option \<Rightarrow> OAuthTokenRequest \<Rightarrow> int \<Rightarrow> string" where
  "rate_key sha256 settings host p now = ''ratelimit:oauth:'' @ oauth_rate_limit_subject sha256 host p @ '':'' @
     str_of_int (epoch now div max 1 (st_oauth_token_rate_limit_window_seconds settings))"

text \<open>The requests of one subject, at the given times: how many get through.\<close>

fun requests_allowed :: "(string \<Rightarrow> string) \<Rightarrow> AppSettings \<Rightarrow> string option \<Rightarrow> OAuthTokenRequest \<Rightarrow>
    int list \<Rightarrow> (s2db, s2kv) world \<Rightarrow> int" where
  "requests_allowed sha256 settings host p [] w = 0"
| "requests_allowed sha256 settings host p (t # ts) w =
     (case check_oauth_token_rate_limit sha256 settings host p (w\<lparr>clock := t, faults := []\<rparr>) of (r, w') \<Rightarrow>
        (if r = Inr None then 1 else 0) + requests_allowed sha256 settings host p ts w')"

definition same_window :: "int \<Rightarrow> int \<Rightarrow> int \<Rightarrow> bool" where
  "same_window window b t \<longleftrightarrow> epoch t div window = b"

text \<open>\<open>c\<close> requests of the window were counted, and the counter outlives the window.\<close>

definition counted :: "int \<Rightarrow> int \<Rightarrow> string \<Rightarrow> int \<Rightarrow> s2kv \<Rightarrow> bool" where
  "counted window b key c k \<longleftrightarrow> assoc 0 (rd_ints k) key = c \<and>
     (if c = 0 then map_of (rd_ints k) key = None \<and> map_of (rd_expiry k) key = None
      else \<exists>t. map_of (rd_expiry k) key = Some t \<and> (\<forall>s. same_window window b s \<longrightarrow> s < t))"

lemma window_expiry:
  assumes "1 \<le> window" "same_window window b t" "same_window window b s"
  shows "s < t + seconds (window + 1)"
proof -
  have e: "window * b \<le> epoch t" "epoch t < window * (b + 1)" if "same_window window b t" for t
  proof -
    have "0 \<le> epoch t mod window" "epoch t mod window < window" using assms(1) by simp_all
    moreover have "epoch t = window * b + epoch t mod window"
      using that mult_div_mod_eq [of window "epoch t"] by (simp add: same_window_def)
    ultimately show "window * b \<le> epoch t" "epoch t < window * (b + 1)" by (simp_all add: distrib_left)
  qed
  have "epoch s < epoch t + window" using e(1) [OF assms(2)] e(2) [OF assms(3)] by (simp add: distrib_left)
  moreover have "1000000 * epoch t \<le> t" "s < 1000000 * (epoch s + 1)"
    unfolding epoch_def by presburger+
  moreover from \<open>epoch s < epoch t + window\<close> have "1000000 * (epoch s + 1) \<le> 1000000 * (epoch t + window)" by simp
  ultimately have "s < t + 1000000 * window" by (simp add: distrib_left)
  then show ?thesis by (simp add: seconds_def distrib_left)
qed


lemma count_request_counts:
  assumes fine: "faults w = []" and window: "1 \<le> window" "same_window window b (clock w)"
    and c: "counted window b key c (kv w)" "0 \<le> c"
  shows "\<exists>k. count_request key window w = (Inr (c + 1), w\<lparr>kv := k\<rparr>) \<and> counted window b key (c + 1) k"
proof -
  have fresh: "\<not> expired (clock w) key (kv w)"
    using c(1) window(2) by (auto simp: counted_def expired_def split: if_splits)
  have n: "assoc 0 (rd_ints (kv w)) key = c" using c(1) by (simp add: counted_def)
  let ?k = "(kv w)\<lparr>rd_ints := AList.update key (c + 1) (rd_ints (kv w))\<rparr>"
  have incr: "redis_incr key w = (Inr (c + 1), w\<lparr>kv := ?k\<rparr>)"
    using fine fresh n by (simp add: redis_incr_def redis_nofault Let_def)
  show ?thesis
  proof (cases "c = 0")
    case True
    let ?k2 = "?k\<lparr>rd_expiry := AList.update key (clock w + seconds (window + 1)) (rd_expiry ?k)\<rparr>"
    have "has_key key ?k" by (simp add: has_key_def AList.update_conv')
    then have "redis_expire key (window + 1) (w\<lparr>kv := ?k\<rparr>) = (Inr (), w\<lparr>kv := ?k2\<rparr>)"
      using fine fresh window(1) by (simp add: redis_expire_def redis_nofault)
    then have "count_request key window w = (Inr (c + 1), w\<lparr>kv := ?k2\<rparr>)"
      using True incr by (simp add: count_request_def bindE_def returnM_def)
    moreover have "counted window b key (c + 1) ?k2"
      using True window_expiry [OF window] by (simp add: counted_def AList.update_conv')
    ultimately show ?thesis by blast
  next
    case False
    then have "count_request key window w = (Inr (c + 1), w\<lparr>kv := ?k\<rparr>)"
      using incr by (simp add: count_request_def bindE_def returnM_def)
    moreover have "counted window b key (c + 1) ?k"
      using c False by (auto simp: counted_def)
    ultimately show ?thesis by blast
  qed
qed

lemma requests_bounded:
  assumes enabled: "st_oauth_token_rate_limit_enabled settings"
    and window: "window = max 1 (st_oauth_token_rate_limit_window_seconds settings)"
    and limit: "limit = max 1 (st_oauth_token_rate_limit_max_requests settings)"
    and key: "key = ''ratelimit:oauth:'' @ oauth_rate_limit_subject sha256 host p @ '':'' @ str_of_int b"
  shows "list_all (same_window window b) ts \<Longrightarrow> counted window b key c (kv w) \<Longrightarrow> 0 \<le> c \<Longrightarrow>
    requests_allowed sha256 settings host p ts w = min (int (length ts)) (max 0 (limit - c))"
proof (induction ts arbitrary: c w)
  case (Cons t ts)
  let ?w = "w\<lparr>clock := t, faults := []\<rparr>"
  from Cons.prems have t: "same_window window b t" by simp
  have "1 \<le> window" by (simp add: window)
  from count_request_counts [of ?w window b key c] this t Cons.prems(2,3) obtain k where
    run: "count_request key window ?w = (Inr (c + 1), ?w\<lparr>kv := k\<rparr>)" and k: "counted window b key (c + 1) k" by auto
  have "check_oauth_token_rate_limit sha256 settings host p ?w =
    (Inr (if c + 1 \<le> limit then None else Some (max 1 (window - epoch t mod window))), ?w\<lparr>kv := k\<rparr>)"
    using enabled t run
    by (simp add: check_oauth_token_rate_limit_def Let_def bindE_pure bindE_attempt window [symmetric]
        limit [symmetric] same_window_def key returnM_def)
  moreover have "requests_allowed sha256 settings host p ts (?w\<lparr>kv := k\<rparr>) =
      min (int (length ts)) (max 0 (limit - (c + 1)))"
    using Cons.prems k by (intro Cons.IH) simp_all
  ultimately show ?case using Cons.prems(3) by (auto simp: min_def max_def)
qed simp


section \<open>Properties\<close>

text \<open>C14 Whatever fails, authentication ends in a user or in a 401 or 503.  A user is let in only with claims
  that the decoder accepted for the presented bearer token, as the principal configured for their client id,
  with the principal's role and tier, and with no scope that the claims do not carry.\<close>

theorem authentication_contract:
  "case authenticate decode settings header w of (r, w') \<Rightarrow> (case r of
      Inl e \<Rightarrow> exn_kind e = HTTPException 401 \<or> exn_kind e = HTTPException 503
    | Inr (u, claims) \<Rightarrow> \<exists>token. parse_bearer_token header = Some token \<and> decoded_claims (decode token) claims \<and>
        granted settings claims u)"
  using authenticate_outcome by (auto split: prod.split)

text \<open>A revocation that went through is seen: until the token expires or its bucket does, on the same day
  and the next, no check answers that the token is good, whether Redis answers it or fails over to Postgres.\<close>

theorem revocation_is_seen:
  assumes "faults w = []" "revoke_jti u jti expires ttl w = (Inr (), w')"
    and "pg v = pg w'" "kv v = kv w'" "clock w \<le> clock v" "clock v < expires"
    and "clock v < clock w + seconds (max 1 ttl)" "day_of (clock v) \<le> day_of (clock w) + 1"
  shows "fst (is_token_revoked settings u jti v) \<noteq> Inr False"
proof (rule is_token_revoked_sees)
  note seen = revoke_jti_remembers [OF assms(1,2)]
  from seen assms(4) show "remembered (revoked_tokens_day_key u (iso_day (clock w))) jti
      (clock w + seconds (max 1 ttl)) (kv v)" by simp
  from seen assms(3,6) show "\<exists>row\<in>set (token_revocations (pg v)). rt_jti row = jti \<and> clock v < rt_expires_at row"
    by auto
  show "day_of (clock w) \<le> day_of (clock v)" using assms(5) by (simp add: day_of_def zdiv_mono1)
qed (use assms in simp_all)

definition revoked_demo :: "(s2db, s2kv) world" where
  "revoked_demo = snd (revoke_jti 1 ''token'' 1700000600000000 129600 (demo_app demo_db []))"

lemma revoked_demo_run:
  "revoke_jti 1 ''token'' 1700000600000000 129600 (demo_app demo_db []) = (Inr (), revoked_demo)"
  "clock revoked_demo = 1700000000000000"
  unfolding revoked_demo_def
  by (simp_all add: revoke_jti_def bindE_pure bindE_attempt Let_def remember_revocation_def redis_sadd_def
      redis_expire_def nofault_simps insert_revoked_jti_def find_user_def demo_db_def has_key_def
      demo_kv_def assoc_def expired_def sweep_def)

theorem revocation_is_seen_witness:
  "fst (is_token_revoked demo_settings 1 ''token''
      (revoked_demo\<lparr>clock := 1700000300000000, faults := [FailBefore (Exn RedisError [])]\<rparr>)) \<noteq> Inr False"
  by (rule revocation_is_seen [OF _ revoked_demo_run(1)]) (simp_all add: seconds_def day_of_def)

text \<open>The cache is not only a cache: when Redis is unreachable at the moment of a revocation, the token is
  recorded in Postgres and reported as revoked, but checks that find Redis working again accept it.\<close>

theorem revocation_missed_after_cache_failure:
  assumes "faults w = [FailBefore (Exn RedisError msg)]" "find_user (pg w) u \<noteq> None"
    and "token_revocations (pg w) = []" "rd_sets (kv w) = []"
  shows "case revoke_jti u jti expires ttl w of (r, w') \<Rightarrow> r = Inr () \<and>
    list_ex (\<lambda>row. rt_jti row = jti \<and> rt_expires_at row = expires) (token_revocations (pg w')) \<and>
    fst (is_token_revoked settings u jti w') = Inr False"
proof -
  define row where "row = \<lparr>rt_jti = jti, rt_user_id = u, rt_revoked_at = clock w, rt_expires_at = expires\<rparr>"
  define w1 where "w1 = w\<lparr>faults := [], pg := (pg w)\<lparr>token_revocations := [row]\<rparr>\<rparr>"
  have "remember_revocation key jti n w = (Inl (Exn RedisError msg), w\<lparr>faults := []\<rparr>)" for key n
    using assms(1) by (simp add: remember_revocation_def redis_sadd_def redis_def remote_def ext_def bindE_def)
  moreover have "insert_revoked_jti jti u expires (w\<lparr>faults := []\<rparr>) = (Inr (), w1)"
    using assms(2,3) by (simp add: insert_revoked_jti_def sql_nofault w1_def row_def)
  ultimately have "revoke_jti u jti expires ttl w = (Inr (), w1)"
    by (simp add: revoke_jti_def bindE_pure bindE_attempt Let_def is_redis_error_def)
  moreover have none: "assoc [] [] key = []" for key :: string
    by (simp add: assoc_def)
  have empty: "rd_sets (sweep now key k) = []" if "rd_sets k = []" for now key k
    using that by (simp add: sweep_def drop_key_def)
  have "fst (is_token_revoked settings u jti w1) = Inr False"
    using assms(4)
    by (simp add: is_token_revoked_def bindE_pure bindE_attempt revoked_in_cache_def redis_sismember_def
        nofault_simps w1_def none empty returnM_def)
  ultimately show ?thesis by (simp add: w1_def row_def)
qed

theorem revocation_missed_after_cache_failure_witness:
  "case revoke_jti 1 ''token'' 1700000600000000 129600 (demo_app demo_db [FailBefore (Exn RedisError [])]) of
    (r, w') \<Rightarrow> r = Inr () \<and> fst (is_token_revoked demo_settings 1 ''token'' w') = Inr False"
  using revocation_missed_after_cache_failure [where w = "demo_app demo_db [FailBefore (Exn RedisError [])]"
      and msg = "[]" and u = 1 and jti = "''token''" and expires = 1700000600000000 and ttl = 129600
      and settings = demo_settings]
  by (simp add: demo_kv_def find_user_def demo_db_def split: prod.splits)

text \<open>Within one window, the rate limiter lets exactly the configured number of token requests of a subject
  through, or all of them when there are fewer, whenever in the window they arrive.\<close>

theorem oauth_rate_limit_bound:
  assumes "st_oauth_token_rate_limit_enabled settings"
    and "list_all (same_window (max 1 (st_oauth_token_rate_limit_window_seconds settings)) b) ts"
    and "kv w = demo_kv"
  shows "requests_allowed sha256 settings host p ts w =
    min (int (length ts)) (max 1 (st_oauth_token_rate_limit_max_requests settings))"
  using requests_bounded [OF assms(1) refl refl refl assms(2), where c = 0 and w = w] assms(3)
  by (simp add: counted_def demo_kv_def assoc_def)

theorem oauth_rate_limit_bound_witness:
  "requests_allowed (\<lambda>s. s) demo_settings None
     \<lparr>ot_client_id = Some ''c'', ot_client_secret = Some ''s'', ot_api_key = None, ot_scope = None\<rparr>
     (replicate 200 1700000000000000) (demo_app demo_db []) = 120"
proof -
  have "list_all (same_window (max 1 (st_oauth_token_rate_limit_window_seconds demo_settings)) 28333333)
      (replicate 200 1700000000000000)"
    by (simp add: list_all_iff same_window_def epoch_def demo_settings_def settings_of_def)
  from oauth_rate_limit_bound [OF _ this, of "demo_app demo_db []"] show ?thesis
    by (simp add: demo_settings_def settings_of_def)
qed

text \<open>A token that turns out to be expired after the key set was refreshed is answered as an unavailable
  backend instead of as expired: the handlers of the first attempt do not cover the second one.\<close>

lemma expiry_after_key_refresh_is_unavailable:
  assumes "decode token False w = (Inl (Exn PyJWKError m1), w1)"
    and "decode token True w1 = (Inl (Exn ExpiredSignatureError m2), w2)"
    and "parse_bearer_token header = Some token" "length (filter (\<lambda>c. c = CHR ''.'') token) = 2"
  shows "authenticate decode settings header w = (Inl (Exn (HTTPException 503) ''Authentication backend unavailable''), w2)"
  using assms
  by (simp add: authenticate_def bindE_attempt resolve_user_from_jwt_token_def load_jwt_claims_def
      bindE_assoc bindE_pure liftE_def raiseM_def)

lemma expiry_after_key_refresh_is_unavailable_witness:
  "fst (authenticate (\<lambda>token force. raiseM (if force then ExpiredSignatureError else PyJWKError) []) demo_settings
     (Some ''Bearer a.b.c'') (demo_app demo_db [])) = Inl (Exn (HTTPException 503) ''Authentication backend unavailable'')"
proof -
  have "parse_bearer_token (Some ''Bearer a.b.c'') = Some ''a.b.c''" by code_simp
  then show ?thesis
    using expiry_after_key_refresh_is_unavailable [of "\<lambda>token force. raiseM (if force then ExpiredSignatureError else PyJWKError) []"
        "''a.b.c''" "demo_app demo_db []" "[]" "demo_app demo_db []" "[]" "demo_app demo_db []"
        "Some ''Bearer a.b.c''" demo_settings]
    by (simp add: raiseM_def)
qed

end
