(* ===== verification/S2_Webhooks.thy ===== *)
theory S2_Webhooks
  imports S2_Settings S2_Demo "HOL-Library.Char_ord" "HOL-Library.List_Lexorder"
begin

text \<open>
  Solution 2, \<open>services/webhooks.py\<close> and \<open>workers/webhook_dispatcher.py\<close>: which callback URLs are
  accepted, the event that is queued when a task ends, and the dispatcher that delivers queued
  events with retries and a dead-letter list.  URLs and addresses are those of \<open>Urls\<close>;
  \<open>ip6\<close> stands for the classification of IPv6 addresses,
  \<open>post\<close> for the HTTP client.  The lemmas bound the retry delays, show the queue's text form to be
  lossless, and follow an event until it is delivered, dropped for a reason, or dead.
\<close>

section \<open>Callback URLs\<close>

definition MAX_CALLBACK_URL_LENGTH :: nat where
  "MAX_CALLBACK_URL_LENGTH = 2048"

definition ALLOWED_CALLBACK_SCHEMES :: "string list" where
  "ALLOWED_CALLBACK_SCHEMES = [''http'', ''https'']"

definition BLOCKED_HOSTNAMES :: "string list" where
  "BLOCKED_HOSTNAMES = [''localhost'']"

definition BLOCKED_HOST_SUFFIXES :: "string list" where
  "BLOCKED_HOST_SUFFIXES = [''.localhost'', ''.local'', ''.internal'', ''.home.arpa'']"

definition is_safe_callback_hostname :: "(string \<Rightarrow> bool option) \<Rightarrow> string \<Rightarrow> bool" where
  "is_safe_callback_hostname ip6 hostname =
     (let normalized = lower (rstrip_by (\<lambda>c. c = CHR ''.'') (strip hostname)) in
      if normalized = [] then False
      else if List.member BLOCKED_HOSTNAMES normalized then False
      else if list_ex (ends_with normalized) BLOCKED_HOST_SUFFIXES then False
      else case ipv4_of normalized of
          Some address \<Rightarrow> ipv4_is_global address
        | None \<Rightarrow> (case ip6 normalized of None \<Rightarrow> True | Some is_global \<Rightarrow> is_global))"

definition is_valid_callback_url :: "(string \<Rightarrow> bool option) \<Rightarrow> string \<Rightarrow> exn + bool" where
  "is_valid_callback_url ip6 callback_url =
     (let v = strip callback_url in
      if v = [] \<or> MAX_CALLBACK_URL_LENGTH < length v then Inr False
      else then_ok (urlparse ip6 v) (\<lambda>(scheme, hostname).
        if \<not> List.member ALLOWED_CALLBACK_SCHEMES (lower scheme) then Inr False
        else case hostname of None \<Rightarrow> Inr False | Some h \<Rightarrow> Inr (is_safe_callback_hostname ip6 h)))"

section \<open>Events\<close>

record WebhookTerminalEvent =
  we_event_id :: string
  we_user_id :: string
  we_task_id :: string
  we_status :: string
  we_result :: "dict option"
  we_error :: "string option"
  we_occurred_at_epoch :: int
  we_attempt :: int
  we_last_error :: "string option"

definition build_terminal_webhook_event :: "uuid \<Rightarrow> uuid \<Rightarrow> string \<Rightarrow> dict option \<Rightarrow> string option \<Rightarrow>
    WebhookTerminalEvent app" where
  "build_terminal_webhook_event user_id task_id status result error =
     bindE fresh_uuid (\<lambda>event_id. bindE get_clock (\<lambda>now.
     returnM \<lparr>we_event_id = uuid_str event_id, we_user_id = uuid_str user_id, we_task_id = uuid_str task_id,
       we_status = status, we_result = result, we_error = error, we_occurred_at_epoch = epoch now,
       we_attempt = 0, we_last_error = None\<rparr>))"

definition opt_obj :: "dict option \<Rightarrow> json" where
  "opt_obj d = (case d of None \<Rightarrow> JNull | Some d \<Rightarrow> JObj d)"

text \<open>\<open>asdict(event)\<close>, in the order of the fields.\<close>

definition asdict_event :: "WebhookTerminalEvent \<Rightarrow> dict" where
  "asdict_event e = [(''event_id'', JStr (we_event_id e)), (''user_id'', JStr (we_user_id e)),
     (''task_id'', JStr (we_task_id e)), (''status'', JStr (we_status e)), (''result'', opt_obj (we_result e)),
     (''error'', opt_str (we_error e)), (''occurred_at_epoch'', JInt (we_occurred_at_epoch e)),
     (''attempt'', JInt (we_attempt e)), (''last_error'', opt_str (we_last_error e))]"

text \<open>\<open>json.dumps(..., sort_keys=True)\<close> sorts the keys of every object.\<close>

fun sort_keys :: "json \<Rightarrow> json" where
  "sort_keys (JArr vs) = JArr (map sort_keys vs)"
| "sort_keys (JObj d) = JObj (sort_key fst (map (\<lambda>(k, v). (k, sort_keys v)) d))"
| "sort_keys v = v"

definition serialize_webhook_event :: "WebhookTerminalEvent \<Rightarrow> jtext" where
  "serialize_webhook_event event = Decoded (sort_keys (JObj (asdict_event event)))"

definition optional_text :: "(json \<Rightarrow> string) \<Rightarrow> dict \<Rightarrow> string \<Rightarrow> string option" where
  "optional_text rp raw k = (case dict_get raw k of None \<Rightarrow> None | Some JNull \<Rightarrow> None | Some v \<Rightarrow> Some (py_str rp v))"

definition parse_webhook_event :: "(json \<Rightarrow> string) \<Rightarrow> jtext \<Rightarrow> WebhookTerminalEvent option" where
  "parse_webhook_event rp payload = (case payload of
      Decoded (JObj raw) \<Rightarrow>
        (case (dict_get raw ''event_id'', dict_get raw ''user_id'', dict_get raw ''task_id'', dict_get raw ''status'',
               dict_get raw ''occurred_at_epoch'', dict_get raw ''attempt'') of
           (Some event_id, Some user_id, Some task_id, Some status, Some occurred, Some tries) \<Rightarrow>
             (case (py_int_of occurred, py_int_of tries) of
                (Inr occurred, Inr tries) \<Rightarrow> Some \<lparr>we_event_id = py_str rp event_id, we_user_id = py_str rp user_id,
                  we_task_id = py_str rp task_id, we_status = py_str rp status,
                  we_result = (case dict_get raw ''result'' of Some (JObj d) \<Rightarrow> Some d | _ \<Rightarrow> None),
                  we_error = optional_text rp raw ''error'', we_occurred_at_epoch = occurred,
                  we_attempt = tries, we_last_error = optional_text rp raw ''last_error''\<rparr>
              | _ \<Rightarrow> None)
         | _ \<Rightarrow> None)
    | _ \<Rightarrow> None)"

definition enqueue_terminal_webhook_event :: "string \<Rightarrow> WebhookTerminalEvent \<Rightarrow> int option \<Rightarrow> unit app" where
  "enqueue_terminal_webhook_event queue_key event max_queue_length =
     bindE (redis_rpush queue_key (serialize_webhook_event event)) (\<lambda>_. case max_queue_length of
       Some n \<Rightarrow> if 0 < n then redis_ltrim_last queue_key (nat n) else returnM ()
     | None \<Rightarrow> returnM ())"

section \<open>Retry delays\<close>

text \<open>\<open>m ** n\<close> of a float raises \<open>OverflowError\<close> beyond the largest double.\<close>

definition float_limit :: real where
  "float_limit = 2 ^ 1024"

definition py_pow :: "real \<Rightarrow> nat \<Rightarrow> exn + real" where
  "py_pow m n = (if \<bar>m ^ n\<bar> < float_limit then Inr (m ^ n) else Inl (Exn OtherException ''Result too large''))"

definition next_retry_delay_seconds :: "int \<Rightarrow> real \<Rightarrow> real \<Rightarrow> real \<Rightarrow> exn + real" where
  "next_retry_delay_seconds attempts initial_seconds multiplier max_seconds =
     (let normalized_attempt = max 1 attempts in
      then_ok (py_pow multiplier (nat (normalized_attempt - 1))) (\<lambda>factor.
      Inr (min max_seconds (max 0 (initial_seconds * factor)))))"

section \<open>The dispatcher\<close>

definition refresh_depth_metrics :: "AppSettings \<Rightarrow> (nat \<times> nat \<times> nat) app" where
  "refresh_depth_metrics settings =
     bindE (redis_llen (st_webhook_queue_key settings)) (\<lambda>queue_size.
     bindE (redis_llen (st_webhook_dlq_key settings)) (\<lambda>dlq_size.
     bindE (redis_zcard (st_webhook_scheduled_key settings)) (\<lambda>scheduled_size.
     returnM (queue_size, dlq_size, scheduled_size))))"

definition pop_pending_event :: "AppSettings \<Rightarrow> jtext option app" where
  "pop_pending_event settings =
     bindE (attempt (redis_blpop (st_webhook_queue_key settings))) (\<lambda>item. case item of
       Inl e \<Rightarrow> if exn_kind e = RedisTimeoutError then returnM None else liftE (Inl e)
     | Inr payload \<Rightarrow> returnM payload)"

fun promote_events :: "AppSettings \<Rightarrow> jtext list \<Rightarrow> nat \<Rightarrow> nat app" where
  "promote_events settings [] promoted = returnM promoted"
| "promote_events settings (raw_event # raw_events) promoted =
     bindE (redis_zrem (st_webhook_scheduled_key settings) raw_event) (\<lambda>removed.
     if \<not> removed then promote_events settings raw_events promoted
     else bindE (redis_lpush (st_webhook_queue_key settings) raw_event) (\<lambda>_.
       promote_events settings raw_events (promoted + 1)))"

definition promote_scheduled_events :: "AppSettings \<Rightarrow> nat app" where
  "promote_scheduled_events settings = bindE get_clock (\<lambda>now.
     bindE (redis_zrangebyscore (st_webhook_scheduled_key settings) (now div 1000)
       (nat (st_webhook_dispatch_batch_size settings))) (\<lambda>raw_events.
     promote_events settings raw_events 0))"

definition event_payload :: "WebhookTerminalEvent \<Rightarrow> dict" where
  "event_payload event = [(''event_type'', JStr ''task.terminal''), (''event_id'', JStr (we_event_id event)),
     (''task_id'', JStr (we_task_id event)), (''user_id'', JStr (we_user_id event)),
     (''status'', JStr (we_status event)), (''result'', opt_obj (we_result event)),
     (''error'', opt_str (we_error event)), (''occurred_at_epoch'', JInt (we_occurred_at_epoch event))]"

text \<open>\<open>post url headers body now\<close>: the status code of the answer, or the exception of the client.\<close>

type_synonym poster = "string \<Rightarrow> (string \<times> string) list \<Rightarrow> dict \<Rightarrow> int \<Rightarrow> exn + int"

definition send_webhook :: "poster \<Rightarrow> string \<Rightarrow> WebhookTerminalEvent \<Rightarrow> unit app" where
  "send_webhook post callback_url event =
     bindE (remote (\<lambda>now k. then_ok (post callback_url
         [(''Content-Type'', ''application/json''), (''X-Webhook-Event-Id'', we_event_id event)]
         (event_payload event) now) (\<lambda>status_code. Inr (status_code, k)))) (\<lambda>status_code.
     if 200 \<le> status_code \<and> status_code < 300 then returnM ()
     else raiseM RuntimeError (''webhook delivery failed: status='' @ str_of_int status_code))"

text \<open>The copy of the event with the failed attempt counted, which both outcomes of a failure queue.\<close>

definition failed_once :: "WebhookTerminalEvent \<Rightarrow> string \<Rightarrow> WebhookTerminalEvent" where
  "failed_once event error_message =
     event\<lparr>we_attempt := we_attempt event + 1, we_last_error := Some error_message\<rparr>"

definition schedule_retry :: "AppSettings \<Rightarrow> WebhookTerminalEvent \<Rightarrow> string \<Rightarrow> unit app" where
  "schedule_retry settings event error_message =
     bindE (liftE (next_retry_delay_seconds (we_attempt event + 1) (st_webhook_initial_backoff_seconds settings)
       (st_webhook_backoff_multiplier settings) (st_webhook_max_backoff_seconds settings))) (\<lambda>retry_delay_seconds.
     bindE get_clock (\<lambda>now.
     redis_zadd (st_webhook_scheduled_key settings) (serialize_webhook_event (failed_once event error_message))
       (py_trunc ((real_of_int now / 1000000 + retry_delay_seconds) * 1000))))"

definition send_to_dead_letter :: "AppSettings \<Rightarrow> WebhookTerminalEvent \<Rightarrow> string \<Rightarrow> unit app" where
  "send_to_dead_letter settings event error_message = (let dead = failed_once event error_message in
     bindE (redis_rpush (st_webhook_dlq_key settings) (serialize_webhook_event dead)) (\<lambda>_.
     bindE (attempt (bindE (liftE (uuid_of_str (we_user_id dead))) (\<lambda>user_id.
       bindE (liftE (uuid_of_str (we_task_id dead))) (\<lambda>task_id.
       insert_webhook_dead_letter user_id task_id (asdict_event dead) error_message)))) (\<lambda>_.
     returnM ())))"

text \<open>The answer is the label under which the run is counted.\<close>

definition process_raw_event :: "(json \<Rightarrow> string) \<Rightarrow> (string \<Rightarrow> bool option) \<Rightarrow> poster \<Rightarrow> AppSettings \<Rightarrow> jtext \<Rightarrow>
    string app" where
  "process_raw_event rp ip6 post settings raw_event = (case parse_webhook_event rp raw_event of
      None \<Rightarrow> returnM ''invalid_event''
    | Some event \<Rightarrow>
        bindE (attempt (bindE (liftE (uuid_of_str (we_user_id event))) get_webhook_subscription)) (\<lambda>looked_up.
        case looked_up of
          Inl e \<Rightarrow> bindE (schedule_retry settings event (''subscription_lookup:'' @ exn_text e)) (\<lambda>_.
            returnM ''retry_subscription_lookup'')
        | Inr None \<Rightarrow> returnM ''skipped_no_subscription''
        | Inr (Some subscription) \<Rightarrow>
            if \<not> ws_enabled subscription then returnM ''skipped_no_subscription''
            else bindE (liftE (is_valid_callback_url ip6 (ws_callback_url subscription))) (\<lambda>valid.
              if \<not> valid then returnM ''skipped_invalid_subscription''
              else bindE (attempt (send_webhook post (ws_callback_url subscription) event)) (\<lambda>sent. case sent of
                Inr _ \<Rightarrow> returnM ''ok''
              | Inl e \<Rightarrow>
                  if st_webhook_max_attempts settings \<le> we_attempt event + 1
                  then bindE (send_to_dead_letter settings event (exn_text e)) (\<lambda>_. returnM ''dead_letter'')
                  else bindE (schedule_retry settings event (exn_text e)) (\<lambda>_. returnM ''retry_scheduled'')))))"

definition dispatcher_turn :: "(json \<Rightarrow> string) \<Rightarrow> (string \<Rightarrow> bool option) \<Rightarrow> poster \<Rightarrow> AppSettings \<Rightarrow> unit app" where
  "dispatcher_turn rp ip6 post settings =
     bindE (attempt (
       bindE (promote_scheduled_events settings) (\<lambda>_.
       bindE (pop_pending_event settings) (\<lambda>raw_event.
       bindE (case raw_event of None \<Rightarrow> returnM []
         | Some raw_event \<Rightarrow> process_raw_event rp ip6 post settings raw_event) (\<lambda>_.
       refresh_depth_metrics settings))))) (\<lambda>outcome. case outcome of
       Inl _ \<Rightarrow> sleep_seconds (st_webhook_dispatch_error_backoff_seconds settings)
     | Inr _ \<Rightarrow> returnM ())"

section \<open>Which URLs are called\<close>

lemma valid_callback_url:
  assumes "is_valid_callback_url ip6 url = Inr True"
  obtains scheme host where "urlparse ip6 (strip url) = Inr (scheme, Some host)"
    "lower scheme \<in> {''http'', ''https''}" "is_safe_callback_hostname ip6 host"
proof (cases "urlparse ip6 (strip url)")
  case (Inl e)
  with assms show thesis by (simp add: is_valid_callback_url_def Let_def split: if_splits)
next
  case (Inr p)
  obtain scheme h where p: "p = (scheme, h)" by fastforce
  with Inr assms obtain host where "h = Some host" "is_safe_callback_hostname ip6 host"
    "List.member ALLOWED_CALLBACK_SCHEMES (lower scheme)"
    unfolding is_valid_callback_url_def Let_def by (cases h) (simp_all split: if_split_asm)
  with Inr p that show thesis by (simp add: ALLOWED_CALLBACK_SCHEMES_def)
qed

definition normal_host :: "string \<Rightarrow> string" where
  "normal_host h = lower (rstrip_by (\<lambda>c. c = CHR ''.'') (strip h))"

lemma safe_hostname:
  assumes "is_safe_callback_hostname ip6 h"
  shows "normal_host h \<noteq> [] \<and> normal_host h \<noteq> ''localhost'' \<and>
    (\<forall>s\<in>set BLOCKED_HOST_SUFFIXES. \<not> ends_with (normal_host h) s) \<and>
    (\<forall>a. ipv4_of (normal_host h) = Some a \<longrightarrow> ipv4_is_global a)"
proof -
  have "normal_host h \<noteq> [] \<and> \<not> List.member BLOCKED_HOSTNAMES (normal_host h) \<and>
    \<not> list_ex (ends_with (normal_host h)) BLOCKED_HOST_SUFFIXES \<and>
    (case ipv4_of (normal_host h) of Some a \<Rightarrow> ipv4_is_global a | None \<Rightarrow> True)"
    using assms unfolding is_safe_callback_hostname_def normal_host_def [symmetric] Let_def
    by (simp split: if_split_asm option.split_asm)
  then show ?thesis
    by (cases "ipv4_of (normal_host h)") (simp_all add: BLOCKED_HOSTNAMES_def list_ex_iff)
qed

section \<open>The delays\<close>

definition backoff_factor :: "int \<Rightarrow> real \<Rightarrow> real" where
  "backoff_factor n m = m ^ nat (max 1 n - 1)"

lemma next_retry_ok:
  "next_retry_delay_seconds n i m mx = Inr d \<longleftrightarrow>
     \<bar>backoff_factor n m\<bar> < float_limit \<and> d = min mx (max 0 (i * backoff_factor n m))"
  unfolding next_retry_delay_seconds_def Let_def py_pow_def backoff_factor_def [symmetric]
  by (cases "\<bar>backoff_factor n m\<bar> < float_limit") (simp_all only: if_True if_False then_ok_simps, blast+)

lemma backoff_factor_mono: "1 \<le> m \<Longrightarrow> k \<le> n \<Longrightarrow> backoff_factor k m \<le> backoff_factor n m"
  unfolding backoff_factor_def by (rule power_increasing) auto

lemma backoff_factor_ge: "1 \<le> m \<Longrightarrow> 1 \<le> backoff_factor n m"
  unfolding backoff_factor_def by (rule one_le_power)

lemma retry_delay:
  assumes run: "next_retry_delay_seconds n i m mx = Inr d" and lim: "0 < i" "1 \<le> m" "0 < mx"
  shows "0 < d" "d \<le> mx" "min i mx \<le> d"
proof -
  have le: "i * 1 \<le> i * backoff_factor n m"
    using lim(1) backoff_factor_ge [OF lim(2)] by (intro mult_left_mono) auto
  have d: "d = min mx (max 0 (i * backoff_factor n m))" using run next_retry_ok by blast
  from le lim show "0 < d" "d \<le> mx" "min i mx \<le> d" unfolding d by linarith+
qed

lemma retry_delay_mono:
  assumes run: "next_retry_delay_seconds n i m mx = Inr d" and lim: "0 < i" "1 \<le> m" and k: "k \<le> n"
  shows "\<exists>e. next_retry_delay_seconds k i m mx = Inr e \<and> e \<le> d"
proof -
  have le: "i * backoff_factor k m \<le> i * backoff_factor n m"
    using lim backoff_factor_mono [OF lim(2) k] by (intro mult_left_mono) auto
  moreover have "\<bar>backoff_factor k m\<bar> < float_limit"
    using run next_retry_ok backoff_factor_mono [OF lim(2) k] backoff_factor_ge [OF lim(2), of k] by fastforce
  ultimately show ?thesis using run unfolding next_retry_ok by (intro exI conjI) (assumption, rule refl, linarith)
qed

section \<open>The queue's text\<close>

text \<open>Only the order of the keys of the result changes.\<close>

definition sorted_result :: "dict option \<Rightarrow> dict option" where
  "sorted_result result = map_option (\<lambda>d. sort_key fst (map (\<lambda>(k, v). (k, sort_keys v)) d)) result"

lemma sort_keys_opt: "sort_keys (opt_str s) = opt_str s" "sort_keys (opt_obj d) = opt_obj (sorted_result d)"
  by (simp_all add: opt_str_def opt_obj_def sorted_result_def split: option.split)

lemma keys_in_order:
  "sort_key fst [(''event_id'', a), (''user_id'', b), (''task_id'', c), (''status'', d), (''result'', e),
     (''error'', f), (''occurred_at_epoch'', g), (''attempt'', h), (''last_error'', i)] =
   [(''attempt'', h), (''error'', f), (''event_id'', a), (''last_error'', i), (''occurred_at_epoch'', g),
     (''result'', e), (''status'', d), (''task_id'', c), (''user_id'', b :: json)]"
  by (simp add: less_char_def less_eq_char_def)

lemma serialize_fields:
  "serialize_webhook_event e = Decoded (JObj
    [(''attempt'', JInt (we_attempt e)), (''error'', opt_str (we_error e)), (''event_id'', JStr (we_event_id e)),
     (''last_error'', opt_str (we_last_error e)), (''occurred_at_epoch'', JInt (we_occurred_at_epoch e)),
     (''result'', opt_obj (sorted_result (we_result e))), (''status'', JStr (we_status e)),
     (''task_id'', JStr (we_task_id e)), (''user_id'', JStr (we_user_id e))])"
  unfolding serialize_webhook_event_def asdict_event_def sort_keys.simps
  by (simp only: list.map case_prod_conv sort_keys.simps sort_keys_opt keys_in_order)

lemma optional_text_opt: "map_of raw k = Some (opt_str s) \<Longrightarrow> optional_text rp raw k = s"
  by (simp add: optional_text_def opt_str_def split: option.splits)

lemma parse_serialize:
  "parse_webhook_event rp (serialize_webhook_event e) = Some (e\<lparr>we_result := sorted_result (we_result e)\<rparr>)"
proof -
  have result: "(case opt_obj d of JObj x \<Rightarrow> Some x | _ \<Rightarrow> None) = d" for d
    by (simp add: opt_obj_def split: option.split)
  show ?thesis
    unfolding serialize_fields parse_webhook_event_def
    by (simp add: optional_text_opt result)
qed

section \<open>What becomes of an event\<close>

definition send_headers :: "WebhookTerminalEvent \<Rightarrow> (string \<times> string) list" where
  "send_headers event = [(''Content-Type'', ''application/json''), (''X-Webhook-Event-Id'', we_event_id event)]"

text \<open>The enabled subscription of the event's user answered the request with a success.\<close>

definition delivered :: "(string \<Rightarrow> bool option) \<Rightarrow> poster \<Rightarrow> WebhookTerminalEvent \<Rightarrow> s2db \<Rightarrow> bool" where
  "delivered ip6 post event d \<longleftrightarrow> (\<exists>u sub t status. uuid_of_str (we_user_id event) = Inr u \<and>
     lookup_row ws_user_id u (webhook_subscriptions d) = Some sub \<and> ws_enabled sub \<and>
     is_valid_callback_url ip6 (ws_callback_url sub) = Inr True \<and>
     post (ws_callback_url sub) (send_headers event) (event_payload event) t = Inr status \<and>
     200 \<le> status \<and> status < 300)"

definition waits_for_retry :: "AppSettings \<Rightarrow> WebhookTerminalEvent \<Rightarrow> string \<Rightarrow> int \<Rightarrow> s2kv \<Rightarrow> bool" where
  "waits_for_retry settings event msg due k \<longleftrightarrow>
     map_of (assoc [] (rd_zsets k) (st_webhook_scheduled_key settings))
       (serialize_webhook_event (failed_once event msg)) = Some due"

definition is_dead :: "AppSettings \<Rightarrow> WebhookTerminalEvent \<Rightarrow> string \<Rightarrow> s2kv \<Rightarrow> bool" where
  "is_dead settings event msg k \<longleftrightarrow>
     serialize_webhook_event (failed_once event msg) \<in> set (assoc [] (rd_lists k) (st_webhook_dlq_key settings))"

definition due_in_time :: "AppSettings \<Rightarrow> int \<Rightarrow> int \<Rightarrow> bool" where
  "due_in_time settings now due \<longleftrightarrow> now div 1000 \<le> due \<and>
     of_int due \<le> of_int now / 1000 + 1000 * st_webhook_max_backoff_seconds settings"

lemma limits_webhook:
  assumes "limits_ok s"
  shows "0 < st_webhook_initial_backoff_seconds s" "1 \<le> st_webhook_backoff_multiplier s"
    "0 < st_webhook_max_backoff_seconds s"
  using assms by (simp_all add: limits_ok_def)

lemma due_time:
  assumes "0 \<le> now" "0 < (d :: real)" "d \<le> mx"
  shows "now div 1000 \<le> py_trunc ((of_int now / 1000000 + d) * 1000)"
    and "of_int (py_trunc ((of_int now / 1000000 + d) * 1000)) \<le> of_int now / 1000 + 1000 * mx"
proof -
  let ?x = "(of_int now / 1000000 + d) * 1000 :: real"
  have x: "?x = of_int now / 1000 + 1000 * d" by (simp add: field_simps)
  have "of_int (now div 1000) \<le> (of_int now / 1000 :: real)"
    using real_of_int_div4 [of now 1000] by simp
  with assms have le: "of_int (now div 1000) \<le> ?x" unfolding x by linarith
  have t: "py_trunc ?x = \<lfloor>?x\<rfloor>" using assms by (simp add: py_trunc_def)
  from le show "now div 1000 \<le> py_trunc ?x" unfolding t by (simp add: le_floor_iff)
  have "of_int (py_trunc ?x) \<le> ?x" unfolding t by simp
  with assms(3) show "of_int (py_trunc ?x) \<le> of_int now / 1000 + 1000 * mx" using x by linarith
qed

lemma schedule_retry_ok:
  assumes run: "schedule_retry settings event msg w = (Inr u, w')" and lim: "limits_ok settings" and now: "0 \<le> clock w"
  shows "\<exists>due. due_in_time settings (clock w) due \<and> waits_for_retry settings event msg due (kv w')" "pg w' = pg w"
proof -
  obtain d where d: "next_retry_delay_seconds (we_attempt event + 1) (st_webhook_initial_backoff_seconds settings)
      (st_webhook_backoff_multiplier settings) (st_webhook_max_backoff_seconds settings) = Inr d"
    and add: "redis_zadd (st_webhook_scheduled_key settings) (serialize_webhook_event (failed_once event msg))
      (py_trunc ((real_of_int (clock w) / 1000000 + d) * 1000)) w = (Inr u, w')"
    using run unfolding schedule_retry_def by (elim bindE_okE) auto
  have "due_in_time settings (clock w) (py_trunc ((real_of_int (clock w) / 1000000 + d) * 1000))"
    unfolding due_in_time_def
    using due_time [OF now retry_delay(1,2) [OF d limits_webhook [OF lim]]] by blast
  moreover from add [unfolded redis_zadd_def] have "pg w' = pg w \<and> waits_for_retry settings event msg
      (py_trunc ((real_of_int (clock w) / 1000000 + d) * 1000)) (kv w')"
    by (elim remote_okE) (auto simp: waits_for_retry_def AList.update_conv')
  ultimately show "\<exists>due. due_in_time settings (clock w) due \<and> waits_for_retry settings event msg due (kv w')"
    "pg w' = pg w" by blast+
qed

lemma keeps_dispatch [keeps_rules]:
  "keeps I (schedule_retry settings event msg)" "keeps I (send_webhook post url event)"
  unfolding schedule_retry_def send_webhook_def by (intro keeps_rules)+

lemma send_webhook_ok:
  assumes "send_webhook post url event w = (Inr u, w')"
  shows "\<exists>t status. post url (send_headers event) (event_payload event) t = Inr status \<and> 200 \<le> status \<and> status < 300"
proof -
  obtain status w1 where sent: "remote (\<lambda>now k. then_ok (post url (send_headers event) (event_payload event) now)
      (\<lambda>status_code. Inr (status_code, k))) w = (Inr status, w1)"
    and ok: "200 \<le> status \<and> status < 300"
    using assms unfolding send_webhook_def send_headers_def by (elim bindE_okE) (auto split: if_splits)
  from sent have "post url (send_headers event) (event_payload event) (clock w) = Inr status"
    by (elim remote_okE) (cases "post url (send_headers event) (event_payload event) (clock w)"; simp)
  with ok show ?thesis by blast
qed

lemma send_to_dead_letter_ok:
  assumes "send_to_dead_letter settings event msg w = (Inr u, w')"
  shows "is_dead settings event msg (kv w')"
proof -
  obtain w1 where push: "redis_rpush (st_webhook_dlq_key settings) (serialize_webhook_event (failed_once event msg)) w
      = (Inr (), w1)"
    and kv: "kv w' = kv w1"
    using assms unfolding send_to_dead_letter_def Let_def
    by (elim bindE_okE) (auto simp: insert_webhook_dead_letter_def liftE_def bindE_def sql_kv split: sum.splits prod.splits
      dest!: arg_cong [where f = "\<lambda>r. kv (snd r)"])
  from push [unfolded redis_rpush_def] have "is_dead settings event msg (kv w1)"
    by (elim remote_okE) (simp add: is_dead_def)
  with kv show ?thesis by (simp add: is_dead_def)
qed

text \<open>Where the event is after a run that was counted under \<open>label\<close>.\<close>

definition dispatch_outcome :: "(string \<Rightarrow> bool option) \<Rightarrow> poster \<Rightarrow> AppSettings \<Rightarrow> WebhookTerminalEvent \<Rightarrow>
    (s2db, s2kv) world \<Rightarrow> string \<Rightarrow> s2kv \<Rightarrow> bool" where
  "dispatch_outcome ip6 post settings event w label k \<longleftrightarrow>
     label \<in> {''skipped_no_subscription'', ''skipped_invalid_subscription''} \<or>
     label = ''ok'' \<and> delivered ip6 post event (pg w) \<or>
     label \<in> {''retry_subscription_lookup'', ''retry_scheduled''} \<and>
       (label = ''retry_scheduled'' \<longrightarrow> we_attempt event + 1 < st_webhook_max_attempts settings) \<and>
       (\<exists>msg due. due_in_time settings (clock w) due \<and> waits_for_retry settings event msg due k) \<or>
     label = ''dead_letter'' \<and> st_webhook_max_attempts settings \<le> we_attempt event + 1 \<and>
       (\<exists>msg. is_dead settings event msg k)"

lemma lookup_run:
  assumes "bindE (liftE (uuid_of_str s)) get_webhook_subscription w = (r, w')"
  obtains (failed) e where "r = Inl e" "pg w' = pg w" "kv w' = kv w" "clock w' = clock w"
    | (found) u where "uuid_of_str s = Inr u" "r = Inr (lookup_row ws_user_id u (webhook_subscriptions (pg w)))"
      "pg w' = pg w" "kv w' = kv w" "clock w' = clock w"
proof (cases "uuid_of_str s")
  case (Inl e)
  with assms have "r = Inl e" "w' = w" by (simp_all add: bindE_pure)
  with failed show thesis by simp
next
  case (Inr u)
  with assms have run: "sql_read (\<lambda>_ d. lookup_row ws_user_id u (webhook_subscriptions d)) w = (r, w')"
    by (simp add: bindE_pure get_webhook_subscription_def)
  have frame: "pg w' = pg w" "kv w' = kv w" "clock w' = clock w"
    using sql_read_frame [of "\<lambda>_ d. lookup_row ws_user_id u (webhook_subscriptions d)" w]
      sql_read_clock [of "\<lambda>_ d. lookup_row ws_user_id u (webhook_subscriptions d)" w] run by simp_all
  show thesis
  proof (cases r)
    case (Inl e)
    with frame failed show thesis by blast
  next
    case (Inr x)
    have "x = lookup_row ws_user_id u (webhook_subscriptions (pg w))"
      using run unfolding Inr by (elim sql_read_okE)
    with found \<open>uuid_of_str s = Inr u\<close> Inr frame show thesis by blast
  qed
qed

lemma send_webhook_run:
  assumes "send_webhook post url event w = (r, w')"
  shows "pg w' = pg w" "clock w' = clock w"
proof -
  from assms [unfolded send_webhook_def] have "pg w' = pg w \<and> clock w' = clock w"
  proof (cases rule: bindE_cases)
    case (raised e)
    with remote_pg remote_clock show ?thesis by (metis snd_conv)
  next
    case (ran status w1)
    then have "w' = w1" by (auto simp: returnM_def raiseM_def split: if_splits)
    with ran(1) remote_pg remote_clock show ?thesis by (metis snd_conv)
  qed
  then show "pg w' = pg w" "clock w' = clock w" by simp_all
qed

lemma send_outcome:
  assumes run: "bindE (attempt (send_webhook post url event)) (\<lambda>sent. case sent of
      Inr _ \<Rightarrow> returnM ''ok''
    | Inl e \<Rightarrow> if st_webhook_max_attempts settings \<le> we_attempt event + 1
        then bindE (send_to_dead_letter settings event (exn_text e)) (\<lambda>_. returnM ''dead_letter'')
        else bindE (schedule_retry settings event (exn_text e)) (\<lambda>_. returnM ''retry_scheduled'')) w1 = (Inr label, w')"
    and lim: "limits_ok settings" and same: "clock w1 = clock w" and now: "0 \<le> clock w"
    and ok: "\<And>t status. post url (send_headers event) (event_payload event) t = Inr status \<Longrightarrow> 200 \<le> status \<Longrightarrow>
      status < 300 \<Longrightarrow> delivered ip6 post event (pg w)"
  shows "dispatch_outcome ip6 post settings event w label (kv w')"
proof -
  obtain sent w2 where send: "send_webhook post url event w1 = (sent, w2)" by fastforce
  with same have clock: "clock w2 = clock w" using send_webhook_run(2) by metis
  show ?thesis
  proof (cases sent)
    case (Inr x)
    with send_webhook_ok [of post url event w1 x w2] send ok have "delivered ip6 post event (pg w)" by blast
    with run send Inr show ?thesis by (simp add: bindE_attempt dispatch_outcome_def)
  next
    case (Inl e)
    show ?thesis
    proof (cases "st_webhook_max_attempts settings \<le> we_attempt event + 1")
      case True
      with run send Inl
      have "bindE (send_to_dead_letter settings event (exn_text e)) (\<lambda>_. returnM ''dead_letter'') w2 = (Inr label, w')"
        by (simp add: bindE_attempt)
      then show ?thesis using True send_to_dead_letter_ok
        by (elim bindE_okE) (fastforce simp: dispatch_outcome_def)
    next
      case False
      with run send Inl
      have "bindE (schedule_retry settings event (exn_text e)) (\<lambda>_. returnM ''retry_scheduled'') w2 = (Inr label, w')"
        by (simp add: bindE_attempt)
      then show ?thesis using False clock now schedule_retry_ok(1) [OF _ lim]
        by (elim bindE_okE) (fastforce simp: dispatch_outcome_def)
    qed
  qed
qed

lemma process_event_outcome:
  assumes event: "parse_webhook_event rp raw_event = Some event"
    and run: "process_raw_event rp ip6 post settings raw_event w = (Inr label, w')"
    and lim: "limits_ok settings" and now: "0 \<le> clock w"
  shows "dispatch_outcome ip6 post settings event w label (kv w')"
proof -
  obtain r w1 where lookup: "bindE (liftE (uuid_of_str (we_user_id event))) get_webhook_subscription w = (r, w1)"
    by fastforce
  show ?thesis using lookup
  proof (cases rule: lookup_run)
    case (failed e)
    with run event lookup have "bindE (schedule_retry settings event (''subscription_lookup:'' @ exn_text e))
        (\<lambda>_. returnM ''retry_subscription_lookup'') w1 = (Inr label, w')"
      by (simp add: process_raw_event_def bindE_attempt)
    then show ?thesis using failed now schedule_retry_ok(1) [OF _ lim]
      by (elim bindE_okE) (fastforce simp: dispatch_outcome_def)
  next
    case (found u)
    show ?thesis
    proof (cases "\<exists>sub. lookup_row ws_user_id u (webhook_subscriptions (pg w)) = Some sub \<and> ws_enabled sub \<and>
        is_valid_callback_url ip6 (ws_callback_url sub) = Inr True")
      case False
      with run event lookup found have "label \<in> {''skipped_no_subscription'', ''skipped_invalid_subscription''}"
        by (auto simp: process_raw_event_def bindE_attempt bindE_pure split: option.splits if_splits sum.splits)
      then show ?thesis by (simp add: dispatch_outcome_def)
    next
      case True
      then obtain sub where sub: "lookup_row ws_user_id u (webhook_subscriptions (pg w)) = Some sub" "ws_enabled sub"
        "is_valid_callback_url ip6 (ws_callback_url sub) = Inr True" by blast
      show ?thesis
      proof (rule send_outcome [OF _ lim found(5) now])
        show "delivered ip6 post event (pg w)"
          if "post (ws_callback_url sub) (send_headers event) (event_payload event) t = Inr status" "200 \<le> status"
            "status < 300" for t status
          using that found(1) sub unfolding delivered_def by blast
      qed (use run event lookup found sub in \<open>simp add: process_raw_event_def bindE_attempt bindE_pure\<close>)
    qed
  qed
qed

section \<open>The database is left alone\<close>

text \<open>The dead-letter table references \<open>tasks\<close>, where Solution 2 has no rows.\<close>

lemma dead_letter_refused:
  assumes "legacy_tasks d = []"
  shows "keeps (\<lambda>x. x = d) (insert_webhook_dead_letter u t payload msg)"
  unfolding insert_webhook_dead_letter_def by (rule keeps_sql) (use assms in \<open>auto split: if_splits\<close>)

lemma keeps_process_event:
  assumes "legacy_tasks d = []"
  shows "keeps (\<lambda>x. x = d) (process_raw_event rp ip6 post settings raw_event)"
  unfolding process_raw_event_def send_to_dead_letter_def get_webhook_subscription_def Let_def
  by (intro keeps_rules dead_letter_refused [OF assms])

lemma keeps_promote [keeps_rules]: "keeps I (promote_events settings es n)"
  by (induction es arbitrary: n) (auto intro!: keeps_rules)

lemma keeps_dispatcher_turn:
  assumes "legacy_tasks d = []"
  shows "keeps (\<lambda>x. x = d) (dispatcher_turn rp ip6 post settings)"
  unfolding dispatcher_turn_def promote_scheduled_events_def pop_pending_event_def refresh_depth_metrics_def
  by (intro keeps_rules keeps_process_event [OF assms])

section \<open>Retries end\<close>

text \<open>
  \<open>retried e e'\<close>: some run on the queue text of \<open>e\<close>, in any world and under any faults, sent it and put
  the text of \<open>e'\<close> on the schedule.
\<close>

inductive retried :: "(json \<Rightarrow> string) \<Rightarrow> (string \<Rightarrow> bool option) \<Rightarrow> poster \<Rightarrow> AppSettings \<Rightarrow>
    WebhookTerminalEvent \<Rightarrow> WebhookTerminalEvent \<Rightarrow> nat \<Rightarrow> bool"
  for rp ip6 post settings where
  none: "retried rp ip6 post settings e e 0"
| more: "retried rp ip6 post settings e e' n \<Longrightarrow>
    process_raw_event rp ip6 post settings (serialize_webhook_event e') w = (Inr ''retry_scheduled'', w') \<Longrightarrow>
    0 \<le> clock w \<Longrightarrow>
    waits_for_retry settings (e'\<lparr>we_result := sorted_result (we_result e')\<rparr>) msg due (kv w') \<Longrightarrow>
    retried rp ip6 post settings e
      (failed_once (e'\<lparr>we_result := sorted_result (we_result e')\<rparr>) msg) (Suc n)"

lemma scheduled_below_max:
  assumes "process_raw_event rp ip6 post settings (serialize_webhook_event e) w = (Inr ''retry_scheduled'', w')"
    and "limits_ok settings" "0 \<le> clock w"
  shows "we_attempt e + 1 < st_webhook_max_attempts settings"
  using process_event_outcome [OF parse_serialize assms(1,2,3)] by (simp add: dispatch_outcome_def)

lemma retried_attempts:
  assumes "retried rp ip6 post settings e e' n" "limits_ok settings"
  shows "we_attempt e' = we_attempt e + int n \<and> (0 < n \<longrightarrow> we_attempt e' < st_webhook_max_attempts settings)"
  using assms(1)
proof induction
  case (more e e' n w w' msg due)
  then show ?case using scheduled_below_max [OF more.hyps(2) assms(2) more.hyps(3)]
    by (simp add: failed_once_def)
qed simp

section \<open>A crash between two commands\<close>

lemma promote_loses:
  assumes z: "assoc [] (rd_zsets (kv w)) (st_webhook_scheduled_key settings) = [(raw, due)]"
    and fs: "faults w = [Fine, FailBefore e]"
  shows "case promote_events settings [raw] 0 w of (r, w') \<Rightarrow> r = Inl e \<and>
    assoc [] (rd_zsets (kv w')) (st_webhook_scheduled_key settings) = [] \<and>
    rd_lists (kv w') = rd_lists (kv w)"
proof -
  let ?k = "(kv w)\<lparr>rd_zsets := AList.update (st_webhook_scheduled_key settings) [] (rd_zsets (kv w))\<rparr>"
  have "redis_zrem (st_webhook_scheduled_key settings) raw w = (Inr True, w\<lparr>faults := [FailBefore e], kv := ?k\<rparr>)"
    using assms by (simp add: redis_zrem_def remote_def ext_def Let_def)
  moreover have "redis_lpush (st_webhook_queue_key settings) raw (w\<lparr>faults := [FailBefore e], kv := ?k\<rparr>) =
      (Inl e, w\<lparr>faults := [], kv := ?k\<rparr>)"
    by (simp add: redis_lpush_def remote_def ext_def)
  ultimately show ?thesis by (simp add: bindE_def)
qed

section \<open>A demonstration\<close>

definition demo_subscribed :: s2db where
  "demo_subscribed = demo_db\<lparr>webhook_subscriptions := [\<lparr>ws_user_id = 1,
     ws_callback_url = ''https://example.com/hook'', ws_enabled = True, ws_created_at = 0, ws_updated_at = 0\<rparr>]\<rparr>"

definition demo_event :: WebhookTerminalEvent where
  "demo_event = \<lparr>we_event_id = uuid_str 21, we_user_id = uuid_str 1, we_task_id = uuid_str 7,
     we_status = ''COMPLETED'', we_result = None, we_error = None, we_occurred_at_epoch = 1700000000,
     we_attempt = 0, we_last_error = None\<rparr>"

definition unreachable :: poster where
  "unreachable = (\<lambda>_ _ _ _. Inl (Exn HTTPError ''timeout''))"

lemma demo_url: "is_valid_callback_url (\<lambda>_. None) ''https://example.com/hook'' = Inr True"
  by code_simp

lemma float_limit_big: "2 ^ n < float_limit" if "n < 1024"
  unfolding float_limit_def using that by (intro power_strict_increasing) auto

lemma demo_limits: "limits_ok demo_settings"
  using validated_limits [OF demo_settings_valid] .

lemma demo_delay: "next_retry_delay_seconds 1 1 2 60 = Inr 1"
  using float_limit_big [of 0] by (simp add: next_retry_ok backoff_factor_def)

definition demo_retried :: "(s2db, s2kv) world" where
  "demo_retried = (demo_app demo_subscribed [])\<lparr>kv := demo_kv\<lparr>rd_zsets :=
     [(''webhook:scheduled'', [(serialize_webhook_event (failed_once demo_event ''timeout''), 1700000001000)])]\<rparr>\<rparr>"

lemma demo_dispatch:
  "process_raw_event (\<lambda>_. []) (\<lambda>_. None) unreachable demo_settings (serialize_webhook_event demo_event)
     (demo_app demo_subscribed []) = (Inr ''retry_scheduled'', demo_retried)"
proof -
  let ?w = "demo_app demo_subscribed []"
  have event: "demo_event\<lparr>we_result := sorted_result (we_result demo_event)\<rparr> = demo_event"
    by (simp add: demo_event_def sorted_result_def)
  have send: "send_webhook unreachable url demo_event ?w = (Inl (Exn HTTPError ''timeout''), ?w)" for url
    by (simp add: send_webhook_def bindE_def remote_nofault unreachable_def)
  have "schedule_retry demo_settings demo_event ''timeout'' ?w = (Inr (), demo_retried)"
    by (simp add: schedule_retry_def demo_settings_def settings_of_def demo_event_def demo_delay bindE_pure
        redis_zadd_def remote_nofault demo_retried_def demo_kv_def assoc_def py_trunc_def)
  moreover have "st_webhook_max_attempts demo_settings = 5"
    by (simp add: demo_settings_def settings_of_def)
  moreover have "we_user_id demo_event = uuid_str 1" "we_attempt demo_event = 0"
    by (simp_all add: demo_event_def)
  ultimately show ?thesis
    using send demo_url
    by (simp add: process_raw_event_def parse_serialize event bindE_attempt bindE_pure uuid_roundtrip
        get_webhook_subscription_def sql_read_nofault demo_subscribed_def bindE_ran)
qed

section \<open>Properties\<close>

text \<open>C15 Whatever fails, a run of the dispatcher on a readable event that is counted leaves the event accounted
  for: nobody is subscribed, the subscriber answered with a success, the event is on the schedule with one more
  attempt counted and due within the longest delay, or, and only when its attempts are used up, it is dead.\<close>

theorem dispatch_accounts_for_event:
  assumes "parse_webhook_event rp raw_event = Some event" "limits_ok settings" "0 \<le> clock w"
    and "process_raw_event rp ip6 post settings raw_event w = (Inr label, w')"
  shows "dispatch_outcome ip6 post settings event w label (kv w')"
  using process_event_outcome [OF assms(1,4,2,3)] .
theorem dispatch_accounts_for_event_witness:
  "dispatch_outcome (\<lambda>_. None) unreachable demo_settings demo_event (demo_app demo_subscribed []) ''retry_scheduled''
     (kv demo_retried)"
proof -
  have "parse_webhook_event (\<lambda>_. []) (serialize_webhook_event demo_event) = Some demo_event"
    by (simp add: parse_serialize demo_event_def sorted_result_def)
  from dispatch_accounts_for_event [OF this demo_limits _ demo_dispatch] show ?thesis by simp
qed


text \<open>The delay before a retry is positive, at least the initial delay or the maximum, at most the maximum,
  and never longer for an earlier attempt.\<close>

lemma retry_delay_bounds:
  assumes "next_retry_delay_seconds n i m mx = Inr d" "0 < i" "1 \<le> m" "0 < mx"
  shows "0 < d \<and> d \<le> mx \<and> min i mx \<le> d \<and> (\<forall>k\<in>{..n}. \<exists>e. next_retry_delay_seconds k i m mx = Inr e \<and> e \<le> d)"
  using retry_delay [OF assms] retry_delay_mono [OF assms(1-3)] by simp
lemma retry_delay_bounds_witness: "0 < (1 :: real) \<and> next_retry_delay_seconds 1 1 2 60 = Inr 1 \<and> (1 :: real) \<le> 60"
  using retry_delay_bounds [OF demo_delay] demo_delay by simp

text \<open>The queue's text form of an event is read back as the event; only the keys of its result are sorted.\<close>

theorem webhook_event_roundtrip:
  "parse_webhook_event rp (serialize_webhook_event e) = Some (e\<lparr>we_result := sorted_result (we_result e)\<rparr>)"
  by (rule parse_serialize)

text \<open>C17 The dispatcher never changes the database, because nothing fills the table that dead letters
  reference: each of its attempts to record a dead letter is refused and the refusal is logged.\<close>

theorem dead_letters_never_persisted:
  assumes "legacy_tasks (pg w) = []"
  shows "pg (snd (dispatcher_turn rp ip6 post settings w)) = pg w"
  using keeps_dispatcher_turn [OF assms] by (simp add: keeps_def)
theorem dead_letters_never_persisted_witness:
  "pg (snd (dispatcher_turn (\<lambda>_. []) (\<lambda>_. None) unreachable demo_settings (demo_app demo_subscribed []))) = demo_subscribed"
  using dead_letters_never_persisted [of "demo_app demo_subscribed []" "\<lambda>_. []" "\<lambda>_. None"
      unreachable demo_settings]
  by (simp add: demo_subscribed_def demo_db_def)

text \<open>A callback URL that is accepted has one of the two schemes and a host that is neither \<open>localhost\<close>, nor
  under a private suffix, nor the dotted text of an IPv4 address that is not global.  The short and the
  decimal spelling of the loopback address are not recognised as addresses and pass as names.\<close>

theorem callback_url_hosts:
  shows "(is_valid_callback_url ip6 url = Inr True \<longrightarrow> (\<exists>scheme host. urlparse ip6 (strip url) = Inr (scheme, Some host) \<and>
      lower scheme \<in> {''http'', ''https''} \<and> normal_host host \<noteq> [] \<and> normal_host host \<noteq> ''localhost'' \<and>
      (\<forall>s\<in>set BLOCKED_HOST_SUFFIXES. \<not> ends_with (normal_host host) s) \<and>
      (\<forall>a. ipv4_of (normal_host host) = Some a \<longrightarrow> ipv4_is_global a))) \<and>
    is_valid_callback_url (\<lambda>_. None) ''http://127.0.0.1/hook'' = Inr False \<and>
    is_valid_callback_url (\<lambda>_. None) ''http://127.1/hook'' = Inr True \<and>
    is_valid_callback_url (\<lambda>_. None) ''http://2130706433/hook'' = Inr True"
proof (intro conjI impI)
  assume "is_valid_callback_url ip6 url = Inr True"
  then show "\<exists>scheme host. urlparse ip6 (strip url) = Inr (scheme, Some host) \<and>
      lower scheme \<in> {''http'', ''https''} \<and> normal_host host \<noteq> [] \<and> normal_host host \<noteq> ''localhost'' \<and>
      (\<forall>s\<in>set BLOCKED_HOST_SUFFIXES. \<not> ends_with (normal_host host) s) \<and>
      (\<forall>a. ipv4_of (normal_host host) = Some a \<longrightarrow> ipv4_is_global a)"
    by (rule valid_callback_url) (blast dest: safe_hostname)
qed code_simp+
theorem callback_url_hosts_witness:
  "\<exists>scheme host. urlparse (\<lambda>_. None) (strip ''https://example.com/hook'') = Inr (scheme, Some host) \<and>
     normal_host host \<noteq> ''localhost''"
  using callback_url_hosts [of "\<lambda>_. None" "''https://example.com/hook''"] demo_url by blast

text \<open>Promotion removes an event from the schedule before it puts it on the queue: when Redis fails between
  the two commands, the event is in neither.\<close>

lemma promotion_can_lose_event:
  assumes "assoc [] (rd_zsets (kv w)) (st_webhook_scheduled_key settings) = [(raw, due)]"
    and "faults w = [Fine, FailBefore e]"
  shows "case promote_events settings [raw] 0 w of (r, w') \<Rightarrow> r = Inl e \<and>
    assoc [] (rd_zsets (kv w')) (st_webhook_scheduled_key settings) = [] \<and> rd_lists (kv w') = rd_lists (kv w)"
  using promote_loses [OF assms] .

lemma promotion_can_lose_event_witness:
  "case promote_events demo_settings [serialize_webhook_event (failed_once demo_event ''timeout'')] 0
       (demo_retried\<lparr>faults := [Fine, FailBefore (Exn RedisError [])]\<rparr>) of (r, w') \<Rightarrow> r = Inl (Exn RedisError []) \<and>
     assoc [] (rd_zsets (kv w')) (st_webhook_scheduled_key demo_settings) = [] \<and> rd_lists (kv w') = []"
proof -
  let ?w = "demo_retried\<lparr>faults := [Fine, FailBefore (Exn RedisError [])]\<rparr>"
  have "assoc [] (rd_zsets (kv ?w)) (st_webhook_scheduled_key demo_settings) =
      [(serialize_webhook_event (failed_once demo_event ''timeout''), 1700000001000)]"
    by (simp add: demo_retried_def assoc_def demo_settings_def settings_of_def)
  from promotion_can_lose_event [OF this] show ?thesis by (simp add: demo_retried_def demo_kv_def)
qed

end
