(* ===== verification/S2_Api.thy ===== *)
theory S2_Api
  imports S2_Gates S2_Auth S2_Webhooks
begin

text \<open>
  Solution 2, \<open>utils/retry.py\<close>, \<open>models/schemas.py\<close> and \<open>api/task_write_routes.py\<close>: the retry helper, the
  request bodies, and the handlers that submit a task or a batch and cancel a task.  They run after
  authentication; \<open>jitter\<close> is the random factor of each pause, \<open>show_time\<close> the text form of a time in a
  response, \<open>trace\<close> what the tracing library puts into the payload.  The lemmas bound the retries and
  say what each answer means for the database, under any faults.
\<close>

section \<open>Retrying\<close>

function retry_loop :: "(int \<Rightarrow> real) \<Rightarrow> ('d, 'k, 'a) io \<Rightarrow> int \<Rightarrow> real \<Rightarrow> real \<Rightarrow> int \<Rightarrow> real \<Rightarrow> ('d, 'k, 'a) io" where
  "retry_loop jitter operation attempts max_delay_seconds backoff_multiplier n delay_seconds =
     bindE (attempt operation) (\<lambda>outcome. case outcome of
       Inr a \<Rightarrow> returnM a
     | Inl e \<Rightarrow>
         if attempts \<le> n then liftE (Inl e)
         else bindE (if 0 < delay_seconds then sleep_seconds (min delay_seconds max_delay_seconds * jitter n)
           else returnM ()) (\<lambda>_.
         retry_loop jitter operation attempts max_delay_seconds backoff_multiplier (n + 1)
           (min max_delay_seconds (delay_seconds * backoff_multiplier))))"
  by pat_completeness auto
termination
  by (relation "measure (\<lambda>(_, _, attempts, _, _, n, _). nat (attempts - n))") auto

declare retry_loop.simps [simp del]

definition retry_async :: "(int \<Rightarrow> real) \<Rightarrow> ('d, 'k, 'a) io \<Rightarrow> int \<Rightarrow> real \<Rightarrow> real \<Rightarrow> real \<Rightarrow> ('d, 'k, 'a) io" where
  "retry_async jitter operation attempts base_delay_seconds max_delay_seconds backoff_multiplier =
     (if attempts < 1 then raiseM ValueError ''attempts must be >= 1''
      else if base_delay_seconds < 0 then raiseM ValueError ''base_delay_seconds must be >= 0''
      else if max_delay_seconds < 0 then raiseM ValueError ''max_delay_seconds must be >= 0''
      else if backoff_multiplier < 1 then raiseM ValueError ''backoff_multiplier must be >= 1.0''
      else retry_loop jitter operation attempts max_delay_seconds backoff_multiplier 1 base_delay_seconds)"

section \<open>Requests and responses\<close>

record SubmitTaskRequest =
  sq_x :: int
  sq_y :: int
  sq_mode :: RequestMode
  sq_model_class :: ModelClass
  sq_callback_url :: "string option"

definition submit_request_ok :: "SubmitTaskRequest \<Rightarrow> bool" where
  "submit_request_ok p \<longleftrightarrow> int4_ok (sq_x p) \<and> int4_ok (sq_y p) \<and>
     (case sq_callback_url p of None \<Rightarrow> True | Some s \<Rightarrow> 1 \<le> length s \<and> length s \<le> 2048)"

record BatchSubmitTask =
  bq_x :: int
  bq_y :: int
  bq_model_class :: ModelClass

definition batch_request_ok :: "BatchSubmitTask list \<Rightarrow> bool" where
  "batch_request_ok tasks \<longleftrightarrow> 1 \<le> length tasks \<and> length tasks \<le> 100 \<and>
     list_all (\<lambda>t. int4_ok (bq_x t) \<and> int4_ok (bq_y t)) tasks"

record SubmitTaskResponse =
  sr_task_id :: uuid
  sr_status :: string
  sr_estimated_seconds :: int
  sr_result :: "dict option"
  sr_error :: "string option"
  sr_runtime_ms :: "int option"
  sr_queue :: string
  sr_expires_at :: int

definition submit_response_json :: "(int \<Rightarrow> string) \<Rightarrow> SubmitTaskResponse \<Rightarrow> json" where
  "submit_response_json show_time r = JObj [(''task_id'', JStr (uuid_str (sr_task_id r))), (''status'', JStr (sr_status r)),
     (''estimated_seconds'', JInt (sr_estimated_seconds r)), (''result'', opt_obj (sr_result r)),
     (''error'', opt_str (sr_error r)), (''runtime_ms'', opt_json JInt (sr_runtime_ms r)),
     (''queue'', JStr (sr_queue r)), (''expires_at'', JStr (show_time (sr_expires_at r)))]"

definition cancel_response_json :: "uuid \<Rightarrow> int \<Rightarrow> json" where
  "cancel_response_json task_id credits_refunded = JObj [(''task_id'', JStr (uuid_str task_id)),
     (''status'', JStr (TaskStatus_value CANCELLED)), (''credits_refunded'', JInt credits_refunded)]"

section \<open>Submitting\<close>

definition validated_idempotency_value :: "string option \<Rightarrow> uuid \<Rightarrow> reply + string" where
  "validated_idempotency_value idempotency_header generated_task_id = (case idempotency_header of
      None \<Rightarrow> Inr (uuid_str generated_task_id)
    | Some header \<Rightarrow> (let idempotency_value = strip header in
        if idempotency_value = [] \<or> 128 < length idempotency_value
        then Inl (api_error_response 400 ''BAD_REQUEST'' ''Idempotency-Key must be between 1 and 128 characters'')
        else Inr idempotency_value))"

definition is_sync_inline_candidate :: "AuthUser \<Rightarrow> SubmitTaskRequest \<Rightarrow> bool" where
  "is_sync_inline_candidate current_user payload \<longleftrightarrow>
     sq_mode payload = SYNC \<and> au_tier current_user = ENTERPRISE \<and> sq_model_class payload = SMALL"

definition write_task_state :: "AppSettings \<Rightarrow> uuid \<Rightarrow> (string \<times> rval) list \<Rightarrow> unit app" where
  "write_task_state settings task_id state_payload =
     bindE (redis_hset (task_state_key task_id) state_payload) (\<lambda>_.
     redis_expire (task_state_key task_id) (st_redis_task_state_ttl_seconds settings))"

definition same_request :: "TaskCommand \<Rightarrow> SubmitTaskRequest \<Rightarrow> int \<Rightarrow> bool" where
  "same_request c payload cost \<longleftrightarrow> tc_x c = sq_x payload \<and> tc_y c = sq_y payload \<and> tc_cost c = cost \<and>
     tc_mode c = sq_mode payload \<and> tc_model_class c = sq_model_class payload \<and>
     tc_callback_url c = sq_callback_url payload"

definition handle_submit_admission_rejection :: "(int \<Rightarrow> string) \<Rightarrow> AppSettings \<Rightarrow> SubmitTaskRequest \<Rightarrow>
    AdmissionDecision \<Rightarrow> int \<Rightarrow> int \<Rightarrow> reply option app" where
  "handle_submit_admission_rejection show_time settings payload dec effective_task_cost estimated_seconds =
     (if ad_ok dec then returnM None
      else case (if ad_reason dec = ''IDEMPOTENT'' then ad_existing_task_id dec else None) of
        Some existing_task_id \<Rightarrow>
          bindE (liftE (uuid_of_str existing_task_id)) (\<lambda>existing_id.
          bindE (attempt (get_task_command existing_id)) (\<lambda>looked_up. case looked_up of
            Inl _ \<Rightarrow> returnM (Some (api_error_response 503 ''SERVICE_DEGRADED'' ''Admission gate unavailable''))
          | Inr None \<Rightarrow> returnM (Some (api_error_response 503 ''SERVICE_DEGRADED'' ''Task replay state unavailable''))
          | Inr (Some existing) \<Rightarrow>
              if \<not> same_request existing payload effective_task_cost
              then returnM (Some (api_error_response 409 ''CONFLICT'' ''Idempotency key reused with different payload''))
              else bindE (liftE (resolve_queue (tc_tier existing) (tc_mode existing) (tc_model_class existing)))
                (\<lambda>existing_queue. returnM (Some (JSONResponse 200 (submit_response_json show_time
                  \<lparr>sr_task_id = existing_id, sr_status = TaskStatus_value (tc_status existing),
                   sr_estimated_seconds = estimated_seconds, sr_result = None, sr_error = None,
                   sr_runtime_ms = None, sr_queue = existing_queue,
                   sr_expires_at = tc_created_at existing + seconds (st_task_result_ttl_seconds settings)\<rparr>))))))
      | None \<Rightarrow> returnM (Some (
          if ad_reason dec = ''CONCURRENCY'' then api_error_response 429 ''TOO_MANY_REQUESTS'' ''Max concurrent tasks reached''
          else if ad_reason dec = ''INSUFFICIENT'' then api_error_response 402 ''INSUFFICIENT_CREDITS'' ''Not enough credits''
          else api_error_response 503 ''SERVICE_DEGRADED'' ''Admission gate unavailable'')))"

definition admission_payload_of :: "uuid \<Rightarrow> AuthUser \<Rightarrow> SubmitTaskRequest \<Rightarrow> int \<Rightarrow> string \<Rightarrow> dict \<Rightarrow> dict" where
  "admission_payload_of task_id current_user payload effective_task_cost trace_id trace_context =
     [(''task_id'', JStr (uuid_str task_id)), (''user_id'', JStr (uuid_str (au_user_id current_user))),
      (''x'', JInt (sq_x payload)), (''y'', JInt (sq_y payload)),
      (''model_class'', JStr (ModelClass_value (sq_model_class payload))),
      (''tier'', JStr (SubscriptionTier_value (au_tier current_user))), (''cost'', JInt effective_task_cost),
      (''callback_url'', opt_str (sq_callback_url payload)), (''api_key'', JStr (au_api_key current_user)),
      (''trace_id'', JStr trace_id)] @ (if trace_context = [] then [] else [(''trace_context'', JObj trace_context)])"

definition submitted_state :: "uuid \<Rightarrow> AuthUser \<Rightarrow> SubmitTaskRequest \<Rightarrow> int \<Rightarrow> string \<Rightarrow> int \<Rightarrow>
    SyncExecutionResult option \<Rightarrow> (string \<times> rval) list" where
  "submitted_state task_id current_user payload effective_task_cost queue_name now sync_result =
     [(''status'', Plain (TaskStatus_value (case sync_result of None \<Rightarrow> DEFAULT_TASK_STATUS | Some r \<Rightarrow> se_status r))),
      (''task_id'', Plain (uuid_str task_id)), (''user_id'', Plain (uuid_str (au_user_id current_user))),
      (''x'', Plain (str_of_int (sq_x payload))), (''y'', Plain (str_of_int (sq_y payload))),
      (''cost'', Plain (str_of_int effective_task_cost)),
      (''model_class'', Plain (ModelClass_value (sq_model_class payload))),
      (''mode'', Plain (RequestMode_value (sq_mode payload))), (''queue'', Plain queue_name),
      (''created_at_epoch'', Plain (str_of_int (epoch now)))] @
     (case sync_result of None \<Rightarrow> [] | Some r \<Rightarrow>
        [(''completed_at_epoch'', Plain (str_of_int (epoch now))),
         (''error'', Plain (case se_error r of None \<Rightarrow> [] | Some s \<Rightarrow> s))] @
        (case se_result r of None \<Rightarrow> [] | Some d \<Rightarrow> [(''result'', Dumped (JObj d))]) @
        (case se_runtime_ms r of None \<Rightarrow> [] | Some n \<Rightarrow> [(''runtime_ms'', Plain (str_of_int n))]))"

text \<open>The answer once the task is admitted: the state is cached, then the request is acknowledged.\<close>

definition acknowledge_submission :: "(int \<Rightarrow> string) \<Rightarrow> AppSettings \<Rightarrow> AuthUser \<Rightarrow> SubmitTaskRequest \<Rightarrow> uuid \<Rightarrow> int \<Rightarrow>
    int \<Rightarrow> string \<Rightarrow> SyncExecutionResult option \<Rightarrow> reply app" where
  "acknowledge_submission show_time settings current_user payload task_id effective_task_cost estimated_seconds queue_name sync_result =
     bindE (attempt (bindE get_clock (\<lambda>now. write_task_state settings task_id
       (submitted_state task_id current_user payload effective_task_cost queue_name now sync_result)))) (\<lambda>cached.
     case cached of
       Inl _ \<Rightarrow> returnM (api_error_response 503 ''SERVICE_DEGRADED'' ''Unable to persist task'')
     | Inr _ \<Rightarrow> (case sync_result of
         Some r \<Rightarrow>
           if se_status r = TIMEOUT
           then returnM (api_error_response 408 ''REQUEST_TIMEOUT'' ''Synchronous execution timed out'')
           else bindE get_clock (\<lambda>now. returnM (JSONResponse 201 (submit_response_json show_time
             \<lparr>sr_task_id = task_id, sr_status = TaskStatus_value (se_status r), sr_estimated_seconds = estimated_seconds,
              sr_result = se_result r, sr_error = se_error r, sr_runtime_ms = se_runtime_ms r, sr_queue = queue_name,
              sr_expires_at = now + seconds (st_task_result_ttl_seconds settings)\<rparr>)))
       | None \<Rightarrow> bindE get_clock (\<lambda>now. returnM (JSONResponse 201 (submit_response_json show_time
             \<lparr>sr_task_id = task_id, sr_status = TaskStatus_value DEFAULT_TASK_STATUS, sr_estimated_seconds = estimated_seconds,
              sr_result = None, sr_error = None, sr_runtime_ms = None, sr_queue = queue_name,
              sr_expires_at = now + seconds (st_task_result_ttl_seconds settings)\<rparr>)))))"

text \<open>The gate the request goes through, with the hash the process keeps and the result of an inline run.\<close>

definition run_gate :: "(json \<Rightarrow> string) \<Rightarrow> AppSettings \<Rightarrow> string \<Rightarrow> AuthUser \<Rightarrow> SubmitTaskRequest \<Rightarrow> uuid \<Rightarrow> int \<Rightarrow>
    string \<Rightarrow> string \<Rightarrow> dict \<Rightarrow> string \<Rightarrow> sync_outcome app" where
  "run_gate rp settings sha current_user payload task_id effective_task_cost idempotency_value trace_id trace_context queue_name =
     (let effective_max_concurrent = max_concurrent_for_tier (st_max_concurrent settings) (au_tier current_user) in
      if is_sync_inline_candidate current_user payload
      then run_sync_submission sha (au_user_id current_user) (au_tier current_user) task_id (sq_x payload) (sq_y payload)
        (sq_model_class payload) effective_task_cost (sq_callback_url payload) idempotency_value
        effective_max_concurrent queue_name (st_sync_execution_timeout_seconds settings)
        (Some (st_reservation_ttl_seconds settings))
      else bindE (run_admission_gate rp sha (au_user_id current_user) task_id effective_task_cost idempotency_value
        effective_max_concurrent
        (Some (admission_payload_of task_id current_user payload effective_task_cost trace_id trace_context))
        (Some (RequestMode_value (sq_mode payload))) (Some queue_name) (Some (st_reservation_ttl_seconds settings)))
        (\<lambda>(dec, new_sha). returnM (dec, new_sha, None)))"

definition submit_task :: "(json \<Rightarrow> string) \<Rightarrow> (int \<Rightarrow> string) \<Rightarrow> AppSettings \<Rightarrow> string \<Rightarrow> AuthUser \<Rightarrow> SubmitTaskRequest \<Rightarrow>
    string option \<Rightarrow> string \<Rightarrow> dict \<Rightarrow> (reply \<times> string) app" where
  "submit_task rp show_time settings sha current_user payload idempotency_header trace_id trace_context =
     bindE (require_scopes current_user [OAuthScope_value TASK_SUBMIT]) (\<lambda>_.
     bindE fresh_uuid (\<lambda>task_id.
     case validated_idempotency_value idempotency_header task_id of
       Inl idempotency_error \<Rightarrow> returnM (idempotency_error, sha)
     | Inr idempotency_value \<Rightarrow>
     let effective_task_cost = task_cost_for_model (st_task_cost settings) (sq_model_class payload);
         estimated_seconds = py_trunc (runtime_seconds_for_model (sq_model_class payload)) in
     (case resolve_queue (au_tier current_user) (sq_mode payload) (sq_model_class payload) of
       Inl _ \<Rightarrow> returnM (api_error_response 400 ''BAD_REQUEST'' ''Invalid request mode for user tier/model'', sha)
     | Inr queue_name \<Rightarrow>
     bindE (attempt (run_gate rp settings sha current_user payload task_id effective_task_cost idempotency_value
       trace_id trace_context queue_name)) (\<lambda>gate. case gate of
       Inl _ \<Rightarrow> returnM (api_error_response 503 ''SERVICE_DEGRADED'' ''Admission gate unavailable'', sha)
     | Inr (dec, new_sha, sync_result) \<Rightarrow>
     bindE (handle_submit_admission_rejection show_time settings payload dec effective_task_cost estimated_seconds)
       (\<lambda>rejection. case rejection of
       Some response \<Rightarrow> returnM (response, new_sha)
     | None \<Rightarrow>
     bindE (acknowledge_submission show_time settings current_user payload task_id effective_task_cost estimated_seconds
       queue_name sync_result) (\<lambda>response. returnM (response, new_sha)))))))"

section \<open>Submitting a batch\<close>

definition batch_rejection_response :: "string \<Rightarrow> reply option" where
  "batch_rejection_response reason =
     (if reason = ''CONCURRENCY'' then Some (api_error_response 429 ''TOO_MANY_REQUESTS'' ''Max concurrent tasks reached'')
      else if reason = ''INSUFFICIENT'' then Some (api_error_response 402 ''INSUFFICIENT_CREDITS'' ''Not enough credits'')
      else if reason \<noteq> ''OK'' then Some (api_error_response 503 ''SERVICE_DEGRADED'' ''Admission gate unavailable'')
      else None)"

text \<open>More identifiers than tasks would be an \<open>IndexError\<close>.\<close>

fun cache_batch_pending_states :: "AppSettings \<Rightarrow> AuthUser \<Rightarrow> int \<Rightarrow> BatchTaskSpec list \<Rightarrow> uuid list \<Rightarrow> unit app" where
  "cache_batch_pending_states settings current_user created_at task_specs [] = returnM ()"
| "cache_batch_pending_states settings current_user created_at [] (task_id # task_ids) = raiseM OtherException ''IndexError''"
| "cache_batch_pending_states settings current_user created_at (spec # specs) (task_id # task_ids) =
     bindE (liftE (resolve_queue (au_tier current_user) BATCH (bt_model_class spec))) (\<lambda>queue_name.
     bindE (write_task_state settings task_id
       [(''status'', Plain (TaskStatus_value DEFAULT_TASK_STATUS)), (''task_id'', Plain (uuid_str task_id)),
        (''user_id'', Plain (uuid_str (au_user_id current_user))), (''x'', Plain (str_of_int (bt_x spec))),
        (''y'', Plain (str_of_int (bt_y spec))),
        (''cost'', Plain (str_of_int (task_cost_for_model (st_task_cost settings) (bt_model_class spec)))),
        (''model_class'', Plain (ModelClass_value (bt_model_class spec))), (''mode'', Plain (RequestMode_value BATCH)),
        (''queue'', Plain queue_name), (''created_at_epoch'', Plain (str_of_int created_at))]) (\<lambda>_.
     cache_batch_pending_states settings current_user created_at specs task_ids))"

definition batch_response_json :: "uuid \<Rightarrow> BatchAdmissionResult \<Rightarrow> json" where
  "batch_response_json batch_id dec = JObj [(''batch_id'', JStr (uuid_str batch_id)),
     (''task_ids'', JArr (map (\<lambda>t. JStr (uuid_str t)) (ba_task_ids dec))), (''total_cost'', JInt (ba_total_cost dec))]"

definition batch_specs :: "BatchSubmitTask list \<Rightarrow> BatchTaskSpec list" where
  "batch_specs tasks = map (\<lambda>t. \<lparr>bt_x = bq_x t, bt_y = bq_y t, bt_model_class = bq_model_class t, bt_callback_url = None\<rparr>) tasks"

definition submit_batch :: "AppSettings \<Rightarrow> string \<Rightarrow> AuthUser \<Rightarrow> BatchSubmitTask list \<Rightarrow> string \<Rightarrow> (reply \<times> string) app" where
  "submit_batch settings sha current_user tasks trace_id =
     bindE (require_scopes current_user [OAuthScope_value TASK_SUBMIT]) (\<lambda>_.
     bindE fresh_uuid (\<lambda>batch_id.
     bindE (attempt (run_batch_admission_gate sha (au_user_id current_user) (au_tier current_user) batch_id
       (batch_specs tasks) (max_concurrent_for_tier (st_max_concurrent settings) (au_tier current_user))
       (st_task_cost settings) (Some (st_reservation_ttl_seconds settings)) (Some trace_id))) (\<lambda>gate. case gate of
       Inl _ \<Rightarrow> returnM (api_error_response 503 ''SERVICE_DEGRADED'' ''Admission gate unavailable'', sha)
     | Inr (dec, new_sha) \<Rightarrow> (case batch_rejection_response (ba_reason dec) of
         Some response \<Rightarrow> returnM (response, new_sha)
       | None \<Rightarrow>
           bindE (attempt (bindE get_clock (\<lambda>now. cache_batch_pending_states settings current_user (epoch now)
             (batch_specs tasks) (ba_task_ids dec)))) (\<lambda>cached. case cached of
             Inl _ \<Rightarrow> returnM (api_error_response 503 ''SERVICE_DEGRADED'' ''Unable to persist task batch'', new_sha)
           | Inr _ \<Rightarrow> returnM (JSONResponse 201 (batch_response_json batch_id dec), new_sha))))))"

section \<open>Cancelling\<close>

record CancelResult =
  cn_user_id :: uuid
  cn_refunded_credits :: int
  cn_queue_name :: "string option"

definition cancel_result :: "uuid \<Rightarrow> int \<Rightarrow> string \<Rightarrow> CancelResult" where
  "cancel_result user_id refunded queue_name =
     \<lparr>cn_user_id = user_id, cn_refunded_credits = refunded, cn_queue_name = Some queue_name\<rparr>"

definition queue_or :: "string \<Rightarrow> TaskCommand \<Rightarrow> string" where
  "queue_or dflt command = (case resolve_queue (tc_tier command) (tc_mode command) (tc_model_class command) of
      Inl _ \<Rightarrow> dflt | Inr q \<Rightarrow> q)"

text \<open>The part of the transaction after both rows were read.\<close>

definition settle_cancel :: "uuid \<Rightarrow> TaskCommand \<Rightarrow> CreditReservation \<Rightarrow> string \<Rightarrow> CancelResult app" where
  "settle_cancel task_id command reservation queue_name =
     (let conflict = raiseM TaskCancellationConflict [] in
     bindE (update_task_command_cancelled task_id) (\<lambda>cancellation_applied.
     if \<not> cancellation_applied then
       bindE (get_task_command task_id) (\<lambda>refreshed. case refreshed of
         None \<Rightarrow> conflict
       | Some c \<Rightarrow> if tc_status c = CANCELLED then returnM (cancel_result (tc_user_id c) 0 queue_name) else conflict)
     else bindE (release_reservation task_id) (\<lambda>released.
     if \<not> released then conflict else
     bindE (add_user_credits (cr_user_id reservation) (cr_amount reservation)) (\<lambda>updated_balance. case updated_balance of
       None \<Rightarrow> raiseM RuntimeError ''cancel_refund_target_missing''
     | Some _ \<Rightarrow>
     bindE (insert_credit_transaction (cr_user_id reservation) (Some task_id) (cr_amount reservation) ''cancel_refund'') (\<lambda>_.
     bindE (create_outbox_event task_id ''task.cancelled''
       (compute_routing_key (tc_mode command) (tc_tier command) (tc_model_class command) @ ''.cancelled'')
       [(''task_id'', JStr (uuid_str task_id)), (''user_id'', JStr (uuid_str (tc_user_id command))),
        (''mode'', JStr (RequestMode_value (tc_mode command))),
        (''tier'', JStr (SubscriptionTier_value (tc_tier command))),
        (''model_class'', JStr (ModelClass_value (tc_model_class command))), (''queue'', JStr queue_name),
        (''cost'', JInt (tc_cost command)), (''status'', JStr (TaskStatus_value CANCELLED)),
        (''credits_refunded'', JInt (cr_amount reservation))]) (\<lambda>_.
     returnM (cancel_result (cr_user_id reservation) (cr_amount reservation) queue_name)))))))"

definition cancel_body :: "uuid \<Rightarrow> string \<Rightarrow> CancelResult app" where
  "cancel_body task_id default_queue_name =
     bindE (get_task_command task_id) (\<lambda>command. case command of
       None \<Rightarrow> raiseM TaskCancellationConflict []
     | Some command \<Rightarrow>
     let queue_name = queue_or default_queue_name command in
     if tc_status command = CANCELLED then returnM (cancel_result (tc_user_id command) 0 queue_name)
     else if \<not> List.member TASK_CANCELLABLE_STATUSES (tc_status command) then raiseM TaskCancellationConflict []
     else bindE (get_credit_reservation task_id) (\<lambda>reservation. case reservation of
       None \<Rightarrow> raiseM TaskCancellationConflict []
     | Some reservation \<Rightarrow> settle_cancel task_id command reservation queue_name))"

definition apply_cancel_transaction :: "uuid \<Rightarrow> string \<Rightarrow> CancelResult app" where
  "apply_cancel_transaction task_id default_queue_name = acquire (transaction (cancel_body task_id default_queue_name))"

definition redis_retry :: "(int \<Rightarrow> real) \<Rightarrow> AppSettings \<Rightarrow> unit app \<Rightarrow> unit app" where
  "redis_retry jitter settings operation = retry_async jitter operation (st_redis_retry_attempts settings)
     (st_redis_retry_base_delay_seconds settings) (st_redis_retry_max_delay_seconds settings) 2"

definition sync_cancel_state_to_redis :: "(int \<Rightarrow> real) \<Rightarrow> AppSettings \<Rightarrow> uuid \<Rightarrow> uuid \<Rightarrow> string option \<Rightarrow> unit app" where
  "sync_cancel_state_to_redis jitter settings task_id task_user_id queue_name =
     bindE (redis_retry jitter settings (bindE get_clock (\<lambda>now. redis_hset (task_state_key task_id)
       [(''status'', Plain (TaskStatus_value CANCELLED)), (''user_id'', Plain (uuid_str task_user_id)),
        (''queue'', Plain (case queue_name of None \<Rightarrow> [] | Some q \<Rightarrow> q)), (''error'', Plain []),
        (''completed_at_epoch'', Plain (str_of_int (epoch now)))]))) (\<lambda>_.
     redis_retry jitter settings (redis_expire (task_state_key task_id) (st_redis_task_state_ttl_seconds settings)))"

definition enqueue_cancel_webhook :: "AppSettings \<Rightarrow> uuid \<Rightarrow> uuid \<Rightarrow> unit app" where
  "enqueue_cancel_webhook settings task_id task_user_id =
     (if \<not> st_webhook_enabled settings then returnM () else
      bindE (attempt (
        bindE (build_terminal_webhook_event task_user_id task_id (TaskStatus_value CANCELLED) None None) (\<lambda>event.
        enqueue_terminal_webhook_event (st_webhook_queue_key settings) event (Some (st_webhook_queue_maxlen settings)))))
      (\<lambda>_. returnM ()))"

definition cancel_task :: "(int \<Rightarrow> real) \<Rightarrow> AppSettings \<Rightarrow> AuthUser \<Rightarrow> uuid \<Rightarrow> reply app" where
  "cancel_task jitter settings current_user task_id =
     bindE (require_scopes current_user [OAuthScope_value TASK_CANCEL]) (\<lambda>_.
     let not_found = returnM (api_error_response 404 ''NOT_FOUND'' ''Task not found'');
         unavailable = returnM (api_error_response 503 ''SERVICE_DEGRADED'' ''Service temporarily unavailable'');
         conflict = returnM (api_error_response 409 ''CONFLICT'' ''Task is not cancellable'') in
     bindE (attempt (get_task_command task_id)) (\<lambda>looked_up. case looked_up of
       Inl _ \<Rightarrow> unavailable
     | Inr None \<Rightarrow> not_found
     | Inr (Some command) \<Rightarrow>
     if au_role current_user \<noteq> ADMIN \<and> tc_user_id command \<noteq> au_user_id current_user then not_found
     else if tc_status command = CANCELLED then
       bindE (sync_cancel_state_to_redis jitter settings task_id (tc_user_id command)
         (case resolve_queue (tc_tier command) (tc_mode command) (tc_model_class command) of
            Inl _ \<Rightarrow> None | Inr q \<Rightarrow> Some q)) (\<lambda>_.
       returnM (JSONResponse 200 (cancel_response_json task_id 0)))
     else if \<not> List.member TASK_CANCELLABLE_STATUSES (tc_status command) then conflict
     else bindE (attempt (
         bindE (apply_cancel_transaction task_id (queue_or ''queue.batch'' command)) (\<lambda>result.
         bindE (sync_cancel_state_to_redis jitter settings task_id (cn_user_id result) (cn_queue_name result)) (\<lambda>_.
         returnM result)))) (\<lambda>outcome. case outcome of
         Inl e \<Rightarrow> if exn_kind e = TaskCancellationConflict then conflict else unavailable
       | Inr result \<Rightarrow>
           bindE (enqueue_cancel_webhook settings task_id (cn_user_id result)) (\<lambda>_.
           returnM (JSONResponse 200 (cancel_response_json task_id (cn_refunded_credits result)))))))"

section \<open>Retries are bounded\<close>

text \<open>
  \<open>tries m n w r w'\<close>: \<open>n\<close> runs of \<open>m\<close>, all but the last of which raised, the last with the outcome \<open>r\<close>,
  with a pause of at most \<open>longest\<close> seconds before each further run.
\<close>

inductive tries :: "('d, 'k, 'a) io \<Rightarrow> real \<Rightarrow> nat \<Rightarrow> ('d, 'k) world \<Rightarrow> exn + 'a \<Rightarrow> ('d, 'k) world \<Rightarrow> bool"
  for m longest where
  last: "m w = (r, w') \<Longrightarrow> tries m longest 1 w r w'"
| again: "m w = (Inl e, w1) \<Longrightarrow> w2 = w1\<lparr>clock := c\<rparr> \<Longrightarrow> clock w1 \<le> c \<Longrightarrow>
    c \<le> clock w1 + microseconds longest \<Longrightarrow> tries m longest n w2 r w' \<Longrightarrow> tries m longest (Suc n) w r w'"

lemma retry_loop_again:
  assumes "m w = (Inl e, w1)" "n < attempts"
  shows "retry_loop jitter m attempts mx mult n delay w =
    retry_loop jitter m attempts mx mult (n + 1) (min mx (delay * mult))
      (if 0 < delay then w1\<lparr>clock := clock w1 + max 0 (microseconds (min delay mx * jitter n))\<rparr> else w1)"
  using assms by (subst retry_loop.simps)
    (simp add: bindE_attempt bindE_sleep_seconds bindE_pure)

lemma retry_pause:
  assumes "0 \<le> mx" "0 \<le> jitter n" "jitter n \<le> (3 / 2 :: real)"
  shows "max 0 (microseconds (min delay mx * jitter n)) \<le> microseconds (3 / 2 * mx)"
proof -
  have "min delay mx * jitter n \<le> mx * jitter n" using assms(2) by (intro mult_right_mono) auto
  also have "\<dots> \<le> mx * (3 / 2)" using assms(1,3) by (intro mult_left_mono) auto
  finally have "microseconds (min delay mx * jitter n) \<le> microseconds (3 / 2 * mx)"
    unfolding microseconds_def by (intro floor_mono) (simp add: mult.commute)
  moreover have "0 \<le> microseconds (3 / 2 * mx)" using assms(1) by (simp add: microseconds_def)
  ultimately show ?thesis by simp
qed

lemma retry_loop_tries:
  assumes mx: "0 \<le> mx" and jitter: "\<And>i. 0 \<le> jitter i \<and> jitter i \<le> 3 / 2"
    and run: "retry_loop jitter m attempts mx mult n delay w = (r, w')" and n: "n \<le> attempts"
  shows "\<exists>k. tries m (3 / 2 * mx) k w r w' \<and> int k \<le> attempts - n + 1 \<and> (isl r \<longrightarrow> int k = attempts - n + 1)"
  using run n
proof (induction "nat (attempts - n)" arbitrary: n delay w)
  case 0
  obtain x w1 where m: "m w = (x, w1)" by fastforce
  from 0 have "attempts \<le> n" by simp
  with 0(2) m have "r = x \<and> w' = w1"
    by (subst (asm) retry_loop.simps) (cases x; simp add: bindE_attempt returnM_def liftE_def)
  with m have "tries m (3 / 2 * mx) 1 w r w'" by (intro tries.last) simp
  with 0 show ?case by (intro exI [of _ 1]) auto
next
  case (Suc j)
  obtain x w1 where m: "m w = (x, w1)" by fastforce
  show ?case
  proof (cases x)
    case (Inr a)
    with Suc.prems(1) m have "r = Inr a \<and> w' = w1"
      by (subst (asm) retry_loop.simps) (simp add: bindE_attempt returnM_def)
    with m Inr have "tries m (3 / 2 * mx) 1 w r w'" by (intro tries.last) simp
    with Suc.prems(2) \<open>r = Inr a \<and> w' = w1\<close> show ?thesis by (intro exI [of _ 1]) auto
  next
    case (Inl e)
    have less: "n < attempts" using Suc.hyps(2) by simp
    define c where "c = (if 0 < delay then clock w1 + max 0 (microseconds (min delay mx * jitter n)) else clock w1)"
    have c: "clock w1 \<le> c \<and> c \<le> clock w1 + microseconds (3 / 2 * mx)"
      using retry_pause [OF mx, of jitter n delay] jitter [of n] mx by (auto simp: c_def microseconds_def)
    have "retry_loop jitter m attempts mx mult (n + 1) (min mx (delay * mult)) (w1\<lparr>clock := c\<rparr>) = (r, w')"
      using retry_loop_again [of m w e w1 n attempts jitter mx mult delay] Suc.prems(1) m Inl less
      by (simp add: c_def split: if_splits)
    from Suc.hyps(1) [OF _ this] Suc.hyps(2) less
    obtain k where k: "tries m (3 / 2 * mx) k (w1\<lparr>clock := c\<rparr>) r w'" "int k \<le> attempts - n"
      "isl r \<longrightarrow> int k = attempts - n" by fastforce
    have "tries m (3 / 2 * mx) (Suc k) w r w'"
      by (rule tries.again [of m w e w1 _ c]) (use m Inl c k(1) in simp_all)
    with k show ?thesis by (intro exI [of _ "Suc k"]) auto
  qed
qed

lemma retry_async_tries:
  assumes "1 \<le> attempts" "0 \<le> base" "0 \<le> mx" "1 \<le> mult" "\<And>i. 0 \<le> jitter i \<and> jitter i \<le> 3 / 2"
    and "retry_async jitter m attempts base mx mult w = (r, w')"
  shows "\<exists>n. tries m (3 / 2 * mx) n w r w' \<and> int n \<le> attempts \<and> (isl r \<longrightarrow> int n = attempts)"
proof -
  from assms have "retry_loop jitter m attempts mx mult 1 base w = (r, w')" by (simp add: retry_async_def)
  from retry_loop_tries [OF assms(3,5) this] assms(1) show ?thesis by auto
qed

section \<open>What a cancellation does\<close>

text \<open>Both parts of the caching leave the database alone.\<close>

lemma keeps_retry_loop [keeps_rules]: "keeps I m \<Longrightarrow> keeps I (retry_loop jitter m attempts mx mult n delay)"
proof (induction jitter m attempts mx mult n delay rule: retry_loop.induct)
  case (1 jitter m attempts mx mult n delay)
  show ?case
    by (subst retry_loop.simps) (intro keeps_rules 1)
qed

lemma keeps_sync_cancel [keeps_rules]: "keeps I (sync_cancel_state_to_redis jitter settings t u q)"
  unfolding sync_cancel_state_to_redis_def redis_retry_def retry_async_def by (intro keeps_rules)

lemma keeps_enqueue_cancel [keeps_rules]: "keeps I (enqueue_cancel_webhook settings t u)"
  unfolding enqueue_cancel_webhook_def build_terminal_webhook_event_def enqueue_terminal_webhook_event_def
  by (intro keeps_rules)

definition cancelled_already :: "uuid \<Rightarrow> s2db \<Rightarrow> bool" where
  "cancelled_already t d \<longleftrightarrow> (\<exists>u n. task_state d t = Some (u, n, CANCELLED))"

lemma outbox_appendE:
  assumes "create_outbox_event agg ty rk p w = (Inr i, w')"
  obtains e where "pg w' = (pg w)\<lparr>outbox_events := outbox_events (pg w) @ [e]\<rparr>"
    "lookup_row oe_event_id (oe_event_id e) (outbox_events (pg w)) = None"
  using create_outbox_okE [OF assms] by metis

lemma settle_cancel_ok:
  assumes inv: "s2_inv (pg w)" and c: "find_command (pg w) t = Some c" "task_active (tc_status c)"
    and r: "find_reservation (pg w) t = Some r" and run: "settle_cancel t c r q w = (Inr res, w')"
  shows "settled CANCELLED t (pg w) (pg w') \<and> cn_refunded_credits res = cr_amount r"
proof -
  have hit: "count_rows (\<lambda>c. tc_task_id c = t \<and> (tc_status c = PENDING \<or> tc_status c = RUNNING))
      (task_commands (pg w)) = 1"
    using count_status_one [OF inv c(1), of "\<lambda>s. s = PENDING \<or> s = RUNNING"] c(2) by (simp add: task_active_def)
  from run inv hit show ?thesis
    unfolding settle_cancel_def status_statements settle_statements Let_def
    by (auto elim!: settle_elims outbox_appendE simp: cancel_result_def split: if_splits option.splits)
      (rule refunded_settled [OF inv _ _ _ r], (assumption |
        (simp add: task_active_def s2_inv_def keyed_append users_set_credits; fail))+)
qed

lemma cancel_body_ok:
  assumes inv: "s2_inv (pg w)" and run: "cancel_body t q w = (Inr res, w')"
  shows "pg w' = pg w \<and> cancelled_already t (pg w) \<and> cn_refunded_credits res = 0 \<or>
    settled CANCELLED t (pg w) (pg w') \<and> (\<exists>u s. task_state (pg w) t = Some (u, cn_refunded_credits res, s))"
proof -
  obtain x w1 where read: "get_task_command t w = (Inr x, w1)"
    and rest: "(case x of None \<Rightarrow> raiseM TaskCancellationConflict [] | Some command \<Rightarrow>
       if tc_status command = CANCELLED then returnM (cancel_result (tc_user_id command) 0 (queue_or q command))
       else if \<not> List.member TASK_CANCELLABLE_STATUSES (tc_status command) then raiseM TaskCancellationConflict []
       else bindE (get_credit_reservation t) (\<lambda>reservation. case reservation of
         None \<Rightarrow> raiseM TaskCancellationConflict []
       | Some reservation \<Rightarrow> settle_cancel t command reservation (queue_or q command))) w1 = (Inr res, w')"
    using run unfolding cancel_body_def Let_def by (elim bindE_okE) blast
  from read have x: "x = find_command (pg w) t" "pg w1 = pg w" by (auto elim: get_task_command_okE)
  with rest obtain c where c: "find_command (pg w) t = Some c" by (cases "find_command (pg w) t") simp_all
  then have state: "task_state (pg w) t = Some (tc_user_id c, tc_cost c, tc_status c)" by (simp add: task_state_def)
  show ?thesis
  proof (cases "tc_status c = CANCELLED")
    case True
    with rest x c have "pg w' = pg w" "res = cancel_result (tc_user_id c) 0 (queue_or q c)" by auto
    with True state show ?thesis by (simp add: cancelled_already_def cancel_result_def)
  next
    case False
    with rest x c have active: "task_active (tc_status c)"
      by (auto simp: TASK_CANCELLABLE_STATUSES_def task_active_def split: if_splits)
    obtain r where r: "find_reservation (pg w) t = Some r" "cr_amount r = tc_cost c"
      using settled_reservation [OF inv c active] by metis
    from rest x c False r obtain w2 where "pg w2 = pg w" "settle_cancel t c r (queue_or q c) w2 = (Inr res, w')"
      by (auto elim!: bindE_okE get_credit_reservation_okE split: if_splits option.splits)
    with settle_cancel_ok [of w2 t c r "queue_or q c" res w'] inv c active r state show ?thesis by auto
  qed
qed

lemma apply_cancel_outcome:
  assumes inv: "s2_inv (pg w)" and run: "apply_cancel_transaction t q w = (r, w')"
  shows "pg w' = pg w \<and> (\<forall>res. r = Inr res \<longrightarrow> cancelled_already t (pg w) \<and> cn_refunded_credits res = 0) \<or>
    settled CANCELLED t (pg w) (pg w') \<and>
      (\<forall>res. r = Inr res \<longrightarrow> (\<exists>u s. task_state (pg w) t = Some (u, cn_refunded_credits res, s)))"
  using run unfolding apply_cancel_transaction_def
proof (cases rule: in_transaction)
  case (undone e)
  then show ?thesis by simp
next
  case (ran res fs w1)
  from cancel_body_ok [of "w\<lparr>faults := fs\<rparr>" t q res w1] ran inv show ?thesis by auto
qed

lemma require_scopes_cases:
  assumes "bindE (require_scopes user scopes) f w = (r, w')"
  obtains (refused) e where "r = Inl e" "exn_kind e = HTTPException 403" "w' = w"
    | (allowed) "f () w = (r, w')" "set scopes \<subseteq> set (au_scopes user)"
proof (cases "sort (remdups (filter (\<lambda>s. \<not> List.member (au_scopes user) s) scopes))")
  case Nil
  then have "filter (\<lambda>s. \<not> List.member (au_scopes user) s) scopes = []"
    by (metis remdups_eq_nil_iff set_sort set_empty)
  then have "set scopes \<subseteq> set (au_scopes user)" by (auto simp: filter_empty_conv)
  with assms Nil allowed show thesis by (simp add: require_scopes_def bindE_pure)
next
  case (Cons m ms)
  with assms have "r = Inl (Exn (HTTPException 403) (''Missing required scope: '' @ m))" "w' = w"
    by (auto simp: require_scopes_def bindE_def raiseM_def)
  with refused show thesis by simp
qed

text \<open>What a cancellation leaves behind: nothing, or the task settled; \<open>k\<close> is the refund it reports.\<close>

definition cancellation :: "uuid \<Rightarrow> int \<Rightarrow> s2db \<Rightarrow> s2db \<Rightarrow> bool" where
  "cancellation t k d d' \<longleftrightarrow> d' = d \<and> cancelled_already t d \<and> k = 0 \<or>
     settled CANCELLED t d d' \<and> (\<exists>u s. task_state d t = Some (u, k, s))"

definition may_cancel :: "AuthUser \<Rightarrow> uuid \<Rightarrow> s2db \<Rightarrow> bool" where
  "may_cancel user t d \<longleftrightarrow> ''task:cancel'' \<in> set (au_scopes user) \<and>
     (au_role user = ADMIN \<or> (\<exists>n s. task_state d t = Some (au_user_id user, n, s)))"

definition cancel_answer :: "AuthUser \<Rightarrow> uuid \<Rightarrow> s2db \<Rightarrow> s2db \<Rightarrow> exn + reply \<Rightarrow> bool" where
  "cancel_answer user t d d' r \<longleftrightarrow>
     (d' = d \<or> settled CANCELLED t d d' \<and> may_cancel user t d) \<and>
     (\<forall>body. r = Inr (JSONResponse 200 body) \<longrightarrow>
        may_cancel user t d \<and> (\<exists>k. body = cancel_response_json t k \<and> cancellation t k d d')) \<and>
     (\<forall>body. r = Inr (JSONResponse 404 body) \<longrightarrow> d' = d)"

lemma enqueue_cancel_returns:
  "\<exists>w'. enqueue_cancel_webhook settings t u w = (Inr (), w') \<and> pg w' = pg w"
proof -
  have "fst (enqueue_cancel_webhook settings t u w) = Inr ()"
    by (simp add: enqueue_cancel_webhook_def bindE_attempt returnM_def)
  moreover have "pg (snd (enqueue_cancel_webhook settings t u w)) = pg w"
    by (intro keeps_pg keeps_enqueue_cancel)
  ultimately show ?thesis by (cases "enqueue_cancel_webhook settings t u w") auto
qed

lemma sync_cancel_run: "sync_cancel_state_to_redis jitter settings t u q w = (r, w') \<Longrightarrow> pg w' = pg w"
  using keeps_pg [of "sync_cancel_state_to_redis jitter settings t u q" w] by (simp add: keeps_sync_cancel)

lemma sync_cancel_then:
  assumes "bindE (sync_cancel_state_to_redis jitter settings t u q) (\<lambda>_. returnM z) w = (r, w')"
  shows "pg w' = pg w \<and> (\<forall>x. r = Inr x \<longrightarrow> x = z)"
  using assms by (cases rule: bindE_cases) (auto simp: returnM_def dest: sync_cancel_run)

text \<open>The part behind the checks.\<close>

lemma cancel_settles:
  assumes inv: "s2_inv (pg w)" and may: "may_cancel user t (pg w)"
    and run: "bindE (attempt (
         bindE (apply_cancel_transaction t q) (\<lambda>result.
         bindE (sync_cancel_state_to_redis jitter settings t (cn_user_id result) (cn_queue_name result)) (\<lambda>_.
         returnM result)))) (\<lambda>outcome. case outcome of
         Inl e \<Rightarrow> if exn_kind e = TaskCancellationConflict
           then returnM (api_error_response 409 ''CONFLICT'' ''Task is not cancellable'')
           else returnM (api_error_response 503 ''SERVICE_DEGRADED'' ''Service temporarily unavailable'')
       | Inr result \<Rightarrow> bindE (enqueue_cancel_webhook settings t (cn_user_id result)) (\<lambda>_.
           returnM (JSONResponse 200 (cancel_response_json t (cn_refunded_credits result))))) w = (r, w')"
  shows "cancel_answer user t (pg w) (pg w') r"
proof -
  let ?both = "bindE (apply_cancel_transaction t q) (\<lambda>result.
       bindE (sync_cancel_state_to_redis jitter settings t (cn_user_id result) (cn_queue_name result)) (\<lambda>_.
       returnM result))"
  obtain x w1 where tr: "?both w = (x, w1)" by fastforce
  obtain y w0 where tx: "apply_cancel_transaction t q w = (y, w0)" by fastforce
  have w1: "pg w1 = pg w0 \<and> (\<forall>res. x = Inr res \<longrightarrow> y = Inr res)" using tr
  proof (cases rule: bindE_cases)
    case (raised e)
    with tx show ?thesis by simp
  next
    case (ran res v)
    with tx have "y = Inr res" "v = w0" by simp_all
    with sync_cancel_then [OF ran(2)] show ?thesis by simp
  qed
  note out = apply_cancel_outcome [OF inv tx]
  show ?thesis
  proof (cases x)
    case (Inl e)
    with run tr have "w' = w1" "\<exists>reply. r = Inr reply \<and> reply_status reply \<in> {409, 503}"
      by (auto simp: bindE_attempt returnM_def api_error_response_def error_response_def split: if_splits)
    with w1 out may show ?thesis by (auto simp: cancel_answer_def)
  next
    case (Inr res)
    obtain w2 where enq: "enqueue_cancel_webhook settings t (cn_user_id res) w1 = (Inr (), w2)" "pg w2 = pg w1"
      using enqueue_cancel_returns by blast
    from run tr Inr have "bindE (enqueue_cancel_webhook settings t (cn_user_id res)) (\<lambda>_.
        returnM (JSONResponse 200 (cancel_response_json t (cn_refunded_credits res)))) w1 = (r, w')"
      by (simp add: bindE_attempt)
    then have "r = Inr (JSONResponse 200 (cancel_response_json t (cn_refunded_credits res)))" "pg w' = pg w0"
      using enq(2) w1
      by (auto simp: bindE_ran [of "enqueue_cancel_webhook settings t (cn_user_id res)", OF enq(1)] returnM_def)
    moreover have "cancellation t (cn_refunded_credits res) (pg w) (pg w0)"
      using out w1 Inr unfolding cancellation_def by auto
    ultimately show ?thesis using may unfolding cancel_answer_def cancellation_def by auto
  qed
qed

lemma cancel_task_answer:
  assumes inv: "s2_inv (pg w)" and run: "cancel_task jitter settings user t w = (r, w')"
  shows "cancel_answer user t (pg w) (pg w') r"
  using run unfolding cancel_task_def Let_def
proof (cases rule: require_scopes_cases)
  case (refused e)
  then show ?thesis by (auto simp: cancel_answer_def)
next
  case allowed
  then have scope: "''task:cancel'' \<in> set (au_scopes user)" by simp
  obtain x w1 where read: "get_task_command t w = (x, w1)" by fastforce
  have w1: "pg w1 = pg w" using read keeps_pg [of "get_task_command t" w] by (simp add: keeps_reads)
  show ?thesis
  proof (cases "\<exists>c. x = Inr (Some c) \<and> (au_role user = ADMIN \<or> tc_user_id c = au_user_id user)")
    case False
    with allowed(1) read have "w' = w1" "\<exists>reply. r = Inr reply \<and> reply_status reply \<in> {404, 503}"
      by (auto simp: bindE_attempt returnM_def api_error_response_def error_response_def split: sum.splits option.splits if_splits)
    with w1 show ?thesis by (auto simp: cancel_answer_def)
  next
    case True
    then obtain c where c: "x = Inr (Some c)" "au_role user = ADMIN \<or> tc_user_id c = au_user_id user" by blast
    with read have found: "find_command (pg w) t = Some c" by (auto elim: get_task_command_okE)
    then have state: "task_state (pg w) t = Some (tc_user_id c, tc_cost c, tc_status c)" by (simp add: task_state_def)
    with c scope have may: "may_cancel user t (pg w)" by (auto simp: may_cancel_def)
    show ?thesis
    proof (cases "tc_status c = CANCELLED")
      case True
      with allowed(1) read c obtain q where "bindE (sync_cancel_state_to_redis jitter settings t (tc_user_id c) q)
          (\<lambda>_. returnM (JSONResponse 200 (cancel_response_json t 0))) w1 = (r, w')"
        by (auto simp: bindE_attempt)
      note same = sync_cancel_then [OF this]
      have "cancellation t 0 (pg w) (pg w')"
        using same state True w1 by (simp add: cancellation_def cancelled_already_def)
      with same may w1 show ?thesis unfolding cancel_answer_def by auto
    next
      case active: False
      show ?thesis
      proof (cases "List.member TASK_CANCELLABLE_STATUSES (tc_status c)")
        case True
        with allowed(1) read c active w1 inv may show ?thesis
          by (intro cancel_settles [of w1, unfolded w1]) (auto simp: bindE_attempt split: if_splits)
      next
        case False
        with allowed(1) read c active w1 show ?thesis
          by (auto simp: bindE_attempt cancel_answer_def returnM_def api_error_response_def error_response_def)
      qed
    qed
  qed
qed

section \<open>What a submission does\<close>

definition json_field :: "json \<Rightarrow> string \<Rightarrow> json option" where
  "json_field body k = (case body of JObj d \<Rightarrow> dict_get d k | _ \<Rightarrow> None)"

definition request_key :: "string option \<Rightarrow> uuid \<Rightarrow> string" where
  "request_key idempotency_header task_id = (case idempotency_header of None \<Rightarrow> uuid_str task_id | Some h \<Rightarrow> strip h)"

text \<open>What each answer to a request that is not run inline says about the database before and after.\<close>

definition submit_answer :: "uuid \<Rightarrow> int \<Rightarrow> int \<Rightarrow> SubmitTaskRequest \<Rightarrow> string option \<Rightarrow> int \<Rightarrow> s2db \<Rightarrow> s2db \<Rightarrow>
    exn + reply \<times> string \<Rightarrow> bool" where
  "submit_answer u cost limit payload header now d d' r \<longleftrightarrow>
     (d' = d \<or> (\<exists>t. admitted now u t cost (request_key header t) limit d d')) \<and>
     (\<forall>body sha. r = Inr (JSONResponse 201 body, sha) \<longrightarrow>
        (\<exists>t. admitted now u t cost (request_key header t) limit d d' \<and>
           json_field body ''task_id'' = Some (JStr (uuid_str t)) \<and> json_field body ''status'' = Some (JStr ''PENDING''))) \<and>
     (\<forall>body sha. r = Inr (JSONResponse 402 body, sha) \<longrightarrow> spendable d u < cost) \<and>
     (\<forall>body sha. r = Inr (JSONResponse 200 body, sha) \<longrightarrow>
        (\<exists>t c. find_by_idempotency d' u (request_key header t) = Some c \<and> same_request c payload cost \<and>
           json_field body ''task_id'' = Some (JStr (uuid_str (tc_task_id c)))))"

lemma submit_answer_refused:
  "(\<And>n body sha. r = Inr (JSONResponse n body, sha) \<Longrightarrow> n \<notin> {200, 201, 402}) \<Longrightarrow>
    submit_answer u cost limit payload header now d d r"
  by (force simp: submit_answer_def)

lemma keeps_write_task_state [keeps_rules]: "keeps I (write_task_state settings t m)"
  unfolding write_task_state_def by (intro keeps_rules)

lemma acknowledge_answer:
  assumes "acknowledge_submission show_time settings user payload t cost secs q None w = (r, w')"
  shows "pg w' = pg w \<and> (\<exists>reply. r = Inr reply \<and> (reply_status reply = 503 \<or> reply_status reply = 201 \<and>
    json_field (reply_body reply) ''task_id'' = Some (JStr (uuid_str t)) \<and>
    json_field (reply_body reply) ''status'' = Some (JStr ''PENDING'')))"
proof -
  let ?cache = "bindE get_clock (\<lambda>now. write_task_state settings t (submitted_state t user payload cost q now None))"
  obtain x w1 where cache: "?cache w = (x, w1)" by fastforce
  have "pg (snd (?cache w)) = pg w" by (intro keeps_pg keeps_rules)
  with cache assms show ?thesis
    by (cases x) (auto simp: acknowledge_submission_def bindE_attempt bindE_pure returnM_def api_error_response_def
        error_response_def submit_response_json_def json_field_def DEFAULT_TASK_STATUS_def)
qed

lemma existing_command:
  assumes "s2_inv d" "find_by_idempotency d u i = Some c"
  shows "find_command d (tc_task_id c) = Some c"
proof -
  have "c \<in> set (task_commands d)" using assms(2) by (auto simp: find_by_idempotency_def find_Some_iff)
  moreover have "keyed tc_task_id (task_commands d)" using assms(1) by (simp add: s2_inv_def ledger_ok_def)
  ultimately show ?thesis by (simp add: find_command_def lookup_row_member)
qed

lemma rejection_answer:
  assumes inv: "s2_inv (pg w)" and dec: "admission_answer now u t n i m d (pg w) dec"
    and run: "handle_submit_admission_rejection show_time settings payload dec cost secs w = (r, w')"
  shows "pg w' = pg w \<and> (r = Inr None \<longleftrightarrow> ad_ok dec) \<and>
    (\<forall>body. r = Inr (Some (JSONResponse 402 body)) \<longrightarrow> ad_reason dec = ''INSUFFICIENT'') \<and>
    (\<forall>body. r \<noteq> Inr (Some (JSONResponse 201 body))) \<and>
    (\<forall>body. r = Inr (Some (JSONResponse 200 body)) \<longrightarrow> (\<exists>c. find_by_idempotency (pg w) u i = Some c \<and>
       same_request c payload cost \<and> json_field body ''task_id'' = Some (JStr (uuid_str (tc_task_id c)))))"
proof (cases "ad_ok dec \<or> ad_reason dec \<noteq> ''IDEMPOTENT''")
  case True
  with run show ?thesis
    by (auto simp: handle_submit_admission_rejection_def returnM_def api_error_response_def error_response_def
        split: if_splits)
next
  case False
  then obtain c where c: "find_by_idempotency (pg w) u i = Some c"
    "ad_existing_task_id dec = Some (uuid_str (tc_task_id c))"
    using dec by (auto simp: admission_answer_def)
  obtain x w1 where read: "get_task_command (tc_task_id c) w = (x, w1)" by fastforce
  have w1: "pg w1 = pg w" using read keeps_pg [of "get_task_command (tc_task_id c)" w] by (simp add: keeps_reads)
  have found: "x = Inr (Some c)" if "x = Inr y" for y
    using read existing_command [OF inv c(1)] that by (auto elim: get_task_command_okE)
  show ?thesis
  proof (cases x)
    case (Inl e)
    with run False c read w1 show ?thesis
      by (auto simp: handle_submit_admission_rejection_def uuid_roundtrip bindE_pure bindE_attempt returnM_def
          api_error_response_def error_response_def)
  next
    case (Inr y)
    with run False c read w1 found show ?thesis
      by (auto simp: handle_submit_admission_rejection_def uuid_roundtrip bindE_pure bindE_attempt returnM_def
          api_error_response_def error_response_def submit_response_json_def json_field_def split: if_splits sum.splits)
  qed
qed

text \<open>From the gate's decision to the answer.\<close>

lemma gate_to_answer:
  assumes inv: "s2_inv (pg v1)"
    and dec: "admission_answer now u t cost (request_key header t) limit d (pg v1) dec"
    and run: "bindE (handle_submit_admission_rejection show_time settings payload dec cost secs)
       (\<lambda>rejection. case rejection of
         Some response \<Rightarrow> returnM (response, new_sha)
       | None \<Rightarrow> bindE (acknowledge_submission show_time settings user payload t cost secs q None)
           (\<lambda>response. returnM (response, new_sha))) v1 = (r, w')"
  shows "submit_answer u cost limit payload header now d (pg w') r"
proof -
  obtain x v2 where rej: "handle_submit_admission_rejection show_time settings payload dec cost secs v1 = (x, v2)"
    by fastforce
  note a = rejection_answer [OF inv dec rej]
  have book: "pg v1 = d \<or> admitted now u t cost (request_key header t) limit d (pg v1)"
    using dec by (auto simp: admission_answer_def split: if_splits)
  show ?thesis
  proof (cases "x = Inr None")
    case True
    obtain y v3 where ack: "acknowledge_submission show_time settings user payload t cost secs q None v2 = (y, v3)"
      by fastforce
    from acknowledge_answer [OF this] obtain reply where y: "pg v3 = pg v2" "y = Inr reply"
      "reply_status reply = 503 \<or> reply_status reply = 201 \<and>
        json_field (reply_body reply) ''task_id'' = Some (JStr (uuid_str t)) \<and>
        json_field (reply_body reply) ''status'' = Some (JStr ''PENDING'')" by blast
    with run rej ack True have r: "r = Inr (reply, new_sha)" "w' = v3"
      by (auto simp: bindE_def returnM_def)
    have "admitted now u t cost (request_key header t) limit d (pg v1)"
      using a True dec by (simp add: admission_answer_def)
    with r y a show ?thesis by (auto simp: submit_answer_def)
  next
    case False
    with run rej have r: "w' = v2" "r = (case x of Inl e \<Rightarrow> Inl e | Inr y \<Rightarrow> Inr (the y, new_sha))"
      by (auto simp: bindE_def returnM_def split: sum.splits option.splits)
    have "spendable d u < cost" if "ad_reason dec = ''INSUFFICIENT''"
      using dec that by (simp add: admission_answer_def)
    with r a book False show ?thesis
      by (cases x) (auto simp: submit_answer_def)
  qed
qed

lemma submit_task_answer:
  assumes inv: "s2_inv (pg w)" and async: "\<not> is_sync_inline_candidate user payload"
    and run: "submit_task rp show_time settings sha user payload header trace ctx w = (r, w')"
  shows "submit_answer (au_user_id user) (task_cost_for_model (st_task_cost settings) (sq_model_class payload))
    (max_concurrent_for_tier (st_max_concurrent settings) (au_tier user)) payload header (clock w) (pg w) (pg w') r"
  (is "submit_answer ?u ?cost ?limit payload header (clock w) (pg w) (pg w') r")
  using run unfolding submit_task_def Let_def
proof (cases rule: require_scopes_cases)
  case (refused e)
  then show ?thesis by (auto intro: submit_answer_refused)
next
  case allowed
  obtain t v where fresh: "fresh_uuid w = (Inr t, v)" by (cases "entropy w") (simp_all add: fresh_uuid_def)
  then have v: "pg v = pg w" "clock v = clock w" by (auto elim: fresh_uuid_okE)
  note rest = allowed(1) [unfolded bindE_ran [of fresh_uuid, OF fresh]]
  show ?thesis
  proof (cases "validated_idempotency_value header t")
    case (Inl e)
    with rest have "w' = v" "r = Inr (e, sha)" by (auto simp: returnM_def)
    moreover have "reply_status e = 400" using Inl
      by (auto simp: validated_idempotency_value_def Let_def api_error_response_def error_response_def
          split: option.splits if_splits)
    ultimately show ?thesis using v by (auto intro!: submit_answer_refused)
  next
    case (Inr i)
    then have i: "i = request_key header t"
      by (auto simp: validated_idempotency_value_def request_key_def Let_def split: option.splits if_splits)
    show ?thesis
    proof (cases "resolve_queue (au_tier user) (sq_mode payload) (sq_model_class payload)")
      case (Inl e)
      with rest Inr have "w' = v" "r = Inr (api_error_response 400 ''BAD_REQUEST'' ''Invalid request mode for user tier/model'', sha)"
        by (auto simp: returnM_def)
      then show ?thesis using v by (auto intro!: submit_answer_refused simp: api_error_response_def error_response_def)
    next
      case lane: (Inr q)
      let ?gate = "run_admission_gate rp sha ?u t ?cost i ?limit
        (Some (admission_payload_of t user payload ?cost trace ctx)) (Some (RequestMode_value (sq_mode payload)))
        (Some q) (Some (st_reservation_ttl_seconds settings))"
      obtain x v1 where gate: "?gate v = (x, v1)" by fastforce
      have "0 \<le> ?cost" using task_cost_pos [of "st_task_cost settings" "sq_model_class payload"] by simp
      from run_admission_gate_answer [OF _ this gate] inv v i obtain dec s where x: "x = Inr (dec, s)"
        "admission_answer (clock w) ?u t ?cost (request_key header t) ?limit (pg w) (pg v1) dec" by auto
      from x(2) have "pg v1 = pg w \<or>
          admitted (clock w) ?u t ?cost (request_key header t) ?limit (pg w) (pg v1)"
        by (cases "ad_ok dec") (simp_all add: admission_answer_def)
      then have "s2_inv (pg v1)"
        using inv admitted_conserves [THEN conserves_inv] by metis
      moreover have "run_gate rp settings sha user payload t ?cost i trace ctx q v = (Inr (dec, s, None), v1)"
        using gate x(1) async by (simp add: run_gate_def bindE_def returnM_def)
      ultimately show ?thesis
        using rest Inr lane x(2) by (intro gate_to_answer) (auto simp: bindE_attempt)
    qed
  qed
qed

section \<open>Every request keeps the books\<close>

lemma safe_cancel_transaction [safe_rules]: "safe (apply_cancel_transaction t q)"
  unfolding apply_cancel_transaction_def
proof (intro safe_acquire safe_transaction)
  fix w w' :: "(s2db, s2kv) world" and res
  assume inv: "s2_inv (pg w)" and run: "cancel_body t q w = (Inr res, w')"
  show "conserves (pg w) (pg w')"
    using cancel_body_ok [OF inv run] by (auto intro: settled_conserves conserves_refl [OF inv])
qed

lemma demo_client: "s2_inv (pg (demo_app demo_pending fs))"
  by (simp add: demo_pending_inv)

definition demo_alice :: AuthUser where
  "demo_alice = \<lparr>au_api_key = ''key-alice'', au_user_id = 1, au_name = ''alice'', au_role = USER, au_credits = 490,
     au_tier = PRO, au_scopes = [''task:submit'', ''task:poll'', ''task:cancel'']\<rparr>"

definition demo_request :: SubmitTaskRequest where
  "demo_request = \<lparr>sq_x = 3, sq_y = 4, sq_mode = ASYNC, sq_model_class = SMALL, sq_callback_url = None\<rparr>"

text \<open>A retried operation ends after at most the given number of runs, each but the last of which raised, and
  raises only when all of them did; before a further run it pauses for at most one and a half times the maximal delay.\<close>

theorem retries_bounded:
  assumes "1 \<le> attempts" "0 \<le> base" "0 \<le> mx" "1 \<le> mult" "\<And>i. 0 \<le> jitter i \<and> jitter i \<le> 3 / 2"
    and "retry_async jitter m attempts base mx mult w = (r, w')"
  shows "\<exists>n. tries m (3 / 2 * mx) n w r w' \<and> int n \<le> attempts \<and> (isl r \<longrightarrow> int n = attempts)"
  using retry_async_tries [OF assms] .

theorem retries_bounded_witness:
  "case retry_async (\<lambda>_. 1) (raiseM RedisError []) 3 (1 / 10) 2 2 (demo_app demo_db []) of (r :: exn + unit, w') \<Rightarrow>
     tries (raiseM RedisError []) 3 3 (demo_app demo_db []) r w' \<and> r = Inl (Exn RedisError [])"
proof -
  obtain r :: "exn + unit" and w' where run: "retry_async (\<lambda>_. 1) (raiseM RedisError []) 3 (1 / 10) 2 2 (demo_app demo_db []) = (r, w')"
    by fastforce
  then have r: "r = Inl (Exn RedisError [])"
    by (simp add: retry_async_def retry_loop.simps bindE_attempt raiseM_def liftE_def bindE_sleep_seconds)
  from retries_bounded [OF _ _ _ _ _ run] obtain n where
    n: "tries (raiseM RedisError []) 3 n (demo_app demo_db []) r w'" "isl r \<longrightarrow> int n = 3" by auto
  with r have "n = 3" by simp
  with n r run show ?thesis by simp
qed

text \<open>C18 A cancellation changes the books only by settling the task, once and completely, for a client that holds
  the scope and is the owner or an administrator.  The answer 200 reports the refund that was booked, zero for
  a task that was cancelled before; the answer 404 means that nothing happened.\<close>

theorem cancel_contract:
  assumes "s2_inv (pg w)" "cancel_task jitter settings user t w = (r, w')"
  shows "cancel_answer user t (pg w) (pg w') r"
  using cancel_task_answer [OF assms] .

theorem cancel_contract_witness:
  "case cancel_task (\<lambda>_. 1) demo_settings demo_alice 7 (demo_app demo_pending []) of
     (r, w') \<Rightarrow> cancel_answer demo_alice 7 demo_pending (pg w') r"
proof -
  obtain r w' where run: "cancel_task (\<lambda>_. 1) demo_settings demo_alice 7 (demo_app demo_pending []) = (r, w')"
    by fastforce
  from cancel_contract [OF demo_client run] run show ?thesis by simp
qed



end
