(* ===== verification/S2_Reads.thy ===== *)
theory S2_Reads
  imports S2_Api S2_Watchdog
begin

text \<open>
  Solution 2, \<open>api/task_read_routes.py\<close>, \<open>api/admin_routes.py\<close> and \<open>api/webhook_routes.py\<close>: polling a task
  from the cached state, the query view or the command row, the credit adjustment of an administrator, and
  the callback subscription of a client.  \<open>dumps\<close> and \<open>loads\<close> are the text form of JSON and its parser,
  \<open>show_time\<close> the text form of a time.  The lemmas say what an answer tells about the database
  and which clients see or change what, under any faults.
\<close>

section \<open>Polling\<close>

record PollTaskResponse =
  pr_task_id :: uuid
  pr_status :: string
  pr_result :: "dict option"
  pr_error :: "string option"
  pr_queue :: "string option"
  pr_queue_position :: "int option"
  pr_estimated_seconds :: "int option"
  pr_expires_at :: "int option"

definition poll_response_json :: "(int \<Rightarrow> string) \<Rightarrow> PollTaskResponse \<Rightarrow> json" where
  "poll_response_json show_time r = JObj [(''task_id'', JStr (uuid_str (pr_task_id r))), (''status'', JStr (pr_status r)),
     (''result'', opt_json JObj (pr_result r)), (''error'', opt_str (pr_error r)), (''queue'', opt_str (pr_queue r)),
     (''queue_position'', opt_json JInt (pr_queue_position r)),
     (''estimated_seconds'', opt_json JInt (pr_estimated_seconds r)),
     (''expires_at'', opt_json (\<lambda>t. JStr (show_time t)) (pr_expires_at r))]"

definition service_degraded :: reply where
  "service_degraded = api_error_response 503 ''SERVICE_DEGRADED'' ''Service temporarily unavailable''"

definition task_not_found :: reply where
  "task_not_found = api_error_response 404 ''NOT_FOUND'' ''Task not found''"

definition authorized_for_user :: "AuthUser \<Rightarrow> string \<Rightarrow> bool" where
  "authorized_for_user current_user task_user_id \<longleftrightarrow>
     au_role current_user = ADMIN \<or> task_user_id = uuid_str (au_user_id current_user)"

text \<open>A field of a Redis hash as the text the client library returns.\<close>

fun field_text :: "(json \<Rightarrow> string) \<Rightarrow> rval \<Rightarrow> string" where
  "field_text dumps (Plain s) = s"
| "field_text dumps (Dumped v) = dumps v"

definition state_field :: "(json \<Rightarrow> string) \<Rightarrow> (string \<times> rval) list \<Rightarrow> string \<Rightarrow> string option" where
  "state_field dumps cached k = map_option (field_text dumps) (map_of cached k)"

text \<open>\<open>x or None\<close>.\<close>

definition or_none :: "string option \<Rightarrow> string option" where
  "or_none x = (case x of Some [] \<Rightarrow> None | _ \<Rightarrow> x)"

definition parse_result_payload :: "(string \<Rightarrow> json option) \<Rightarrow> rval option \<Rightarrow> dict option" where
  "parse_result_payload loads raw_value = (case raw_value of
      None \<Rightarrow> None
    | Some (Dumped v) \<Rightarrow> (case v of JObj d \<Rightarrow> Some d | _ \<Rightarrow> None)
    | Some (Plain s) \<Rightarrow> if s = [] then None else (case loads s of Some (JObj d) \<Rightarrow> Some d | _ \<Rightarrow> None))"

text \<open>The conversions of a text with superscripts, of a time after the year 9999 and of a sum beyond it raise.\<close>

definition task_state_expires_at :: "(json \<Rightarrow> string) \<Rightarrow> (string \<times> rval) list \<Rightarrow> int \<Rightarrow> exn + int option" where
  "task_state_expires_at dumps cached ttl_seconds =
     (let overflow = Inl (Exn OtherException ''OverflowError'');
          anchor_raw = (case or_none (state_field dumps cached ''completed_at_epoch'') of
            Some s \<Rightarrow> Some s | None \<Rightarrow> or_none (state_field dumps cached ''created_at_epoch'')) in
      case anchor_raw of
        None \<Rightarrow> Inr None
      | Some s \<Rightarrow> then_ok (epoch_of_text s) (\<lambda>anchor. case anchor of
            None \<Rightarrow> Inr None
          | Some i \<Rightarrow> (case datetime_of_timestamp (of_int i) of
                None \<Rightarrow> overflow
              | Some t \<Rightarrow> (case datetime_of_timestamp (of_int (i + ttl_seconds)) of
                    None \<Rightarrow> overflow
                  | Some u \<Rightarrow> Inr (Some u)))))"

definition estimated_seconds_for_status :: "string \<Rightarrow> ModelClass option \<Rightarrow> int option" where
  "estimated_seconds_for_status status model_class =
     (if \<not> List.member [''PENDING'', ''RUNNING''] status then None
      else map_option (\<lambda>c. py_trunc (runtime_seconds_for_model c)) model_class)"

definition cached_status :: "(json \<Rightarrow> string) \<Rightarrow> (string \<times> rval) list \<Rightarrow> string" where
  "cached_status dumps cached = (case state_field dumps cached ''status'' of
      None \<Rightarrow> TaskStatus_value DEFAULT_TASK_STATUS | Some s \<Rightarrow> s)"

definition task_state_response :: "(json \<Rightarrow> string) \<Rightarrow> (string \<Rightarrow> json option) \<Rightarrow> uuid \<Rightarrow> (string \<times> rval) list \<Rightarrow>
    int \<Rightarrow> exn + PollTaskResponse" where
  "task_state_response dumps loads task_id cached ttl_seconds =
     (let status = cached_status dumps cached;
          model_class = (case or_none (state_field dumps cached ''model_class'') of
            None \<Rightarrow> None | Some s \<Rightarrow> (case ModelClass_of s of Inl _ \<Rightarrow> None | Inr c \<Rightarrow> Some c)) in
      then_ok (task_state_expires_at dumps cached ttl_seconds) (\<lambda>expires_at. Inr
        \<lparr>pr_task_id = task_id, pr_status = status,
         pr_result = parse_result_payload loads (map_of cached ''result''),
         pr_error = or_none (state_field dumps cached ''error''),
         pr_queue = or_none (state_field dumps cached ''queue''), pr_queue_position = None,
         pr_estimated_seconds = estimated_seconds_for_status status model_class, pr_expires_at = expires_at\<rparr>))"

definition expiring_status :: "TaskStatus \<Rightarrow> int \<Rightarrow> int \<Rightarrow> string" where
  "expiring_status st expires_at now =
     (if List.member TASK_TERMINAL_STATUSES st \<and> expires_at < now then ''EXPIRED'' else TaskStatus_value st)"

definition projection_response :: "TaskQueryView \<Rightarrow> int \<Rightarrow> int \<Rightarrow> PollTaskResponse" where
  "projection_response task ttl_seconds now =
     (let expires_at = tv_updated_at task + seconds ttl_seconds;
          status = expiring_status (tv_status task) expires_at now in
      \<lparr>pr_task_id = tv_task_id task, pr_status = status, pr_result = tv_result task, pr_error = tv_error task,
       pr_queue = tv_queue_name task, pr_queue_position = None,
       pr_estimated_seconds = estimated_seconds_for_status status (Some (tv_model_class task)),
       pr_expires_at = Some expires_at\<rparr>)"

definition command_response :: "TaskCommand \<Rightarrow> int \<Rightarrow> int \<Rightarrow> PollTaskResponse" where
  "command_response task ttl_seconds now =
     (let expires_at = tc_updated_at task + seconds ttl_seconds;
          status = expiring_status (tc_status task) expires_at now in
      \<lparr>pr_task_id = tc_task_id task, pr_status = status, pr_result = None, pr_error = None, pr_queue = None,
       pr_queue_position = None,
       pr_estimated_seconds = estimated_seconds_for_status status (Some (tc_model_class task)),
       pr_expires_at = Some expires_at\<rparr>)"

text \<open>The answer for the hash that was read; \<open>None\<close> sends the poll on to the database.\<close>

definition cached_answer :: "(json \<Rightarrow> string) \<Rightarrow> (string \<Rightarrow> json option) \<Rightarrow> (int \<Rightarrow> string) \<Rightarrow> AppSettings \<Rightarrow>
    uuid \<Rightarrow> AuthUser \<Rightarrow> (string \<times> rval) list \<Rightarrow> exn + reply option" where
  "cached_answer dumps loads show_time settings task_id current_user cached =
     (if cached = [] then Inr None
      else if (case state_field dumps cached ''user_id'' of
          None \<Rightarrow> True | Some u \<Rightarrow> \<not> authorized_for_user current_user u) then Inr (Some task_not_found)
      else if List.member (map TaskStatus_value TASK_TERMINAL_STATUSES) (cached_status dumps cached) \<and>
          map_of cached ''result'' = None \<and> or_none (state_field dumps cached ''error'') = None
        then Inr None
      else then_ok (task_state_response dumps loads task_id cached (st_task_result_ttl_seconds settings))
        (\<lambda>response. Inr (Some (JSONResponse 200 (poll_response_json show_time response)))))"

definition poll_from_task_state :: "(json \<Rightarrow> string) \<Rightarrow> (string \<Rightarrow> json option) \<Rightarrow> (int \<Rightarrow> string) \<Rightarrow> AppSettings \<Rightarrow>
    uuid \<Rightarrow> AuthUser \<Rightarrow> reply option app" where
  "poll_from_task_state dumps loads show_time settings task_id current_user =
     bindE (attempt (redis_hgetall (task_state_key task_id))) (\<lambda>read. case read of
       Inl _ \<Rightarrow> returnM (Some service_degraded)
     | Inr cached \<Rightarrow> liftE (cached_answer dumps loads show_time settings task_id current_user cached))"

definition poll_from_query_view :: "(int \<Rightarrow> string) \<Rightarrow> AppSettings \<Rightarrow> uuid \<Rightarrow> AuthUser \<Rightarrow> reply option app" where
  "poll_from_query_view show_time settings task_id current_user =
     bindE (attempt (get_task_query_view task_id)) (\<lambda>read. case read of
       Inl _ \<Rightarrow> returnM (Some service_degraded)
     | Inr None \<Rightarrow> returnM None
     | Inr (Some task) \<Rightarrow>
         if \<not> authorized_for_user current_user (uuid_str (tv_user_id task)) then returnM (Some task_not_found)
         else bindE get_clock (\<lambda>now. returnM (Some (JSONResponse 200 (poll_response_json show_time
           (projection_response task (st_task_result_ttl_seconds settings) now))))))"

definition poll_from_command :: "(int \<Rightarrow> string) \<Rightarrow> AppSettings \<Rightarrow> uuid \<Rightarrow> AuthUser \<Rightarrow> reply app" where
  "poll_from_command show_time settings task_id current_user =
     bindE (attempt (get_task_command task_id)) (\<lambda>read. case read of
       Inl _ \<Rightarrow> returnM service_degraded
     | Inr None \<Rightarrow> returnM task_not_found
     | Inr (Some task) \<Rightarrow>
         if \<not> authorized_for_user current_user (uuid_str (tc_user_id task)) then returnM task_not_found
         else bindE get_clock (\<lambda>now. returnM (JSONResponse 200 (poll_response_json show_time
           (command_response task (st_task_result_ttl_seconds settings) now)))))"

definition poll_task :: "(json \<Rightarrow> string) \<Rightarrow> (string \<Rightarrow> json option) \<Rightarrow> (int \<Rightarrow> string) \<Rightarrow> AppSettings \<Rightarrow>
    uuid \<Rightarrow> AuthUser \<Rightarrow> reply app" where
  "poll_task dumps loads show_time settings task_id current_user =
     bindE (require_scopes current_user [OAuthScope_value TASK_POLL]) (\<lambda>_.
     bindE (poll_from_task_state dumps loads show_time settings task_id current_user) (\<lambda>response. case response of
       Some r \<Rightarrow> returnM r
     | None \<Rightarrow>
     bindE (poll_from_query_view show_time settings task_id current_user) (\<lambda>response. case response of
       Some r \<Rightarrow> returnM r
     | None \<Rightarrow> poll_from_command show_time settings task_id current_user)))"

section \<open>Adjusting credits\<close>

record AdminCreditsRequest =
  ac_user_id :: "uuid option"
  ac_api_key :: "string option"
  ac_delta :: int
  ac_reason :: string

definition admin_request_ok :: "AdminCreditsRequest \<Rightarrow> bool" where
  "admin_request_ok p \<longleftrightarrow>
     (case ac_api_key p of None \<Rightarrow> True | Some k \<Rightarrow> length k = 36) \<and>
     1 \<le> length (ac_reason p) \<and> length (ac_reason p) \<le> 64 \<and>
     \<not> (ac_user_id p = None \<and> or_none (ac_api_key p) = None \<or> ac_user_id p \<noteq> None \<and> ac_api_key p \<noteq> None)"

definition admin_response_json :: "string \<Rightarrow> int \<Rightarrow> json" where
  "admin_response_json api_key new_balance =
     JObj [(''user_id'', JNull), (''api_key'', JStr api_key), (''new_balance'', JInt new_balance)]"

text \<open>The transaction; \<open>None\<close> when no account has the key.\<close>

definition adjust_credits :: "AuthUser \<Rightarrow> string \<Rightarrow> int \<Rightarrow> string \<Rightarrow> (uuid \<times> int) option app" where
  "adjust_credits current_user target_api_key delta reason =
     acquire (transaction (
       bindE (admin_update_user_credits target_api_key delta reason) (\<lambda>outcome. case outcome of
         None \<Rightarrow> returnM None
       | Some (user_id, old_balance, new_balance) \<Rightarrow>
           bindE (create_outbox_event user_id ''credits.adjusted'' ''admin.credits.adjusted''
             [(''user_id'', JStr (uuid_str user_id)), (''old_credits'', JInt old_balance),
              (''new_credits'', JInt new_balance), (''delta'', JInt delta), (''reason'', JStr reason),
              (''admin_id'', JStr (uuid_str (au_user_id current_user)))]) (\<lambda>_.
           returnM (Some (user_id, new_balance))))))"

definition admin_credits :: "(int \<Rightarrow> real) \<Rightarrow> AppSettings \<Rightarrow> AuthUser \<Rightarrow> AdminCreditsRequest \<Rightarrow> reply app" where
  "admin_credits jitter settings current_user payload =
     bindE (require_scopes current_user [OAuthScope_value ADMIN_CREDITS]) (\<lambda>_.
     if \<not> (au_role current_user = ADMIN \<or> au_api_key current_user = st_admin_api_key settings)
     then returnM (api_error_response 403 ''FORBIDDEN'' ''Admin access required'')
     else case ac_api_key payload of
       None \<Rightarrow> returnM (api_error_response 400 ''BAD_REQUEST'' ''admin credits endpoint requires api_key target'')
     | Some target_api_key \<Rightarrow>
     bindE (attempt (adjust_credits current_user target_api_key (ac_delta payload) (ac_reason payload))) (\<lambda>outcome.
     case outcome of
       Inl _ \<Rightarrow> returnM service_degraded
     | Inr None \<Rightarrow> returnM (api_error_response 404 ''NOT_FOUND'' ''User not found'')
     | Inr (Some (user_id, new_balance)) \<Rightarrow>
     bindE (attempt (redis_retry jitter settings (invalidate_user_auth_cache target_api_key))) (\<lambda>_.
     returnM (JSONResponse 200 (admin_response_json target_api_key new_balance)))))"

section \<open>Callback subscriptions\<close>

record WebhookConfigRequest =
  wq_callback_url :: string
  wq_enabled :: bool

definition webhook_request_ok :: "WebhookConfigRequest \<Rightarrow> bool" where
  "webhook_request_ok p \<longleftrightarrow> 1 \<le> length (wq_callback_url p) \<and> length (wq_callback_url p) \<le> 2048"

definition webhook_response_json :: "(int \<Rightarrow> string) \<Rightarrow> WebhookSubscription \<Rightarrow> json" where
  "webhook_response_json show_time s = JObj [(''callback_url'', JStr (ws_callback_url s)),
     (''enabled'', JBool (ws_enabled s)), (''updated_at'', JStr (show_time (ws_updated_at s)))]"

definition subscription_reply :: "(int \<Rightarrow> string) \<Rightarrow> exn + WebhookSubscription option \<Rightarrow> reply" where
  "subscription_reply show_time outcome = (case outcome of
      Inl _ \<Rightarrow> service_degraded
    | Inr None \<Rightarrow> api_error_response 404 ''NOT_FOUND'' ''Webhook subscription not found''
    | Inr (Some s) \<Rightarrow> JSONResponse 200 (webhook_response_json show_time s))"

definition put_webhook :: "(string \<Rightarrow> bool option) \<Rightarrow> (int \<Rightarrow> string) \<Rightarrow> AuthUser \<Rightarrow> WebhookConfigRequest \<Rightarrow> reply app" where
  "put_webhook ip6 show_time current_user payload =
     bindE (require_scopes current_user [OAuthScope_value TASK_POLL]) (\<lambda>_.
     let callback_url = strip (wq_callback_url payload) in
     bindE (liftE (is_valid_callback_url ip6 callback_url)) (\<lambda>valid.
     if \<not> valid then returnM (api_error_response 400 ''BAD_REQUEST'' ''Invalid callback_url: must be absolute http(s) URL'')
     else bindE (attempt (upsert_webhook_subscription (au_user_id current_user) callback_url (wq_enabled payload)))
       (\<lambda>outcome. case outcome of
         Inl _ \<Rightarrow> returnM service_degraded
       | Inr subscription \<Rightarrow> returnM (JSONResponse 200 (webhook_response_json show_time subscription)))))"

definition get_webhook :: "(int \<Rightarrow> string) \<Rightarrow> AuthUser \<Rightarrow> reply app" where
  "get_webhook show_time current_user =
     bindE (require_scopes current_user [OAuthScope_value TASK_POLL]) (\<lambda>_.
     bindE (attempt (get_webhook_subscription (au_user_id current_user))) (\<lambda>outcome.
     returnM (subscription_reply show_time outcome)))"

definition delete_webhook :: "(int \<Rightarrow> string) \<Rightarrow> AuthUser \<Rightarrow> reply app" where
  "delete_webhook show_time current_user =
     bindE (require_scopes current_user [OAuthScope_value TASK_POLL]) (\<lambda>_.
     bindE (attempt (disable_webhook_subscription (au_user_id current_user))) (\<lambda>outcome.
     returnM (subscription_reply show_time outcome)))"

section \<open>What a poll tells\<close>

definition cached_task :: "uuid \<Rightarrow> (s2db, s2kv) world \<Rightarrow> (string \<times> rval) list" where
  "cached_task t w = assoc [] (rd_hashes (sweep (clock w) (task_state_key t) (kv w))) (task_state_key t)"

definition from_cache :: "(json \<Rightarrow> string) \<Rightarrow> uuid \<Rightarrow> (s2db, s2kv) world \<Rightarrow> string \<Rightarrow> string \<Rightarrow> bool" where
  "from_cache dumps t w owner st \<longleftrightarrow>
     state_field dumps (cached_task t w) ''user_id'' = Some owner \<and> st = cached_status dumps (cached_task t w)"

definition from_view :: "AppSettings \<Rightarrow> uuid \<Rightarrow> (s2db, s2kv) world \<Rightarrow> string \<Rightarrow> string \<Rightarrow> bool" where
  "from_view settings t w owner st \<longleftrightarrow> (\<exists>v. lookup_row tv_task_id t (task_query_view (pg w)) = Some v \<and>
     owner = uuid_str (tv_user_id v) \<and>
     st = expiring_status (tv_status v) (tv_updated_at v + seconds (st_task_result_ttl_seconds settings)) (clock w))"

definition from_command :: "AppSettings \<Rightarrow> uuid \<Rightarrow> (s2db, s2kv) world \<Rightarrow> string \<Rightarrow> string \<Rightarrow> bool" where
  "from_command settings t w owner st \<longleftrightarrow> (\<exists>c. find_command (pg w) t = Some c \<and>
     lookup_row tv_task_id t (task_query_view (pg w)) = None \<and> owner = uuid_str (tc_user_id c) \<and>
     st = expiring_status (tc_status c) (tc_updated_at c + seconds (st_task_result_ttl_seconds settings)) (clock w))"

definition shows_task :: "AuthUser \<Rightarrow> uuid \<Rightarrow> (string \<Rightarrow> string \<Rightarrow> bool) \<Rightarrow> reply \<Rightarrow> bool" where
  "shows_task user t source r \<longleftrightarrow> (reply_status r = 200 \<longrightarrow> (\<exists>owner st. source owner st \<and>
     authorized_for_user user owner \<and> json_field (reply_body r) ''task_id'' = Some (JStr (uuid_str t)) \<and>
     json_field (reply_body r) ''status'' = Some (JStr st)))"

lemma shows_error [simp]: "shows_task user t source service_degraded" "shows_task user t source task_not_found"
  by (simp_all add: shows_task_def service_degraded_def task_not_found_def api_error_response_def error_response_def)

lemma poll_fields:
  "json_field (poll_response_json show_time r) ''task_id'' = Some (JStr (uuid_str (pr_task_id r)))"
  "json_field (poll_response_json show_time r) ''status'' = Some (JStr (pr_status r))"
  by (simp_all add: json_field_def poll_response_json_def)

lemma task_state_response_fields:
  "task_state_response dumps loads t m ttl = Inr r \<Longrightarrow> pr_task_id r = t \<and> pr_status r = cached_status dumps m"
  by (auto simp: task_state_response_def Let_def then_ok_def split: sum.splits)

lemma hgetall_run:
  assumes "redis_hgetall (task_state_key t) w = (m, w1)"
  shows "pg w1 = pg w" "clock w1 = clock w" "\<forall>c. m = Inr c \<longrightarrow> c = cached_task t w"
proof -
  have "pg (snd (redis_hgetall (task_state_key t) w)) = pg w" "clock (snd (redis_hgetall (task_state_key t) w)) = clock w"
    unfolding redis_hgetall_def redis_def by (rule remote_pg remote_clock)+
  with assms show "pg w1 = pg w" "clock w1 = clock w" by simp_all
  show "\<forall>c. m = Inr c \<longrightarrow> c = cached_task t w"
    using assms unfolding redis_hgetall_def redis_def cached_task_def
    by (cases rule: remote_cases) auto
qed

lemma cached_answer_shows:
  assumes "cached_answer dumps loads show_time settings t user (cached_task t w) = Inr (Some r)"
  shows "shows_task user t (from_cache dumps t w) r"
proof (cases "\<exists>u. state_field dumps (cached_task t w) ''user_id'' = Some u \<and> authorized_for_user user u")
  case False
  then have "(case state_field dumps (cached_task t w) ''user_id'' of
      None \<Rightarrow> True | Some u \<Rightarrow> \<not> authorized_for_user user u)" by (simp split: option.split)
  with assms have "r = task_not_found" unfolding cached_answer_def by (simp only: if_True split: if_splits) simp_all
  then show ?thesis by simp
next
  case True
  then obtain u where u: "state_field dumps (cached_task t w) ''user_id'' = Some u" "authorized_for_user user u" by blast
  with assms obtain a where a: "r = JSONResponse 200 (poll_response_json show_time a)"
    "task_state_response dumps loads t (cached_task t w) (st_task_result_ttl_seconds settings) = Inr a"
    by (cases "task_state_response dumps loads t (cached_task t w) (st_task_result_ttl_seconds settings)")
      (auto simp: cached_answer_def split: if_split_asm)
  have "from_cache dumps t w u (pr_status a)" "pr_task_id a = t"
    using u task_state_response_fields [OF a(2)] by (simp_all add: from_cache_def)
  with a u show ?thesis unfolding shows_task_def by (auto simp: poll_fields)
qed

lemma poll_cache_run:
  assumes "poll_from_task_state dumps loads show_time settings t user w = (x, w')"
  shows "pg w' = pg w \<and> clock w' = clock w \<and>
    (\<forall>r. x = Inr (Some r) \<longrightarrow> shows_task user t (from_cache dumps t w) r)"
proof -
  obtain m w1 where read: "redis_hgetall (task_state_key t) w = (m, w1)" by fastforce
  note w1 = hgetall_run [OF read]
  show ?thesis
    using assms read w1
    by (cases m) (auto simp: poll_from_task_state_def bindE_attempt returnM_def liftE_def cached_answer_shows)
qed

lemma poll_view_run:
  assumes "poll_from_query_view show_time settings t user w = (x, w')"
  shows "pg w' = pg w \<and> clock w' = clock w \<and>
    (x = Inr None \<longrightarrow> lookup_row tv_task_id t (task_query_view (pg w)) = None) \<and>
    (\<forall>r. x = Inr (Some r) \<longrightarrow> shows_task user t (from_view settings t w) r)"
proof -
  obtain m w1 where read: "get_task_query_view t w = (m, w1)" by fastforce
  have "clock (snd (get_task_query_view t w)) = clock w"
    unfolding get_task_query_view_def by (rule sql_read_clock)
  moreover have "pg (snd (get_task_query_view t w)) = pg w" by (intro keeps_pg keeps_rules)
  ultimately have w1: "pg w1 = pg w" "clock w1 = clock w" using read by simp_all
  show ?thesis
  proof (cases m)
    case (Inl e)
    with assms read w1 show ?thesis by (auto simp: poll_from_query_view_def bindE_attempt returnM_def)
  next
    case (Inr y)
    with read have y: "y = map_option task_query_view_from_record (lookup_row tv_task_id t (task_query_view (pg w)))"
      by (auto simp: get_task_query_view_def elim: sql_read_okE)
    show ?thesis
    proof (cases "lookup_row tv_task_id t (task_query_view (pg w))")
      case None
      with assms read w1 Inr y show ?thesis by (auto simp: poll_from_query_view_def bindE_attempt returnM_def)
    next
      case (Some v)
      then have t: "tv_task_id v = t" using lookup_row_Some by metis
      from Some assms read w1 Inr y have x: "w' = w1" "x = Inr (Some (
          if authorized_for_user user (uuid_str (tv_user_id v)) then JSONResponse 200 (poll_response_json show_time
            (projection_response (task_query_view_from_record v) (st_task_result_ttl_seconds settings) (clock w)))
          else task_not_found))"
        by (auto simp: poll_from_query_view_def bindE_attempt bindE_pure returnM_def
            task_query_view_from_record_def split: if_splits)
      have "from_view settings t w (uuid_str (tv_user_id v)) (pr_status
          (projection_response (task_query_view_from_record v) (st_task_result_ttl_seconds settings) (clock w)))"
        using Some by (simp add: from_view_def projection_response_def Let_def task_query_view_from_record_def)
      moreover have "pr_task_id (projection_response (task_query_view_from_record v) ttl now) = t" for ttl now
        using t by (simp add: projection_response_def Let_def task_query_view_from_record_def)
      ultimately show ?thesis using x w1 unfolding shows_task_def by (auto simp: poll_fields split: if_splits
            simp: task_not_found_def api_error_response_def error_response_def)
    qed
  qed
qed

lemma poll_command_run:
  assumes "poll_from_command show_time settings t user w = (x, w')"
  shows "pg w' = pg w \<and> (\<exists>r. x = Inr r \<and> (lookup_row tv_task_id t (task_query_view (pg w)) = None \<longrightarrow>
    shows_task user t (from_command settings t w) r))"
proof -
  obtain m w1 where read: "get_task_command t w = (m, w1)" by fastforce
  have "clock (snd (get_task_command t w)) = clock w" unfolding get_task_command_def by (rule sql_read_clock)
  moreover have "pg (snd (get_task_command t w)) = pg w" by (intro keeps_pg keeps_rules)
  ultimately have w1: "pg w1 = pg w" "clock w1 = clock w" using read by simp_all
  show ?thesis
  proof (cases "\<exists>c. m = Inr (Some c) \<and> authorized_for_user user (uuid_str (tc_user_id c))")
    case False
    with assms read w1 show ?thesis
      by (auto simp: poll_from_command_def bindE_attempt returnM_def split: sum.splits option.splits)
  next
    case True
    then obtain c where c: "m = Inr (Some c)" "authorized_for_user user (uuid_str (tc_user_id c))" by blast
    with read have found: "find_command (pg w) t = Some c" by (auto elim: get_task_command_okE)
    then have t: "tc_task_id c = t" using lookup_row_Some unfolding find_command_def by metis
    let ?r = "command_response c (st_task_result_ttl_seconds settings) (clock w)"
    from assms read w1 c have "w' = w1" "x = Inr (JSONResponse 200 (poll_response_json show_time ?r))"
      by (auto simp: poll_from_command_def bindE_attempt bindE_pure returnM_def)
    moreover have "lookup_row tv_task_id t (task_query_view (pg w)) = None \<longrightarrow>
        from_command settings t w (uuid_str (tc_user_id c)) (pr_status ?r)"
      using found by (simp add: from_command_def command_response_def Let_def)
    moreover have "pr_task_id ?r = t" using t by (simp add: command_response_def Let_def)
    ultimately show ?thesis using w1 c unfolding shows_task_def by (auto simp: poll_fields)
  qed
qed

lemma poll_answer:
  assumes "poll_task dumps loads show_time settings t user w = (r, w')"
  shows "pg w' = pg w \<and> (\<forall>reply. r = Inr reply \<longrightarrow> shows_task user t (\<lambda>owner st.
    from_cache dumps t w owner st \<or> from_view settings t w owner st \<or> from_command settings t w owner st) reply)"
  using assms unfolding poll_task_def
proof (cases rule: require_scopes_cases)
  case (refused e)
  then show ?thesis by auto
next
  case allowed
  have weaken: "shows_task user t source reply \<Longrightarrow> (\<And>a b. source a b \<Longrightarrow> source' a b) \<Longrightarrow>
    shows_task user t source' reply" for source source' reply by (auto simp: shows_task_def)
  obtain x w1 where cache: "poll_from_task_state dumps loads show_time settings t user w = (x, w1)" by fastforce
  note c = poll_cache_run [OF cache]
  consider (raised) e where "x = Inl e" | (hit) reply where "x = Inr (Some reply)" | (miss) "x = Inr None"
    by (cases x) (auto simp: option.exhaust)
  then show ?thesis
  proof cases
    case raised
    with allowed(1) cache c show ?thesis by (auto simp: bindE_def)
  next
    case hit
    with allowed(1) cache have "r = Inr reply" "w' = w1" by (auto simp: bindE_def returnM_def)
    with c hit show ?thesis by (auto intro: weaken)
  next
    case miss
    obtain y w2 where view: "poll_from_query_view show_time settings t user w1 = (y, w2)" by fastforce
    note v = poll_view_run [OF view]
    have same: "from_view settings t w1 = from_view settings t w" "from_command settings t w1 = from_command settings t w"
      using c by (simp_all add: from_view_def from_command_def fun_eq_iff)
    consider (raised) e where "y = Inl e" | (hit) reply where "y = Inr (Some reply)" | (none) "y = Inr None"
      by (cases y) (auto simp: option.exhaust)
    then show ?thesis
    proof cases
      case raised
      with allowed(1) cache miss view v c show ?thesis by (auto simp: bindE_def)
    next
      case hit
      with allowed(1) cache miss view have "r = Inr reply" "w' = w2" by (auto simp: bindE_def returnM_def)
      with c v hit same show ?thesis by (auto intro: weaken)
    next
      case none
      with allowed(1) cache miss view have run: "poll_from_command show_time settings t user w2 = (r, w')"
        by (auto simp: bindE_def)
      have "from_command settings t w2 = from_command settings t w"
        using c v by (simp add: from_command_def fun_eq_iff)
      with poll_command_run [OF run] v c none show ?thesis by (auto intro: weaken)
    qed
  qed
qed

section \<open>What an adjustment does\<close>

text \<open>The balance of one account moves by \<open>n\<close>; what is held, charged and admitted stays.\<close>

definition adjusted :: "uuid \<Rightarrow> int \<Rightarrow> s2db \<Rightarrow> s2db \<Rightarrow> bool" where
  "adjusted u n d d' \<longleftrightarrow> s2_inv d' \<and> find_user d u \<noteq> None \<and> spendable d' = (spendable d)(u := spendable d u + n) \<and>
     held d' = held d \<and> charged d' = charged d \<and> task_state d' = task_state d"

definition may_adjust :: "AppSettings \<Rightarrow> AuthUser \<Rightarrow> bool" where
  "may_adjust settings user \<longleftrightarrow> ''admin:credits'' \<in> set (au_scopes user) \<and>
     (au_role user = ADMIN \<or> au_api_key user = st_admin_api_key settings)"

definition has_api_key :: "s2db \<Rightarrow> string \<Rightarrow> uuid \<Rightarrow> bool" where
  "has_api_key d key u \<longleftrightarrow> (\<exists>r. lookup_row us_api_key key (users d) = Some r \<and> us_user_id r = u)"

definition admin_answer :: "AppSettings \<Rightarrow> AuthUser \<Rightarrow> AdminCreditsRequest \<Rightarrow> s2db \<Rightarrow> s2db \<Rightarrow> exn + reply \<Rightarrow> bool" where
  "admin_answer settings user p d d' r \<longleftrightarrow>
     (d' = d \<or> may_adjust settings user \<and>
        (\<exists>key u. ac_api_key p = Some key \<and> has_api_key d key u \<and> adjusted u (ac_delta p) d d')) \<and>
     (\<forall>body. r = Inr (JSONResponse 200 body) \<longrightarrow> (\<exists>key u. ac_api_key p = Some key \<and> has_api_key d key u \<and>
        adjusted u (ac_delta p) d d' \<and> body = admin_response_json key (spendable d' u))) \<and>
     (\<forall>body. r = Inr (JSONResponse 404 body) \<longrightarrow> d' = d \<and>
        (\<exists>key. ac_api_key p = Some key \<and> lookup_row us_api_key key (users d) = None))"

lemma adjusted_credits:
  assumes inv: "s2_inv d" and u: "lookup_row us_api_key key (users d) = Some r" and n: "0 \<le> us_credits r + n"
  shows "adjusted (us_user_id r) n d
    ((set_credits (us_user_id r) (us_credits r + n) d)\<lparr>credit_transactions := cts, outbox_events := es\<rparr>) \<longleftrightarrow>
      keyed oe_event_id es"
    (is "adjusted ?u n d ?d \<longleftrightarrow> _")
proof -
  have ok: "ledger_ok (users d) (task_commands d) (credit_reservations d)" using inv by (simp add: s2_inv_def)
  have found: "find_user d ?u = Some r"
    using lookup_row_Some [OF u] ledger_okD(1) [OF ok] by (simp add: find_user_def lookup_row_member)
  have "spendable ?d = spendable (set_credits ?u (us_credits r + n) d)"
    by (simp add: spendable_def find_user_def fun_eq_iff)
  then have "spendable ?d = (spendable d)(?u := spendable d ?u + n)"
    using found by (simp add: fun_eq_iff spendable_set_credits [OF found]) (simp add: spendable_def)
  moreover have "ledger_ok (users ?d) (task_commands ?d) (credit_reservations ?d)"
    using ledger_ok_credits [OF ok n] by (simp add: set_credits_def)
  then have "s2_inv ?d \<longleftrightarrow> keyed oe_event_id es" using inv by (simp add: s2_inv_def set_credits_def)
  ultimately show ?thesis
    using found by (simp add: adjusted_def held_def charged_def task_state_def find_command_def set_credits_def fun_eq_iff)
qed

lemma adjust_credits_outcome:
  assumes inv: "s2_inv (pg w)" and run: "adjust_credits user key n reason w = (r, w')"
  shows "pg w' = pg w \<and> (\<forall>x. r = Inr x \<longrightarrow> x = None \<and> lookup_row us_api_key key (users (pg w)) = None) \<or>
    (\<exists>u. has_api_key (pg w) key u \<and> adjusted u n (pg w) (pg w') \<and>
      (\<forall>x. r = Inr x \<longrightarrow> x = Some (u, spendable (pg w') u)))"
  using run unfolding adjust_credits_def
proof (cases rule: in_transaction)
  case (undone e)
  then show ?thesis by simp
next
  case (ran x fs w1)
  show ?thesis
  proof (cases "lookup_row us_api_key key (users (pg w))")
    case None
    with ran(1) have "x = None" "pg w1 = pg w"
      by (auto simp: admin_update_user_credits_def elim!: bindE_okE sql_okE split: if_splits)
    with None ran show ?thesis by auto
  next
    case (Some u)
    from ran(1) obtain out w2 where upd: "admin_update_user_credits key n reason (w\<lparr>faults := fs\<rparr>) = (Inr out, w2)"
      and rest: "(case out of None \<Rightarrow> returnM None
       | Some (user_id, old_balance, new_balance) \<Rightarrow>
           bindE (create_outbox_event user_id ''credits.adjusted'' ''admin.credits.adjusted''
             [(''user_id'', JStr (uuid_str user_id)), (''old_credits'', JInt old_balance),
              (''new_credits'', JInt new_balance), (''delta'', JInt n), (''reason'', JStr reason),
              (''admin_id'', JStr (uuid_str (au_user_id user)))]) (\<lambda>_.
           returnM (Some (user_id, new_balance)))) w2 = (Inr x, w1)" by (elim bindE_okE) blast
    from upd Some obtain cts where out: "out = Some (us_user_id u, us_credits u, us_credits u + n)"
      "0 \<le> us_credits u + n"
      "pg w2 = (set_credits (us_user_id u) (us_credits u + n) (pg w))\<lparr>credit_transactions := cts\<rparr>"
      by (auto simp: admin_update_user_credits_def elim!: sql_okE split: if_splits)
    from rest out obtain e where e: "x = Some (us_user_id u, us_credits u + n)"
      "pg w1 = (pg w2)\<lparr>outbox_events := outbox_events (pg w2) @ [e]\<rparr>"
      "lookup_row oe_event_id (oe_event_id e) (outbox_events (pg w2)) = None"
      by (auto elim!: bindE_okE outbox_appendE)
    have "keyed oe_event_id (outbox_events (pg w2) @ [e])"
      using inv e out by (simp add: s2_inv_def keyed_append set_credits_def)
    then have "adjusted (us_user_id u) n (pg w) (pg w1)"
      using adjusted_credits [OF inv Some out(2)] e out by (simp add: set_credits_def)
    moreover from this have "spendable (pg w1) (us_user_id u) = us_credits u + n"
      using lookup_row_Some [OF Some] inv
      by (simp add: adjusted_def spendable_def find_user_def lookup_row_member s2_inv_def ledger_ok_def)
    ultimately show ?thesis using ran e Some unfolding has_api_key_def by auto
  qed
qed

lemma keeps_invalidate [keeps_rules]:
  "keeps I (redis_retry jitter settings (invalidate_user_auth_cache key))"
  unfolding redis_retry_def retry_async_def invalidate_user_auth_cache_def by (intro keeps_rules)

lemma admin_credits_answer:
  assumes inv: "s2_inv (pg w)" and run: "admin_credits jitter settings user p w = (r, w')"
  shows "admin_answer settings user p (pg w) (pg w') r"
  using run unfolding admin_credits_def
proof (cases rule: require_scopes_cases)
  case (refused e)
  then show ?thesis by (simp add: admin_answer_def)
next
  case allowed
  show ?thesis
  proof (cases "\<exists>key. ac_api_key p = Some key \<and> (au_role user = ADMIN \<or> au_api_key user = st_admin_api_key settings)")
    case False
    with allowed(1) have "w' = w" "\<exists>reply. r = Inr reply \<and> reply_status reply \<in> {400, 403}"
      by (auto simp: returnM_def api_error_response_def error_response_def split: if_splits option.splits)
    then show ?thesis by (auto simp: admin_answer_def)
  next
    case True
    then obtain key where key: "ac_api_key p = Some key"
      "au_role user = ADMIN \<or> au_api_key user = st_admin_api_key settings" by blast
    with allowed(2) have may: "may_adjust settings user" by (auto simp: may_adjust_def)
    obtain x w1 where adj: "adjust_credits user key (ac_delta p) (ac_reason p) w = (x, w1)" by fastforce
    note out = adjust_credits_outcome [OF inv adj]
    consider (failed) e where "x = Inl e" | (absent) "x = Inr None" | (booked) u b where "x = Inr (Some (u, b))"
      using sum.exhaust [of x] option.exhaust prod.exhaust by metis
    then show ?thesis
    proof cases
      case failed
      with allowed(1) key adj have "w' = w1" "r = Inr service_degraded" by (auto simp: bindE_attempt returnM_def)
      with out may key show ?thesis
        by (auto simp: admin_answer_def service_degraded_def api_error_response_def error_response_def)
    next
      case absent
      with allowed(1) key adj have "w' = w1"
        "r = Inr (api_error_response 404 ''NOT_FOUND'' ''User not found'')" by (auto simp: bindE_attempt returnM_def)
      with out absent key show ?thesis
        by (auto simp: admin_answer_def api_error_response_def error_response_def)
    next
      case booked
      have "pg (snd (redis_retry jitter settings (invalidate_user_auth_cache key) w1)) = pg w1"
        by (intro keeps_pg keeps_rules)
      with allowed(1) key adj booked have "pg w' = pg w1" "r = Inr (JSONResponse 200 (admin_response_json key b))"
        by (auto simp: bindE_attempt returnM_def)
      with out booked may key show ?thesis by (auto simp: admin_answer_def)
    qed
  qed
qed

section \<open>What a client can do to subscriptions\<close>

definition callback_of :: "s2db \<Rightarrow> uuid \<Rightarrow> (string \<times> bool) option" where
  "callback_of d u = map_option (\<lambda>s. (ws_callback_url s, ws_enabled s)) (lookup_row ws_user_id u (webhook_subscriptions d))"

lemma callback_append:
  assumes "lookup_row ws_user_id (ws_user_id row) (webhook_subscriptions d) = None"
  shows "callback_of (d\<lparr>webhook_subscriptions := webhook_subscriptions d @ [row]\<rparr>) =
    (callback_of d)(ws_user_id row \<mapsto> (ws_callback_url row, ws_enabled row))"
  using assms by (auto simp: callback_of_def fun_eq_iff lookup_row_append split: option.split)

lemma callback_modify:
  assumes "\<And>s. ws_user_id (f s) = ws_user_id s"
  shows "callback_of (d\<lparr>webhook_subscriptions := modify_row ws_user_id u f (webhook_subscriptions d)\<rparr>) =
    (callback_of d)(u := map_option (\<lambda>s. (ws_callback_url (f s), ws_enabled (f s)))
      (lookup_row ws_user_id u (webhook_subscriptions d)))"
proof
  fix v
  have "lookup_row ws_user_id v (modify_row ws_user_id u f (webhook_subscriptions d)) =
      (if v = u then map_option f (lookup_row ws_user_id u (webhook_subscriptions d))
       else lookup_row ws_user_id v (webhook_subscriptions d))"
    unfolding modify_row_def using lookup_row_update_key [of ws_user_id f, OF assms] by auto
  then show "callback_of (d\<lparr>webhook_subscriptions := modify_row ws_user_id u f (webhook_subscriptions d)\<rparr>) v =
    ((callback_of d)(u := map_option (\<lambda>s. (ws_callback_url (f s), ws_enabled (f s)))
      (lookup_row ws_user_id u (webhook_subscriptions d)))) v"
    by (simp add: callback_of_def option.map_comp comp_def)
qed

lemma lookup_subscription_update:
  assumes "ws_user_id row = u"
  shows "lookup_row ws_user_id v (update_rows (\<lambda>s. ws_user_id s = u) (\<lambda>_. row) t) =
    (if v = u then map_option (\<lambda>_. row) (lookup_row ws_user_id u t) else lookup_row ws_user_id v t)"
  using assms by (induction t) (auto simp: update_rows_def)

lemma put_webhook_outcome:
  assumes "put_webhook ip6 show_time user p w = (r, w')"
  shows "(callback_of (pg w') = callback_of (pg w) \<or>
      is_valid_callback_url ip6 (strip (wq_callback_url p)) = Inr True \<and>
      callback_of (pg w') = (callback_of (pg w))(au_user_id user \<mapsto> (strip (wq_callback_url p), wq_enabled p))) \<and>
    (\<forall>body. r = Inr (JSONResponse 200 body) \<longrightarrow> is_valid_callback_url ip6 (strip (wq_callback_url p)) = Inr True \<and>
      callback_of (pg w') (au_user_id user) = Some (strip (wq_callback_url p), wq_enabled p))"
  using assms unfolding put_webhook_def Let_def
proof (cases rule: require_scopes_cases)
  case (refused e)
  then show ?thesis by simp
next
  case allowed
  show ?thesis
  proof (cases "is_valid_callback_url ip6 (strip (wq_callback_url p)) = Inr True")
    case False
    with allowed(1) have "w' = w" "\<forall>body. r \<noteq> Inr (JSONResponse 200 body)"
      by (auto simp: bindE_pure returnM_def api_error_response_def error_response_def split: sum.splits if_splits)
    then show ?thesis by simp
  next
    case True
    let ?url = "strip (wq_callback_url p)"
    obtain x w1 where up: "upsert_webhook_subscription (au_user_id user) ?url (wq_enabled p) w = (x, w1)" by fastforce
    have "callback_of (pg w1) = callback_of (pg w) \<and> (\<exists>e. x = Inl e) \<or>
        callback_of (pg w1) = (callback_of (pg w))(au_user_id user \<mapsto> (?url, wq_enabled p))"
      using up unfolding upsert_webhook_subscription_def
    proof (cases rule: sql_cases)
      case (ran a)
      let ?u = "au_user_id user"
      show ?thesis
      proof (cases "lookup_row ws_user_id ?u (webhook_subscriptions (pg w))")
        case None
        let ?row = "\<lparr>ws_user_id = ?u, ws_callback_url = ?url, ws_enabled = wq_enabled p, ws_created_at = clock w,
          ws_updated_at = clock w\<rparr>"
        from ran None have d: "pg w1 = (pg w)\<lparr>webhook_subscriptions := webhook_subscriptions (pg w) @ [?row]\<rparr>"
          by (auto simp: Let_def split: if_splits)
        show ?thesis unfolding d using None by (subst callback_append) simp_all
      next
        case (Some old)
        let ?row = "old\<lparr>ws_callback_url := ?url, ws_enabled := wq_enabled p, ws_updated_at := clock w\<rparr>"
        from ran Some have d: "pg w1 = (pg w)\<lparr>webhook_subscriptions :=
            update_rows (\<lambda>s. ws_user_id s = ?u) (\<lambda>_. ?row) (webhook_subscriptions (pg w))\<rparr>"
          by (auto simp: Let_def modify_row_def split: if_splits)
        have "ws_user_id ?row = ?u" using lookup_row_Some [OF Some] by simp
        with Some have "callback_of (pg w1) = (callback_of (pg w))(?u \<mapsto> (?url, wq_enabled p))"
          unfolding d by (auto simp: callback_of_def fun_eq_iff lookup_subscription_update)
        then show ?thesis by simp
      qed
    qed auto
    with allowed(1) up True show ?thesis
      by (cases x) (auto simp: bindE_attempt bindE_pure returnM_def service_degraded_def api_error_response_def
          error_response_def)
  qed
qed

lemma delete_webhook_outcome:
  assumes "delete_webhook show_time user w = (r, w')"
  shows "(\<forall>u. u \<noteq> au_user_id user \<longrightarrow> callback_of (pg w') u = callback_of (pg w) u) \<and>
    map_option fst (callback_of (pg w') (au_user_id user)) = map_option fst (callback_of (pg w) (au_user_id user)) \<and>
    (\<forall>body. r = Inr (JSONResponse 200 body) \<longrightarrow> map_option snd (callback_of (pg w') (au_user_id user)) = Some False)"
  using assms unfolding delete_webhook_def
proof (cases rule: require_scopes_cases)
  case (refused e)
  then show ?thesis by simp
next
  case allowed
  obtain x w1 where dis: "disable_webhook_subscription (au_user_id user) w = (x, w1)" by fastforce
  with allowed(1) have r: "w' = w1" "r = Inr (subscription_reply show_time x)"
    by (auto simp: bindE_attempt returnM_def)
  from dis show ?thesis unfolding disable_webhook_subscription_def
  proof (cases rule: sql_cases)
    case (undone e)
    with r show ?thesis by (simp add: subscription_reply_def service_degraded_def api_error_response_def error_response_def)
  next
    case (ran a)
    let ?f = "\<lambda>s. s\<lparr>ws_enabled := False, ws_updated_at := clock w\<rparr>"
    let ?old = "lookup_row ws_user_id (au_user_id user) (webhook_subscriptions (pg w))"
    from ran have a: "a = map_option ?f ?old" and d: "pg w1 = (pg w)\<lparr>webhook_subscriptions :=
        modify_row ws_user_id (au_user_id user) ?f (webhook_subscriptions (pg w))\<rparr>" by (simp_all add: Let_def)
    have "callback_of (pg w1) = (callback_of (pg w))(au_user_id user := map_option (\<lambda>s. (ws_callback_url s, False)) ?old)"
      unfolding d by (subst callback_modify) simp_all
    with r ran a show ?thesis
      by (cases ?old) (auto simp: callback_of_def subscription_reply_def service_degraded_def
          api_error_response_def error_response_def)
  qed
qed

text \<open>A poll changes nothing, and a task is shown only to its owner or an administrator: the answer 200 carries
  the status of the cached state, else of the query view, else of the command row, as expired when a finished
  row is older than the lifetime of results.\<close>

theorem poll_contract:
  assumes "poll_task dumps loads show_time settings t user w = (r, w')"
  shows "pg w' = pg w \<and> (\<forall>reply. r = Inr reply \<longrightarrow> shows_task user t (\<lambda>owner st.
    from_cache dumps t w owner st \<or> from_view settings t w owner st \<or> from_command settings t w owner st) reply)"
  using poll_answer [OF assms] .

theorem poll_contract_witness:
  "pg (snd (poll_task (\<lambda>_. []) (\<lambda>_. None) (\<lambda>_. []) demo_settings 7 demo_alice (demo_app demo_pending []))) = demo_pending"
  using poll_contract [of "\<lambda>_. []" "\<lambda>_. None" "\<lambda>_. []" demo_settings 7 demo_alice "demo_app demo_pending []"]
  by (cases "poll_task (\<lambda>_. []) (\<lambda>_. None) (\<lambda>_. []) demo_settings 7 demo_alice (demo_app demo_pending [])") auto

text \<open>C20 Only an administrator with the scope moves credits, by exactly the delta, on the account with the given key, and
  never below zero; nothing else of the books moves.  The answer 200 tells the new balance, and 404 that there is
  no such account.\<close>

theorem admin_contract:
  assumes "s2_inv (pg w)" "admin_credits jitter settings user p w = (r, w')"
  shows "admin_answer settings user p (pg w) (pg w') r"
  using admin_credits_answer [OF assms] .

definition demo_adjustment :: AdminCreditsRequest where
  "demo_adjustment = \<lparr>ac_user_id = None, ac_api_key = Some ''key-alice'', ac_delta = 50, ac_reason = ''top-up''\<rparr>"

theorem admin_contract_witness:
  "case admin_credits (\<lambda>_. 1) demo_settings demo_alice demo_adjustment (demo_app demo_pending []) of
     (r, w') \<Rightarrow> admin_answer demo_settings demo_alice demo_adjustment demo_pending (pg w') r"
proof -
  obtain r w' where run: "admin_credits (\<lambda>_. 1) demo_settings demo_alice demo_adjustment (demo_app demo_pending []) = (r, w')"
    by fastforce
  from admin_contract [OF demo_client run] run show ?thesis by simp
qed

text \<open>A client changes only its own subscription, and only to a callback URL that passes the validation, which the
  answer 200 confirms; after a confirmed deletion the subscription is disabled, with its URL kept.\<close>

theorem subscription_contract:
  shows "(case put_webhook ip6 show_time user p w of (r, w') \<Rightarrow>
      (callback_of (pg w') = callback_of (pg w) \<or>
        is_valid_callback_url ip6 (strip (wq_callback_url p)) = Inr True \<and>
        callback_of (pg w') = (callback_of (pg w))(au_user_id user \<mapsto> (strip (wq_callback_url p), wq_enabled p))) \<and>
      (\<forall>body. r = Inr (JSONResponse 200 body) \<longrightarrow> is_valid_callback_url ip6 (strip (wq_callback_url p)) = Inr True \<and>
        callback_of (pg w') (au_user_id user) = Some (strip (wq_callback_url p), wq_enabled p))) \<and>
    (case delete_webhook show_time user w of (r, w') \<Rightarrow>
      (\<forall>u. u \<noteq> au_user_id user \<longrightarrow> callback_of (pg w') u = callback_of (pg w) u) \<and>
      map_option fst (callback_of (pg w') (au_user_id user)) = map_option fst (callback_of (pg w) (au_user_id user)) \<and>
      (\<forall>body. r = Inr (JSONResponse 200 body) \<longrightarrow> map_option snd (callback_of (pg w') (au_user_id user)) = Some False))"
  using put_webhook_outcome delete_webhook_outcome by (auto split: prod.split)

theorem subscription_contract_witness:
  "callback_of (pg (snd (delete_webhook (\<lambda>_. []) demo_alice (demo_app demo_subscribed [])))) 2 =
   callback_of demo_subscribed 2"
proof -
  obtain r w' where run: "delete_webhook (\<lambda>_. []) demo_alice (demo_app demo_subscribed []) = (r, w')" by fastforce
  from subscription_contract [where user = demo_alice and w = "demo_app demo_subscribed []" and show_time = "\<lambda>_. []", THEN conjunct2] run
  show ?thesis by (simp add: demo_alice_def)
qed

end
