(* ===== verification/S2_System.thy ===== *)
theory S2_System
  imports S2_Reads S2_Worker S2_Relay S2_Projector
begin

text \<open>
  Solution 2 as a whole: the API processes, the workers, the watchdog, the relay, the projector and the
  webhook dispatcher share one database, and what they share is changed by transactions.  \<open>tx_step\<close> is one
  transaction or single statement of any of them, at any time, with any arguments and any faults; any interleaving
  of any number of processes is a sequence of such steps.  The lemmas show that every handler and every
  turn of a process is such a sequence, that the ledger of \<open>Ledger\<close> is implemented, and that the database refines a
  book with a balance per account and an owner, a price and a status per task.
\<close>

section \<open>The steps\<close>

inductive tx_step :: "s2db \<Rightarrow> s2db \<Rightarrow> bool" where
  admission: "0 \<le> cost \<Longrightarrow> execute_admission_transaction rp u t cost i m p rm q ttl (w :: (s2db, s2kv) world) = (dec, w') \<Longrightarrow>
    tx_step (pg w) (pg w')"
| batch: "execute_batch_admission_transaction u tier b tasks m base ttl tr (w :: (s2db, s2kv) world) = (res, w') \<Longrightarrow>
    tx_step (pg w) (pg w')"
| sync_admission: "0 \<le> cost \<Longrightarrow>
    execute_sync_admission_transaction u tier t x y mc cost cb i m ttl (w :: (s2db, s2kv) world) = (dec, w') \<Longrightarrow>
    tx_step (pg w) (pg w')"
| start: "update_task_command_running t (w :: (s2db, s2kv) world) = (hit, w') \<Longrightarrow> tx_step (pg w) (pg w')"
| sync_success: "finalize_sync_success t u tier mc q d ms (w :: (s2db, s2kv) world) = (ok, w') \<Longrightarrow> tx_step (pg w) (pg w')"
| sync_failure: "st = TIMEOUT \<or> st = FAILED \<Longrightarrow>
    finalize_sync_failure t u tier mc q st msg (w :: (s2db, s2kv) world) = (ok, w') \<Longrightarrow> tx_step (pg w) (pg w')"
| success: "persist_success command d ms w = (ok, w') \<Longrightarrow> tx_step (pg w) (pg w')"
| failure: "persist_failure command msg w = (ok, w') \<Longrightarrow> tx_step (pg w) (pg w')"
| expiry: "owned (pg w) r \<Longrightarrow> expire_reservation (cr_task_id r) (cr_user_id r) (cr_amount r) w = (out, w') \<Longrightarrow>
    tx_step (pg w) (pg w')"
| cancel: "apply_cancel_transaction t q w = (res, w') \<Longrightarrow> tx_step (pg w) (pg w')"
| projection: "persist_projection e w = (out, w') \<Longrightarrow> tx_step (pg w) (pg w')"
| published: "mark_outbox_event_published e (w :: (s2db, s2kv) world) = (hit, w') \<Longrightarrow> tx_step (pg w) (pg w')"
| purge: "purge_old_outbox_events s n (w :: (s2db, s2kv) world) = (k, w') \<Longrightarrow> tx_step (pg w) (pg w')"
| touch: "touch_user_credits u (w :: (s2db, s2kv) world) = (x, w') \<Longrightarrow> tx_step (pg w) (pg w')"
| subscribe: "upsert_webhook_subscription u url on (w :: (s2db, s2kv) world) = (x, w') \<Longrightarrow> tx_step (pg w) (pg w')"
| unsubscribe: "disable_webhook_subscription u (w :: (s2db, s2kv) world) = (x, w') \<Longrightarrow> tx_step (pg w) (pg w')"
| dead_letter: "insert_webhook_dead_letter u t d s (w :: (s2db, s2kv) world) = (x, w') \<Longrightarrow> tx_step (pg w) (pg w')"
| revoke: "insert_revoked_jti jti u until (w :: (s2db, s2kv) world) = (x, w') \<Longrightarrow> tx_step (pg w) (pg w')"

text \<open>A request of an administrator that moved the balance of account \<open>u\<close> by \<open>n\<close>.\<close>

definition adjust_step :: "uuid \<Rightarrow> int \<Rightarrow> s2db \<Rightarrow> s2db \<Rightarrow> bool" where
  "adjust_step u n d d' \<longleftrightarrow> adjusted u n d d' \<and>
     (\<exists>jitter settings user p w r w'. admin_credits jitter settings user p w = (r, w') \<and> pg w = d \<and> pg w' = d' \<and>
        may_adjust settings user \<and> ac_delta p = n)"

abbreviation system_run :: "(uuid \<times> int) list \<Rightarrow> s2db \<Rightarrow> s2db \<Rightarrow> bool" where
  "system_run \<equiv> ledger_run tx_step adjust_step"

section \<open>The book\<close>

inductive book_step :: "book \<Rightarrow> book \<Rightarrow> bool" where
  idle: "book_step b b"
| admit: "0 \<le> n \<Longrightarrow> n \<le> fst b u \<Longrightarrow> snd b t = None \<Longrightarrow> book_step b (book_admit u t n b)"
| start: "snd b t = Some (u, n, PENDING) \<Longrightarrow> book_step b (book_start t b)"
| settle: "snd b t = Some (u, n, s) \<Longrightarrow> task_active s \<Longrightarrow> \<not> task_active st \<Longrightarrow> book_step b (book_settle st t b)"
| adjust: "0 \<le> fst b u + n \<Longrightarrow> book_step b ((fst b)(u := fst b u + n), snd b)"

inductive_cases book_stepE: "book_step b b'"

lemma same_books_frame:
  "same_books d (d\<lparr>outbox_events := a\<rparr>)" "same_books d (d\<lparr>inbox_events := b\<rparr>)"
  "same_books d (d\<lparr>task_query_view := c\<rparr>)" "same_books d (d\<lparr>webhook_subscriptions := e\<rparr>)"
  "same_books d (d\<lparr>webhook_dead_letters := f\<rparr>)" "same_books d (d\<lparr>token_revocations := g\<rparr>)"
  "same_books d d"
  by (simp_all add: same_books_def)

text \<open>The steps that do not concern the books.\<close>

lemma sql_same_books:
  assumes "sql f w = (r, w')" and "\<And>t d a d'. f t d = Inr (a, d') \<Longrightarrow> same_books d d'"
  shows "same_books (pg w) (pg w')"
  using assms(1)
proof (cases rule: sql_cases)
  case (ran a)
  with assms(2) show ?thesis by blast
qed (simp add: same_books_frame)

lemma same_books_steps:
  "mark_outbox_event_published e w = (r, w') \<Longrightarrow> same_books (pg w) (pg w')"
  "purge_old_outbox_events s n w = (k, w') \<Longrightarrow> same_books (pg w) (pg w')"
  "touch_user_credits u w = (x, w') \<Longrightarrow> same_books (pg w) (pg w')"
  "upsert_webhook_subscription u url on w = (y, w') \<Longrightarrow> same_books (pg w) (pg w')"
  "disable_webhook_subscription u w = (z, w') \<Longrightarrow> same_books (pg w) (pg w')"
  "insert_webhook_dead_letter u t d s' w = (x, w') \<Longrightarrow> same_books (pg w) (pg w')"
  "insert_revoked_jti jti u until w = (x, w') \<Longrightarrow> same_books (pg w) (pg w')"
  unfolding mark_outbox_event_published_def purge_old_outbox_events_def touch_user_credits_def touch_user_same
    upsert_webhook_subscription_def disable_webhook_subscription_def insert_webhook_dead_letter_def
    insert_revoked_jti_def
  by ((erule sql_same_books)?; auto simp: Let_def same_books_frame returnM_def split: if_splits option.splits
      elim!: sql_same_books)+

lemma settled_book:
  assumes "settled st t d d'" "\<not> task_active st"
  shows "book_step (book_of d) (book_of d')"
proof -
  from assms(1) obtain u n s where "task_state d t = Some (u, n, s)" "task_active s"
    "book_of d' = book_settle st t (book_of d)" by (auto simp: settled_def)
  with assms(2) show ?thesis by (auto intro!: book_step.settle simp: book_of_def)
qed

lemma admitted_book: "admitted now u t n i m d d' \<Longrightarrow> 0 \<le> n \<Longrightarrow> book_step (book_of d) (book_of d')"
  by (auto simp: admitted_def intro!: book_step.admit) (simp_all add: book_of_def)

lemma started_book: "started t d d' \<Longrightarrow> book_step (book_of d) (book_of d')"
  unfolding started_def using book_step.start [of "book_of d" t] by (auto simp: book_of_def)

lemma batch_book:
  assumes "distinct ts" "length ts = length ns" "\<forall>t\<in>set ts. tasks t = None" "list_all (\<lambda>n. 0 \<le> n) ns"
    "sum_list ns \<le> bal u"
  shows "book_step\<^sup>*\<^sup>* (bal, tasks) (bal(u := bal u - sum_list ns), tasks(ts [\<mapsto>] map (\<lambda>n. (u, n, PENDING)) ns))"
  using assms
proof (induction ts ns arbitrary: bal tasks rule: list_induct2')
  case (4 t ts n ns)
  have pos: "0 \<le> sum_list ns" using 4(5) by (simp add: sum_list_nonneg list_all_iff)
  have "book_step (bal, tasks) (book_admit u t n (bal, tasks))"
    using 4 pos by (intro book_step.admit) auto
  also have "book_step\<^sup>*\<^sup>* (book_admit u t n (bal, tasks))
      ((bal(u := bal u - n))(u := (bal(u := bal u - n)) u - sum_list ns),
       (tasks(t \<mapsto> (u, n, PENDING)))(ts [\<mapsto>] map (\<lambda>n. (u, n, PENDING)) ns))"
    unfolding book_admit_def fst_conv snd_conv using 4 by (intro 4(1)) (auto simp: algebra_simps)
  finally have "book_step\<^sup>*\<^sup>* (bal, tasks) ((bal(u := bal u - n))(u := (bal(u := bal u - n)) u - sum_list ns),
       (tasks(t \<mapsto> (u, n, PENDING)))(ts [\<mapsto>] map (\<lambda>n. (u, n, PENDING)) ns))" .
  moreover have "(bal(u := bal u - n))(u := (bal(u := bal u - n)) u - sum_list ns) = bal(u := bal u - sum_list (n # ns))"
    by (rule HOL.ext) simp
  ultimately show ?case by (simp only: list.map map_upds_Cons)
qed simp_all

section \<open>Every step conserves the credits and refines the book\<close>

lemma safe_run: "safe m \<Longrightarrow> m w = (r, w') \<Longrightarrow> s2_inv (pg w) \<Longrightarrow> conserves (pg w) (pg w')"
  by (metis safe_conserves snd_conv)

lemma safe_frames [safe_rules]:
  "safe (upsert_webhook_subscription u url on)" "safe (disable_webhook_subscription u)"
  "safe (insert_webhook_dead_letter u t d s)" "safe (insert_revoked_jti jti u until)"
  unfolding upsert_webhook_subscription_def disable_webhook_subscription_def insert_webhook_dead_letter_def
    insert_revoked_jti_def
  by (rule safe_sql; auto simp: Let_def s2_inv_def intro!: conserves_frame split: if_splits option.splits)+

lemma safe_projection [safe_rules]: "safe (persist_projection e)"
  unfolding persist_projection_def persist_projection_body_def
  by (auto intro!: safe_rules split: prod.split bool.split option.split)

lemma tx_conserves:
  assumes "tx_step d d'" "s2_inv d"
  shows "conserves d d'"
  using assms
proof cases
  case (expiry w r out w')
  with expire_reservation_outcome [OF _ expiry(3,4)] assms(2) show ?thesis
    by (auto intro: settled_conserves conserves_refl)
qed (auto intro: safe_run [OF safe_admission] safe_run [OF safe_batch_admission] safe_run [OF safe_sync_admission]
    safe_run [OF safe_mark_running] safe_run [OF safe_sync_success] safe_run [OF safe_sync_failure]
    safe_run [OF safe_persist(1)] safe_run [OF safe_persist(2)] safe_run [OF safe_cancel_transaction]
    safe_run [OF safe_projection] safe_run [OF safe_mark_published] safe_run [OF safe_purge_outbox]
    safe_run [OF safe_touch_user] safe_run [OF safe_frames(1)] safe_run [OF safe_frames(2)]
    safe_run [OF safe_frames(3)] safe_run [OF safe_frames(4)])

lemma only_view_books: "only_view d d' \<Longrightarrow> same_books d d'"
  using only_viewD by (simp add: same_books_def)

text \<open>A step is idle on the book, or one operation of it, or the admissions of a batch one by one.\<close>

lemma same_books_step: "same_books d d' \<Longrightarrow> book_step\<^sup>*\<^sup>* (book_of d) (book_of d')"
  using same_books_book by fastforce

lemma settle_books:
  assumes "same_books d d' \<or> settled st t d d'" "\<not> task_active st"
  shows "book_step\<^sup>*\<^sup>* (book_of d) (book_of d')"
  using assms same_books_step settled_book by blast

lemma sync_tx_admits:
  assumes inv: "s2_inv (pg w)" "0 \<le> n"
    and run: "execute_sync_admission_transaction u tier t x y mc n cb i m ttl w = (r, w')"
  shows "pg w' = pg w \<or> admitted (clock w) u t n i m (pg w) (pg w')"
  using run [unfolded execute_sync_admission_transaction_def]
proof (cases rule: in_transaction)
  case (ran dec fs w1)
  with sync_admission_body_ok [OF _ inv(2) ran(1)] sync_admission_body_refused [OF ran(1)] inv(1) show ?thesis
    by (cases "ad_ok dec") auto
qed simp

lemma tx_book:
  assumes "tx_step d d'" "s2_inv d"
  shows "book_step\<^sup>*\<^sup>* (book_of d) (book_of d')"
  using assms
proof cases
  case (admission cost rp u t i m p rm q ttl w dec w')
  with admission_tx_answer [OF _ admission(3,4)] assms(2)
  have "d' = d \<or> admitted (clock w) u t cost i m d d'"
    by (auto simp: admission_answer_def split: sum.splits if_splits)
  with admitted_book admission(3) show ?thesis by auto
next
  case (batch u tier b tasks m base ttl tr w res w')
  with batch_tx_answer [OF _ batch(3)] assms(2)
  have "d' = d \<or> (\<exists>ts. batch_admitted (clock w) u ts (batch_costs base tasks) m d d')"
    by (auto simp: batch_answer_def split: sum.splits if_splits)
  moreover have "list_all (\<lambda>n. 0 \<le> n) (batch_costs base tasks)"
    using task_cost_pos [of base] by (auto simp: batch_costs_def list_all_iff intro: order_trans [of 0 1])
  ultimately show ?thesis
    using batch_book [where tasks = "task_state d" and bal = "spendable d" and u = u]
    by (auto simp: batch_admitted_def book_of_def)
next
  case (sync_admission cost u tier t x y mc cb i m ttl w dec w')
  with sync_tx_admits [OF _ sync_admission(3,4)] assms(2)
  have "d' = d \<or> admitted (clock w) u t cost i m d d'" by simp
  with admitted_book sync_admission(3) show ?thesis by auto
next
  case (start t w hit w')
  with start_outcome [of w t hit w'] assms(2) show ?thesis by (auto intro: started_book)
next
  case (sync_success t u tier mc q res ms w ok w')
  have "same_books d d' \<or> settled COMPLETED t d d'" unfolding sync_success(1,2)
    using sync_success_outcome [OF _ sync_success(3)] assms(2) sync_success(1) by (auto simp: same_books_def)
  then show ?thesis by (rule settle_books) (simp add: task_active_def)
next
  case (sync_failure st t u tier mc q msg w ok w')
  have "same_books d d' \<or> settled st t d d'" unfolding sync_failure(1,2)
    using sync_failure_outcome [OF _ sync_failure(3,4)] assms(2) sync_failure(1) by (auto simp: same_books_def)
  then show ?thesis by (rule settle_books) (use sync_failure(3) in \<open>auto simp: task_active_def\<close>)
next
  case (success command res ms w ok w')
  have "same_books d d' \<or> settled COMPLETED (ec_task_id command) d d'" unfolding success(1,2)
    using persist_success_outcome [OF _ success(3)] assms(2) success(1) by auto
  then show ?thesis by (rule settle_books) (simp add: task_active_def)
next
  case (failure command msg w ok w')
  have "same_books d d' \<or> settled FAILED (ec_task_id command) d d'" unfolding failure(1,2)
    using persist_failure_outcome [OF _ failure(3)] assms(2) failure(1) by auto
  then show ?thesis by (rule settle_books) (simp add: task_active_def)
next
  case (expiry w r out w')
  have "same_books d d' \<or> settled TIMEOUT (cr_task_id r) d d'" unfolding expiry(1,2)
    using expire_reservation_outcome [OF _ expiry(3,4)] assms(2) expiry(1) by (auto simp: same_books_def)
  then show ?thesis by (rule settle_books) (simp add: task_active_def)
next
  case (cancel t q w res w')
  have "same_books d d' \<or> settled CANCELLED t d d'" unfolding cancel(1,2)
    using apply_cancel_outcome [OF _ cancel(3)] assms(2) cancel(1) by (auto simp: same_books_def)
  then show ?thesis by (rule settle_books) (simp add: task_active_def)
next
  case (projection e w out w')
  from projection(3) have "same_books d d'" unfolding projection(1,2)
    by (cases rule: persist_projection_outcome) (simp_all add: only_view_books same_books_frame)
  then show ?thesis by (rule same_books_step)
qed (auto intro: same_books_step dest: same_books_steps)

section \<open>The ledger of the system\<close>

lemma adjust_account:
  assumes "adjust_step u n d d'"
  shows "s2_inv d'" "spendable d' v = spendable d v + (if v = u then n else 0)" "held d' v = held d v"
    "charged d' v = charged d v"
  using assms by (auto simp: adjust_step_def adjusted_def)

interpretation s2_ledger: adjustable_ledger s2_inv tx_step spendable held charged adjust_step
proof unfold_locales
  fix s t u
  assume "s2_inv s" "tx_step s t"
  from tx_conserves [OF this(2,1)]
  show "s2_inv t" "spendable t u + held t u + charged t u = spendable s u + held s u + charged s u"
    "charged s u \<le> charged t u" by (simp_all add: conserves_def worth_def)
qed (simp_all add: spendable_nonneg held_nonneg adjust_account)

lemma adjust_book:
  assumes "adjust_step u n d d'" "s2_inv d"
  shows "book_step (book_of d) (book_of d')"
proof -
  from assms(1) have a: "adjusted u n d d'" by (simp add: adjust_step_def)
  have "0 \<le> spendable d' u" using a spendable_nonneg [of d' u] by (auto simp: adjusted_def)
  with a have "0 \<le> fst (book_of d) u + n" using fun_cong [of "spendable d'" _ u] by (simp add: adjusted_def book_of_def)
  moreover have "book_of d' = ((fst (book_of d))(u := fst (book_of d) u + n), snd (book_of d))"
    using a by (simp add: adjusted_def book_of_def)
  ultimately show ?thesis by (metis book_step.adjust)
qed

lemma run_book:
  "system_run l d d' \<Longrightarrow> s2_inv d \<Longrightarrow> book_step\<^sup>*\<^sup>* (book_of d) (book_of d')"
proof (induction rule: ledger_run.induct)
  case (step l d d1 d2)
  from tx_book [OF step.hyps(2)] s2_ledger.ledger_run_account [OF step.hyps(1)] step show ?case by auto
next
  case (adjust l d d1 u n d2)
  from adjust_book [OF adjust.hyps(2)] s2_ledger.ledger_run_account [OF adjust.hyps(1)] adjust show ?case by auto
qed simp

text \<open>A task keeps its owner and its price, and once it has ended also its status.\<close>

lemma book_step_task:
  assumes "book_step b b'" "snd b t = Some (u, n, s)"
  shows "\<exists>s'. snd b' t = Some (u, n, s') \<and> (\<not> task_active s \<longrightarrow> s' = s)"
  using assms
  by (cases rule: book_step.cases)
    (auto simp: book_admit_def book_start_def book_settle_def task_active_def)

lemma book_run_task:
  "book_step\<^sup>*\<^sup>* b b' \<Longrightarrow> snd b t = Some (u, n, s) \<Longrightarrow>
    \<exists>s'. snd b' t = Some (u, n, s') \<and> (\<not> task_active s \<longrightarrow> s' = s)"
proof (induction rule: rtranclp_induct)
  case (step b1 b2)
  then obtain s1 where s1: "snd b1 t = Some (u, n, s1)" "\<not> task_active s \<longrightarrow> s1 = s" by blast
  from book_step_task [OF step(2) s1(1)] s1(2) show ?case by auto
qed auto

lemma owned_run: "book_step\<^sup>*\<^sup>* (book_of d) (book_of d') \<Longrightarrow> owned d r \<Longrightarrow> owned d' r"
  unfolding owned_def using book_run_task [of "book_of d" "book_of d'" "cr_task_id r"]
  by (auto simp: book_of_def)

section \<open>Every handler is a sequence of steps\<close>

text \<open>\<open>by_steps m\<close>: whatever fails and wherever \<open>m\<close> stops, the database moved by steps of the system.\<close>

abbreviation reach :: "s2db \<Rightarrow> s2db \<Rightarrow> bool" where
  "reach d d' \<equiv> s2_inv d \<and> tx_step\<^sup>*\<^sup>* d d'"

abbreviation steps :: "s2db \<Rightarrow> 'a app \<Rightarrow> bool" where
  "steps d m \<equiv> keeps (reach d) m"

definition by_steps :: "'a app \<Rightarrow> bool" where
  "by_steps m \<longleftrightarrow> (\<forall>d. steps d m)"

lemma reach_inv: "reach d d' \<Longrightarrow> s2_inv d'"
  by (auto intro: s2_ledger.run_inv)

lemma keeps_step:
  assumes "\<And>w r w'. m w = (r, w') \<Longrightarrow> tx_step (pg w) (pg w')"
  shows "steps d m"
  using assms by (intro keepsI) (metis rtranclp.rtrancl_into_rtrancl surjective_pairing)

named_theorems step_rules

lemma keeps_tx [step_rules]:
  "0 \<le> cost \<Longrightarrow> steps d (execute_admission_transaction rp u t cost i m p rm q ttl)"
  "steps d (execute_batch_admission_transaction u tier b tasks m base ttl tr)"
  "0 \<le> cost \<Longrightarrow> steps d (execute_sync_admission_transaction u tier t x y mc cost cb i m secs')"
  "steps d (update_task_command_running t)"
  "steps d (finalize_sync_success t u tier mc lane res ms)"
  "st = TIMEOUT \<or> st = FAILED \<Longrightarrow> steps d (finalize_sync_failure t u tier mc lane st msg)"
  "steps d (persist_success command res ms)"
  "steps d (persist_failure command msg)"
  "steps d (apply_cancel_transaction t lane)"
  "steps d (persist_projection e)"
  "steps d (mark_outbox_event_published eid)"
  "steps d (purge_old_outbox_events k n)"
  "steps d (touch_user_credits u)"
  "steps d (upsert_webhook_subscription u url on)"
  "steps d (disable_webhook_subscription u)"
  "steps d (insert_webhook_dead_letter u t payload s)"
  "steps d (insert_revoked_jti jti u until)"
  by (rule keeps_step, (erule (1) tx_step.admission | erule (1) tx_step.sync_admission | erule (1)
    tx_step.sync_failure | erule tx_step.batch | erule tx_step.start | erule tx_step.sync_success | erule
    tx_step.success | erule tx_step.failure | erule tx_step.cancel | erule tx_step.projection | erule
    tx_step.published | erule tx_step.purge | erule tx_step.touch | erule tx_step.subscribe | erule
    tx_step.unsubscribe | erule tx_step.dead_letter | erule tx_step.revoke))+

text \<open>The gates.\<close>

lemma steps_gates [step_rules]:
  "0 \<le> cost \<Longrightarrow> steps d (run_admission_gate rp sha u t cost i m p rm q ttl)"
  "steps d (run_batch_admission_gate sha u tier b tasks m base ttl tr)"
  "0 \<le> cost \<Longrightarrow> steps d (run_sync_submission sha u tier t x y mc cost cb i m lane timeout ttl)"
  unfolding run_admission_gate_def run_batch_admission_gate_def run_sync_submission_def execute_sync_runtime_def
    mark_sync_running_def sleep_with_timeout_def Let_def
  by (intro keeps_rules step_rules; simp)+

lemma steps_write_states [step_rules]: "steps d (cache_batch_pending_states settings user now specs ids)"
  by (induction settings user now specs ids rule: cache_batch_pending_states.induct) (auto intro!: keeps_rules)

lemma keeps_require_scopes [keeps_rules]: "keeps I (require_scopes user scopes)"
  unfolding require_scopes_def by (auto intro!: keeps_rules split: list.split)

lemma steps_submit: "steps d (submit_task rp show_time settings sha user payload header trace ctx)"
  unfolding submit_task_def run_gate_def handle_submit_admission_rejection_def acknowledge_submission_def Let_def
  using order_trans [OF _ task_cost_pos, of 0] by (intro keeps_rules step_rules; simp)

lemma steps_batch: "steps d (submit_batch settings sha user tasks trace)"
  unfolding submit_batch_def by (intro keeps_rules step_rules)

lemma steps_cancel: "steps d (cancel_task jitter settings user t)"
  unfolding cancel_task_def Let_def by (intro keeps_rules step_rules)

lemma steps_poll: "steps d (poll_task dumps loads show_time settings t user)"
  unfolding poll_task_def poll_from_task_state_def poll_from_query_view_def poll_from_command_def
  by (intro keeps_rules)

lemma steps_subscriptions:
  "steps d (put_webhook ip6 show_time user p)" "steps d (get_webhook show_time user)"
  "steps d (delete_webhook show_time user)"
  unfolding put_webhook_def get_webhook_def delete_webhook_def Let_def by (intro keeps_rules step_rules)+

lemma steps_revoke: "steps d (revoke_jti u jti expires_at ttl)"
  unfolding revoke_jti_def remember_revocation_def Let_def by (intro keeps_rules step_rules)

text \<open>The background processes.\<close>

lemma steps_worker: "quiet sleep_fn \<Longrightarrow> steps d (worker_turn rp sleep_fn warm warmed settings)"
  unfolding worker_turn_def process_delivery_def refresh_worker_heartbeat_def refresh_queue_depth_metrics_def
    set_running_state_def
  by (intro keeps_rules step_rules keeps_execute_model keeps_write_terminal_cache)

lemma steps_relay: "steps d (relay_turn matches settings due)"
proof -
  have "steps d (publish_events matches es n)" for es n
    by (induction es arbitrary: n) (auto intro!: keeps_rules step_rules)
  then show ?thesis
    unfolding relay_turn_def publish_batch_def purge_published_events_def by (intro keeps_rules step_rules)
qed

lemma steps_projector: "steps d (projector_turn rp settings)"
  unfolding projector_turn_def project_delivery_def
  by (auto intro!: keeps_rules step_rules split: prod.split bool.split option.split)

lemma steps_dispatcher: "steps d (dispatcher_turn rp ip6 post settings)"
proof -
  have "steps d (promote_events settings raws n)" for raws n
    by (induction raws arbitrary: n) (auto intro!: keeps_rules)
  moreover have "steps d (process_raw_event rp ip6 post settings raw)" for raw
    unfolding process_raw_event_def schedule_retry_def send_to_dead_letter_def send_webhook_def Let_def
    by (intro keeps_rules step_rules)
  ultimately show ?thesis
    unfolding dispatcher_turn_def promote_scheduled_events_def pop_pending_event_def refresh_depth_metrics_def
    by (intro keeps_rules)
qed

text \<open>The watchdog expires the rows it read before, whose tasks keep their owner and price meanwhile.\<close>

lemma steps_expire_all:
  assumes "set rs \<subseteq> set qs"
  shows "keeps (\<lambda>x. reach d x \<and> (\<forall>r\<in>set qs. owned x r)) (expire_all settings rs n c)"
  using assms
proof (induction rs arbitrary: n c)
  case (Cons r rs)
  have "keeps (\<lambda>x. reach d x \<and> (\<forall>r\<in>set qs. owned x r))
      (expire_reservation (cr_task_id r) (cr_user_id r) (cr_amount r))"
  proof (rule keepsI)
    fix w :: "(s2db, s2kv) world"
    assume I: "reach d (pg w) \<and> (\<forall>r\<in>set qs. owned (pg w) r)"
    obtain out w' where run: "expire_reservation (cr_task_id r) (cr_user_id r) (cr_amount r) w = (out, w')" by fastforce
    from I Cons.prems have "tx_step (pg w) (pg w')" by (intro tx_step.expiry [OF _ run]) auto
    moreover from this have "book_step\<^sup>*\<^sup>* (book_of (pg w)) (book_of (pg w'))" using I reach_inv tx_book by blast
    ultimately show "reach d (pg (snd (expire_reservation (cr_task_id r) (cr_user_id r) (cr_amount r) w))) \<and>
      (\<forall>q\<in>set qs. owned (pg (snd (expire_reservation (cr_task_id r) (cr_user_id r) (cr_amount r) w))) q)"
      using I owned_run unfolding run by (auto intro: rtranclp.rtrancl_into_rtrancl)
  qed
  with Cons show ?case by (auto intro!: keeps_rules)
qed (auto intro!: keeps_rules)

lemma steps_watchdog: "steps d (watchdog_turn settings)"
proof -
  have "steps d (process_expired_reservations settings)"
  proof (rule keepsI)
    fix w :: "(s2db, s2kv) world"
    assume r: "reach d (pg w)"
    obtain res w' where run: "process_expired_reservations settings w = (res, w')" by fastforce
    then have "bindE (find_expired_reservations (clock w)) (\<lambda>rs. expire_all settings rs 0 0) w = (res, w')"
      by (simp add: process_expired_reservations_def nofault_simps bindE_def get_clock_def)
    then have "reach d (pg w')"
    proof (cases rule: bindE_cases)
      case (raised e)
      with r show ?thesis using keeps_pgD [OF keeps_reads(4)] by metis
    next
      case (ran rs w1)
      then have w1: "pg w1 = pg w" "set rs \<subseteq> set (credit_reservations (pg w))"
        unfolding find_expired_reservations_def by (auto elim!: sql_read_okE)
      with r have "reach d (pg w1) \<and> (\<forall>r\<in>set rs. owned (pg w1) r)" using read_owned reach_inv by (metis subsetD)
      from keepsD [OF steps_expire_all [OF subset_refl, of d rs settings 0 0] this] ran(2) show ?thesis by simp
    qed
    then show "reach d (pg (snd (process_expired_reservations settings w)))" by (simp add: run)
  qed
  then show ?thesis
    unfolding watchdog_turn_def watchdog_cycle_def cleanup_terminal_redis_def by (intro keeps_rules)
qed

text \<open>The adjustment of an administrator is the one change from outside.\<close>

lemma admin_credits_run:
  assumes inv: "s2_inv (pg w)"
  shows "\<exists>l. system_run l (pg w) (pg (snd (admin_credits jitter settings user p w))) \<and>
    (l = [] \<or> may_adjust settings user \<and> (\<exists>u. l = [(u, ac_delta p)]))"
proof -
  obtain r w' where run: "admin_credits jitter settings user p w = (r, w')" by fastforce
  from admin_credits_answer [OF inv run] consider "pg w' = pg w"
    | u where "may_adjust settings user" "adjusted u (ac_delta p) (pg w) (pg w')"
    unfolding admin_answer_def by blast
  then show ?thesis
  proof cases
    case 1
    then show ?thesis using run by (intro exI [of _ "[]"]) (auto intro: ledger_run.start)
  next
    case 2
    with run have "adjust_step u (ac_delta p) (pg w) (pg w')" unfolding adjust_step_def by blast
    then have "system_run ([] @ [(u, ac_delta p)]) (pg w) (pg w')" by (rule ledger_run.adjust [OF ledger_run.start])
    with 2 run show ?thesis by auto
  qed
qed

section \<open>Properties\<close>

definition demo_completed :: s2db where
  "demo_completed = demo_pending
     \<lparr>task_commands := map (\<lambda>c. c\<lparr>tc_status := COMPLETED\<rparr>) (task_commands demo_pending),
      credit_reservations := map (\<lambda>r. r\<lparr>cr_state := CAPTURED\<rparr>) (credit_reservations demo_pending)\<rparr>"

lemma demo_completed_inv: "s2_inv demo_completed"
  by (simp add: s2_inv_def ledger_ok_def idempotency_ok_def demo_completed_def demo_pending_def demo_db_def keyed_def
      reserved_as_def commanded_as_def)

lemma demo_cancel_run:
  "system_run [] d (pg (snd (apply_cancel_transaction 7 [] (demo_app d []))))"
proof -
  obtain r w' where run: "apply_cancel_transaction 7 [] (demo_app d []) = (r, w')" by fastforce
  from tx_step.cancel [OF this] have "tx_step d (pg w')" by simp
  then show ?thesis using run by (auto intro: ledger_run.intros)
qed

text \<open>C21 In every run of the system, with any interleaving of the transactions of any number of processes, any faults
  and any adjustments by administrators, the invariant of the tables holds, the credits an account can spend,
  has held and was charged add up to what they were at the start plus its adjustments, no charge is
  taken back, and no account is charged more than it had and was given.\<close>

theorem system_ledger:
  assumes "s2_inv d" "system_run l d d'"
  shows "s2_inv d' \<and> worth d' u = worth d u + adjustments u l \<and> 0 \<le> spendable d' u \<and> charged d u \<le> charged d' u \<and>
    charged d' u - charged d u \<le> spendable d u + held d u + adjustments u l"
  using s2_ledger.ledger_run_account [OF assms(2,1), of u] s2_ledger.ledger_run_no_overcharge [OF assms(2,1), of u]
    spendable_nonneg [of d' u]
  by (simp add: worth_def)

theorem system_ledger_witness:
  "worth (pg (snd (apply_cancel_transaction 7 [] (demo_app demo_pending [])))) 1 = 500"
  using system_ledger [OF demo_pending_inv demo_cancel_run, of 1]
  by (simp add: worth_def spendable_def find_user_def held_def charged_def sum_in_def demo_pending_def demo_db_def)



text \<open>C23 A task keeps its owner and its price for ever, and a task that has ended keeps its status: no later delivery,
  expiry, cancellation or replay changes it.\<close>

theorem ended_tasks_stay:
  assumes "s2_inv d" "system_run l d d'" "task_state d t = Some (u, n, s)"
  shows "\<exists>s'. task_state d' t = Some (u, n, s') \<and> (task_active s \<or> s' = s)"
  using book_run_task [OF run_book [OF assms(2,1)], of t u n s] assms(3) by (auto simp: book_of_def)

theorem ended_tasks_stay_witness:
  "task_state (pg (snd (apply_cancel_transaction 7 [] (demo_app demo_completed [])))) 7 = Some (1, 10, COMPLETED)"
proof -
  have "task_state demo_completed 7 = Some (1, 10, COMPLETED)"
    by (simp add: task_state_def find_command_def demo_completed_def demo_pending_def)
  from ended_tasks_stay [OF demo_completed_inv demo_cancel_run this] show ?thesis by (simp add: task_active_def)
qed

text \<open>C24 Whatever fails and wherever it stops, every handler of the API and every turn of a background process moves
  the database by steps of the system only; the credit adjustment is at most one adjustment by an administrator.\<close>

theorem handlers_take_steps:
  assumes "quiet sleep_fn"
  shows "by_steps (submit_task rp show_time settings sha user payload header trace ctx) \<and>
    by_steps (submit_batch settings sha user tasks trace) \<and> by_steps (cancel_task jitter settings user t) \<and>
    by_steps (poll_task dumps loads show_time settings t user) \<and> by_steps (put_webhook ip6 show_time user p) \<and>
    by_steps (delete_webhook show_time user) \<and> by_steps (revoke_jti (au_user_id user) jti expires_at ttl) \<and>
    by_steps (worker_turn rp sleep_fn warm warmed settings) \<and> by_steps (watchdog_turn settings) \<and>
    by_steps (relay_turn matches settings due) \<and> by_steps (projector_turn rp settings) \<and>
    by_steps (dispatcher_turn rp ip6 post settings) \<and>
    (s2_inv (pg w) \<longrightarrow> (\<exists>l. system_run l (pg w) (pg (snd (admin_credits jitter settings user adjustment w))) \<and>
      (l = [] \<or> may_adjust settings user \<and> (\<exists>u. l = [(u, ac_delta adjustment)]))))"
  using steps_worker [OF assms] admin_credits_run
  by (auto simp: by_steps_def intro: steps_submit steps_batch steps_cancel steps_poll steps_subscriptions steps_revoke
      steps_watchdog steps_relay steps_projector steps_dispatcher)

theorem handlers_take_steps_witness:
  "\<exists>l. system_run l demo_pending (pg (snd (admin_credits (\<lambda>_. 1) demo_settings demo_alice demo_adjustment
     (demo_app demo_pending [])))) \<and> (l = [] \<or> may_adjust demo_settings demo_alice \<and> (\<exists>u. l = [(u, 50)]))"
proof -
  have "quiet (model_sleep False)" by (simp add: quiet_model_sleep)
  from handlers_take_steps [OF this, where w = "demo_app demo_pending []" and jitter = "\<lambda>_. 1" and settings = demo_settings
      and user = demo_alice and adjustment = demo_adjustment]
  show ?thesis by (simp add: demo_pending_inv demo_adjustment_def)
qed

end
