(* ===== verification/S2_Ops.thy ===== *)
theory S2_Ops
  imports S2_Auth
begin

text \<open>
  Solution 2, \<open>db/migrate.py\<close>, \<open>core/dependencies.py\<close> and \<open>api/system_routes.py\<close>: applying the SQL files that the
  table \<open>schema_migrations\<close> does not list, each in a transaction with its row, under an advisory lock; the
  readiness of the dependencies; the probe routes.  What a script does to the schema is a parameter \<open>exec\<close>; a
  directory is the list of its files with their texts.  The lemmas show that, whatever fails, the schema is always
  the one that the recorded scripts make in their order, and that a run that returns has applied every pending file.
\<close>

section \<open>Files and templates\<close>

definition sql_suffix :: "string \<Rightarrow> bool" where
  "sql_suffix name \<longleftrightarrow> 4 < length name \<and> drop (length name - 4) name = ''.sql''"

definition is_lower_word :: "char \<Rightarrow> bool" where
  "is_lower_word c \<longleftrightarrow> (let n = (of_char c :: nat) in (97 \<le> n \<and> n \<le> 122) \<or> (48 \<le> n \<and> n \<le> 57) \<or> n = 95)"

definition is_decimal :: "char \<Rightarrow> bool" where
  "is_decimal c \<longleftrightarrow> (let n = (of_char c :: nat) in 48 \<le> n \<and> n \<le> 57)"

text \<open>\<open>^\d{4}_[a-z0-9_]+\.sql$\<close> on a name with the suffix.\<close>

definition MIGRATION_FILENAME_RE :: "string \<Rightarrow> bool" where
  "MIGRATION_FILENAME_RE name \<longleftrightarrow> sql_suffix name \<and>
     (let stem = take (length name - 4) name in
      5 < length stem \<and> list_all is_decimal (take 4 stem) \<and> stem ! 4 = CHR ''_'' \<and> list_all is_lower_word (drop 5 stem))"

definition ordered_migration_files :: "(string \<times> string) list \<Rightarrow> exn + (string \<times> string) list" where
  "ordered_migration_files directory =
     (let files = sort_key fst (filter (\<lambda>f. sql_suffix (fst f)) directory) in
      if list_all (\<lambda>f. MIGRATION_FILENAME_RE (fst f)) files then Inr files
      else Inl (Exn ValueError ''invalid migration filename(s)''))"

text \<open>\<open>s.replace(old, new)\<close> for a text \<open>old\<close> that is not empty.\<close>

function replace_all :: "string \<Rightarrow> string \<Rightarrow> string \<Rightarrow> string" where
  "replace_all old new [] = []"
| "replace_all old new (c # cs) =
     (if old \<noteq> [] \<and> take (length old) (c # cs) = old then new @ replace_all old new (drop (length old - 1) cs)
      else c # replace_all old new cs)"
  by pat_completeness auto
termination
  by (relation "measure (\<lambda>(old, new, s). length s)") auto

fun render_migration_sql :: "string \<Rightarrow> (string \<times> string) list \<Rightarrow> string" where
  "render_migration_sql sql_text [] = sql_text"
| "render_migration_sql sql_text ((key, replacement) # values) =
     render_migration_sql (replace_all (''{{'' @ key @ ''}}'') replacement sql_text) values"

fun sql_quoted_csv :: "string list \<Rightarrow> string" where
  "sql_quoted_csv [] = []"
| "sql_quoted_csv [v] = [CHR 0x27] @ v @ [CHR 0x27]"
| "sql_quoted_csv (v # vs) = [CHR 0x27] @ v @ [CHR 0x27] @ '', '' @ sql_quoted_csv vs"

definition migration_template_values :: "AppSettings \<Rightarrow> (string \<times> string) list" where
  "migration_template_values settings =
     [(''ADMIN_API_KEY'', st_admin_api_key settings), (''ALICE_API_KEY'', st_alice_api_key settings),
      (''BOB_API_KEY'', st_bob_api_key settings),
      (''ADMIN_USER_ID'', uuid_str (st_oauth_admin_user_id settings)),
      (''TEST_USER1_USER_ID'', uuid_str (st_oauth_user1_user_id settings)),
      (''TEST_USER2_USER_ID'', uuid_str (st_oauth_user2_user_id settings)),
      (''ADMIN_ROLE'', UserRole_value ADMIN), (''USER_ROLE'', UserRole_value USER),
      (''DEFAULT_USER_ROLE'', UserRole_value USER),
      (''USER_ROLE_VALUES_SQL'', sql_quoted_csv (map UserRole_value [ADMIN, USER])),
      (''DEFAULT_TIER'', SubscriptionTier_value FREE), (''ADMIN_TIER'', SubscriptionTier_value ENTERPRISE),
      (''TIER_VALUES_SQL'', sql_quoted_csv (map SubscriptionTier_value [FREE, PRO, ENTERPRISE])),
      (''DEFAULT_TASK_STATUS'', TaskStatus_value DEFAULT_TASK_STATUS),
      (''TASK_STATUS_VALUES_SQL'', sql_quoted_csv (map TaskStatus_value TaskStatuses)),
      (''ADMIN_DEFAULT_CREDITS'', ''1000''), (''TEST_USER1_DEFAULT_CREDITS'', ''500''),
      (''TEST_USER2_DEFAULT_CREDITS'', ''250''), (''ADMIN_NAME'', ''admin''), (''ALICE_NAME'', ''alice''),
      (''BOB_NAME'', ''bob'')]"

section \<open>Applying migrations\<close>

text \<open>\<open>md_versions\<close> is \<open>None\<close> before the table exists; \<open>md_lock\<close>: this session holds the advisory lock.\<close>

record 's migdb =
  md_versions :: "string list option"
  md_schema :: 's
  md_lock :: bool

type_synonym ('s, 'k, 'a) mig = "('s migdb, 'k, 'a) io"

definition recorded :: "'s migdb \<Rightarrow> string list" where
  "recorded d = (case md_versions d of None \<Rightarrow> [] | Some vs \<Rightarrow> vs)"

definition ensure_schema_migrations_table :: "('s, 'k, unit) mig" where
  "ensure_schema_migrations_table = sql (\<lambda>_ d. Inr ((), d\<lparr>md_versions := Some (recorded d)\<rparr>))"

definition applied_migration_versions :: "('s, 'k, string list) mig" where
  "applied_migration_versions = sql_read (\<lambda>_ d. recorded d)"

definition execute_script :: "(string \<Rightarrow> 's \<Rightarrow> exn + 's) \<Rightarrow> string \<Rightarrow> ('s, 'k, unit) mig" where
  "execute_script exec text = sql (\<lambda>_ d. then_ok (exec text (md_schema d)) (\<lambda>s. Inr ((), d\<lparr>md_schema := s\<rparr>)))"

definition insert_version :: "string \<Rightarrow> ('s, 'k, unit) mig" where
  "insert_version version = sql (\<lambda>_ d.
     if 255 < length version then Inl (Exn DataError [])
     else if List.member (recorded d) version then Inl (Exn UniqueViolationError [])
     else Inr ((), d\<lparr>md_versions := Some (recorded d @ [version])\<rparr>))"

definition script :: "(string \<times> string) list \<Rightarrow> string \<Rightarrow> string" where
  "script template_values text = strip (render_migration_sql text template_values)"

fun apply_files :: "(string \<Rightarrow> 's \<Rightarrow> exn + 's) \<Rightarrow> (string \<times> string) list \<Rightarrow> string list \<Rightarrow> (string \<times> string) list \<Rightarrow>
    string list \<Rightarrow> ('s, 'k, string list) mig" where
  "apply_files exec template_values already_applied [] applied_now = returnM applied_now"
| "apply_files exec template_values already_applied ((version, text) # files) applied_now =
     (if List.member already_applied version
      then apply_files exec template_values already_applied files applied_now
      else let sql_text = script template_values text in
        if sql_text = [] then raiseM ValueError ''migration file is empty''
        else bindE (transaction (bindE (execute_script exec sql_text) (\<lambda>_. insert_version version))) (\<lambda>_.
          apply_files exec template_values already_applied files (applied_now @ [version])))"

definition apply_pending_migrations :: "(string \<Rightarrow> 's \<Rightarrow> exn + 's) \<Rightarrow> AppSettings \<Rightarrow> (string \<times> string) list \<Rightarrow>
    ('s, 'k, string list) mig" where
  "apply_pending_migrations exec settings directory =
     bindE ensure_schema_migrations_table (\<lambda>_.
     bindE applied_migration_versions (\<lambda>already_applied.
     bindE (liftE (ordered_migration_files directory)) (\<lambda>files.
     apply_files exec (migration_template_values settings) already_applied files [])))"

text \<open>\<open>try: m finally: f\<close>.\<close>

definition finallyM :: "('d, 'k, 'a) io \<Rightarrow> ('d, 'k, unit) io \<Rightarrow> ('d, 'k, 'a) io" where
  "finallyM m f w = (case m w of (r, w1) \<Rightarrow> (case f w1 of (Inl e, w2) \<Rightarrow> (Inl e, w2) | (Inr _, w2) \<Rightarrow> (r, w2)))"

definition set_lock :: "bool \<Rightarrow> ('s, 'k, unit) mig" where
  "set_lock b = sql (\<lambda>_ d. Inr ((), d\<lparr>md_lock := b\<rparr>))"

text \<open>The end of the session releases the lock, whatever \<open>close\<close> answers.\<close>

definition close_connection :: "('s, 'k, unit) mig" where
  "close_connection w = ext (returnM ()) (w\<lparr>pg := (pg w)\<lparr>md_lock := False\<rparr>\<rparr>)"

definition run_migrations :: "(string \<Rightarrow> 's \<Rightarrow> exn + 's) \<Rightarrow> AppSettings \<Rightarrow> (string \<times> string) list \<Rightarrow>
    ('s, 'k, string list) mig" where
  "run_migrations exec settings directory =
     bindE (ext (returnM ())) (\<lambda>_.
     finallyM (bindE (set_lock True) (\<lambda>_. finallyM (apply_pending_migrations exec settings directory) (set_lock False)))
       close_connection)"

section \<open>Readiness and probes\<close>

record ReadinessResult =
  rr_ready :: bool
  rr_dependencies :: "(string \<times> bool) list"

definition safe_check :: "bool app \<Rightarrow> bool app" where
  "safe_check check_fn = bindE (attempt check_fn) (\<lambda>r. returnM (case r of Inl _ \<Rightarrow> False | Inr b \<Rightarrow> b))"

definition readiness :: "bool app \<Rightarrow> bool app \<Rightarrow> bool app option \<Rightarrow> ReadinessResult app" where
  "readiness check_postgres check_redis check_rabbitmq =
     bindE (safe_check check_postgres) (\<lambda>postgres_ok.
     bindE (safe_check check_redis) (\<lambda>redis_ok.
     bindE (case check_rabbitmq of None \<Rightarrow> returnM True | Some c \<Rightarrow> safe_check c) (\<lambda>rabbitmq_ok.
     returnM \<lparr>rr_ready = postgres_ok \<and> redis_ok \<and> rabbitmq_ok,
       rr_dependencies = [(''postgres'', postgres_ok), (''redis'', redis_ok), (''rabbitmq'', rabbitmq_ok)]\<rparr>)))"

definition ready :: "string \<Rightarrow> ReadinessResult app \<Rightarrow> reply app" where
  "ready trace_id check = bindE check (\<lambda>r.
     let dependencies = rr_dependencies r @ [(''worker'', True), (''redis_scripts'', True)] in
     returnM (JSONResponse (if rr_ready r then 200 else 503)
       (JObj [(''ready'', JBool (rr_ready r)),
         (''dependencies'', JObj (map (\<lambda>(k, b). (k, JBool b)) dependencies)), (''trace_id'', JStr trace_id)])))"

definition health :: "reply app" where
  "health = returnM (JSONResponse 200 (JObj [(''status'', JStr ''ok''), (''service'', JStr ''mc-solution2-api'')]))"

definition hit :: "reply app" where
  "hit = bindE (redis_incr ''hits'') (\<lambda>count. returnM (JSONResponse 200
     (JObj [(''message'', JStr (''Hello World! I have been seen '' @ str_of_int count @ '' times.''))])))"

section \<open>The schema is always the one that the recorded scripts make\<close>

fun run_scripts :: "(string \<Rightarrow> 's \<Rightarrow> exn + 's) \<Rightarrow> string list \<Rightarrow> 's \<Rightarrow> exn + 's" where
  "run_scripts exec [] s = Inr s"
| "run_scripts exec (x # xs) s = then_ok (exec x s) (run_scripts exec xs)"

lemma run_scripts_append: "run_scripts exec (xs @ [x]) s = then_ok (run_scripts exec xs s) (exec x)"
  by (induction xs arbitrary: s) (auto simp: then_ok_def split: sum.split)

text \<open>\<open>consistent\<close>: no version is recorded twice, and the schema is what the scripts of the recorded versions, in the
  order of their recording, make of the first schema.\<close>

definition consistent :: "(string \<Rightarrow> 's \<Rightarrow> exn + 's) \<Rightarrow> (string \<Rightarrow> string) \<Rightarrow> 's \<Rightarrow> 's migdb \<Rightarrow> bool" where
  "consistent exec text_of s0 d \<longleftrightarrow> distinct (recorded d) \<and> run_scripts exec (map text_of (recorded d)) s0 = Inr (md_schema d)"

definition file_script :: "AppSettings \<Rightarrow> (string \<times> string) list \<Rightarrow> string \<Rightarrow> string" where
  "file_script settings directory version =
     script (migration_template_values settings) (case map_of directory version of None \<Rightarrow> [] | Some text \<Rightarrow> text)"

lemma recorded_simps [simp]:
  "recorded (d\<lparr>md_versions := Some vs\<rparr>) = vs" "recorded (d\<lparr>md_schema := s\<rparr>) = recorded d"
  "recorded (d\<lparr>md_lock := b\<rparr>) = recorded d"
  by (simp_all add: recorded_def)

lemma consistent_frame [simp]:
  "consistent exec f s0 (d\<lparr>md_lock := b\<rparr>) = consistent exec f s0 d"
  "consistent exec f s0 (d\<lparr>md_versions := Some (recorded d)\<rparr>) = consistent exec f s0 d"
  by (simp_all add: consistent_def)

lemma keeps_finally [keeps_rules]: "keeps I m \<Longrightarrow> keeps I f \<Longrightarrow> keeps I (finallyM m f)"
  unfolding keeps_def finallyM_def by (auto split: prod.split sum.split)

lemma migration_body:
  assumes "bindE (execute_script exec (f version)) (\<lambda>_. insert_version version) w = (Inr x, w')"
    and "consistent exec f s0 (pg w)"
  shows "consistent exec f s0 (pg w') \<and> recorded (pg w') = recorded (pg w) @ [version]"
proof -
  from assms(1) obtain s where s: "exec (f version) (md_schema (pg w)) = Inr s"
    "\<not> List.member (recorded (pg w)) version"
    "pg w' = (pg w)\<lparr>md_schema := s, md_versions := Some (recorded (pg w) @ [version])\<rparr>"
    unfolding execute_script_def insert_version_def
    by (auto elim!: bindE_okE sql_okE simp: then_ok_def split: sum.splits if_splits)
  with assms(2) show ?thesis by (auto simp: consistent_def run_scripts_append recorded_def)
qed

lemma keeps_apply_files:
  assumes "\<forall>(version, text)\<in>set files. f version = script values text"
  shows "keeps (consistent exec f s0) (apply_files exec values done files now)"
  using assms
proof (induction files arbitrary: now)
  case (Cons entry files)
  obtain version contents where entry: "entry = (version, contents)" by fastforce
  with Cons.prems entry have f: "script values contents = f version" by simp
  have "keeps (consistent exec f s0) (transaction (bindE (execute_script exec (f version)) (\<lambda>_. insert_version version)))"
    by (rule keeps_transaction, rule migration_body [THEN conjunct1])
  with Cons show ?case unfolding entry by (auto simp: Let_def f intro!: keeps_bindE keeps_raiseM)
qed (auto intro!: keeps_rules)

text \<open>The files that are read have distinct names, so each script is the one of its version.\<close>

lemma ordered_files:
  assumes "ordered_migration_files directory = Inr files" "distinct (map fst directory)"
  shows "\<forall>(version, text)\<in>set files. file_script settings directory version = script (migration_template_values settings) text"
    "map fst files = sort (filter sql_suffix (map fst directory))"
proof -
  from assms(1) have files: "files = sort_key fst (filter (\<lambda>f. sql_suffix (fst f)) directory)"
    by (simp add: ordered_migration_files_def Let_def split: if_splits)
  then have "set files \<subseteq> set directory" by auto
  with assms(2) show "\<forall>(version, text)\<in>set files. file_script settings directory version =
      script (migration_template_values settings) text"
    by (auto simp: file_script_def dest!: subsetD split: option.split)
  have "sorted (map fst files)" unfolding files by (rule sorted_sort_key)
  moreover have "distinct (map fst files)"
    using assms(2) unfolding files distinct_map by (auto intro: inj_on_subset)
  moreover have "set (map fst files) = set (filter sql_suffix (map fst directory))" by (auto simp: files)
  ultimately show "map fst files = sort (filter sql_suffix (map fst directory))"
    using assms(2) by (intro sorted_distinct_set_unique) auto
qed

lemma keeps_ensure [keeps_rules]: "keeps (consistent exec f s0) ensure_schema_migrations_table"
  unfolding ensure_schema_migrations_table_def by (rule keeps_sql) auto

lemma keeps_set_lock [keeps_rules]: "keeps (consistent exec f s0) (set_lock b)"
  unfolding set_lock_def by (rule keeps_sql) auto

lemma close_pg: "pg (snd (close_connection w)) = (pg w)\<lparr>md_lock := False\<rparr>"
  by (auto simp: close_connection_def ext_def returnM_def split: list.split fault.split)

lemma keeps_close [keeps_rules]: "keeps (consistent exec f s0) close_connection"
  by (simp add: keeps_def close_pg)

lemma keeps_apply_pending:
  assumes "distinct (map fst directory)"
  shows "keeps (consistent exec (file_script settings directory) s0) (apply_pending_migrations exec settings directory)"
proof -
  have "keeps (consistent exec (file_script settings directory) s0)
      (bindE (liftE (ordered_migration_files directory)) (\<lambda>files.
       apply_files exec (migration_template_values settings) done files []))" for "done"
  proof (cases "ordered_migration_files directory")
    case (Inl e)
    then show ?thesis by (simp add: keeps_def bindE_pure)
  next
    case (Inr files)
    from keeps_apply_files [OF ordered_files(1) [OF Inr assms]] show ?thesis
      by (simp add: Inr keeps_def bindE_pure)
  qed
  note rest = this
  show ?thesis
    unfolding apply_pending_migrations_def applied_migration_versions_def
    by (rule keeps_bindE, rule keeps_ensure, rule keeps_bindE, rule keeps_sql_read, rule rest)
qed

lemma finally_okE:
  assumes "finallyM m f w = (Inr a, w')"
  obtains w1 u where "m w = (Inr a, w1)" "f w1 = (Inr u, w')"
  using assms by (auto simp: finallyM_def split: prod.splits sum.splits)

lemma apply_files_ok:
  assumes "apply_files exec values done files now w = (Inr applied, w')"
  shows "applied = now @ filter (\<lambda>v. v \<notin> set done) (map fst files) \<and>
    recorded (pg w') = recorded (pg w) @ filter (\<lambda>v. v \<notin> set done) (map fst files)"
  using assms
proof (induction files arbitrary: now w)
  case (Cons entry files)
  obtain version contents where entry: "entry = (version, contents)" by fastforce
  show ?case
  proof (cases "version \<in> set done")
    case True
    with Cons.IH [of now w] Cons.prems show ?thesis by (simp add: entry)
  next
    case False
    with Cons.prems obtain w1 where w1: "transaction (bindE (execute_script exec (script values contents))
        (\<lambda>_. insert_version version)) w = (Inr (), w1)"
      "apply_files exec values done files (now @ [version]) w1 = (Inr applied, w')"
      by (auto simp: entry Let_def elim!: bindE_okE split: if_splits)
    from w1(1) have "recorded (pg w1) = recorded (pg w) @ [version]"
      unfolding execute_script_def insert_version_def
      by (auto elim!: transaction_okE bindE_okE sql_okE simp: then_ok_def recorded_def split: sum.splits if_splits option.splits)
    with Cons.IH [OF w1(2)] False show ?thesis by (simp add: entry)
  qed
qed simp

lemma run_migrations_ok:
  assumes names: "distinct (map fst directory)"
    and run: "run_migrations exec settings directory w = (Inr applied, w')"
  shows "applied = filter (\<lambda>v. v \<notin> set (recorded (pg w))) (sort (filter sql_suffix (map fst directory))) \<and>
    recorded (pg w') = recorded (pg w) @ applied"
proof -
  have lock: "recorded (pg v') = recorded (pg v)" if "set_lock b v = (Inr u, v')" for b u v and v' :: "('a migdb, 'b) world"
    using that by (auto simp: set_lock_def elim!: sql_okE)
  from run obtain w1 w2 w3 w4 w5 where steps: "ext (returnM ()) w = (Inr (), w1)" "set_lock True w1 = (Inr (), w2)"
    "apply_pending_migrations exec settings directory w2 = (Inr applied, w3)" "set_lock False w3 = (Inr (), w4)"
    "close_connection w4 = (Inr (), w5)" "w' = w5"
    unfolding run_migrations_def by (elim bindE_okE finally_okE) auto
  from steps(3) obtain u v w5' w6 files where body: "ensure_schema_migrations_table w2 = (Inr u, w5')"
    "applied_migration_versions w5' = (Inr v, w6)" "ordered_migration_files directory = Inr files"
    "apply_files exec (migration_template_values settings) v files [] w6 = (Inr applied, w3)"
    unfolding apply_pending_migrations_def by (elim bindE_okE) auto
  from body(1,2) have seen: "recorded (pg w6) = recorded (pg w2)" "v = recorded (pg w2)"
    unfolding ensure_schema_migrations_table_def applied_migration_versions_def
    by (auto elim!: sql_okE sql_read_okE)
  have "pg w1 = pg w" using steps(1) by (auto elim!: ext_okE simp: returnM_def)
  then have "recorded (pg w2) = recorded (pg w)" using lock [OF steps(2)] by simp
  moreover have "recorded (pg w') = recorded (pg w3)"
    using lock [OF steps(4)] close_pg [of w4] steps(5,6) by simp
  ultimately show ?thesis
    using apply_files_ok [OF body(4)] seen ordered_files(2) [OF body(3) names] by simp
qed

section \<open>Properties\<close>

text \<open>C25 Whatever fails during a run of the migrations, also between a script and its record or at the commit, the schema
  is the one that the scripts of the recorded versions make in the order of their recording, each recorded once, and
  a run that got a connection leaves the advisory lock free.\<close>

theorem migrations_consistent:
  assumes "distinct (map fst directory)" "consistent exec (file_script settings directory) s0 (pg w)" "\<not> md_lock (pg w)"
  shows "consistent exec (file_script settings directory) s0 (pg (snd (run_migrations exec settings directory w))) \<and>
    \<not> md_lock (pg (snd (run_migrations exec settings directory w)))"
proof
  have "keeps (consistent exec (file_script settings directory) s0)
      (run_migrations exec settings directory :: ('a, 'b, string list) mig)"
    unfolding run_migrations_def by (intro keeps_rules keeps_apply_pending [OF assms(1)])
  with assms(2) show "consistent exec (file_script settings directory) s0 (pg (snd (run_migrations exec settings directory w)))"
    by (simp add: keeps_def)
  obtain x w1 where conn: "ext (returnM ()) w = (x :: exn + unit, w1)" by fastforce
  have "pg (snd (ext (returnM ()) w :: (exn + unit) \<times> _)) = pg w"
    by (auto simp: ext_def returnM_def split: list.split fault.split)
  with conn have w1: "pg w1 = pg w" by simp
  have closed: "\<not> md_lock (pg (snd (finallyM m close_connection v)))" for m :: "('a, 'b, string list) mig" and v
    using close_pg [of "snd (m v)"] by (auto simp: finallyM_def split: prod.split sum.split)
  show "\<not> md_lock (pg (snd (run_migrations exec settings directory w)))"
    using conn w1 assms(3) closed by (cases x) (auto simp: run_migrations_def bindE_def)
qed

text \<open>A directory with two scripts and a schema that is the list of the scripts it was made by.\<close>

definition demo_directory :: "(string \<times> string) list" where
  "demo_directory = [(''0002_tasks.sql'', ''CREATE TABLE b;''), (''0001_users.sql'', '' CREATE TABLE a; ''), (''README.md'', [])]"

definition demo_exec :: "string \<Rightarrow> string list \<Rightarrow> exn + string list" where
  "demo_exec text schema = Inr (schema @ [text])"

definition demo_migration :: "fault list \<Rightarrow> (string list migdb, unit) world" where
  "demo_migration fs = \<lparr>pg = \<lparr>md_versions = None, md_schema = [], md_lock = False\<rparr>, kv = (), clock = 1700000000000000,
     faults = fs, entropy = []\<rparr>"

lemma demo_directory_distinct: "distinct (map fst demo_directory)"
  by (simp add: demo_directory_def)

theorem migrations_consistent_witness:
  "consistent demo_exec (file_script demo_settings demo_directory) [] (pg (snd (run_migrations demo_exec demo_settings
     demo_directory (demo_migration [Fine, Fine, Fine, Fine, Fine, FailAfter (Exn ConnectionError [])]))))"
  by (rule migrations_consistent [THEN conjunct1, OF demo_directory_distinct])
    (simp_all add: demo_migration_def consistent_def recorded_def)

text \<open>A run of the migrations that returns has applied, in the order of their names, exactly the SQL files that were not
  recorded before, and recorded them; a second run over the same directory has nothing left to do.\<close>

theorem migrations_complete:
  assumes "distinct (map fst directory)" "run_migrations exec settings directory w = (Inr applied, w')"
  shows "applied = filter (\<lambda>v. v \<notin> set (recorded (pg w))) (sort (filter sql_suffix (map fst directory))) \<and>
    recorded (pg w') = recorded (pg w) @ applied \<and>
    (\<forall>again w''. run_migrations exec settings directory w' = (Inr again, w'') \<longrightarrow> again = [])"
  using run_migrations_ok [OF assms] run_migrations_ok [OF assms(1), of exec settings w']
  by (auto simp: filter_empty_conv)

lemma demo_run:
  "run_migrations demo_exec demo_settings demo_directory (demo_migration []) =
   (Inr [''0001_users.sql'', ''0002_tasks.sql''], demo_migration []\<lparr>pg := \<lparr>md_versions =
      Some [''0001_users.sql'', ''0002_tasks.sql''], md_schema = [''CREATE TABLE a;'', ''CREATE TABLE b;''], md_lock = False\<rparr>\<rparr>)"
  by code_simp

theorem migrations_complete_witness:
  "[''0001_users.sql'', ''0002_tasks.sql''] =
     filter (\<lambda>v. v \<notin> set (recorded (pg (demo_migration [])))) (sort (filter sql_suffix (map fst demo_directory))) \<and>
   fst (run_migrations demo_exec demo_settings demo_directory (demo_migration [])) =
     Inr (sort (filter sql_suffix (map fst demo_directory)))"
  using migrations_complete [OF demo_directory_distinct demo_run] demo_run
  by (simp add: demo_migration_def recorded_def)

end
