(* ===== verification/S3_Policy.thy ===== *)
theory S3_Policy
  imports Pydata
begin

text \<open>
  Solution 3, \<open>constants.py\<close>: the enumerations with their values, the price of a task and the topic of
  each event.  The billing state that a task of a given status must have is the specification that the
  repository, the workers and the reconciler are checked against.
\<close>

section \<open>Enumerations\<close>

datatype UserRole = ADMIN | USER
datatype SubscriptionTier = FREE | PRO | ENTERPRISE
datatype RequestMode = ASYNC | SYNC | BATCH
datatype ModelClass = SMALL | MEDIUM | LARGE
datatype TaskStatus = PENDING | RUNNING | COMPLETED | FAILED | CANCELLED | EXPIRED
datatype BillingState = RESERVED | CAPTURED | RELEASED | BILLING_EXPIRED

fun SubscriptionTier_value :: "SubscriptionTier \<Rightarrow> string" where
  "SubscriptionTier_value FREE = ''free''"
| "SubscriptionTier_value PRO = ''pro''"
| "SubscriptionTier_value ENTERPRISE = ''enterprise''"

fun RequestMode_value :: "RequestMode \<Rightarrow> string" where
  "RequestMode_value ASYNC = ''async''"
| "RequestMode_value SYNC = ''sync''"
| "RequestMode_value BATCH = ''batch''"

fun ModelClass_value :: "ModelClass \<Rightarrow> string" where
  "ModelClass_value SMALL = ''small''"
| "ModelClass_value MEDIUM = ''medium''"
| "ModelClass_value LARGE = ''large''"

fun TaskStatus_value :: "TaskStatus \<Rightarrow> string" where
  "TaskStatus_value PENDING = ''PENDING''"
| "TaskStatus_value RUNNING = ''RUNNING''"
| "TaskStatus_value COMPLETED = ''COMPLETED''"
| "TaskStatus_value FAILED = ''FAILED''"
| "TaskStatus_value CANCELLED = ''CANCELLED''"
| "TaskStatus_value EXPIRED = ''EXPIRED''"

fun BillingState_value :: "BillingState \<Rightarrow> string" where
  "BillingState_value RESERVED = ''RESERVED''"
| "BillingState_value CAPTURED = ''CAPTURED''"
| "BillingState_value RELEASED = ''RELEASED''"
| "BillingState_value BILLING_EXPIRED = ''EXPIRED''"

definition SubscriptionTiers :: "SubscriptionTier list" where
  "SubscriptionTiers = [FREE, PRO, ENTERPRISE]"

definition RequestModes :: "RequestMode list" where
  "RequestModes = [ASYNC, SYNC, BATCH]"

definition ModelClasses :: "ModelClass list" where
  "ModelClasses = [SMALL, MEDIUM, LARGE]"

abbreviation SubscriptionTier_of :: "string \<Rightarrow> exn + SubscriptionTier" where
  "SubscriptionTier_of \<equiv> enum_of SubscriptionTier_value SubscriptionTiers"

abbreviation RequestMode_of :: "string \<Rightarrow> exn + RequestMode" where
  "RequestMode_of \<equiv> enum_of RequestMode_value RequestModes"

abbreviation ModelClass_of :: "string \<Rightarrow> exn + ModelClass" where
  "ModelClass_of \<equiv> enum_of ModelClass_value ModelClasses"

lemma s3_SubscriptionTier_parse [simp]: "SubscriptionTier_of (SubscriptionTier_value t) = Inr t"
  by (cases t) (simp_all add: enum_of_def SubscriptionTiers_def)

lemma s3_RequestMode_parse [simp]: "RequestMode_of (RequestMode_value m) = Inr m"
  by (cases m) (simp_all add: enum_of_def RequestModes_def)

lemma s3_ModelClass_parse [simp]: "ModelClass_of (ModelClass_value c) = Inr c"
  by (cases c) (simp_all add: enum_of_def ModelClasses_def)

lemma value_not_empty [simp]:
  "SubscriptionTier_value t \<noteq> []" "RequestMode_value m \<noteq> []" "ModelClass_value c \<noteq> []"
  by (cases t; cases m; cases c; simp)+

definition TASK_CANCELLABLE_STATUSES :: "TaskStatus list" where
  "TASK_CANCELLABLE_STATUSES = [PENDING, RUNNING]"

definition TASK_TERMINAL_STATUSES :: "TaskStatus list" where
  "TASK_TERMINAL_STATUSES = [COMPLETED, FAILED, CANCELLED, EXPIRED]"

abbreviation active_status :: "TaskStatus \<Rightarrow> bool" where
  "active_status s \<equiv> s = PENDING \<or> s = RUNNING"

lemma cancellable_active [simp]: "List.member TASK_CANCELLABLE_STATUSES s \<longleftrightarrow> active_status s"
  by (auto simp: TASK_CANCELLABLE_STATUSES_def)

lemma terminal_inactive: "List.member TASK_TERMINAL_STATUSES s \<longleftrightarrow> \<not> active_status s"
  by (cases s) (auto simp: TASK_TERMINAL_STATUSES_def)

section \<open>Prices\<close>

fun MODEL_COST_MULTIPLIER :: "ModelClass \<Rightarrow> int" where
  "MODEL_COST_MULTIPLIER SMALL = 1"
| "MODEL_COST_MULTIPLIER MEDIUM = 2"
| "MODEL_COST_MULTIPLIER LARGE = 5"

definition task_cost_for_model :: "int \<Rightarrow> ModelClass \<Rightarrow> int" where
  "task_cost_for_model base_cost model_class = max 1 (base_cost * MODEL_COST_MULTIPLIER model_class)"

lemma s3_task_cost_pos: "0 < task_cost_for_model base_cost model_class"
  by (simp add: task_cost_for_model_def max_def)

section \<open>Billing state and topics\<close>

text \<open>What the ledger must have done for a task of this status.\<close>

fun billing_of :: "TaskStatus \<Rightarrow> BillingState" where
  "billing_of PENDING = RESERVED"
| "billing_of RUNNING = RESERVED"
| "billing_of COMPLETED = CAPTURED"
| "billing_of FAILED = RELEASED"
| "billing_of CANCELLED = RELEASED"
| "billing_of EXPIRED = BILLING_EXPIRED"

lemma billing_of_reserved [simp]: "billing_of s = RESERVED \<longleftrightarrow> active_status s"
  by (cases s) auto

text \<open>\<open>_terminal_event_for_status\<close> of \<open>db/repository.py\<close>.\<close>

fun terminal_event_for_status :: "TaskStatus \<Rightarrow> exn + string \<times> string" where
  "terminal_event_for_status COMPLETED = Inr (''task.completed'', ''tasks.completed'')"
| "terminal_event_for_status FAILED = Inr (''task.failed'', ''tasks.failed'')"
| "terminal_event_for_status CANCELLED = Inr (''task.cancelled'', ''tasks.cancelled'')"
| "terminal_event_for_status EXPIRED = Inr (''task.expired'', ''tasks.expired'')"
| "terminal_event_for_status s = Inl (Exn ValueError (''unsupported terminal task status: '' @ TaskStatus_value s))"

definition TERMINAL_PROJECTION_TOPICS :: "string list" where
  "TERMINAL_PROJECTION_TOPICS = [''tasks.completed'', ''tasks.failed'', ''tasks.cancelled'', ''tasks.expired'']"

end
