(* ===== verification/S3_Store.thy ===== *)
theory S3_Store
  imports S3_Policy Tables
begin

text \<open>
  Solution 3, \<open>models/domain.py\<close> and \<open>db/repository.py\<close>: the rows of the command and query schemas and one
  definition per repository function, each with its statements in one transaction where the code opens
  one.  The first half holds the rows and single statements, the second the transactions.
\<close>

section \<open>Rows\<close>

record TaskCommand =
  tc_task_id :: uuid
  tc_user_id :: uuid
  tc_tier :: SubscriptionTier
  tc_mode :: RequestMode
  tc_model_class :: ModelClass
  tc_status :: TaskStatus
  tc_billing_state :: BillingState
  tc_x :: int
  tc_y :: int
  tc_cost :: int
  tc_tb_pending_transfer_id :: uuid
  tc_callback_url :: "string option"
  tc_idempotency_key :: "string option"
  tc_created_at :: int
  tc_updated_at :: int

record TaskQueryView =
  tv_task_id :: uuid
  tv_user_id :: uuid
  tv_tier :: SubscriptionTier
  tv_mode :: RequestMode
  tv_model_class :: ModelClass
  tv_status :: TaskStatus
  tv_billing_state :: BillingState
  tv_result :: "dict option"
  tv_error :: "string option"
  tv_runtime_ms :: "int option"
  tv_projection_version :: int
  tv_created_at :: int
  tv_updated_at :: int

record OutboxEventRecord =
  ob_event_id :: uuid
  ob_aggregate_id :: uuid
  ob_event_type :: string
  ob_topic :: string
  ob_payload :: dict
  ob_published_at :: "int option"
  ob_created_at :: int

record ReconcileJob =
  rj_task_id :: uuid
  rj_tb_pending_transfer_id :: uuid
  rj_resolution :: string

record UserRow =
  us_user_id :: uuid
  us_name :: string
  us_role :: UserRole
  us_tier :: SubscriptionTier
  us_initial_credits :: int
  us_is_active :: bool
  us_created_at :: int

record ApiKeyRow =
  ak_key_hash :: string
  ak_user_id :: uuid
  ak_is_active :: bool

record AuthUser =
  au_api_key :: string
  au_user_id :: uuid
  au_name :: string
  au_role :: UserRole
  au_tier :: SubscriptionTier
  au_scopes :: "string list"

text \<open>\<open>checkpoints\<close>: per projector the topic, partition and offset last committed.\<close>

record s3db =
  users :: "UserRow list"
  api_keys :: "ApiKeyRow list"
  task_commands :: "TaskCommand list"
  outbox_events :: "OutboxEventRecord list"
  inbox_events :: "(uuid \<times> string) list"
  task_query_view :: "TaskQueryView list"
  checkpoints :: "(string \<times> string \<times> int \<times> int) list"
  reconcile_jobs :: "ReconcileJob list"

text \<open>\<open>StaleReservedTask\<close> and \<open>ReconciledTaskState\<close> are selections of the columns of a command.\<close>

record ReconciledTaskState =
  rs_task_id :: uuid
  rs_user_id :: uuid
  rs_status :: TaskStatus
  rs_billing_state :: BillingState
  rs_model_class :: ModelClass

definition find_command :: "s3db \<Rightarrow> uuid \<Rightarrow> TaskCommand option" where
  "find_command d t = lookup_row tc_task_id t (task_commands d)"

definition find_view :: "s3db \<Rightarrow> uuid \<Rightarrow> TaskQueryView option" where
  "find_view d t = lookup_row tv_task_id t (task_query_view d)"

interpretation s3_command_table: unique_table
  tc_task_id "lookup_row tc_task_id" "insert_row tc_task_id" "modify_row tc_task_id"
  by (rule unique_table_rows)

interpretation s3_view_table: unique_table
  tv_task_id "lookup_row tv_task_id" "insert_row tv_task_id" "modify_row tv_task_id"
  by (rule unique_table_rows)

section \<open>Statements\<close>

definition insert_outbox :: "uuid \<Rightarrow> string \<Rightarrow> string \<Rightarrow> dict \<Rightarrow> (s3db, 'k, unit) io" where
  "insert_outbox aggregate_id event_type topic payload =
    bindE fresh_uuid (\<lambda>event_id. sql (\<lambda>now d.
      if 64 < length event_type \<or> 128 < length topic then Inl (Exn DataError [])
      else if lookup_row ob_event_id event_id (outbox_events d) \<noteq> None then Inl (Exn UniqueViolationError [])
      else Inr ((), d\<lparr>outbox_events := outbox_events d @
        [\<lparr>ob_event_id = event_id, ob_aggregate_id = aggregate_id, ob_event_type = event_type, ob_topic = topic,
          ob_payload = payload, ob_published_at = None, ob_created_at = now\<rparr>]\<rparr>)))"

text \<open>\<open>UPDATE cmd.task_commands ... WHERE task_id=$1 AND ... RETURNING *\<close> on the primary key.\<close>

definition update_command :: "uuid \<Rightarrow> (int \<Rightarrow> TaskCommand \<Rightarrow> bool) \<Rightarrow> (TaskCommand \<Rightarrow> TaskCommand) \<Rightarrow>
    (s3db, 'k, TaskCommand option) io" where
  "update_command task_id P f = sql (\<lambda>now d. case find_command d task_id of
      None \<Rightarrow> Inr (None, d)
    | Some c \<Rightarrow> if \<not> P now c then Inr (None, d) else
        let g = (\<lambda>c. (f c)\<lparr>tc_updated_at := now\<rparr>)
        in Inr (Some (g c), d\<lparr>task_commands := update_rows (\<lambda>c. tc_task_id c = task_id) g (task_commands d)\<rparr>))"

definition set_state :: "TaskStatus \<Rightarrow> BillingState \<Rightarrow> TaskCommand \<Rightarrow> TaskCommand" where
  "set_state s b c = c\<lparr>tc_status := s, tc_billing_state := b\<rparr>"

text \<open>\<open>billing_state='RESERVED' AND status IN ('PENDING','RUNNING') AND created_at < now() - ...\<close>.\<close>

definition stale_reserved :: "int \<Rightarrow> int \<Rightarrow> TaskCommand \<Rightarrow> bool" where
  "stale_reserved stale_after_seconds now c \<longleftrightarrow> tc_billing_state c = RESERVED \<and> active_status (tc_status c) \<and>
     tc_created_at c < now - seconds stale_after_seconds"

definition update_view :: "uuid \<Rightarrow> (TaskQueryView \<Rightarrow> TaskQueryView) \<Rightarrow> (s3db, 'k, unit) io" where
  "update_view task_id f = sql (\<lambda>now d. Inr ((), d\<lparr>task_query_view :=
     update_rows (\<lambda>v. tv_task_id v = task_id) (\<lambda>v. (f v)\<lparr>tv_updated_at := now\<rparr>) (task_query_view d)\<rparr>))"

definition insert_reconcile_job :: "uuid \<Rightarrow> uuid \<Rightarrow> string \<Rightarrow> (s3db, 'k, unit) io" where
  "insert_reconcile_job task_id transfer_id resolution = sql (\<lambda>_ d.
     if 24 < length resolution then Inl (Exn DataError [])
     else if find_command d task_id = None then Inl (Exn ForeignKeyViolationError [])
     else Inr ((), d\<lparr>reconcile_jobs := reconcile_jobs d @
       [\<lparr>rj_task_id = task_id, rj_tb_pending_transfer_id = transfer_id, rj_resolution = resolution\<rparr>]\<rparr>))"

definition reconciled_state :: "TaskCommand \<Rightarrow> ReconciledTaskState" where
  "reconciled_state c = \<lparr>rs_task_id = tc_task_id c, rs_user_id = tc_user_id c, rs_status = tc_status c,
     rs_billing_state = tc_billing_state c, rs_model_class = tc_model_class c\<rparr>"

section \<open>Reads\<close>

definition get_task_command :: "uuid \<Rightarrow> (s3db, 'k, TaskCommand option) io" where
  "get_task_command task_id = sql_read (\<lambda>_ d. find_command d task_id)"

definition get_task_query_view :: "uuid \<Rightarrow> (s3db, 'k, TaskQueryView option) io" where
  "get_task_query_view task_id = sql_read (\<lambda>_ d. find_view d task_id)"

text \<open>The hash of a key is a parameter; both rows must be active.\<close>

definition fetch_active_user_by_api_key :: "(string \<Rightarrow> string) \<Rightarrow> string \<Rightarrow> (s3db, 'k, AuthUser option) io" where
  "fetch_active_user_by_api_key sha256 api_key = sql_read (\<lambda>_ d.
     case find (\<lambda>k. ak_key_hash k = sha256 api_key \<and> ak_is_active k) (api_keys d) of
       None \<Rightarrow> None
     | Some k \<Rightarrow> (case lookup_row us_user_id (ak_user_id k) (users d) of
           None \<Rightarrow> None
         | Some u \<Rightarrow> if \<not> us_is_active u then None else
             Some \<lparr>au_api_key = api_key, au_user_id = us_user_id u, au_name = us_name u, au_role = us_role u,
                   au_tier = us_tier u, au_scopes = []\<rparr>))"

definition list_active_users_with_initial_credits :: "(s3db, 'k, (uuid \<times> int) list) io" where
  "list_active_users_with_initial_credits = sql_read (\<lambda>_ d.
     map (\<lambda>u. (us_user_id u, us_initial_credits u))
       (sort_key us_created_at (sort_key (\<lambda>u. unat (us_user_id u)) (filter us_is_active (users d)))))"

definition list_stale_reserved_tasks :: "int \<Rightarrow> (s3db, 'k, TaskCommand list) io" where
  "list_stale_reserved_tasks stale_after_seconds = sql_read (\<lambda>now d.
     sort_key tc_created_at (sort_key (\<lambda>c. unat (tc_task_id c))
       (filter (stale_reserved stale_after_seconds now) (task_commands d))))"

definition fetch_unpublished_outbox_events :: "nat \<Rightarrow> (s3db, 'k, OutboxEventRecord list) io" where
  "fetch_unpublished_outbox_events limit = sql_read (\<lambda>_ d.
     oldest_rows (\<lambda>e. ob_published_at e = None) ob_created_at limit (outbox_events d))"

definition mark_outbox_events_published :: "uuid list \<Rightarrow> (s3db, 'k, unit) io" where
  "mark_outbox_events_published event_ids = (if event_ids = [] then returnM () else sql (\<lambda>now d.
     Inr ((), d\<lparr>outbox_events := update_rows (\<lambda>e. List.member event_ids (ob_event_id e))
       (\<lambda>e. e\<lparr>ob_published_at := Some now\<rparr>) (outbox_events d)\<rparr>)))"

definition is_inbox_event_processed :: "uuid \<Rightarrow> string \<Rightarrow> (s3db, 'k, bool) io" where
  "is_inbox_event_processed event_id consumer_name = sql_read (\<lambda>_ d.
     List.member (inbox_events d) (event_id, consumer_name))"

section \<open>Transactions\<close>

definition requested_payload :: "uuid \<Rightarrow> uuid \<Rightarrow> SubscriptionTier \<Rightarrow> RequestMode \<Rightarrow> ModelClass \<Rightarrow> int \<Rightarrow> int \<Rightarrow> int \<Rightarrow>
    uuid \<Rightarrow> dict" where
  "requested_payload task_id user_id tier mode model_class x y cost transfer_id =
     [(''task_id'', JStr (uuid_str task_id)), (''user_id'', JStr (uuid_str user_id)),
      (''tier'', JStr (SubscriptionTier_value tier)), (''mode'', JStr (RequestMode_value mode)),
      (''model_class'', JStr (ModelClass_value model_class)), (''x'', JInt x), (''y'', JInt y),
      (''cost'', JInt cost), (''tb_pending_transfer_id'', JStr (uuid_str transfer_id))]"

definition insert_command :: "TaskCommand \<Rightarrow> (s3db, 'k, TaskCommand) io" where
  "insert_command command = sql (\<lambda>now d.
     let c = command\<lparr>tc_created_at := now, tc_updated_at := now\<rparr> in
     if \<not> (int4_ok (tc_x c) \<and> int4_ok (tc_y c) \<and> int4_ok (tc_cost c)) then Inl (Exn DataError [])
     else if tc_cost c < 0 then Inl (Exn CheckViolationError [])
     else if (case tc_idempotency_key c of None \<Rightarrow> False | Some k \<Rightarrow> 128 < length k) then Inl (Exn DataError [])
     else if find_command d (tc_task_id c) \<noteq> None then Inl (Exn UniqueViolationError [])
     else if (\<exists>e\<in>set (task_commands d). tc_user_id e = tc_user_id c \<and> tc_idempotency_key c \<noteq> None \<and>
         tc_idempotency_key e = tc_idempotency_key c) then Inl (Exn UniqueViolationError [])
     else if lookup_row us_user_id (tc_user_id c) (users d) = None then Inl (Exn ForeignKeyViolationError [])
     else Inr (c, d\<lparr>task_commands := task_commands d @ [c]\<rparr>))"

definition find_by_idempotency :: "uuid \<Rightarrow> string option \<Rightarrow> (s3db, 'k, TaskCommand option) io" where
  "find_by_idempotency user_id key = (case key of None \<Rightarrow> returnM None | Some k \<Rightarrow>
     sql_read (\<lambda>_ d. find (\<lambda>c. tc_user_id c = user_id \<and> tc_idempotency_key c = Some k) (task_commands d)))"

definition submit_body :: "TaskCommand \<Rightarrow> dict \<Rightarrow> (s3db, 'k, bool \<times> TaskCommand) io" where
  "submit_body command outbox_payload =
     bindE (find_by_idempotency (tc_user_id command) (tc_idempotency_key command)) (\<lambda>existing. case existing of
       Some c \<Rightarrow> returnM (False, c)
     | None \<Rightarrow> bindE (insert_command command) (\<lambda>c.
         bindE (insert_outbox (tc_task_id command) ''task.requested'' ''tasks.requested'' outbox_payload) (\<lambda>_.
         returnM (True, c))))"

definition submit_task_command :: "uuid \<Rightarrow> uuid \<Rightarrow> SubscriptionTier \<Rightarrow> RequestMode \<Rightarrow> ModelClass \<Rightarrow> int \<Rightarrow> int \<Rightarrow> int \<Rightarrow>
    uuid \<Rightarrow> string option \<Rightarrow> string option \<Rightarrow> dict \<Rightarrow> (s3db, 'k, bool \<times> TaskCommand) io" where
  "submit_task_command task_id user_id tier mode model_class x y cost transfer_id callback_url idempotency_key payload =
     acquire (transaction (submit_body
       \<lparr>tc_task_id = task_id, tc_user_id = user_id, tc_tier = tier, tc_mode = mode, tc_model_class = model_class,
        tc_status = PENDING, tc_billing_state = RESERVED, tc_x = x, tc_y = y, tc_cost = cost,
        tc_tb_pending_transfer_id = transfer_id, tc_callback_url = callback_url,
        tc_idempotency_key = idempotency_key, tc_created_at = 0, tc_updated_at = 0\<rparr> payload))"

definition record_admin_credit_topup :: "uuid \<Rightarrow> int \<Rightarrow> string \<Rightarrow> uuid \<Rightarrow> string \<Rightarrow> int \<Rightarrow> uuid \<Rightarrow> (s3db, 'k, unit) io" where
  "record_admin_credit_topup user_id amount reason admin_user_id api_key_masked new_balance transfer_id =
     acquire (transaction (insert_outbox user_id ''billing.topup'' ''billing.topup''
       [(''user_id'', JStr (uuid_str user_id)), (''amount'', JInt amount), (''reason'', JStr reason),
        (''admin_user_id'', JStr (uuid_str admin_user_id)), (''target_api_key_masked'', JStr api_key_masked),
        (''new_balance'', JInt new_balance), (''transfer_id'', JStr (uuid_str transfer_id))]))"

definition state_payload :: "TaskCommand \<Rightarrow> dict" where
  "state_payload c = [(''task_id'', JStr (uuid_str (tc_task_id c))), (''user_id'', JStr (uuid_str (tc_user_id c))),
     (''status'', JStr (TaskStatus_value (tc_status c))), (''billing_state'', JStr (BillingState_value (tc_billing_state c)))]"

definition cancel_task_command :: "uuid \<Rightarrow> (s3db, 'k, bool) io" where
  "cancel_task_command task_id = acquire (transaction (
     bindE (update_command task_id (\<lambda>_ c. active_status (tc_status c)) (set_state CANCELLED RELEASED)) (\<lambda>updated.
     case updated of None \<Rightarrow> returnM False | Some c \<Rightarrow>
       bindE (insert_outbox task_id ''task.cancelled'' ''tasks.cancelled'' (state_payload c)) (\<lambda>_. returnM True))))"

definition update_task_running :: "uuid \<Rightarrow> (s3db, 'k, bool) io" where
  "update_task_running task_id = acquire (transaction (
     bindE (update_command task_id (\<lambda>_ c. tc_status c = PENDING) (\<lambda>c. c\<lparr>tc_status := RUNNING\<rparr>)) (\<lambda>updated.
     case updated of None \<Rightarrow> returnM False | Some _ \<Rightarrow>
       bindE (insert_outbox task_id ''task.started'' ''tasks.started''
         [(''task_id'', JStr (uuid_str task_id)), (''status'', JStr (TaskStatus_value RUNNING))]) (\<lambda>_. returnM True))))"

definition opt_obj :: "dict option \<Rightarrow> json" where
  "opt_obj x = (case x of None \<Rightarrow> JNull | Some d \<Rightarrow> JObj d)"

definition finalize_task_command :: "uuid \<Rightarrow> uuid \<Rightarrow> TaskStatus \<Rightarrow> BillingState \<Rightarrow> int \<Rightarrow> dict option \<Rightarrow> string option \<Rightarrow>
    (s3db, 'k, bool) io" where
  "finalize_task_command task_id user_id status billing_state cost result error =
     (let topic = (if status = COMPLETED then ''tasks.completed'' else ''tasks.failed'');
          event_type = (if status = COMPLETED then ''task.completed'' else ''task.failed'') in
     acquire (transaction (
     bindE (update_command task_id (\<lambda>_ c. active_status (tc_status c)) (set_state status billing_state)) (\<lambda>updated.
     case updated of None \<Rightarrow> returnM False | Some _ \<Rightarrow>
       bindE (insert_outbox task_id event_type topic
         [(''task_id'', JStr (uuid_str task_id)), (''user_id'', JStr (uuid_str user_id)),
          (''status'', JStr (TaskStatus_value status)), (''billing_state'', JStr (BillingState_value billing_state)),
          (''cost'', JInt cost), (''result'', opt_obj result), (''error'', opt_str error)]) (\<lambda>_. returnM True)))))"

definition expire_stale_reserved_task :: "uuid \<Rightarrow> uuid \<Rightarrow> int \<Rightarrow> (s3db, 'k, ReconciledTaskState option) io" where
  "expire_stale_reserved_task task_id transfer_id stale_after_seconds = acquire (transaction (
     bindE (update_command task_id (stale_reserved stale_after_seconds) (set_state EXPIRED BILLING_EXPIRED)) (\<lambda>updated.
     case updated of None \<Rightarrow> returnM None | Some c \<Rightarrow>
       bindE (update_view task_id (\<lambda>v. v\<lparr>tv_status := EXPIRED, tv_billing_state := BILLING_EXPIRED\<rparr>)) (\<lambda>_.
       bindE (insert_reconcile_job task_id transfer_id ''TB_AUTO_EXPIRED'') (\<lambda>_.
       bindE (insert_outbox task_id ''task.expired'' ''tasks.expired'' (state_payload c)) (\<lambda>_.
       returnM (Some (reconciled_state c))))))))"

definition align_stale_reserved_task_terminal_state :: "TaskCommand \<Rightarrow> TaskStatus \<Rightarrow> BillingState \<Rightarrow> string \<Rightarrow> int \<Rightarrow>
    (s3db, 'k, ReconciledTaskState option) io" where
  "align_stale_reserved_task_terminal_state task status billing_state resolution stale_after_seconds =
     bindE (liftE (terminal_event_for_status status)) (\<lambda>(event_type, topic). acquire (transaction (
     bindE (update_command (tc_task_id task) (stale_reserved stale_after_seconds) (set_state status billing_state)) (\<lambda>updated.
     case updated of None \<Rightarrow> returnM None | Some c \<Rightarrow>
       bindE (update_view (tc_task_id task) (\<lambda>v. v\<lparr>tv_status := status, tv_billing_state := billing_state,
         tv_result := None, tv_error := None\<rparr>)) (\<lambda>_.
       bindE (insert_reconcile_job (tc_task_id task) (tc_tb_pending_transfer_id task) resolution) (\<lambda>_.
       bindE (insert_outbox (tc_task_id task) event_type topic
         (state_payload c @ [(''result'', JNull), (''error'', JNull)])) (\<lambda>_.
       returnM (Some (reconciled_state c)))))))))"

end
