(* ===== verification/Redis.thy ===== *)
theory Redis
  imports Pydata
begin

text \<open>
  Redis as the solutions use it through \<open>redis.asyncio\<close>: hashes, integers and sets under keys that may carry
  an expiry.  A command is a function of the server's clock and the store; \<open>command key\<close> drops the key first when its
  time is over.  A field that the code wrote with \<open>json.dumps\<close> is kept as the value it encodes.
\<close>

datatype rval = Plain string | Dumped json

record redis_store =
  hashes :: "(string \<times> (string \<times> rval) list) list"
  ints :: "(string \<times> int) list"
  sets :: "(string \<times> string list) list"
  expiry :: "(string \<times> int) list"

definition entry :: "'v \<Rightarrow> ('k \<times> 'v) list \<Rightarrow> 'k \<Rightarrow> 'v" where
  "entry dflt xs k = (case map_of xs k of None \<Rightarrow> dflt | Some v \<Rightarrow> v)"

lemma entry_update [simp]: "entry d (AList.update k v xs) j = (if j = k then v else entry d xs j)"
  by (simp add: entry_def AList.update_conv')

lemma entry_delete [simp]: "entry d (AList.delete k xs) j = (if j = k then d else entry d xs j)"
  by (simp add: entry_def AList.delete_conv')

definition remove_key :: "string \<Rightarrow> redis_store \<Rightarrow> redis_store" where
  "remove_key key r = r\<lparr>hashes := AList.delete key (hashes r), ints := AList.delete key (ints r),
     sets := AList.delete key (sets r), expiry := AList.delete key (expiry r)\<rparr>"

definition key_present :: "string \<Rightarrow> redis_store \<Rightarrow> bool" where
  "key_present key r \<longleftrightarrow> entry [] (hashes r) key \<noteq> [] \<or> map_of (ints r) key \<noteq> None \<or> entry [] (sets r) key \<noteq> []"

definition lapse :: "int \<Rightarrow> string \<Rightarrow> redis_store \<Rightarrow> redis_store" where
  "lapse now key r = (case map_of (expiry r) key of None \<Rightarrow> r | Some t \<Rightarrow> if t \<le> now then remove_key key r else r)"

type_synonym 'a redis_command = "int \<Rightarrow> redis_store \<Rightarrow> 'a \<times> redis_store"

definition hset :: "string \<Rightarrow> (string \<times> rval) list \<Rightarrow> unit redis_command" where
  "hset key mapping now r = (let r = lapse now key r in ((), r\<lparr>hashes := AList.update key
     (fold (\<lambda>(f, v). AList.update f v) mapping (entry [] (hashes r) key)) (hashes r)\<rparr>))"

definition hgetall :: "string \<Rightarrow> (string \<times> rval) list redis_command" where
  "hgetall key now r = (let r = lapse now key r in (entry [] (hashes r) key, r))"

definition expire_key :: "string \<Rightarrow> int \<Rightarrow> unit redis_command" where
  "expire_key key ttl now r = (let r = lapse now key r in ((),
     if \<not> key_present key r then r
     else if ttl \<le> 0 then remove_key key r
     else r\<lparr>expiry := AList.update key (now + seconds ttl) (expiry r)\<rparr>))"

definition get_int :: "string \<Rightarrow> int option redis_command" where
  "get_int key now r = (let r = lapse now key r in (map_of (ints r) key, r))"

definition set_int :: "string \<Rightarrow> int \<Rightarrow> unit redis_command" where
  "set_int key n now r = ((), (remove_key key r)\<lparr>ints := AList.update key n (ints r)\<rparr>)"

definition incr_by :: "string \<Rightarrow> int \<Rightarrow> int redis_command" where
  "incr_by key n now r = (let r = lapse now key r; m = entry 0 (ints r) key + n
     in (m, r\<lparr>ints := AList.update key m (ints r)\<rparr>))"

definition sadd :: "string \<Rightarrow> string \<Rightarrow> unit redis_command" where
  "sadd key member now r = (let r = lapse now key r in ((),
     r\<lparr>sets := AList.update key (List.insert member (entry [] (sets r) key)) (sets r)\<rparr>))"

definition srem :: "string \<Rightarrow> string \<Rightarrow> unit redis_command" where
  "srem key member now r = (let r = lapse now key r in ((),
     r\<lparr>sets := AList.update key (removeAll member (entry [] (sets r) key)) (sets r)\<rparr>))"

definition scard :: "string \<Rightarrow> nat redis_command" where
  "scard key now r = (let r = lapse now key r in (length (entry [] (sets r) key), r))"

definition delete_keys :: "string list \<Rightarrow> nat redis_command" where
  "delete_keys keys now r = (let r = fold (lapse now) keys r
     in (length (filter (\<lambda>k. key_present k r) (remdups keys)), fold remove_key keys r))"

text \<open>\<open>scan_iter(match=prefix + "*")\<close>: the keys that are there throughout the scan.\<close>

definition scan_prefix :: "string \<Rightarrow> string list redis_command" where
  "scan_prefix prefix now r = (filter (\<lambda>k. take (length prefix) k = prefix \<and> key_present k (lapse now k r))
     (remdups (map fst (hashes r) @ map fst (ints r) @ map fst (sets r))), r)"

end
