(* ===== verification/S3_Services.thy ===== *)
theory S3_Services
  imports S3_Store Redis
begin

text \<open>
  The outside services of Solution 3 besides Postgres: Redis, the log of Redpanda topics, the queues of
  RabbitMQ with the hot queues that are bound to its exchange, and TigerBeetle.  The state of TigerBeetle is
  abstract: its client is a parameter (\<open>S3_Billing\<close>).  \<open>warm_model\<close> and \<open>consumers\<close> are the memory of the worker process:
  the model it has loaded and the hot queues it consumes.
\<close>

record KafkaRecord =
  kr_topic :: string
  kr_offset :: nat
  kr_headers :: "(string \<times> string option) list"
  kr_value :: jtext

record 't s3kv =
  redis :: redis_store
  topics :: "(string \<times> KafkaRecord list) list"
  positions :: "((string \<times> string) \<times> nat) list"
  commits :: "((string \<times> string) \<times> nat) list"
  queues :: "(string \<times> jtext list) list"
  hot_bindings :: "ModelClass list"
  unacked :: "(nat \<times> string \<times> jtext) list"
  warm_model :: "ModelClass option"
  consumers :: "ModelClass list"
  tb_state :: 't

type_synonym ('t, 'a) app3 = "(s3db, 't s3kv, 'a) io"

definition redis_call :: "'a redis_command \<Rightarrow> ('t, 'a) app3" where
  "redis_call f = remote (\<lambda>now k. case f now (redis k) of (a, r) \<Rightarrow> Inr (a, k\<lparr>redis := r\<rparr>))"

lemma keeps_redis_call [keeps_rules]: "keeps I (redis_call f)"
  unfolding redis_call_def by (rule keeps_remote)

lemma redis_call_nofault [nofault_simps]:
  "faults w = [] \<Longrightarrow> redis_call f w = (case f (clock w) (redis (kv w)) of (a, r) \<Rightarrow>
     (Inr a, w\<lparr>kv := (kv w)\<lparr>redis := r\<rparr>\<rparr>))"
  by (simp add: redis_call_def remote_nofault split: prod.split)

text \<open>A Redis command leaves TigerBeetle alone.\<close>

lemma redis_call_tb: "tb_state (kv (snd (redis_call f w))) = tb_state (kv w)"
  by (auto simp: redis_call_def remote_def ext_def split: list.splits fault.splits prod.splits)

definition task_state_key :: "uuid \<Rightarrow> string" where
  "task_state_key task_id = ''task:'' @ uuid_str task_id"

definition active_counter_key :: "uuid \<Rightarrow> string" where
  "active_counter_key user_id = ''active:'' @ uuid_str user_id"

section \<open>RabbitMQ and the memory of the worker\<close>

definition broker_call :: "('t s3kv \<Rightarrow> 't s3kv) \<Rightarrow> ('t, unit) app3" where
  "broker_call f = remote (\<lambda>_ k. Inr ((), (f k)\<lparr>tb_state := tb_state k\<rparr>))"

definition memory :: "('t s3kv \<Rightarrow> 'a \<times> 't s3kv) \<Rightarrow> ('t, 'a) app3" where
  "memory f w = (case f (kv w) of (a, k) \<Rightarrow> (Inr a, w\<lparr>kv := k\<lparr>tb_state := tb_state (kv w)\<rparr>\<rparr>))"

definition push_back :: "string \<Rightarrow> jtext \<Rightarrow> 't s3kv \<Rightarrow> 't s3kv" where
  "push_back q m k = k\<lparr>queues := AList.update q (entry [] (queues k) q @ [m]) (queues k)\<rparr>"

definition push_front :: "string \<Rightarrow> jtext \<Rightarrow> 't s3kv \<Rightarrow> 't s3kv" where
  "push_front q m k = k\<lparr>queues := AList.update q (m # entry [] (queues k) q) (queues k)\<rparr>"

definition basic_ack :: "nat \<Rightarrow> ('t, unit) app3" where
  "basic_ack tag = broker_call (\<lambda>k. k\<lparr>unacked := filter (\<lambda>u. fst u \<noteq> tag) (unacked k)\<rparr>)"

text \<open>A message that is not requeued is dropped: the queues have no dead-letter exchange.\<close>

definition basic_nack :: "nat \<Rightarrow> bool \<Rightarrow> ('t, unit) app3" where
  "basic_nack tag requeue = broker_call (\<lambda>k. case map_of (unacked k) tag of
       None \<Rightarrow> k
     | Some (q, m) \<Rightarrow> (if requeue then push_front q m k else k)\<lparr>unacked := filter (\<lambda>u. fst u \<noteq> tag) (unacked k)\<rparr>)"

lemma keeps_broker [keeps_rules]: "keeps I (broker_call f)" "keeps I (memory g)"
  unfolding broker_call_def by (rule keeps_remote, simp add: keeps_def memory_def split: prod.split)

lemma broker_tb:
  "tb_state (kv (snd (broker_call f w))) = tb_state (kv w)" "tb_state (kv (snd (memory g w))) = tb_state (kv w)"
  by (auto simp: broker_call_def memory_def remote_def ext_def split: list.splits fault.splits prod.splits)

section \<open>Redpanda\<close>

text \<open>
  Each topic is a log of one partition.  A consumer of a group has a position per topic, advanced by every poll and set to
  the committed offset when the consumer is opened.
\<close>

definition append_record :: "string \<Rightarrow> (string \<times> string option) list \<Rightarrow> jtext \<Rightarrow> ('t, unit) app3" where
  "append_record topic headers payload = broker_call (\<lambda>k. let l = entry [] (topics k) topic in
     k\<lparr>topics := AList.update topic (l @ [\<lparr>kr_topic = topic, kr_offset = length l, kr_headers = headers, kr_value = payload\<rparr>])
       (topics k)\<rparr>)"

fun fetch_from :: "string \<Rightarrow> string list \<Rightarrow> nat \<Rightarrow> 't s3kv \<Rightarrow> KafkaRecord list \<times> 't s3kv" where
  "fetch_from grp [] n k = ([], k)"
| "fetch_from grp (topic # rest) n k =
     (let p = entry 0 (positions k) (grp, topic);
          ms = take n (drop p (entry [] (topics k) topic));
          k' = k\<lparr>positions := AList.update (grp, topic) (p + length ms) (positions k)\<rparr>
      in case fetch_from grp rest (n - length ms) k' of (ms', k'') \<Rightarrow> (ms @ ms', k''))"

definition broker_read :: "('t s3kv \<Rightarrow> 'a \<times> 't s3kv) \<Rightarrow> ('t, 'a) app3" where
  "broker_read f = remote (\<lambda>_ k. case f k of (a, k') \<Rightarrow> Inr (a, k'\<lparr>tb_state := tb_state k\<rparr>))"

definition kafka_poll :: "string \<Rightarrow> string list \<Rightarrow> nat \<Rightarrow> ('t, KafkaRecord list) app3" where
  "kafka_poll grp ts max_records = broker_read (fetch_from grp ts max_records)"

definition commit_all :: "string \<Rightarrow> string list \<Rightarrow> 't s3kv \<Rightarrow> 't s3kv" where
  "commit_all grp ts k = k\<lparr>commits := fold (\<lambda>topic. AList.update (grp, topic) (entry 0 (positions k) (grp, topic))) ts (commits k)\<rparr>"

definition kafka_commit :: "string \<Rightarrow> string list \<Rightarrow> ('t, unit) app3" where
  "kafka_commit grp ts = broker_call (commit_all grp ts)"

definition rewind :: "string \<Rightarrow> string list \<Rightarrow> 't s3kv \<Rightarrow> 't s3kv" where
  "rewind grp ts k = k\<lparr>positions := fold (\<lambda>topic. AList.update (grp, topic) (entry 0 (commits k) (grp, topic))) ts (positions k)\<rparr>"

definition open_consumer :: "string \<Rightarrow> string list \<Rightarrow> ('t, unit) app3" where
  "open_consumer grp ts = broker_call (rewind grp ts)"

lemma keeps_broker_read [keeps_rules]: "keeps I (broker_read f)"
  unfolding broker_read_def by (rule keeps_remote)

lemma broker_read_tb: "tb_state (kv (snd (broker_read f w))) = tb_state (kv w)"
  by (auto simp: broker_read_def remote_def ext_def split: list.splits fault.splits prod.splits)

end
