(* ===== verification/S3_Billing.thy ===== *)
theory S3_Billing
  imports S3_Services
begin

text \<open>
  Solution 3, \<open>services/billing.py\<close>: credits are two-phase transfers of TigerBeetle.  The client of the
  \<open>tigerbeetle\<close> package is a parameter, a record of the four calls the code makes over an abstract server state;
  what its documentation promises and the code relies on are the predicates \<open>tb_history\<close> and \<open>tb_money\<close>.
  From them: a hold is settled at most once, \<open>get_pending_transfer_state\<close> reports the settlement, and what each
  operation does to the balance of the account.
\<close>

section \<open>The client\<close>

datatype tb_flag = PENDING_TRANSFER | POST_PENDING_TRANSFER | VOID_PENDING_TRANSFER | DEBITS_MUST_NOT_EXCEED_CREDITS

datatype tb_result = EXISTS | EXCEEDS_CREDITS | OTHER_RESULT nat

record tb_account =
  ta_id :: int
  ta_ledger :: int
  ta_code :: int
  ta_flags :: "tb_flag list"
  ta_debits_pending :: int
  ta_debits_posted :: int
  ta_credits_posted :: int

record tb_transfer =
  tr_id :: int
  tr_debit_account_id :: int
  tr_credit_account_id :: int
  tr_amount :: int
  tr_pending_id :: int
  tr_user_data_128 :: int
  tr_timeout :: int
  tr_ledger :: int
  tr_code :: int
  tr_flags :: "tb_flag list"

record tb_query_filter =
  qf_user_data_128 :: int
  qf_ledger :: int
  qf_limit :: nat

text \<open>The server's clock is the first argument of the calls whose answer depends on it: holds time out.\<close>

record 't tb_client =
  create_accounts :: "tb_account list \<Rightarrow> 't \<Rightarrow> tb_result list \<times> 't"
  create_transfers :: "int \<Rightarrow> tb_transfer list \<Rightarrow> 't \<Rightarrow> tb_result list \<times> 't"
  query_transfers :: "tb_query_filter \<Rightarrow> 't \<Rightarrow> tb_transfer list"
  lookup_accounts :: "int \<Rightarrow> int list \<Rightarrow> 't \<Rightarrow> tb_account list"

definition tb_call :: "(int \<Rightarrow> 't \<Rightarrow> 'a \<times> 't) \<Rightarrow> ('t, 'a) app3" where
  "tb_call f = remote (\<lambda>now k. case f now (tb_state k) of (a, t) \<Rightarrow> Inr (a, k\<lparr>tb_state := t\<rparr>))"

lemma keeps_tb_call [keeps_rules]: "keeps I (tb_call f)"
  unfolding tb_call_def by (rule keeps_remote)

section \<open>TigerBeetleBilling\<close>

definition LEDGER_ACCOUNT_CODE_REVENUE :: int where "LEDGER_ACCOUNT_CODE_REVENUE = 1"
definition LEDGER_ACCOUNT_CODE_ESCROW :: int where "LEDGER_ACCOUNT_CODE_ESCROW = 2"
definition LEDGER_ACCOUNT_CODE_USER :: int where "LEDGER_ACCOUNT_CODE_USER = 10"
definition TRANSFER_CODE_TASK :: int where "TRANSFER_CODE_TASK = 100"
definition TRANSFER_CODE_TOPUP :: int where "TRANSFER_CODE_TOPUP = 200"

definition uuid_to_u128 :: "uuid \<Rightarrow> int" where
  "uuid_to_u128 u = (case py_int_base 16 (remove_all ''-'' (uuid_str u)) of None \<Rightarrow> 0 | Some i \<Rightarrow> i)"

record 't TigerBeetleBilling =
  bl_client :: "'t tb_client"
  bl_ledger_id :: int
  bl_revenue_account_id :: int
  bl_escrow_account_id :: int
  bl_pending_timeout_seconds :: int

datatype ReserveCreditsResult = ACCEPTED | INSUFFICIENT_CREDITS | RESERVE_ERROR

datatype PendingTransferState = HOLD_PENDING | HOLD_POSTED | HOLD_VOIDED | HOLD_ABSENT

definition account :: "int \<Rightarrow> int \<Rightarrow> int \<Rightarrow> tb_flag list \<Rightarrow> tb_account" where
  "account account_id ledger code flags = \<lparr>ta_id = account_id, ta_ledger = ledger, ta_code = code, ta_flags = flags,
     ta_debits_pending = 0, ta_debits_posted = 0, ta_credits_posted = 0\<rparr>"

definition bootstrap_failed :: "tb_result list \<Rightarrow> bool" where
  "bootstrap_failed errors \<longleftrightarrow> list_ex (\<lambda>e. e \<noteq> EXISTS) errors"

definition ensure_platform_accounts :: "'t TigerBeetleBilling \<Rightarrow> ('t, unit) app3" where
  "ensure_platform_accounts b = bindE (tb_call (\<lambda>_. create_accounts (bl_client b)
       [account (bl_revenue_account_id b) (bl_ledger_id b) LEDGER_ACCOUNT_CODE_REVENUE [],
        account (bl_escrow_account_id b) (bl_ledger_id b) LEDGER_ACCOUNT_CODE_ESCROW []])) (\<lambda>errors.
     if bootstrap_failed errors then raiseM RuntimeError ''platform account bootstrap failed'' else returnM ())"

definition get_balance :: "'t TigerBeetleBilling \<Rightarrow> uuid \<Rightarrow> ('t, int) app3" where
  "get_balance b user_id = bindE (tb_call (\<lambda>now t. (lookup_accounts (bl_client b) now [uuid_to_u128 user_id] t, t)))
     (\<lambda>accounts. returnM (case accounts of [] \<Rightarrow> 0
        | a # _ \<Rightarrow> ta_credits_posted a - ta_debits_posted a - ta_debits_pending a))"

definition topup_transfer :: "'t TigerBeetleBilling \<Rightarrow> uuid \<Rightarrow> uuid \<Rightarrow> int \<Rightarrow> tb_transfer" where
  "topup_transfer b user_id transfer_id amount = \<lparr>tr_id = uuid_to_u128 transfer_id,
     tr_debit_account_id = bl_revenue_account_id b, tr_credit_account_id = uuid_to_u128 user_id, tr_amount = amount,
     tr_pending_id = 0, tr_user_data_128 = 0, tr_timeout = 0, tr_ledger = bl_ledger_id b,
     tr_code = TRANSFER_CODE_TOPUP, tr_flags = []\<rparr>"

definition topup_credits :: "'t TigerBeetleBilling \<Rightarrow> uuid \<Rightarrow> uuid \<Rightarrow> int \<Rightarrow> ('t, bool) app3" where
  "topup_credits b user_id transfer_id amount =
     bindE (tb_call (\<lambda>now. create_transfers (bl_client b) now [topup_transfer b user_id transfer_id amount])) (\<lambda>errors.
     returnM (errors = []))"

definition ensure_user_account :: "'t TigerBeetleBilling \<Rightarrow> uuid \<Rightarrow> int \<Rightarrow> ('t, unit) app3" where
  "ensure_user_account b user_id initial_credits = bindE (tb_call (\<lambda>_. create_accounts (bl_client b)
       [account (uuid_to_u128 user_id) (bl_ledger_id b) LEDGER_ACCOUNT_CODE_USER [DEBITS_MUST_NOT_EXCEED_CREDITS]])) (\<lambda>errors.
     if bootstrap_failed errors then raiseM RuntimeError ''user account bootstrap failed''
     else if \<not> 0 < initial_credits then returnM ()
     else bindE (get_balance b user_id) (\<lambda>balance.
       if balance = 0 then bindE (topup_credits b user_id user_id initial_credits) (\<lambda>_. returnM ())
       else returnM ()))"

definition hold_transfer :: "'t TigerBeetleBilling \<Rightarrow> uuid \<Rightarrow> uuid \<Rightarrow> int \<Rightarrow> tb_transfer" where
  "hold_transfer b user_id transfer_id amount = \<lparr>tr_id = uuid_to_u128 transfer_id,
     tr_debit_account_id = uuid_to_u128 user_id, tr_credit_account_id = bl_escrow_account_id b, tr_amount = amount,
     tr_pending_id = 0, tr_user_data_128 = uuid_to_u128 transfer_id, tr_timeout = bl_pending_timeout_seconds b,
     tr_ledger = bl_ledger_id b, tr_code = TRANSFER_CODE_TASK, tr_flags = [PENDING_TRANSFER]\<rparr>"

definition reserve_credits :: "'t TigerBeetleBilling \<Rightarrow> uuid \<Rightarrow> uuid \<Rightarrow> int \<Rightarrow> ('t, ReserveCreditsResult) app3" where
  "reserve_credits b user_id transfer_id amount =
     bindE (tb_call (\<lambda>now. create_transfers (bl_client b) now [hold_transfer b user_id transfer_id amount])) (\<lambda>errors.
     returnM (case errors of [] \<Rightarrow> ACCEPTED
       | first_error # _ \<Rightarrow> if first_error = EXCEEDS_CREDITS then INSUFFICIENT_CREDITS else RESERVE_ERROR))"

definition settle_transfer :: "'t TigerBeetleBilling \<Rightarrow> tb_flag \<Rightarrow> uuid \<Rightarrow> uuid \<Rightarrow> tb_transfer" where
  "settle_transfer b flag new_id pending_transfer_id = \<lparr>tr_id = uuid_to_u128 new_id, tr_debit_account_id = 0,
     tr_credit_account_id = 0, tr_amount = 0, tr_pending_id = uuid_to_u128 pending_transfer_id,
     tr_user_data_128 = uuid_to_u128 pending_transfer_id, tr_timeout = 0, tr_ledger = bl_ledger_id b,
     tr_code = TRANSFER_CODE_TASK, tr_flags = [flag]\<rparr>"

definition post_pending_transfer :: "'t TigerBeetleBilling \<Rightarrow> uuid \<Rightarrow> ('t, bool) app3" where
  "post_pending_transfer b pending_transfer_id = bindE fresh_uuid (\<lambda>new_id.
     bindE (tb_call (\<lambda>now. create_transfers (bl_client b) now
       [settle_transfer b POST_PENDING_TRANSFER new_id pending_transfer_id])) (\<lambda>errors. returnM (errors = [])))"

definition void_pending_transfer :: "'t TigerBeetleBilling \<Rightarrow> uuid \<Rightarrow> ('t, bool) app3" where
  "void_pending_transfer b pending_transfer_id = bindE fresh_uuid (\<lambda>new_id.
     bindE (tb_call (\<lambda>now. create_transfers (bl_client b) now
       [settle_transfer b VOID_PENDING_TRANSFER new_id pending_transfer_id])) (\<lambda>errors. returnM (errors = [])))"

definition has_flag :: "tb_flag \<Rightarrow> tb_transfer \<Rightarrow> bool" where
  "has_flag f x \<longleftrightarrow> List.member (tr_flags x) f"

definition state_of_transfers :: "int \<Rightarrow> tb_transfer list \<Rightarrow> PendingTransferState" where
  "state_of_transfers transfer_key transfers =
     (if list_ex (has_flag POST_PENDING_TRANSFER) transfers then HOLD_POSTED
      else if list_ex (has_flag VOID_PENDING_TRANSFER) transfers then HOLD_VOIDED
      else if list_ex (\<lambda>x. tr_id x = transfer_key \<and> has_flag PENDING_TRANSFER x) transfers then HOLD_PENDING
      else HOLD_ABSENT)"

definition get_pending_transfer_state :: "'t TigerBeetleBilling \<Rightarrow> uuid \<Rightarrow> ('t, PendingTransferState) app3" where
  "get_pending_transfer_state b pending_transfer_id = (let transfer_key = uuid_to_u128 pending_transfer_id in
     bindE (tb_call (\<lambda>_ t. (query_transfers (bl_client b)
       \<lparr>qf_user_data_128 = transfer_key, qf_ledger = bl_ledger_id b, qf_limit = 16\<rparr> t, t))) (\<lambda>transfers.
     returnM (state_of_transfers transfer_key transfers)))"

section \<open>What the documentation of TigerBeetle promises\<close>

text \<open>
  The server keeps every accepted transfer; \<open>h\<close> is that record, oldest first.  A transfer is accepted only with
  a new id other than 0, and a post or void only for an accepted hold that no post or void refers to yet.  An accepted transfer is recorded as
  it was sent, with the accounts and the amount of a post or void filled in.  A query returns the recorded transfers
  that match, up to its limit.
\<close>

definition settles :: "tb_transfer \<Rightarrow> bool" where
  "settles x \<longleftrightarrow> has_flag POST_PENDING_TRANSFER x \<or> has_flag VOID_PENDING_TRANSFER x"

definition admissible :: "tb_transfer list \<Rightarrow> tb_transfer \<Rightarrow> bool" where
  "admissible h x \<longleftrightarrow> tr_id x \<noteq> 0 \<and> (\<forall>y\<in>set h. tr_id y \<noteq> tr_id x) \<and>
     (settles x \<longrightarrow> (\<exists>p\<in>set h. has_flag PENDING_TRANSFER p \<and> tr_id p = tr_pending_id x) \<and>
        (\<forall>y\<in>set h. settles y \<longrightarrow> tr_pending_id y \<noteq> tr_pending_id x))"

definition recorded_as :: "tb_transfer \<Rightarrow> tb_transfer \<Rightarrow> bool" where
  "recorded_as x y \<longleftrightarrow> tr_id y = tr_id x \<and> tr_pending_id y = tr_pending_id x \<and>
     tr_user_data_128 y = tr_user_data_128 x \<and> tr_ledger y = tr_ledger x \<and> tr_flags y = tr_flags x \<and>
     (\<not> settles x \<longrightarrow> y = x)"

definition tb_history :: "'t tb_client \<Rightarrow> ('t \<Rightarrow> tb_transfer list) \<Rightarrow> bool" where
  "tb_history cl h \<longleftrightarrow>
     (\<forall>now x t es t'. create_transfers cl now [x] t = (es, t') \<longrightarrow>
        (if es = [] then admissible (h t) x \<and> (\<exists>y. recorded_as x y \<and> h t' = h t @ [y]) else h t' = h t)) \<and>
     (\<forall>as t. h (snd (create_accounts cl as t)) = h t) \<and>
     (\<forall>f t. qf_user_data_128 f \<noteq> 0 \<longrightarrow> query_transfers cl f t =
        take (qf_limit f) (filter (\<lambda>x. tr_user_data_128 x = qf_user_data_128 f \<and> tr_ledger x = qf_ledger f) (h t)))"

text \<open>
  The balances: an account may spend what was credited less what was debited or is held.  A hold takes its amount from the
  debit account at once, a void gives it back, and a post gives back what it does not take; \<open>posted r p\<close> is what a post that asks
  for \<open>r\<close> takes of a hold of \<open>p\<close>.  A limited account cannot be debited below zero.
\<close>

definition available :: "'t tb_client \<Rightarrow> int \<Rightarrow> 't \<Rightarrow> int \<Rightarrow> int" where
  "available cl now t a = (case lookup_accounts cl now [a] t of [] \<Rightarrow> 0
     | x # _ \<Rightarrow> ta_credits_posted x - ta_debits_posted x - ta_debits_pending x)"

definition balance_change :: "(int \<Rightarrow> int \<Rightarrow> int) \<Rightarrow> tb_transfer list \<Rightarrow> tb_transfer \<Rightarrow> int \<Rightarrow> int" where
  "balance_change posted h x a = (if settles x
     then (case find (\<lambda>p. tr_id p = tr_pending_id x) h of None \<Rightarrow> 0
       | Some p \<Rightarrow> let taken = (if has_flag POST_PENDING_TRANSFER x then posted (tr_amount x) (tr_amount p) else 0) in
           (if a = tr_debit_account_id p then tr_amount p - taken else 0) +
           (if a = tr_credit_account_id p then taken else 0))
     else (if a = tr_debit_account_id x then - tr_amount x else 0) +
          (if a = tr_credit_account_id x \<and> \<not> has_flag PENDING_TRANSFER x then tr_amount x else 0))"

definition tb_money :: "'t tb_client \<Rightarrow> ('t \<Rightarrow> tb_transfer list) \<Rightarrow> (int \<Rightarrow> int \<Rightarrow> int) \<Rightarrow> (int \<Rightarrow> bool) \<Rightarrow> bool" where
  "tb_money cl h posted limited \<longleftrightarrow> (\<forall>now x t t'. create_transfers cl now [x] t = ([], t') \<longrightarrow>
     (\<forall>a. available cl now t' a = available cl now t a + balance_change posted (h t) x a) \<and>
     (limited (tr_debit_account_id x) \<and> \<not> settles x \<longrightarrow> 0 \<le> available cl now t' (tr_debit_account_id x)))"

text \<open>From release 0.16 on, a post takes the amount it asks for, and the whole hold only for the largest amount.\<close>

definition posts_requested_amount :: "(int \<Rightarrow> int \<Rightarrow> int) \<Rightarrow> bool" where
  "posts_requested_amount posted \<longleftrightarrow> (\<forall>r p. posted r p = (if r = 2 ^ 128 - 1 then p else r))"

section \<open>The record of a billing ledger\<close>

text \<open>Every transfer of the code carries the id of its hold, or nothing, in \<open>user_data_128\<close>.\<close>

definition labelled :: "int \<Rightarrow> tb_transfer \<Rightarrow> bool" where
  "labelled ledger x \<longleftrightarrow> tr_ledger x = ledger \<and> length (tr_flags x) \<le> 1 \<and>
     tr_user_data_128 x = (if settles x then tr_pending_id x else if has_flag PENDING_TRANSFER x then tr_id x else 0)"

definition book_ok :: "int \<Rightarrow> tb_transfer list \<Rightarrow> bool" where
  "book_ok ledger h \<longleftrightarrow> distinct (map tr_id h) \<and> distinct (map tr_pending_id (filter settles h)) \<and>
     (\<forall>x\<in>set h. labelled ledger x \<and> tr_id x \<noteq> 0)"

definition settled_by :: "tb_flag \<Rightarrow> tb_transfer list \<Rightarrow> int \<Rightarrow> bool" where
  "settled_by f h k \<longleftrightarrow> list_ex (\<lambda>x. has_flag f x \<and> tr_pending_id x = k) h"

definition held_in :: "tb_transfer list \<Rightarrow> int \<Rightarrow> bool" where
  "held_in h k \<longleftrightarrow> list_ex (\<lambda>x. has_flag PENDING_TRANSFER x \<and> tr_id x = k) h"

abbreviation posted_in :: "tb_transfer list \<Rightarrow> int \<Rightarrow> bool" where
  "posted_in \<equiv> settled_by POST_PENDING_TRANSFER"

abbreviation voided_in :: "tb_transfer list \<Rightarrow> int \<Rightarrow> bool" where
  "voided_in \<equiv> settled_by VOID_PENDING_TRANSFER"

definition hold_state :: "tb_transfer list \<Rightarrow> int \<Rightarrow> PendingTransferState" where
  "hold_state h k = (if posted_in h k then HOLD_POSTED else if voided_in h k then HOLD_VOIDED
     else if held_in h k then HOLD_PENDING else HOLD_ABSENT)"

lemma settled_by_append [simp]:
  "settled_by f (h @ [y]) k \<longleftrightarrow> settled_by f h k \<or> has_flag f y \<and> tr_pending_id y = k"
  by (simp add: settled_by_def)

lemma held_in_append [simp]:
  "held_in (h @ [y]) k \<longleftrightarrow> held_in h k \<or> has_flag PENDING_TRANSFER y \<and> tr_id y = k"
  by (simp add: held_in_def)

lemma distinct_filter_le_1: "distinct (map f xs) \<Longrightarrow> length (filter (\<lambda>x. f x = k \<and> P x) xs) \<le> 1"
proof (induction xs)
  case (Cons a xs)
  have "filter (\<lambda>x. f x = k \<and> P x) xs = []" if "f a = k"
    using Cons.prems that by (auto simp: filter_empty_conv image_iff)
  with Cons show ?case by auto
qed simp

lemma length_filter_split:
  "length (filter P xs) = length (filter (\<lambda>x. P x \<and> Q x) xs) + length (filter (\<lambda>x. P x \<and> \<not> Q x) xs)"
  by (induction xs) auto

lemma book_few:
  assumes "book_ok ledger h" "k \<noteq> 0"
  shows "length (filter (\<lambda>x. tr_user_data_128 x = k \<and> tr_ledger x = ledger) h) \<le> 16" (is "length (filter ?P h) \<le> _")
proof -
  have "filter (\<lambda>x. ?P x \<and> settles x) h = filter (\<lambda>x. tr_pending_id x = k) (filter settles h)"
    unfolding filter_filter using assms by (intro filter_cong) (auto simp: book_ok_def labelled_def)
  moreover have "length (filter (\<lambda>x. tr_pending_id x = k) (filter settles h)) \<le> 1"
    using assms distinct_filter_le_1 [of tr_pending_id "filter settles h" k "\<lambda>_. True"] by (simp add: book_ok_def)
  moreover have "filter (\<lambda>x. ?P x \<and> \<not> settles x) h = filter (\<lambda>x. tr_id x = k \<and> \<not> settles x \<and> has_flag PENDING_TRANSFER x) h"
    using assms by (intro filter_cong) (auto simp: book_ok_def labelled_def split: if_splits)
  moreover have "length (filter (\<lambda>x. tr_id x = k \<and> \<not> settles x \<and> has_flag PENDING_TRANSFER x) h) \<le> 1"
    using assms(1) distinct_filter_le_1 [of tr_id h k] by (simp add: book_ok_def)
  ultimately show ?thesis using length_filter_split [of ?P h settles] by simp
qed

lemma list_ex_filter_cong:
  "(\<And>x. x \<in> set h \<Longrightarrow> (Q x \<and> P x) = R x) \<Longrightarrow> list_ex P (filter Q h) = list_ex R h"
  by (induction h) auto

lemma one_flag: "labelled ledger x \<Longrightarrow> has_flag f x \<Longrightarrow> has_flag g x \<longleftrightarrow> g = f"
  unfolding labelled_def has_flag_def by (cases "tr_flags x") auto

lemma labelled_settles:
  assumes "labelled ledger x" "has_flag f x" "f = POST_PENDING_TRANSFER \<or> f = VOID_PENDING_TRANSFER"
  shows "tr_user_data_128 x = tr_pending_id x" "tr_ledger x = ledger"
  using assms by (auto simp: labelled_def settles_def)

lemma labelled_hold:
  assumes "labelled ledger x" "has_flag PENDING_TRANSFER x"
  shows "tr_user_data_128 x = tr_id x" "tr_ledger x = ledger"
proof -
  have "\<not> settles x" using one_flag [OF assms] by (simp add: settles_def)
  with assms show "tr_user_data_128 x = tr_id x" "tr_ledger x = ledger" by (simp_all add: labelled_def)
qed

lemma state_of_transfers_book:
  assumes "book_ok ledger h"
  shows "state_of_transfers k (filter (\<lambda>x. tr_user_data_128 x = k \<and> tr_ledger x = ledger) h) = hold_state h k"
proof -
  have lab: "x \<in> set h \<Longrightarrow> labelled ledger x" for x using assms by (simp add: book_ok_def)
  have "list_ex (has_flag f) (filter (\<lambda>x. tr_user_data_128 x = k \<and> tr_ledger x = ledger) h) = settled_by f h k"
    if "f = POST_PENDING_TRANSFER \<or> f = VOID_PENDING_TRANSFER" for f
    unfolding settled_by_def using labelled_settles [OF lab _ that] by (intro list_ex_filter_cong) metis
  moreover have "list_ex (\<lambda>x. tr_id x = k \<and> has_flag PENDING_TRANSFER x)
      (filter (\<lambda>x. tr_user_data_128 x = k \<and> tr_ledger x = ledger) h) = held_in h k"
    unfolding held_in_def using labelled_hold [OF lab] by (intro list_ex_filter_cong) metis
  ultimately show ?thesis by (simp add: state_of_transfers_def hold_state_def)
qed

lemma recorded_flags: "recorded_as x y \<Longrightarrow> has_flag f y = has_flag f x" "recorded_as x y \<Longrightarrow> settles y = settles x"
  by (simp_all add: recorded_as_def has_flag_def settles_def)

lemma book_ok_append:
  assumes "book_ok ledger h" "admissible h x" "recorded_as x y" "labelled ledger x"
  shows "book_ok ledger (h @ [y])"
proof -
  have "labelled ledger y"
    using assms(3,4) recorded_flags [OF assms(3)] unfolding labelled_def by (simp add: recorded_as_def)
  moreover have "tr_id y \<notin> tr_id ` set h" "tr_id y \<noteq> 0" using assms(2,3) by (auto simp: admissible_def recorded_as_def)
  moreover have "settles y \<Longrightarrow> tr_pending_id y \<notin> tr_pending_id ` {z \<in> set h. settles z}"
    using assms(2) recorded_flags [OF assms(3)] assms(3) by (auto simp: admissible_def recorded_as_def)
  ultimately show ?thesis using assms(1) by (auto simp: book_ok_def)
qed

text \<open>A hold is settled in at most one way.\<close>

lemma distinct_map_filter_inj:
  assumes "distinct (map f (filter P xs))" "x \<in> set xs" "y \<in> set xs" "P x" "P y" "f x = f y"
  shows "x = y"
proof (rule inj_onD)
  show "inj_on f (set (filter P xs))" using assms(1) unfolding distinct_map by (rule conjunct2)
qed (use assms(2-6) in simp_all)

lemma settled_once:
  assumes ok: "book_ok ledger h" and posted: "posted_in h k"
  shows "\<not> voided_in h k"
proof (rule notI)
  assume "voided_in h k"
  then obtain y where y: "y \<in> set h" "has_flag VOID_PENDING_TRANSFER y" "tr_pending_id y = k"
    by (auto simp: settled_by_def list_ex_iff)
  from posted obtain x where x: "x \<in> set h" "has_flag POST_PENDING_TRANSFER x" "tr_pending_id x = k"
    by (auto simp: settled_by_def list_ex_iff)
  have "settles x" "settles y" using x(2) y(2) by (simp_all add: settles_def)
  moreover have "distinct (map tr_pending_id (filter settles h))" using ok by (simp add: book_ok_def)
  ultimately have "x = y" using distinct_map_filter_inj x(1,3) y(1,3) by metis
  moreover have "labelled ledger x" using ok x(1) by (simp add: book_ok_def)
  ultimately show False using one_flag [of ledger x] x(2) y(2) by blast
qed

lemma held_key: "book_ok ledger h \<Longrightarrow> held_in h k \<Longrightarrow> k \<noteq> 0"
  by (auto simp: book_ok_def held_in_def list_ex_iff)

lemma settled_held:
  assumes "admissible h x" "settles x"
  shows "held_in h (tr_pending_id x)" "\<not> posted_in h (tr_pending_id x)" "\<not> voided_in h (tr_pending_id x)"
  using assms by (auto simp: admissible_def held_in_def settled_by_def list_ex_iff settles_def)

end
