(* ===== verification/S3_System.thy ===== *)
theory S3_System
  imports S3_Billing
begin

text \<open>
  Solution 3 as a whole.  The truth about a task is in two places, its command row in Postgres and its hold in
  TigerBeetle, and no transaction spans both.  \<open>s3_step\<close> is one atomic change of the pair by any process: a transfer accepted
  by TigerBeetle, a task admitted under a hold, or a task moved to another status, with the fact about the hold that
  the process has seen before.  The invariant says what the two records agree on in every interleaving.
\<close>

section \<open>Steps of the system\<close>

type_synonym s3sys = "s3db \<times> tb_transfer list"

abbreviation hold_key :: "TaskCommand \<Rightarrow> int" where
  "hold_key c \<equiv> uuid_to_u128 (tc_tb_pending_transfer_id c)"

text \<open>Which status a task may move to, given its row and the record of transfers.\<close>

fun may_become :: "tb_transfer list \<Rightarrow> TaskCommand \<Rightarrow> TaskStatus \<Rightarrow> bool" where
  "may_become h c PENDING = False"
| "may_become h c RUNNING = (tc_status c = PENDING)"
| "may_become h c COMPLETED = posted_in h (hold_key c)"
| "may_become h c FAILED = voided_in h (hold_key c)"
| "may_become h c CANCELLED = True"
| "may_become h c EXPIRED = (\<not> held_in h (hold_key c))"

definition becomes :: "TaskStatus \<Rightarrow> int \<Rightarrow> TaskCommand \<Rightarrow> TaskCommand" where
  "becomes s now c = (set_state s (billing_of s) c)\<lparr>tc_updated_at := now\<rparr>"

inductive s3_step :: "int \<Rightarrow> s3sys \<Rightarrow> s3sys \<Rightarrow> bool" for ledger where
  transfer: "admissible h x \<Longrightarrow> recorded_as x y \<Longrightarrow> labelled ledger x \<Longrightarrow> s3_step ledger (d, h) (d, h @ [y])"
| frame: "task_commands d' = task_commands d \<Longrightarrow> s3_step ledger (d, h) (d', h)"
| admit: "find_command d (tc_task_id c) = None \<Longrightarrow> tc_status c = PENDING \<Longrightarrow> tc_billing_state c = RESERVED \<Longrightarrow>
    held_in h (hold_key c) \<Longrightarrow> (\<forall>e\<in>set (task_commands d). hold_key e \<noteq> hold_key c) \<Longrightarrow>
    task_commands d' = task_commands d @ [c] \<Longrightarrow> s3_step ledger (d, h) (d', h)"
| move: "find_command d t = Some c \<Longrightarrow> active_status (tc_status c) \<Longrightarrow> may_become h c s \<Longrightarrow>
    task_commands d' = update_rows (\<lambda>c. tc_task_id c = t) (becomes s now) (task_commands d) \<Longrightarrow>
    s3_step ledger (d, h) (d', h)"

inductive_cases s3_stepE: "s3_step ledger s s'"

section \<open>The invariant\<close>

definition aligned :: "tb_transfer list \<Rightarrow> TaskCommand \<Rightarrow> bool" where
  "aligned h c \<longleftrightarrow> tc_billing_state c = billing_of (tc_status c) \<and> held_in h (hold_key c) \<and>
     (tc_status c = COMPLETED \<longrightarrow> posted_in h (hold_key c)) \<and>
     (tc_status c = FAILED \<longrightarrow> voided_in h (hold_key c)) \<and> tc_status c \<noteq> EXPIRED"

definition s3_inv :: "int \<Rightarrow> s3sys \<Rightarrow> bool" where
  "s3_inv ledger s \<longleftrightarrow> keyed tc_task_id (task_commands (fst s)) \<and> keyed hold_key (task_commands (fst s)) \<and>
     (\<forall>c\<in>set (task_commands (fst s)). aligned (snd s) c) \<and> book_ok ledger (snd s)"

lemma becomes_fields [simp]:
  "tc_task_id (becomes s now c) = tc_task_id c" "tc_status (becomes s now c) = s"
  "tc_billing_state (becomes s now c) = billing_of s" "tc_user_id (becomes s now c) = tc_user_id c"
  "tc_cost (becomes s now c) = tc_cost c"
  "tc_tb_pending_transfer_id (becomes s now c) = tc_tb_pending_transfer_id c"
  by (simp_all add: becomes_def set_state_def)

lemma aligned_append: "aligned h c \<Longrightarrow> aligned (h @ [y]) c"
  by (auto simp: aligned_def)

lemma find_command_member: "find_command d t = Some c \<Longrightarrow> c \<in> set (task_commands d) \<and> tc_task_id c = t"
  unfolding find_command_def by (rule lookup_row_Some)

lemma step_inv:
  assumes "s3_step ledger s s'" "s3_inv ledger s"
  shows "s3_inv ledger s'"
  using assms(1)
proof cases
  case (transfer h x y d)
  with assms(2) show ?thesis
    using book_ok_append [of ledger h x y] aligned_append [of h _ y] by (auto simp: s3_inv_def)
next
  case (frame d' d h)
  with assms(2) show ?thesis by (simp add: s3_inv_def)
next
  case (admit d c h d')
  have "aligned h c" using admit by (simp add: aligned_def)
  with admit assms(2) show ?thesis
    by (auto simp: s3_inv_def keyed_append find_command_def lookup_row_None)
next
  case (move d t c h st d' now)
  note c = find_command_member [OF move(3)]
  from assms(2) move have al: "aligned h c" and key: "keyed tc_task_id (task_commands d)"
    and all: "\<And>e. e \<in> set (task_commands d) \<Longrightarrow> aligned h e" using c by (auto simp: s3_inv_def)
  have "aligned h (becomes st now c)" using al move(4,5) by (cases st) (auto simp: aligned_def)
  moreover have "e = c" if "e \<in> set (task_commands d)" "tc_task_id e = t" for e
    using lookup_row_member [OF key that(1)] move(3) that(2) by (simp add: find_command_def)
  ultimately have "\<forall>e\<in>set (task_commands d'). aligned h e" using all move(6) by (auto simp: update_rows_def)
  with assms(2) move show ?thesis by (auto simp: s3_inv_def)
qed

lemma s3_run_inv: "(s3_step ledger)\<^sup>*\<^sup>* s s' \<Longrightarrow> s3_inv ledger s \<Longrightarrow> s3_inv ledger s'"
  by (induction rule: rtranclp_induct) (auto intro: step_inv)

section \<open>Facts that last\<close>

text \<open>What a process has seen of a hold or of an ended task stays true whatever the others do.\<close>

lemma step_transfers: "s3_step ledger s s' \<Longrightarrow> \<exists>ys. snd s' = snd s @ ys"
  by (elim s3_stepE) auto

lemma run_transfers: "(s3_step ledger)\<^sup>*\<^sup>* s s' \<Longrightarrow> \<exists>ys. snd s' = snd s @ ys"
proof (induction rule: rtranclp_induct)
  case (step t u)
  then show ?case using step_transfers [of ledger t u] by force
qed simp

lemma settled_by_extend: "settled_by f h k \<Longrightarrow> settled_by f (h @ ys) k"
  by (simp add: settled_by_def)

lemma held_in_extend: "held_in h k \<Longrightarrow> held_in (h @ ys) k"
  by (simp add: held_in_def)

lemma run_settled: "(s3_step ledger)\<^sup>*\<^sup>* s s' \<Longrightarrow> settled_by f (snd s) k \<Longrightarrow> settled_by f (snd s') k"
  using run_transfers settled_by_extend by metis

lemma run_held: "(s3_step ledger)\<^sup>*\<^sup>* s s' \<Longrightarrow> held_in (snd s) k \<Longrightarrow> held_in (snd s') k"
  using run_transfers held_in_extend by metis

text \<open>A task keeps its owner, price and hold, and once ended its whole state.\<close>

definition same_task :: "TaskCommand \<Rightarrow> TaskCommand \<Rightarrow> bool" where
  "same_task c c' \<longleftrightarrow> tc_user_id c' = tc_user_id c \<and> tc_cost c' = tc_cost c \<and>
     tc_tb_pending_transfer_id c' = tc_tb_pending_transfer_id c \<and> (\<not> active_status (tc_status c) \<longrightarrow> c' = c) \<and>
     (tc_status c = RUNNING \<longrightarrow> tc_status c' \<noteq> PENDING)"

lemma same_task_refl [simp]: "same_task c c"
  by (simp add: same_task_def)

lemma same_task_trans: "same_task c c' \<Longrightarrow> same_task c' c'' \<Longrightarrow> same_task c c''"
  unfolding same_task_def by (metis TaskStatus.distinct(1))

lemma step_task:
  assumes "s3_step ledger s s'" "find_command (fst s) t = Some c"
  shows "\<exists>c'. find_command (fst s') t = Some c' \<and> same_task c c'"
  using assms(1)
proof cases
  case (admit d c0 h d')
  with assms(2) show ?thesis by (auto simp: find_command_def lookup_row_append)
next
  case (move d t0 c0 h st d' now)
  have "find_command d' t = (if t = t0 then map_option (becomes st now) (find_command d t) else find_command d t)"
    using move by (simp add: find_command_def lookup_row_update_key)
  with move assms(2) show ?thesis
    by (cases "t = t0") (cases st; auto simp: same_task_def)+
qed (use assms(2) in \<open>auto simp: find_command_def\<close>)

lemma run_task:
  assumes "(s3_step ledger)\<^sup>*\<^sup>* s s'" "find_command (fst s) t = Some c"
  shows "\<exists>c'. find_command (fst s') t = Some c' \<and> same_task c c'"
  using assms
proof (induction rule: rtranclp_induct)
  case (step s1 s2)
  then obtain c1 where "find_command (fst s1) t = Some c1" "same_task c c1" by auto
  then show ?case using step_task [OF step.hyps(2)] same_task_trans by blast
qed auto

end
