(* ===== verification/S3_Moves.thy ===== *)
theory S3_Moves
  imports S3_System
begin

text \<open>
  How the code's operations move the system.  \<open>moves b h P m Q\<close> says that a run of \<open>m\<close> from a state with \<open>P\<close> makes
  steps of \<open>s3_step\<close> only, whatever fails, and that it ends in \<open>Q\<close> when it returns.  One rule per construct, one per call
  of the ledger and one per transaction of the repository; the handlers are composed from these.
\<close>

section \<open>Triples\<close>

definition sys :: "('t \<Rightarrow> tb_transfer list) \<Rightarrow> (s3db, 't s3kv) world \<Rightarrow> s3sys" where
  "sys h w = (pg w, h (tb_state (kv w)))"

definition moves :: "'t TigerBeetleBilling \<Rightarrow> ('t \<Rightarrow> tb_transfer list) \<Rightarrow> (s3sys \<Rightarrow> bool) \<Rightarrow> ('t, 'a) app3 \<Rightarrow>
    ('a \<Rightarrow> s3sys \<Rightarrow> bool) \<Rightarrow> bool" where
  "moves b h P m Q \<longleftrightarrow> (\<forall>w r w'. s3_inv (bl_ledger_id b) (sys h w) \<and> P (sys h w) \<and> m w = (r, w') \<longrightarrow>
     (s3_step (bl_ledger_id b))\<^sup>*\<^sup>* (sys h w) (sys h w') \<and> (\<forall>a. r = Inr a \<longrightarrow> Q a (sys h w')))"

named_theorems moves_rules

lemma movesI:
  assumes "\<And>w r w'. s3_inv (bl_ledger_id b) (sys h w) \<Longrightarrow> P (sys h w) \<Longrightarrow> m w = (r, w') \<Longrightarrow>
    (s3_step (bl_ledger_id b))\<^sup>*\<^sup>* (sys h w) (sys h w') \<and> (\<forall>a. r = Inr a \<longrightarrow> Q a (sys h w'))"
  shows "moves b h P m Q"
  unfolding moves_def using assms by blast

lemma movesD:
  assumes "moves b h P m Q" "s3_inv (bl_ledger_id b) (sys h w)" "P (sys h w)" "m w = (r, w')"
  shows "(s3_step (bl_ledger_id b))\<^sup>*\<^sup>* (sys h w) (sys h w')" "r = Inr a \<Longrightarrow> Q a (sys h w')"
    "s3_inv (bl_ledger_id b) (sys h w')"
proof -
  have both: "(s3_step (bl_ledger_id b))\<^sup>*\<^sup>* (sys h w) (sys h w') \<and> (\<forall>a. r = Inr a \<longrightarrow> Q a (sys h w'))"
    using assms unfolding moves_def by blast
  then show "(s3_step (bl_ledger_id b))\<^sup>*\<^sup>* (sys h w) (sys h w')" "r = Inr a \<Longrightarrow> Q a (sys h w')" by auto
  then show "s3_inv (bl_ledger_id b) (sys h w')" using s3_run_inv assms(2) by blast
qed

lemma moves_weaken:
  assumes "moves b h P m Q" "\<And>s. s3_inv (bl_ledger_id b) s \<Longrightarrow> P' s \<Longrightarrow> P s" "\<And>a s. Q a s \<Longrightarrow> Q' a s"
  shows "moves b h P' m Q'"
  using assms unfolding moves_def by blast

lemma moves_bind:
  assumes "moves b h P m Q" "\<And>a. moves b h (Q a) (f a) Q'"
  shows "moves b h P (bindE m f) Q'"
proof (rule movesI)
  fix w r w'
  assume inv: "s3_inv (bl_ledger_id b) (sys h w)" and P: "P (sys h w)" and run: "bindE m f w = (r, w')"
  from run show "(s3_step (bl_ledger_id b))\<^sup>*\<^sup>* (sys h w) (sys h w') \<and> (\<forall>a. r = Inr a \<longrightarrow> Q' a (sys h w'))"
  proof (cases rule: bindE_cases)
    case (raised e)
    with movesD(1) [OF assms(1) inv P] show ?thesis by blast
  next
    case (ran a w1)
    note 1 = movesD [OF assms(1) inv P ran(1)]
    note 2 = movesD [OF assms(2) 1(3) 1(2) [OF refl] ran(2)]
    from 1(1) 2(1,2) show ?thesis by (auto intro: rtranclp_trans)
  qed
qed

text \<open>A fact that every step keeps may be carried along, also past an exception that is caught.\<close>

definition lasting :: "int \<Rightarrow> (s3sys \<Rightarrow> bool) \<Rightarrow> bool" where
  "lasting ledger F \<longleftrightarrow> (\<forall>s s'. (s3_step ledger)\<^sup>*\<^sup>* s s' \<longrightarrow> F s \<longrightarrow> F s')"

lemma moves_frame:
  assumes "moves b h P m Q" "lasting (bl_ledger_id b) F"
  shows "moves b h (\<lambda>s. P s \<and> F s) m (\<lambda>a s. Q a s \<and> F s)"
  using assms unfolding moves_def lasting_def by blast

lemma moves_attempt:
  assumes "moves b h P m Q" "lasting (bl_ledger_id b) F"
  shows "moves b h (\<lambda>s. P s \<and> F s) (attempt m) (\<lambda>r s. F s \<and> (\<forall>a. r = Inr a \<longrightarrow> Q a s))"
proof (rule movesI)
  fix w r w'
  assume inv: "s3_inv (bl_ledger_id b) (sys h w)" and PF: "P (sys h w) \<and> F (sys h w)" and run: "attempt m w = (r, w')"
  from run have m: "m w = (fst (m w), w')" and r: "r = Inr (fst (m w))" by (auto simp: attempt_def)
  note 1 = movesD [OF assms(1) inv conjunct1 [OF PF] m]
  have "F (sys h w')" using assms(2) 1(1) PF unfolding lasting_def by blast
  moreover have "Q x (sys h w')" if "fst (m w) = Inr x" for x using 1(2) [OF that] .
  ultimately show "(s3_step (bl_ledger_id b))\<^sup>*\<^sup>* (sys h w) (sys h w') \<and>
      (\<forall>a. r = Inr a \<longrightarrow> F (sys h w') \<and> (\<forall>x. a = Inr x \<longrightarrow> Q x (sys h w')))"
    using 1(1) r by simp
qed

lemma lasting_True: "lasting ledger (\<lambda>_. True)"
  by (simp add: lasting_def)

section \<open>Actions that leave the system alone\<close>

definition quiet :: "('t \<Rightarrow> tb_transfer list) \<Rightarrow> ('t, 'a) app3 \<Rightarrow> bool" where
  "quiet h m \<longleftrightarrow> (\<forall>w. sys h (snd (m w)) = sys h w)"

lemma moves_quiet: "quiet h m \<Longrightarrow> moves b h P m (\<lambda>_. P)"
  unfolding quiet_def moves_def by (metis rtranclp.rtrancl_refl snd_conv)

named_theorems quiet_rules

lemma quiet_pure [quiet_rules]:
  "quiet h (returnM a)" "quiet h (raiseM c s)" "quiet h (liftE r)" "quiet h get_clock" "quiet h (sleepM n)"
  "quiet h (sleep_seconds r')" "quiet h fresh_uuid"
  by (auto simp: quiet_def sys_def returnM_def raiseM_def liftE_def get_clock_def sleepM_def sleep_seconds_def
      fresh_uuid_def split: list.split)

lemma quiet_sql_read [quiet_rules]: "quiet h (sql_read g)"
  by (simp add: quiet_def sys_def sql_read_frame)

lemma quiet_redis [quiet_rules]: "quiet h (redis_call f)"
  unfolding quiet_def sys_def using redis_call_tb keeps_pg [of "redis_call f"] keeps_redis_call by metis

lemma quiet_broker [quiet_rules]: "quiet h (broker_call f)" "quiet h (memory g)"
  unfolding quiet_def sys_def using broker_tb keeps_pg [of "broker_call f"] keeps_pg [of "memory g"] keeps_broker by metis+

lemma quiet_broker_read [quiet_rules]: "quiet h (broker_read f)"
  unfolding quiet_def sys_def using broker_read_tb keeps_pg [of "broker_read f"] keeps_broker_read by metis

lemma quiet_bind [quiet_rules]: "quiet h m \<Longrightarrow> (\<And>a. quiet h (f a)) \<Longrightarrow> quiet h (bindE m f)"
  by (auto simp: quiet_def bindE_def split: prod.split sum.split) (metis snd_conv)+

lemma quiet_attempt [quiet_rules]: "quiet h m \<Longrightarrow> quiet h (attempt m)"
  by (simp add: quiet_def attempt_def)

lemma quiet_if [quiet_rules]: "(c \<Longrightarrow> quiet h m) \<Longrightarrow> (\<not> c \<Longrightarrow> quiet h n) \<Longrightarrow> quiet h (if c then m else n)"
  by simp

lemma quiet_option [quiet_rules]:
  "(x = None \<Longrightarrow> quiet h m) \<Longrightarrow> (\<And>a. x = Some a \<Longrightarrow> quiet h (f a)) \<Longrightarrow> quiet h (case x of None \<Rightarrow> m | Some a \<Rightarrow> f a)"
  by (cases x) auto

lemma quiet_sum [quiet_rules]:
  "(\<And>e. x = Inl e \<Longrightarrow> quiet h (f e)) \<Longrightarrow> (\<And>a. x = Inr a \<Longrightarrow> quiet h (g a)) \<Longrightarrow>
   quiet h (case x of Inl e \<Rightarrow> f e | Inr a \<Rightarrow> g a)"
  by (cases x) auto

lemma quiet_Let [quiet_rules]: "quiet h (f x) \<Longrightarrow> quiet h (let y = x in f y)"
  by simp

lemma moves_if:
  "(c \<Longrightarrow> moves b h P m Q) \<Longrightarrow> (\<not> c \<Longrightarrow> moves b h P n Q) \<Longrightarrow> moves b h P (if c then m else n) Q"
  by simp

lemma moves_option:
  "(x = None \<Longrightarrow> moves b h P m Q) \<Longrightarrow> (\<And>a. x = Some a \<Longrightarrow> moves b h P (f a) Q) \<Longrightarrow>
   moves b h P (case x of None \<Rightarrow> m | Some a \<Rightarrow> f a) Q"
  by (cases x) auto

lemma moves_sum:
  "(\<And>e. x = Inl e \<Longrightarrow> moves b h P (f e) Q) \<Longrightarrow> (\<And>a. x = Inr a \<Longrightarrow> moves b h P (g a) Q) \<Longrightarrow>
   moves b h P (case x of Inl e \<Rightarrow> f e | Inr a \<Rightarrow> g a) Q"
  by (cases x) auto

lemma moves_stay: "quiet h m \<Longrightarrow> moves b h P m (\<lambda>_ _. True)"
  by (rule moves_weaken [OF moves_quiet [where P = P]]) auto

section \<open>The ledger\<close>

text \<open>One transfer sent to TigerBeetle: refused, or one step of the system, or both answer and effect unknown to the caller.\<close>

lemma remote_tb:
  fixes f :: "int \<Rightarrow> 't \<Rightarrow> 'a \<times> 't" and w :: "(s3db, 't s3kv) world"
  assumes "tb_call f w = (r, w')"
  obtains (undone) e where "r = Inl e" "pg w' = pg w" "tb_state (kv w') = tb_state (kv w)" "clock w' = clock w"
    | (ran) a where "f (clock w) (tb_state (kv w)) = (a, tb_state (kv w'))" "pg w' = pg w"
      "r = Inr a \<or> (\<exists>e. r = Inl e)" "clock w' = clock w"
proof -
  define g :: "int \<Rightarrow> 't s3kv \<Rightarrow> exn + 'a \<times> 't s3kv" where
    "g = (\<lambda>now k. case f now (tb_state k) of (a, t) \<Rightarrow> Inr (a, k\<lparr>tb_state := t\<rparr>))"
  have call: "remote g w = (r, w')" using assms by (simp add: tb_call_def g_def)
  then have pg: "pg w' = pg w" using remote_pg [of g w] by simp
  from call show thesis
  proof (cases rule: remote_cases)
    case (undone e)
    then show ?thesis using pg by (intro that(1) [of e]) simp_all
  next
    case (ran a)
    then obtain t where "f (clock w) (tb_state (kv w)) = (a, t)" "kv w' = (kv w)\<lparr>tb_state := t\<rparr>"
      by (auto simp: g_def split: prod.splits)
    then show ?thesis using pg ran by (intro that(2) [of a]) simp_all
  qed
qed

lemma send_transfer:
  assumes hist: "tb_history (bl_client b) h" and lab: "labelled (bl_ledger_id b) x"
    and run: "tb_call (\<lambda>now. create_transfers (bl_client b) now [x]) w = (r, w')"
  shows "(s3_step (bl_ledger_id b))\<^sup>*\<^sup>* (sys h w) (sys h w') \<and>
    (r = Inr [] \<longrightarrow> admissible (h (tb_state (kv w))) x \<and>
       (\<exists>y. recorded_as x y \<and> sys h w' = (pg w, h (tb_state (kv w)) @ [y]))) \<and>
    (\<forall>e es. r = Inr (e # es) \<longrightarrow> sys h w' = sys h w)"
  using run
proof (cases rule: remote_tb)
  case (undone e)
  then show ?thesis by (simp add: sys_def)
next
  case (ran es)
  show ?thesis
  proof (cases "es = []")
    case True
    with hist ran(1) have "admissible (h (tb_state (kv w))) x \<and>
        (\<exists>y. recorded_as x y \<and> h (tb_state (kv w')) = h (tb_state (kv w)) @ [y])"
      unfolding tb_history_def by metis
    then obtain y where y: "admissible (h (tb_state (kv w))) x" "recorded_as x y"
        "h (tb_state (kv w')) = h (tb_state (kv w)) @ [y]" by blast
    have "s3_step (bl_ledger_id b) (sys h w) (sys h w')"
      unfolding sys_def y(3) ran(2) by (rule s3_step.transfer [OF y(1,2) lab])
    with y ran True show ?thesis by (auto simp: sys_def)
  next
    case False
    with hist ran(1) have "h (tb_state (kv w')) = h (tb_state (kv w))" unfolding tb_history_def by metis
    with ran False show ?thesis by (auto simp: sys_def)
  qed
qed

lemma labelled_transfers:
  "labelled (bl_ledger_id b) (topup_transfer b u t n)" "labelled (bl_ledger_id b) (hold_transfer b u t n)"
  "f = POST_PENDING_TRANSFER \<or> f = VOID_PENDING_TRANSFER \<Longrightarrow> labelled (bl_ledger_id b) (settle_transfer b f i t)"
  by (auto simp: labelled_def topup_transfer_def hold_transfer_def settle_transfer_def settles_def has_flag_def)

text \<open>An accepted hold is new: no task was admitted under it.\<close>

definition unused_hold :: "uuid \<Rightarrow> s3sys \<Rightarrow> bool" where
  "unused_hold t s \<longleftrightarrow> held_in (snd s) (uuid_to_u128 t) \<and>
     (\<forall>c\<in>set (task_commands (fst s)). hold_key c \<noteq> uuid_to_u128 t)"

lemma moves_reserve:
  assumes "tb_history (bl_client b) h"
  shows "moves b h (\<lambda>_. True) (reserve_credits b u t n) (\<lambda>a s. a = ACCEPTED \<longrightarrow> unused_hold t s)"
proof (rule movesI)
  fix w r w'
  assume inv: "s3_inv (bl_ledger_id b) (sys h w)" and run: "reserve_credits b u t n w = (r, w')"
  let ?x = "hold_transfer b u t n"
  obtain q w1 where call: "tb_call (\<lambda>now. create_transfers (bl_client b) now [?x]) w = (q, w1)" by fastforce
  note sent = send_transfer [OF assms labelled_transfers(2) call]
  from run call have w1: "w' = w1" and r: "r = Inr a \<Longrightarrow> a = ACCEPTED \<longrightarrow> q = Inr []" for a
    by (auto simp: reserve_credits_def bindE_def returnM_def split: sum.splits list.splits if_splits)
  have "unused_hold t (sys h w')" if "q = Inr []"
  proof -
    from sent that obtain y where y: "admissible (h (tb_state (kv w))) ?x" "recorded_as ?x y"
      "sys h w' = (pg w, h (tb_state (kv w)) @ [y])" using w1 by auto
    have id: "has_flag PENDING_TRANSFER y" "tr_id y = uuid_to_u128 t"
      using y(2) by (simp_all add: recorded_as_def hold_transfer_def has_flag_def)
    have "\<not> held_in (h (tb_state (kv w))) (uuid_to_u128 t)"
      using y(1) by (auto simp: admissible_def hold_transfer_def held_in_def list_ex_iff)
    moreover have "held_in (h (tb_state (kv w))) (hold_key c)" if "c \<in> set (task_commands (pg w))" for c
      using inv that by (auto simp: s3_inv_def sys_def aligned_def)
    ultimately have "hold_key c \<noteq> uuid_to_u128 t" if "c \<in> set (task_commands (pg w))" for c
      using that by metis
    with id y(3) show ?thesis by (simp add: unused_hold_def)
  qed
  with sent w1 r show "(s3_step (bl_ledger_id b))\<^sup>*\<^sup>* (sys h w) (sys h w') \<and>
      (\<forall>a. r = Inr a \<longrightarrow> a = ACCEPTED \<longrightarrow> unused_hold t (sys h w'))" by blast
qed

lemma moves_send:
  assumes hist: "tb_history (bl_client b) h" and lab: "labelled (bl_ledger_id b) x"
    and post: "\<And>s y. admissible (snd s) x \<Longrightarrow> recorded_as x y \<Longrightarrow> P s \<Longrightarrow> Q (fst s, snd s @ [y])"
  shows "moves b h P (tb_call (\<lambda>now. create_transfers (bl_client b) now [x])) (\<lambda>es s. if es = [] then Q s else P s)"
proof (rule movesI)
  fix w r w'
  assume P: "P (sys h w)" and run: "tb_call (\<lambda>now. create_transfers (bl_client b) now [x]) w = (r, w')"
  note sent = send_transfer [OF hist lab run]
  have "if es = [] then Q (sys h w') else P (sys h w')" if r: "r = Inr es" for es
  proof (cases es)
    case Nil
    with sent r obtain y where "admissible (h (tb_state (kv w))) x" "recorded_as x y"
      "sys h w' = (pg w, h (tb_state (kv w)) @ [y])" by auto
    with post [of "sys h w" y] P Nil show ?thesis by (simp add: sys_def)
  next
    case (Cons e es')
    with sent r P show ?thesis by simp
  qed
  with sent show "(s3_step (bl_ledger_id b))\<^sup>*\<^sup>* (sys h w) (sys h w') \<and>
      (\<forall>es. r = Inr es \<longrightarrow> (if es = [] then Q (sys h w') else P (sys h w')))" by blast
qed

lemma moves_returnM: "(\<And>s. P s \<Longrightarrow> Q a s) \<Longrightarrow> moves b h P (returnM a) Q"
  by (auto simp: moves_def returnM_def)

lemma moves_settle:
  assumes "tb_history (bl_client b) h" and f: "f = POST_PENDING_TRANSFER \<or> f = VOID_PENDING_TRANSFER"
  shows "moves b h P (bindE fresh_uuid (\<lambda>i. bindE (tb_call (\<lambda>now. create_transfers (bl_client b) now
      [settle_transfer b f i t])) (\<lambda>errors. returnM (errors = [])))) (\<lambda>a s. a \<longrightarrow> settled_by f (snd s) (uuid_to_u128 t))"
proof (rule moves_bind [where Q = "\<lambda>_ _. True"])
  show "moves b h P fresh_uuid (\<lambda>_ _. True)" by (rule moves_stay) (rule quiet_rules)
  fix i
  show "moves b h (\<lambda>_. True) (bindE (tb_call (\<lambda>now. create_transfers (bl_client b) now [settle_transfer b f i t]))
      (\<lambda>errors. returnM (errors = []))) (\<lambda>a s. a \<longrightarrow> settled_by f (snd s) (uuid_to_u128 t))"
  proof (rule moves_bind [OF moves_send [OF assms(1) labelled_transfers(3) [OF f]]])
    show "settled_by f (snd (fst s, snd s @ [y])) (uuid_to_u128 t)" if "recorded_as (settle_transfer b f i t) y" for s y
      using that by (simp add: recorded_as_def settle_transfer_def has_flag_def)
  next
    fix es
    show "moves b h (\<lambda>s. if es = [] then settled_by f (snd s) (uuid_to_u128 t) else True) (returnM (es = []))
        (\<lambda>a s. a \<longrightarrow> settled_by f (snd s) (uuid_to_u128 t))" by (rule moves_returnM) auto
  qed
qed

lemma moves_post:
  "tb_history (bl_client b) h \<Longrightarrow>
   moves b h P (post_pending_transfer b t) (\<lambda>a s. a \<longrightarrow> posted_in (snd s) (uuid_to_u128 t))"
  unfolding post_pending_transfer_def by (rule moves_settle) auto

lemma moves_void:
  "tb_history (bl_client b) h \<Longrightarrow>
   moves b h P (void_pending_transfer b t) (\<lambda>a s. a \<longrightarrow> voided_in (snd s) (uuid_to_u128 t))"
  unfolding void_pending_transfer_def by (rule moves_settle) auto

lemma moves_topup:
  assumes "tb_history (bl_client b) h"
  shows "moves b h P (topup_credits b u t n) (\<lambda>_ _. True)"
  unfolding topup_credits_def
  by (rule moves_bind [OF moves_send [OF assms labelled_transfers(1), where Q = "\<lambda>_. True"]])
    (auto intro: moves_returnM)

lemma quiet_tb_read: "quiet h (tb_call (\<lambda>now t. (g now t, t)))"
proof -
  have "sys h w' = sys h w" if "tb_call (\<lambda>now t. (g now t, t)) w = (r, w')" for w w' :: "(s3db, 'a s3kv) world" and r
    using that by (cases rule: remote_tb) (auto simp: sys_def)
  then show ?thesis unfolding quiet_def by (metis prod.collapse)
qed

lemma quiet_balance [quiet_rules]: "quiet h (get_balance b u)"
  unfolding get_balance_def by (intro quiet_rules quiet_tb_read)

lemma quiet_create_accounts:
  assumes "tb_history (bl_client b) h"
  shows "quiet h (tb_call (\<lambda>_. create_accounts (bl_client b) as))"
proof -
  have same: "h (snd (create_accounts (bl_client b) as t)) = h t" for t
    using assms by (simp add: tb_history_def)
  have "sys h w' = sys h w" if "tb_call (\<lambda>_. create_accounts (bl_client b) as) w = (r, w')" for w w' and r
    using that
  proof (cases rule: remote_tb)
    case (ran a)
    with same [of "tb_state (kv w)"] show ?thesis by (simp add: sys_def)
  qed (simp add: sys_def)
  then show ?thesis unfolding quiet_def by (metis prod.collapse)
qed

lemma moves_ensure_user_account:
  assumes "tb_history (bl_client b) h"
  shows "moves b h P (ensure_user_account b u n) (\<lambda>_ _. True)"
  unfolding ensure_user_account_def
  by (rule moves_bind [OF moves_stay [OF quiet_create_accounts [OF assms]]])
    (intro moves_if moves_stay quiet_rules moves_bind [OF moves_stay [OF quiet_balance]] moves_bind [OF moves_topup [OF assms]])

text \<open>The state reported for a hold is the state of the record, as long as the hold exists or its id is not 0.\<close>

lemma moves_hold_state:
  assumes hist: "tb_history (bl_client b) h" and P: "\<And>s. P s \<Longrightarrow> s3_inv (bl_ledger_id b) s \<Longrightarrow> uuid_to_u128 t \<noteq> 0"
  shows "moves b h P (get_pending_transfer_state b t) (\<lambda>a s. P s \<and> a = hold_state (snd s) (uuid_to_u128 t))"
proof (rule movesI)
  fix w r w'
  let ?k = "uuid_to_u128 t"
  assume inv: "s3_inv (bl_ledger_id b) (sys h w)" and Pw: "P (sys h w)"
    and run: "get_pending_transfer_state b t w = (r, w')"
  have k: "?k \<noteq> 0" using P [OF Pw inv] .
  have ok: "book_ok (bl_ledger_id b) (h (tb_state (kv w)))" using inv by (simp add: s3_inv_def sys_def)
  have q: "query_transfers (bl_client b) \<lparr>qf_user_data_128 = ?k, qf_ledger = bl_ledger_id b, qf_limit = 16\<rparr> (tb_state (kv w)) =
      filter (\<lambda>x. tr_user_data_128 x = ?k \<and> tr_ledger x = bl_ledger_id b) (h (tb_state (kv w)))"
    using hist k book_few [OF ok k] by (simp add: tb_history_def)
  obtain a w1 where call: "tb_call (\<lambda>_ t. (query_transfers (bl_client b)
       \<lparr>qf_user_data_128 = ?k, qf_ledger = bl_ledger_id b, qf_limit = 16\<rparr> t, t)) w = (a, w1)" by fastforce
  have ww: "w1 = w'" and r: "r = Inr x \<Longrightarrow> \<exists>xs. a = Inr xs \<and> x = state_of_transfers ?k xs" for x
    using run call by (auto simp: get_pending_transfer_state_def Let_def bindE_def returnM_def split: sum.splits)
  have same: "sys h w' = sys h w"
    using call ww by (cases rule: remote_tb) (auto simp: sys_def)
  have "x = hold_state (h (tb_state (kv w))) ?k" if "r = Inr x" for x
  proof -
    from r [OF that] obtain xs where xs: "a = Inr xs" "x = state_of_transfers ?k xs" by blast
    from call have "xs = query_transfers (bl_client b)
       \<lparr>qf_user_data_128 = ?k, qf_ledger = bl_ledger_id b, qf_limit = 16\<rparr> (tb_state (kv w))"
      using xs(1) by (cases rule: remote_tb) auto
    with q xs(2) state_of_transfers_book [OF ok] show ?thesis by simp
  qed
  with same Pw show "(s3_step (bl_ledger_id b))\<^sup>*\<^sup>* (sys h w) (sys h w') \<and>
      (\<forall>a. r = Inr a \<longrightarrow> P (sys h w') \<and> a = hold_state (snd (sys h w')) ?k)" by (simp add: sys_def)
qed

section \<open>The transactions of the repository\<close>

definition db_only :: "('d, 'k, 'a) io \<Rightarrow> bool" where
  "db_only m \<longleftrightarrow> (\<forall>w. kv (snd (m w)) = kv w)"

named_theorems db_rules

lemma db_only_rules [db_rules]:
  "db_only (returnM a)" "db_only (raiseM c s)" "db_only (liftE r)" "db_only fresh_uuid" "db_only (sql f)" "db_only (sql_read g)"
  by (auto simp: db_only_def returnM_def raiseM_def liftE_def fresh_uuid_def sql_kv sql_read_frame split: list.split)

lemma db_only_bind [db_rules]: "db_only m \<Longrightarrow> (\<And>a. db_only (f a)) \<Longrightarrow> db_only (bindE m f)"
  by (auto simp: db_only_def bindE_def split: prod.split sum.split) (metis snd_conv)+

lemma db_only_option [db_rules]:
  "db_only m \<Longrightarrow> (\<And>a. db_only (f a)) \<Longrightarrow> db_only (case x of None \<Rightarrow> m | Some a \<Rightarrow> f a)"
  by (cases x) auto

lemma db_only_if [db_rules]: "db_only m \<Longrightarrow> db_only n \<Longrightarrow> db_only (if c then m else n)"
  by simp

lemma db_only_transaction [db_rules]: "db_only m \<Longrightarrow> db_only (transaction m)"
  by (auto simp: db_only_def transaction_def split: prod.split sum.split list.split fault.split) (metis snd_conv)+

lemma db_only_acquire [db_rules]: "db_only m \<Longrightarrow> db_only (acquire m)"
  by (auto simp: db_only_def acquire_def ext_def bindE_def returnM_def split: list.split fault.split)

lemma db_only_run: "db_only m \<Longrightarrow> m w = (r, w') \<Longrightarrow> kv w' = kv w"
  unfolding db_only_def by (metis snd_conv)

lemma db_only_insert_outbox [db_rules]: "db_only (insert_outbox a e t p)"
  unfolding insert_outbox_def by (intro db_rules)

lemma keeps_commands [keeps_rules]:
  "keeps (\<lambda>d. task_commands d = X) (insert_outbox a e topic p)"
  "keeps (\<lambda>d. task_commands d = X) (update_view t g)"
  "keeps (\<lambda>d. task_commands d = X) (insert_reconcile_job t u res)"
  "keeps (\<lambda>d. task_commands d = X) (mark_outbox_events_published es)"
  by (auto simp: insert_outbox_def update_view_def insert_reconcile_job_def mark_outbox_events_published_def
      intro!: keeps_rules keeps_sql split: if_splits)

lemma db_only_statements [db_rules]:
  "db_only (update_view t g)" "db_only (insert_reconcile_job t u res)" "db_only (update_command t P f)"
  by (simp_all add: update_view_def insert_reconcile_job_def update_command_def db_rules)

lemma update_rows_cong:
  "(\<And>r. r \<in> set t \<Longrightarrow> P r \<Longrightarrow> f r = g r) \<Longrightarrow> update_rows P f t = update_rows P g t"
  by (simp add: update_rows_def)

lemma update_command_cases:
  assumes "update_command t G f w = (Inr u, w1)"
  obtains (missed) "u = None" "pg w1 = pg w"
    | (hit) c where "find_command (pg w) t = Some c" "G (clock w) c" "u = Some ((f c)\<lparr>tc_updated_at := clock w\<rparr>)"
      "task_commands (pg w1) = update_rows (\<lambda>c. tc_task_id c = t) (\<lambda>c. (f c)\<lparr>tc_updated_at := clock w\<rparr>) (task_commands (pg w))"
proof -
  from assms have "(Inr (u, pg w1) :: exn + TaskCommand option \<times> s3db) = (case find_command (pg w) t of
      None \<Rightarrow> Inr (None, pg w)
    | Some c \<Rightarrow> if \<not> G (clock w) c then Inr (None, pg w) else
        let g = (\<lambda>c. (f c)\<lparr>tc_updated_at := clock w\<rparr>)
        in Inr (Some (g c), (pg w)\<lparr>task_commands := update_rows (\<lambda>c. tc_task_id c = t) g (task_commands (pg w))\<rparr>))"
    unfolding update_command_def by (rule sql_okE)
  then show thesis using missed hit by (auto simp: Let_def split: option.splits if_splits)
qed

lemma moves_update:
  assumes guard: "\<And>d hh c now. P (d, hh) \<Longrightarrow> s3_inv (bl_ledger_id b) (d, hh) \<Longrightarrow> find_command d t = Some c \<Longrightarrow> G now c \<Longrightarrow>
      active_status (tc_status c) \<and> may_become hh c s \<and> (f c)\<lparr>tc_updated_at := now\<rparr> = becomes s now c"
    and rest: "\<And>c X. keeps (\<lambda>d. task_commands d = X) (rest c)" "\<And>c. db_only (rest c)"
  shows "moves b h P (acquire (transaction (bindE (update_command t G f) (\<lambda>u. case u of
      None \<Rightarrow> returnM x | Some c \<Rightarrow> rest c)))) (\<lambda>_ _. True)"
proof (rule movesI)
  let ?m = "bindE (update_command t G f) (\<lambda>u. case u of None \<Rightarrow> returnM x | Some c \<Rightarrow> rest c)"
  let ?L = "bl_ledger_id b"
  fix w r w'
  assume inv: "s3_inv ?L (sys h w)" and Pw: "P (sys h w)" and run: "acquire (transaction ?m) w = (r, w')"
  have "db_only (acquire (transaction ?m))" using rest(2) by (intro db_rules)
  then have kv: "kv w' = kv w" using run by (rule db_only_run)
  from run have "(s3_step ?L)\<^sup>*\<^sup>* (sys h w) (sys h w')"
  proof (cases rule: in_transaction)
    case (undone e)
    with kv show ?thesis by (simp add: sys_def)
  next
    case (ran a fs w1)
    from ran(1) obtain u wm where u: "update_command t G f (w\<lparr>faults := fs\<rparr>) = (Inr u, wm)"
      and then_run: "(case u of None \<Rightarrow> returnM x | Some c \<Rightarrow> rest c) wm = (Inr a, w1)" by (auto simp: bindE_ok)
    from u show ?thesis
    proof (cases rule: update_command_cases)
      case missed
      with then_run ran kv show ?thesis by (simp add: sys_def)
    next
      case (hit c)
      have "task_commands (pg w1) = task_commands (pg wm)"
        using keepsD [OF rest(1) [where X = "task_commands (pg wm)" and c = "(f c)\<lparr>tc_updated_at := clock w\<rparr>"], of wm] then_run hit(3) by simp
      then have upd: "task_commands (pg w') = update_rows (\<lambda>c. tc_task_id c = t)
          (\<lambda>c. (f c)\<lparr>tc_updated_at := clock w\<rparr>) (task_commands (pg w))" using hit(4) ran(2) by simp
      have c: "find_command (pg w) t = Some c" "G (clock w) c" using hit(1,2) by simp_all
      from guard [OF Pw [unfolded sys_def] inv [unfolded sys_def] c]
      have g: "active_status (tc_status c)" "may_become (h (tb_state (kv w))) c s"
        "(f c)\<lparr>tc_updated_at := clock w\<rparr> = becomes s (clock w) c" by simp_all
      have "keyed tc_task_id (task_commands (pg w))" using inv by (simp add: s3_inv_def sys_def)
      then have "e = c" if "e \<in> set (task_commands (pg w))" "tc_task_id e = t" for e
        using lookup_row_member [of tc_task_id "task_commands (pg w)" e] that c(1) by (simp add: find_command_def)
      then have "task_commands (pg w') = update_rows (\<lambda>c. tc_task_id c = t) (becomes s (clock w)) (task_commands (pg w))"
        unfolding upd using g(3) by (intro update_rows_cong) metis
      then have "s3_step ?L (sys h w) (sys h w')"
        unfolding sys_def kv by (rule s3_step.move [OF c(1) g(1,2)])
      then show ?thesis by blast
    qed
  qed
  then show "(s3_step ?L)\<^sup>*\<^sup>* (sys h w) (sys h w') \<and> (\<forall>a. r = Inr a \<longrightarrow> True)" by simp
qed

text \<open>A transaction that leaves the command table alone is a step of the frame.\<close>

lemma moves_db_frame:
  fixes m :: "('t, 'a) app3"
  assumes "\<And>X. keeps (\<lambda>d. task_commands d = X) m" "db_only m"
  shows "moves b h P m (\<lambda>_ _. True)"
proof (rule movesI)
  fix w w' :: "(s3db, 't s3kv) world" and r
  assume run: "m w = (r, w')"
  have "task_commands (pg w') = task_commands (pg w)"
    using keepsD [OF assms(1) [of "task_commands (pg w)"], of w] run by simp
  moreover have "kv w' = kv w" using assms(2) run by (rule db_only_run)
  ultimately have "s3_step (bl_ledger_id b) (sys h w) (sys h w')"
    unfolding sys_def by (simp add: s3_step.frame)
  then show "(s3_step (bl_ledger_id b))\<^sup>*\<^sup>* (sys h w) (sys h w') \<and> (\<forall>a. r = Inr a \<longrightarrow> True)" by blast
qed

section \<open>Facts about a task that last\<close>

text \<open>What a message or a list of stale rows says of a task: it exists, under this hold.\<close>

definition describes :: "TaskCommand \<Rightarrow> s3sys \<Rightarrow> bool" where
  "describes task s \<longleftrightarrow> (\<exists>c. find_command (fst s) (tc_task_id task) = Some c \<and> hold_key c = hold_key task)"

lemma lasting_describes: "lasting ledger (describes task)"
  unfolding lasting_def
proof (intro allI impI)
  fix s s'
  assume run: "(s3_step ledger)\<^sup>*\<^sup>* s s'" and "describes task s"
  then obtain c where c: "find_command (fst s) (tc_task_id task) = Some c" "hold_key c = hold_key task"
    by (auto simp: describes_def)
  obtain c' where "find_command (fst s') (tc_task_id task) = Some c'" "same_task c c'" using run_task [OF run c(1)] by blast
  with c(2) show "describes task s'" by (simp add: describes_def same_task_def)
qed

lemma lasting_settled: "lasting ledger (\<lambda>s. settled_by f (snd s) k)"
  unfolding lasting_def using run_settled by blast

lemma lasting_conj: "lasting ledger F \<Longrightarrow> lasting ledger G \<Longrightarrow> lasting ledger (\<lambda>s. F s \<and> G s)"
  by (simp add: lasting_def)

lemma lasting_all: "(\<And>x. x \<in> A \<Longrightarrow> lasting ledger (F x)) \<Longrightarrow> lasting ledger (\<lambda>s. \<forall>x\<in>A. F x s)"
  unfolding lasting_def by blast

lemma becomes_set_state: "(set_state s (billing_of s) c)\<lparr>tc_updated_at := now\<rparr> = becomes s now c"
  by (simp add: becomes_def)

lemma moves_cancel: "moves b h P (cancel_task_command t) (\<lambda>_ _. True)"
  unfolding cancel_task_command_def
proof (rule moves_update [where s = CANCELLED])
  show "active_status (tc_status c) \<and> may_become hh c CANCELLED \<and>
      (set_state CANCELLED RELEASED c)\<lparr>tc_updated_at := now\<rparr> = becomes CANCELLED now c"
    if "active_status (tc_status c)" for hh c now
    using that by (simp add: becomes_def)
qed (intro keeps_rules db_rules)+

lemma moves_running: "moves b h P (update_task_running t) (\<lambda>_ _. True)"
  unfolding update_task_running_def
proof (rule moves_update [where s = RUNNING])
  fix d hh c now
  assume inv: "s3_inv (bl_ledger_id b) (d, hh)" and c: "find_command d t = Some c" "tc_status c = PENDING"
  then have "tc_billing_state c = RESERVED"
    using find_command_member [OF c(1)] by (auto simp: s3_inv_def aligned_def)
  with c(2) show "active_status (tc_status c) \<and> may_become hh c RUNNING \<and>
      (c\<lparr>tc_status := RUNNING\<rparr>)\<lparr>tc_updated_at := now\<rparr> = becomes RUNNING now c"
    by (simp add: becomes_def set_state_def)
qed (intro keeps_rules db_rules)+

text \<open>A worker's verdict on a task, and the settlement that must precede it.\<close>

definition settled_as :: "TaskStatus \<Rightarrow> uuid \<Rightarrow> s3sys \<Rightarrow> bool" where
  "settled_as st t s \<longleftrightarrow> (st = COMPLETED \<and> posted_in (snd s) (uuid_to_u128 t)) \<or>
     (st = FAILED \<and> voided_in (snd s) (uuid_to_u128 t))"

lemma moves_finalize:
  "moves b h (\<lambda>s. describes task s \<and> settled_as st (tc_tb_pending_transfer_id task) s)
     (finalize_task_command (tc_task_id task) u st (billing_of st) cost res err) (\<lambda>_ _. True)"
  unfolding finalize_task_command_def Let_def
proof (rule moves_update [where s = st])
  show "active_status (tc_status c) \<and> may_become hh c st \<and>
      (set_state st (billing_of st) c)\<lparr>tc_updated_at := now\<rparr> = becomes st now c"
    if "describes task (d, hh) \<and> settled_as st (tc_tb_pending_transfer_id task) (d, hh)"
      "find_command d (tc_task_id task) = Some c" "active_status (tc_status c)" for d hh c now
    using that by (auto simp: describes_def settled_as_def becomes_def)
qed (intro keeps_rules db_rules)+

end
