(* ===== verification/S3_Api.thy ===== *)
theory S3_Api
  imports S3_Moves Urls
begin

text \<open>
  Solution 3, \<open>api/task_write_routes.py\<close>, \<open>api/admin_routes.py\<close> and \<open>services/webhook_security.py\<close>: submission
  reserves credits in TigerBeetle before it writes the task, cancellation writes the task before it voids the hold, and an
  administrator tops up an account.
\<close>

section \<open>Requests, replies and the runtime\<close>

datatype reply = JSONResponse int json

definition api_error_response :: "int \<Rightarrow> string \<Rightarrow> string \<Rightarrow> reply" where
  "api_error_response status_code code message = JSONResponse status_code
     (JObj [(''error'', JObj [(''code'', JStr code), (''message'', JStr message)])])"

definition require_scopes :: "AuthUser \<Rightarrow> string list \<Rightarrow> ('t, unit) app3" where
  "require_scopes current_user required_scopes =
     (case filter (\<lambda>s. \<not> List.member (au_scopes current_user) s) required_scopes of
        [] \<Rightarrow> returnM ()
      | missing # _ \<Rightarrow> raiseM (HTTPException 403) (''Missing required scope: '' @ missing))"

record AppSettings =
  st_app_env :: string
  st_task_cost :: int
  st_max_concurrent_free :: int
  st_max_concurrent_pro :: int
  st_max_concurrent_enterprise :: int
  st_task_result_ttl_seconds :: int

text \<open>
  A client that is not connected is \<open>None\<close>; for the two stores the flag says whether it is there.  \<open>rt_show_time\<close> is the text
  form that the library gives a time in an answer, a parameter.
\<close>

record 't RuntimeState =
  rt_settings :: AppSettings
  rt_db_pool :: bool
  rt_redis_client :: bool
  rt_billing_client :: "'t TigerBeetleBilling option"
  rt_show_time :: "int \<Rightarrow> string"

record SubmitTaskRequest =
  sq_x :: int
  sq_y :: int
  sq_mode :: RequestMode
  sq_model_class :: ModelClass
  sq_callback_url :: "string option"

definition max_concurrent :: "SubscriptionTier \<Rightarrow> AppSettings \<Rightarrow> int" where
  "max_concurrent tier settings = (if tier = FREE then st_max_concurrent_free settings
     else if tier = PRO then st_max_concurrent_pro settings else st_max_concurrent_enterprise settings)"

section \<open>Callback URLs\<close>

definition DEV_ALLOWED_HOSTS :: "string list" where
  "DEV_ALLOWED_HOSTS = [''host.docker.internal'', ''gateway.docker.internal'']"

definition BLOCKED_HOSTS :: "string list" where
  "BLOCKED_HOSTS = [''localhost'', ''localhost.localdomain'']"

definition DEV_LIKE_ENVS :: "string list" where
  "DEV_LIKE_ENVS = [''dev'', ''test'']"

definition is_dev_allowed_host :: "string \<Rightarrow> string \<Rightarrow> bool" where
  "is_dev_allowed_host hostname app_env \<longleftrightarrow> List.member DEV_ALLOWED_HOSTS hostname \<and>
     List.member DEV_LIKE_ENVS (lower (strip app_env))"

text \<open>The classes of \<open>ipaddress\<close> for an IPv4 address; \<open>ip6\<close> says whether a text is an IPv6 address, and a blocked one.\<close>

fun is_blocked_ip :: "nat \<times> nat \<times> nat \<times> nat \<Rightarrow> bool" where
  "is_blocked_ip (a, b, c, d) \<longleftrightarrow> ipv4_is_private (a, b, c, d) \<or> a = 127 \<or> (a = 169 \<and> b = 254) \<or>
     (224 \<le> a \<and> a \<le> 239) \<or> 240 \<le> a \<or> (a, b, c, d) = (0, 0, 0, 0)"

definition url_error :: "string \<Rightarrow> exn + unit" where
  "url_error message = Inl (Exn ValueError message)"

definition urlsplit :: "(string \<Rightarrow> bool option) \<Rightarrow> string \<Rightarrow> exn + string \<times> string" where
  "urlsplit ip6 url =
     (let cleaned = filter (\<lambda>c. (of_char c :: nat) \<notin> {9, 10, 13}) (dropWhile (\<lambda>c. (of_char c :: nat) \<le> 32) url) in
      case split_scheme cleaned of (scheme, rest) \<Rightarrow> then_ok (netloc_of ip6 rest) (\<lambda>netloc. Inr (scheme, netloc)))"

definition validate_callback_url_format :: "(string \<Rightarrow> bool option) \<Rightarrow> string \<Rightarrow> string \<Rightarrow> exn + unit" where
  "validate_callback_url_format ip6 callback_url app_env =
     then_ok (urlsplit ip6 callback_url) (\<lambda>(scheme, netloc).
     if scheme \<noteq> ''http'' \<and> scheme \<noteq> ''https'' then url_error ''callback_url must use http or https''
     else if has_credentials netloc then url_error ''callback_url cannot include credentials''
     else case hostname_of netloc of
         None \<Rightarrow> url_error ''callback_url must include a host''
       | Some name \<Rightarrow>
           let hostname = rstrip_by (\<lambda>c. c = CHR ''.'') (lower name) in
           if List.member BLOCKED_HOSTS hostname then url_error ''callback_url host is not allowed''
           else if List.member DEV_ALLOWED_HOSTS hostname then
             (if is_dev_allowed_host hostname app_env then Inr () else url_error ''callback_url host is not allowed'')
           else if (case ipv4_of hostname of Some ip \<Rightarrow> is_blocked_ip ip
               | None \<Rightarrow> (case ip6 hostname of None \<Rightarrow> False | Some blocked \<Rightarrow> blocked))
             then url_error ''callback_url host is not allowed''
           else Inr ())"

section \<open>Submission\<close>

definition validate_idempotency :: "string option \<Rightarrow> uuid \<Rightarrow> exn + string" where
  "validate_idempotency idempotency_key generated_task_id = (case idempotency_key of
       None \<Rightarrow> Inr (uuid_str generated_task_id)
     | Some key \<Rightarrow> let normalized = strip key in
         if normalized = [] \<or> 128 < length normalized
         then Inl (Exn ValueError ''Idempotency-Key must be between 1 and 128 characters'')
         else Inr normalized)"

definition cache_task_state :: "'t RuntimeState \<Rightarrow> TaskCommand \<Rightarrow> ('t, unit) app3" where
  "cache_task_state rt command = (if \<not> rt_redis_client rt then returnM () else
     bindE (redis_call (hset (task_state_key (tc_task_id command))
       [(''user_id'', Plain (uuid_str (tc_user_id command))), (''status'', Plain (TaskStatus_value (tc_status command))),
        (''billing_state'', Plain (BillingState_value (tc_billing_state command))),
        (''model_class'', Plain (ModelClass_value (tc_model_class command))),
        (''created_at_epoch'', Plain (str_of_int (epoch (tc_created_at command))))])) (\<lambda>_.
     redis_call (expire_key (task_state_key (tc_task_id command)) (st_task_result_ttl_seconds (rt_settings rt)))))"

definition release_pending_transfer :: "'t RuntimeState \<Rightarrow> uuid \<Rightarrow> bool \<Rightarrow> ('t, bool) app3" where
  "release_pending_transfer rt pending_transfer_id required = (case rt_billing_client rt of
       None \<Rightarrow> returnM (\<not> required)
     | Some b \<Rightarrow> void_pending_transfer b pending_transfer_id)"

text \<open>Whether the Redis counter of the user's tasks has reached the limit; without Redis there is none.\<close>

definition over_limit :: "'t RuntimeState \<Rightarrow> AuthUser \<Rightarrow> ('t, bool) app3" where
  "over_limit rt current_user = (if \<not> rt_redis_client rt then returnM False else
     bindE (redis_call (get_int (active_counter_key (au_user_id current_user)))) (\<lambda>active_count.
     returnM (max_concurrent (au_tier current_user) (rt_settings rt) \<le>
       (case active_count of None \<Rightarrow> 0 | Some n \<Rightarrow> n))))"

definition submit_response_json :: "(int \<Rightarrow> string) \<Rightarrow> TaskCommand \<Rightarrow> int \<Rightarrow> json" where
  "submit_response_json show_time c ttl_seconds = JObj [(''task_id'', JStr (uuid_str (tc_task_id c))),
     (''status'', JStr (TaskStatus_value (tc_status c))), (''billing_state'', JStr (BillingState_value (tc_billing_state c))),
     (''queue'', JNull), (''expires_at'', JStr (show_time (tc_created_at c + seconds ttl_seconds)))]"

definition same_payload :: "TaskCommand \<Rightarrow> SubmitTaskRequest \<Rightarrow> int \<Rightarrow> bool" where
  "same_payload c payload effective_cost \<longleftrightarrow> tc_x c = sq_x payload \<and> tc_y c = sq_y payload \<and> tc_mode c = sq_mode payload \<and>
     tc_model_class c = sq_model_class payload \<and> tc_callback_url c = sq_callback_url payload \<and> tc_cost c = effective_cost"

abbreviation degraded :: "string \<Rightarrow> ('t, reply) app3" where
  "degraded message \<equiv> returnM (api_error_response 503 ''SERVICE_DEGRADED'' message)"

abbreviation too_many :: "('t, reply) app3" where
  "too_many \<equiv> returnM (api_error_response 429 ''TOO_MANY_REQUESTS'' ''Max concurrent tasks reached'')"

text \<open>From the write of the row to the answer; a failed write releases the hold and raises again.\<close>

definition persist_submission :: "'t RuntimeState \<Rightarrow> SubmitTaskRequest \<Rightarrow> AuthUser \<Rightarrow> uuid \<Rightarrow> uuid \<Rightarrow> string \<Rightarrow> int \<Rightarrow>
    ('t, reply) app3" where
  "persist_submission rt payload current_user task_id pending_transfer_id idempotency_value effective_cost =
     bindE (attempt (submit_task_command task_id (au_user_id current_user) (au_tier current_user) (sq_mode payload)
       (sq_model_class payload) (sq_x payload) (sq_y payload) effective_cost pending_transfer_id (sq_callback_url payload)
       (Some idempotency_value) (requested_payload task_id (au_user_id current_user) (au_tier current_user) (sq_mode payload)
         (sq_model_class payload) (sq_x payload) (sq_y payload) effective_cost pending_transfer_id))) (\<lambda>submitted.
     case submitted of
       Inl e \<Rightarrow> bindE (release_pending_transfer rt pending_transfer_id True) (\<lambda>_. raiseM (exn_kind e) (exn_text e))
     | Inr (created, command) \<Rightarrow>
         let answer = bindE (cache_task_state rt command) (\<lambda>_.
           returnM (JSONResponse (if created then 201 else 200)
             (submit_response_json (rt_show_time rt) command (st_task_result_ttl_seconds (rt_settings rt))))) in
         if created then
           bindE (if rt_redis_client rt
             then bindE (redis_call (incr_by (active_counter_key (au_user_id current_user)) 1)) (\<lambda>_. returnM ())
             else returnM ()) (\<lambda>_. answer)
         else bindE (release_pending_transfer rt pending_transfer_id True) (\<lambda>released.
           if \<not> released then degraded ''Billing backend unavailable''
           else if \<not> same_payload command payload effective_cost
           then returnM (api_error_response 409 ''CONFLICT'' ''Idempotency key reused with different payload'')
           else answer))"

definition submit_task :: "(string \<Rightarrow> bool option) \<Rightarrow> 't RuntimeState \<Rightarrow> SubmitTaskRequest \<Rightarrow> AuthUser \<Rightarrow> string option \<Rightarrow>
    ('t, reply) app3" where
  "submit_task ip6 rt payload current_user idempotency_key =
     bindE (require_scopes current_user [''task:submit'']) (\<lambda>_.
     if \<not> rt_db_pool rt then degraded ''Command store unavailable'' else
     case rt_billing_client rt of None \<Rightarrow> degraded ''Billing backend unavailable'' | Some b \<Rightarrow>
     bindE fresh_uuid (\<lambda>generated_task_id.
     case validate_idempotency idempotency_key generated_task_id of
       Inl e \<Rightarrow> returnM (api_error_response 400 ''BAD_REQUEST'' (exn_text e))
     | Inr idempotency_value \<Rightarrow>
     case (case sq_callback_url payload of None \<Rightarrow> Inr ()
         | Some url \<Rightarrow> validate_callback_url_format ip6 url (st_app_env (rt_settings rt))) of
       Inl e \<Rightarrow> returnM (api_error_response 400 ''BAD_REQUEST'' (exn_text e))
     | Inr _ \<Rightarrow>
     bindE (over_limit rt current_user) (\<lambda>over.
     if over then too_many else
     let effective_cost = task_cost_for_model (st_task_cost (rt_settings rt)) (sq_model_class payload) in
     bindE fresh_uuid (\<lambda>pending_transfer_id.
     bindE (reserve_credits b (au_user_id current_user) pending_transfer_id effective_cost) (\<lambda>reserve_result.
     if reserve_result = INSUFFICIENT_CREDITS
     then returnM (api_error_response 402 ''INSUFFICIENT_CREDITS'' ''Insufficient credits'')
     else if reserve_result \<noteq> ACCEPTED then degraded ''Billing backend unavailable'' else
     bindE (over_limit rt current_user) (\<lambda>over.
     if over then bindE (release_pending_transfer rt pending_transfer_id True) (\<lambda>_. too_many) else
     persist_submission rt payload current_user generated_task_id pending_transfer_id idempotency_value effective_cost))))))"

section \<open>Cancellation\<close>

definition cancel_response_json :: "uuid \<Rightarrow> json" where
  "cancel_response_json task_id = JObj [(''task_id'', JStr (uuid_str task_id)), (''status'', JStr (TaskStatus_value CANCELLED)),
     (''billing_state'', JStr (BillingState_value RELEASED))]"

definition cache_cancelled :: "'t RuntimeState \<Rightarrow> TaskCommand \<Rightarrow> uuid \<Rightarrow> ('t, unit) app3" where
  "cache_cancelled rt command task_id = (if \<not> rt_redis_client rt then returnM () else
     bindE (redis_call (incr_by (active_counter_key (tc_user_id command)) (-1))) (\<lambda>_.
     bindE get_clock (\<lambda>now.
     bindE (redis_call (hset (task_state_key task_id)
       [(''user_id'', Plain (uuid_str (tc_user_id command))), (''status'', Plain (TaskStatus_value CANCELLED)),
        (''billing_state'', Plain (BillingState_value RELEASED)),
        (''model_class'', Plain (ModelClass_value (tc_model_class command))),
        (''created_at_epoch'', Plain (str_of_int (epoch (tc_created_at command)))),
        (''completed_at_epoch'', Plain (str_of_int (epoch now)))])) (\<lambda>_.
     redis_call (expire_key (task_state_key task_id) (st_task_result_ttl_seconds (rt_settings rt)))))))"

definition cancel_task :: "'t RuntimeState \<Rightarrow> uuid \<Rightarrow> AuthUser \<Rightarrow> ('t, reply) app3" where
  "cancel_task rt task_id current_user =
     bindE (require_scopes current_user [''task:cancel'']) (\<lambda>_.
     let not_found = returnM (api_error_response 404 ''NOT_FOUND'' ''Task not found'');
         conflict = returnM (api_error_response 409 ''CONFLICT'' ''Task can no longer be cancelled'') in
     if \<not> rt_db_pool rt then degraded ''Command store unavailable'' else
     bindE (get_task_command task_id) (\<lambda>looked_up. case looked_up of
       None \<Rightarrow> not_found
     | Some command \<Rightarrow>
       if au_role current_user \<noteq> ADMIN \<and> tc_user_id command \<noteq> au_user_id current_user then not_found
       else if \<not> List.member TASK_CANCELLABLE_STATUSES (tc_status command) \<or> tc_billing_state command \<noteq> RESERVED
       then conflict
       else if rt_billing_client rt = None then degraded ''Billing backend unavailable'' else
       bindE (cancel_task_command task_id) (\<lambda>cancelled.
       if \<not> cancelled then conflict else
       bindE (attempt (release_pending_transfer rt (tc_tb_pending_transfer_id command) False)) (\<lambda>_.
       bindE (cache_cancelled rt command task_id) (\<lambda>_.
       returnM (JSONResponse 200 (cancel_response_json task_id)))))))"

section \<open>Administration\<close>

record AdminCreditsRequest =
  ac_api_key :: string
  ac_amount :: int
  ac_reason :: string
  ac_transfer_id :: "uuid option"
  ac_idempotency_key :: "string option"

text \<open>\<open>uuid5\<close> of the canonical text is a parameter.\<close>

definition derive_transfer_id :: "(string \<Rightarrow> uuid) \<Rightarrow> uuid \<Rightarrow> uuid \<Rightarrow> int \<Rightarrow> string \<Rightarrow> string option \<Rightarrow> ('t, uuid) app3" where
  "derive_transfer_id uuid5_dns target_user_id admin_user_id amount reason idempotency_key = (case idempotency_key of
       None \<Rightarrow> fresh_uuid
     | Some key \<Rightarrow> returnM (uuid5_dns (uuid_str target_user_id @ ''|'' @ uuid_str admin_user_id @ ''|'' @
         str_of_int amount @ ''|'' @ reason @ ''|'' @ key)))"

definition mask_api_key :: "string \<Rightarrow> string" where
  "mask_api_key api_key = (if length api_key \<le> 8 then ''***''
     else take 4 api_key @ ''...'' @ drop (length api_key - 4) api_key)"

definition admin_credits :: "(string \<Rightarrow> string) \<Rightarrow> (string \<Rightarrow> uuid) \<Rightarrow> 't RuntimeState \<Rightarrow> AdminCreditsRequest \<Rightarrow> AuthUser \<Rightarrow>
    ('t, reply) app3" where
  "admin_credits sha256 uuid5_dns rt payload current_user =
     bindE (require_scopes current_user [''admin:credits'']) (\<lambda>_.
     if au_role current_user \<noteq> ADMIN then returnM (api_error_response 403 ''FORBIDDEN'' ''Admin role required'') else
     if \<not> rt_db_pool rt then degraded ''Billing backend unavailable'' else
     case rt_billing_client rt of None \<Rightarrow> degraded ''Billing backend unavailable'' | Some b \<Rightarrow>
     bindE (fetch_active_user_by_api_key sha256 (ac_api_key payload)) (\<lambda>target. case target of
       None \<Rightarrow> returnM (api_error_response 404 ''NOT_FOUND'' ''User not found'')
     | Some target_user \<Rightarrow>
     bindE (case ac_transfer_id payload of Some t \<Rightarrow> returnM t
       | None \<Rightarrow> derive_transfer_id uuid5_dns (au_user_id target_user) (au_user_id current_user) (ac_amount payload)
           (ac_reason payload) (ac_idempotency_key payload)) (\<lambda>transfer_id.
     bindE (attempt (
       bindE (ensure_user_account b (au_user_id target_user) 0) (\<lambda>_.
       bindE (topup_credits b (au_user_id target_user) transfer_id (ac_amount payload)) (\<lambda>topup_ok.
       if \<not> topup_ok then returnM None else
       bindE (get_balance b (au_user_id target_user)) (\<lambda>new_balance.
       bindE (record_admin_credit_topup (au_user_id target_user) (ac_amount payload) (ac_reason payload)
         (au_user_id current_user) (mask_api_key (ac_api_key payload)) new_balance transfer_id) (\<lambda>_.
       returnM (Some new_balance))))))) (\<lambda>outcome. case outcome of
         Inr (Some new_balance) \<Rightarrow> returnM (JSONResponse 200 (JObj [(''api_key'', JStr (ac_api_key payload)),
           (''new_balance'', JInt new_balance)]))
       | _ \<Rightarrow> degraded ''Billing backend unavailable''))))"

end
