(* ===== verification/S3_Worker.thy ===== *)
theory S3_Worker
  imports S3_Moves
begin

text \<open>
  Solution 3, \<open>workers/worker.py\<close>: a message is parsed into a task, the task is moved to \<open>RUNNING\<close>, run on the
  model the worker has loaded, its hold is posted or voided in TigerBeetle, and only then its row is finalized and the
  message acknowledged.
\<close>

section \<open>Parsing\<close>

definition require_str :: "dict \<Rightarrow> string \<Rightarrow> exn + string" where
  "require_str event key = (case dict_get event key of
       Some (JStr (c # cs)) \<Rightarrow> Inr (c # cs)
     | _ \<Rightarrow> Inl (Exn ValueError (key @ '' is required'')))"

definition require_int :: "dict \<Rightarrow> string \<Rightarrow> exn + int" where
  "require_int event key = (case dict_get event key of
       Some (JInt i) \<Rightarrow> Inr i
     | Some (JBool t) \<Rightarrow> Inr (if t then 1 else 0)
     | _ \<Rightarrow> Inl (Exn ValueError (key @ '' must be an integer'')))"

definition task_command_from_event :: "dict \<Rightarrow> int \<Rightarrow> exn + TaskCommand" where
  "task_command_from_event event now =
     then_ok (then_ok (require_str event ''task_id'') uuid_of_str) (\<lambda>task_id.
     then_ok (then_ok (require_str event ''user_id'') uuid_of_str) (\<lambda>user_id.
     then_ok (then_ok (require_str event ''tier'') SubscriptionTier_of) (\<lambda>tier.
     then_ok (then_ok (require_str event ''mode'') RequestMode_of) (\<lambda>mode.
     then_ok (then_ok (require_str event ''model_class'') ModelClass_of) (\<lambda>model_class.
     then_ok (require_int event ''x'') (\<lambda>x.
     then_ok (require_int event ''y'') (\<lambda>y.
     then_ok (require_int event ''cost'') (\<lambda>cost.
     then_ok (then_ok (require_str event ''tb_pending_transfer_id'') uuid_of_str) (\<lambda>transfer_id.
     Inr \<lparr>tc_task_id = task_id, tc_user_id = user_id, tc_tier = tier, tc_mode = mode, tc_model_class = model_class,
       tc_status = PENDING, tc_billing_state = RESERVED, tc_x = x, tc_y = y, tc_cost = cost,
       tc_tb_pending_transfer_id = transfer_id, tc_callback_url = None, tc_idempotency_key = None,
       tc_created_at = now, tc_updated_at = now\<rparr>)))))))))"

section \<open>The model a worker has loaded\<close>

definition hot_queue_name :: "ModelClass \<Rightarrow> string" where
  "hot_queue_name model_class = ''hot-'' @ ModelClass_value model_class"

definition warm_registry_key :: "ModelClass \<Rightarrow> string" where
  "warm_registry_key model_class = ''warm:'' @ ModelClass_value model_class"

definition activate :: "ModelClass \<Rightarrow> ('t, unit) app3" where
  "activate model_class =
     bindE (broker_call (\<lambda>k. k)) (\<lambda>_.
     bindE (broker_call (\<lambda>k. k\<lparr>hot_bindings := List.insert model_class (hot_bindings k)\<rparr>)) (\<lambda>_.
     bindE (memory (\<lambda>k. (List.member (consumers k) model_class, k))) (\<lambda>known.
     if known then returnM () else
       broker_call (\<lambda>k. k\<lparr>consumers := List.insert model_class (consumers k)\<rparr>))))"

definition deactivate :: "ModelClass \<Rightarrow> bool \<Rightarrow> ('t, unit) app3" where
  "deactivate model_class unbind =
     bindE (memory (\<lambda>k. (List.member (consumers k) model_class, k\<lparr>consumers := removeAll model_class (consumers k)\<rparr>))) (\<lambda>known.
     bindE (if known then broker_call (\<lambda>k. k) else returnM ()) (\<lambda>_.
     if unbind then broker_call (\<lambda>k. k\<lparr>hot_bindings := removeAll model_class (hot_bindings k)\<rparr>) else returnM ()))"

definition drop_warm_registration :: "string \<Rightarrow> ModelClass \<Rightarrow> ('t, unit) app3" where
  "drop_warm_registration worker_id model_class =
     bindE (redis_call (srem (warm_registry_key model_class) worker_id)) (\<lambda>_.
     bindE (redis_call (scard (warm_registry_key model_class))) (\<lambda>remaining.
     deactivate model_class (remaining = 0)))"

definition go_warm :: "string \<Rightarrow> ModelClass \<Rightarrow> ('t, unit) app3" where
  "go_warm worker_id model_class =
     bindE (memory (\<lambda>k. (warm_model k, k))) (\<lambda>warm.
     if warm = Some model_class then returnM () else
     bindE (case warm of None \<Rightarrow> returnM () | Some old \<Rightarrow> drop_warm_registration worker_id old) (\<lambda>_.
     bindE (memory (\<lambda>k. ((), k\<lparr>warm_model := Some model_class\<rparr>))) (\<lambda>_.
     bindE (redis_call (sadd (warm_registry_key model_class) worker_id)) (\<lambda>_.
     activate model_class))))"

definition runtime_shutdown :: "string \<Rightarrow> ('t, unit) app3" where
  "runtime_shutdown worker_id = bindE (memory (\<lambda>k. (warm_model k, k))) (\<lambda>warm. case warm of
       None \<Rightarrow> returnM ()
     | Some model_class \<Rightarrow> bindE (drop_warm_registration worker_id model_class) (\<lambda>_.
         memory (\<lambda>k. ((), k\<lparr>warm_model := None\<rparr>))))"

fun inference_seconds :: "ModelClass \<Rightarrow> real" where
  "inference_seconds SMALL = 2"
| "inference_seconds MEDIUM = 4"
| "inference_seconds LARGE = 6"

definition execute :: "string \<Rightarrow> TaskCommand \<Rightarrow> ('t, dict) app3" where
  "execute worker_id task =
     bindE (memory (\<lambda>k. (warm_model k, k))) (\<lambda>warm.
     bindE (if warm = Some (tc_model_class task) then returnM ()
            else bindE (sleep_seconds 3) (\<lambda>_. go_warm worker_id (tc_model_class task))) (\<lambda>_.
     bindE (sleep_seconds (inference_seconds (tc_model_class task))) (\<lambda>_.
     returnM [(''sum'', JInt (tc_x task + tc_y task))])))"

section \<open>One task\<close>

definition state_mapping :: "TaskCommand \<Rightarrow> TaskStatus \<Rightarrow> BillingState \<Rightarrow> (string \<times> rval) list" where
  "state_mapping task status billing_state =
     [(''user_id'', Plain (uuid_str (tc_user_id task))), (''status'', Plain (TaskStatus_value status)),
      (''billing_state'', Plain (BillingState_value billing_state)),
      (''model_class'', Plain (ModelClass_value (tc_model_class task)))]"

definition mark_task_running :: "TaskCommand \<Rightarrow> int \<Rightarrow> ('t, bool) app3" where
  "mark_task_running task result_ttl_seconds =
     bindE (update_task_running (tc_task_id task)) (\<lambda>updated.
     if \<not> updated then returnM False else
     bindE (redis_call (hset (task_state_key (tc_task_id task)) (state_mapping task RUNNING (tc_billing_state task)))) (\<lambda>_.
     bindE (redis_call (expire_key (task_state_key (tc_task_id task)) result_ttl_seconds)) (\<lambda>_. returnM True)))"

definition handle_task_completion :: "'t TigerBeetleBilling \<Rightarrow> TaskCommand \<Rightarrow> bool \<Rightarrow> int \<Rightarrow> dict option \<Rightarrow> string option \<Rightarrow>
    ('t, bool) app3" where
  "handle_task_completion b task success result_ttl_seconds result error =
     (let status = (if success then COMPLETED else FAILED);
          billing_state = (if success then CAPTURED else RELEASED) in
     bindE (if success then post_pending_transfer b (tc_tb_pending_transfer_id task)
            else void_pending_transfer b (tc_tb_pending_transfer_id task)) (\<lambda>tb_ok.
     if \<not> tb_ok then returnM False else
     bindE (finalize_task_command (tc_task_id task) (tc_user_id task) status billing_state (tc_cost task) result error) (\<lambda>finalized.
     if \<not> finalized then returnM False else
     bindE (redis_call (incr_by (active_counter_key (tc_user_id task)) (-1))) (\<lambda>_.
     bindE (redis_call (hset (task_state_key (tc_task_id task)) (state_mapping task status billing_state @
       (case result of None \<Rightarrow> [] | Some r \<Rightarrow> [(''result'', Dumped (JObj r))]) @
       (case error of None \<Rightarrow> [] | Some e \<Rightarrow> [(''error'', Plain e)])))) (\<lambda>_.
     bindE (redis_call (expire_key (task_state_key (tc_task_id task)) result_ttl_seconds)) (\<lambda>_. returnM True))))))"

definition process_task_event :: "'t TigerBeetleBilling \<Rightarrow> string \<Rightarrow> TaskCommand \<Rightarrow> int \<Rightarrow> ('t, bool) app3" where
  "process_task_event b worker_id task result_ttl_seconds =
     bindE (mark_task_running task result_ttl_seconds) (\<lambda>started.
     if \<not> started then returnM True else
     bindE (attempt (execute worker_id task)) (\<lambda>outcome. case outcome of
         Inl e \<Rightarrow> handle_task_completion b task False result_ttl_seconds None (Some (exn_text e))
       | Inr result \<Rightarrow> handle_task_completion b task True result_ttl_seconds (Some result) None))"

definition parse_delivery :: "jtext \<Rightarrow> int \<Rightarrow> exn + TaskCommand" where
  "parse_delivery body now = (case body of
       Undecodable \<Rightarrow> Inl (Exn ValueError [])
     | Decoded (JObj event) \<Rightarrow> task_command_from_event event now
     | Decoded _ \<Rightarrow> Inl (Exn ValueError ''worker payload must decode to an object''))"

definition handle_delivery :: "'t TigerBeetleBilling \<Rightarrow> string \<Rightarrow> nat \<Rightarrow> jtext \<Rightarrow> int \<Rightarrow> ('t, unit) app3" where
  "handle_delivery b worker_id tag body result_ttl_seconds =
     bindE (attempt (bindE get_clock (\<lambda>now. bindE (liftE (parse_delivery body now)) (\<lambda>task.
       process_task_event b worker_id task result_ttl_seconds)))) (\<lambda>outcome. case outcome of
         Inl e \<Rightarrow> basic_nack tag (exn_kind e \<noteq> ValueError)
       | Inr processed \<Rightarrow> if processed then basic_ack tag else basic_nack tag True)"

section \<open>Its steps\<close>

lemma quiet_runtime [quiet_rules]:
  "quiet h (activate c)" "quiet h (deactivate c u)" "quiet h (drop_warm_registration i c)"
  "quiet h (go_warm i c)" "quiet h (runtime_shutdown i)" "quiet h (execute i task)"
  unfolding activate_def deactivate_def drop_warm_registration_def go_warm_def runtime_shutdown_def execute_def
  by (intro quiet_rules)+

lemma quiet_acks [quiet_rules]: "quiet h (basic_ack tag)" "quiet h (basic_nack tag r)"
  unfolding basic_ack_def basic_nack_def by (intro quiet_rules)+

lemma moves_completion:
  assumes "tb_history (bl_client b) h"
  shows "moves b h (describes task) (handle_task_completion b task success ttl res err) (\<lambda>_ _. True)"
proof -
  let ?st = "if success then COMPLETED else FAILED"
  have "moves b h (\<lambda>s. True \<and> describes task s) (if success then post_pending_transfer b (tc_tb_pending_transfer_id task)
            else void_pending_transfer b (tc_tb_pending_transfer_id task))
      (\<lambda>ok s. (ok \<longrightarrow> settled_as ?st (tc_tb_pending_transfer_id task) s) \<and> describes task s)"
    using moves_post [OF assms] moves_void [OF assms]
    by (intro moves_frame lasting_describes) (auto simp: settled_as_def)
  then have settle: "moves b h (describes task) (if success then post_pending_transfer b (tc_tb_pending_transfer_id task)
            else void_pending_transfer b (tc_tb_pending_transfer_id task))
      (\<lambda>ok s. ok \<longrightarrow> describes task s \<and> settled_as ?st (tc_tb_pending_transfer_id task) s)"
    by (rule moves_weaken) auto
  have bill: "(if success then CAPTURED else RELEASED) = billing_of ?st" by simp
  show ?thesis
    unfolding handle_task_completion_def Let_def bill
    by (rule moves_bind [OF settle], rule moves_if, rule moves_stay, rule quiet_rules,
        rule moves_bind, rule moves_weaken [OF moves_finalize]) (auto intro!: moves_stay quiet_rules)
qed

lemma moves_process:
  assumes "tb_history (bl_client b) h"
  shows "moves b h (describes task) (process_task_event b i task ttl) (\<lambda>_ _. True)"
proof -
  have "moves b h (\<lambda>s. True \<and> describes task s) (mark_task_running task ttl) (\<lambda>_ s. True \<and> describes task s)"
    unfolding mark_task_running_def
    by (intro moves_frame lasting_describes moves_bind [OF moves_running] moves_stay quiet_rules)
  then have run: "moves b h (describes task) (mark_task_running task ttl) (\<lambda>_. describes task)"
    by (rule moves_weaken) auto
  have exec: "moves b h (describes task) (attempt (execute i task)) (\<lambda>_. describes task)"
    by (intro moves_quiet quiet_rules)
  show ?thesis
    unfolding process_task_event_def
    by (rule moves_bind [OF run], rule moves_if, rule moves_stay, rule quiet_rules, rule moves_bind [OF exec],
        rule moves_sum) (auto intro: moves_completion [OF assms])
qed

text \<open>A message speaks of a task as it was admitted.\<close>

definition genuine :: "jtext \<Rightarrow> s3sys \<Rightarrow> bool" where
  "genuine body s \<longleftrightarrow> (\<forall>now task. parse_delivery body now = Inr task \<longrightarrow> describes task s)"

lemma moves_handle_delivery:
  assumes "tb_history (bl_client b) h"
  shows "moves b h (genuine body) (handle_delivery b i tag body ttl) (\<lambda>_ _. True)"
proof -
  have parse: "moves b h (genuine body) (liftE (parse_delivery body now)) (\<lambda>task s. describes task s)" for now
    by (rule movesI) (auto simp: genuine_def liftE_def)
  have inner: "moves b h (genuine body) (bindE get_clock (\<lambda>now. bindE (liftE (parse_delivery body now)) (\<lambda>task.
       process_task_event b i task ttl))) (\<lambda>_ _. True)"
    by (rule moves_bind [OF moves_quiet [where P = "genuine body"]], rule quiet_rules,
        rule moves_bind [OF parse], rule moves_process [OF assms])
  have "moves b h (\<lambda>s. genuine body s \<and> True) (attempt (bindE get_clock (\<lambda>now. bindE (liftE (parse_delivery body now))
      (\<lambda>task. process_task_event b i task ttl)))) (\<lambda>r s. True \<and> (\<forall>a. r = Inr a \<longrightarrow> True))"
    by (rule moves_attempt [OF inner lasting_True])
  then have "moves b h (genuine body) (attempt (bindE get_clock (\<lambda>now. bindE (liftE (parse_delivery body now))
      (\<lambda>task. process_task_event b i task ttl)))) (\<lambda>_ _. True)"
    by (rule moves_weaken) auto
  then show ?thesis
    unfolding handle_delivery_def
    by (rule moves_bind) (auto intro!: moves_stay quiet_rules moves_sum)
qed

end
