(* ===== verification/S3_Reconciler.thy ===== *)
theory S3_Reconciler
  imports S3_Moves
begin

text \<open>
  Solution 3, \<open>workers/reconciler.py\<close>: tasks that are still reserved long after their admission are compared with
  their hold.  A posted or voided hold decides the task, an absent one expires it, a pending one leaves it alone.
\<close>

section \<open>The pass\<close>

definition reconciler_decrement :: "uuid \<Rightarrow> ('t, unit) app3" where
  "reconciler_decrement user_id = (let key = active_counter_key user_id in
     bindE (redis_call (incr_by key (-1))) (\<lambda>value.
     if value < 0 then redis_call (set_int key 0) else returnM ()))"

definition cache_reconciled_state :: "ReconciledTaskState \<Rightarrow> int \<Rightarrow> ('t, unit) app3" where
  "cache_reconciled_state state result_ttl_seconds =
     bindE (reconciler_decrement (rs_user_id state)) (\<lambda>_.
     bindE (redis_call (hset (task_state_key (rs_task_id state))
       [(''user_id'', Plain (uuid_str (rs_user_id state))), (''status'', Plain (TaskStatus_value (rs_status state))),
        (''billing_state'', Plain (BillingState_value (rs_billing_state state))),
        (''model_class'', Plain (ModelClass_value (rs_model_class state)))])) (\<lambda>_.
     redis_call (expire_key (task_state_key (rs_task_id state)) result_ttl_seconds)))"

definition terminal_alignment_target :: "TaskStatus \<Rightarrow> PendingTransferState \<Rightarrow> (TaskStatus \<times> BillingState \<times> string) option" where
  "terminal_alignment_target task_status transfer_state = (case transfer_state of
       HOLD_POSTED \<Rightarrow> Some (COMPLETED, CAPTURED, ''TB_CAPTURED'')
     | HOLD_VOIDED \<Rightarrow> Some (if task_status = PENDING then CANCELLED else FAILED, RELEASED, ''TB_VOIDED'')
     | _ \<Rightarrow> None)"

definition reconcile_task :: "'t TigerBeetleBilling \<Rightarrow> int \<Rightarrow> int \<Rightarrow> TaskCommand \<Rightarrow> ('t, nat) app3" where
  "reconcile_task b stale_after_seconds result_ttl_seconds task =
     bindE (get_pending_transfer_state b (tc_tb_pending_transfer_id task)) (\<lambda>transfer_state.
     if transfer_state = HOLD_PENDING then returnM 0 else
     bindE (if transfer_state = HOLD_ABSENT
            then expire_stale_reserved_task (tc_task_id task) (tc_tb_pending_transfer_id task) stale_after_seconds
            else case terminal_alignment_target (tc_status task) transfer_state of
                None \<Rightarrow> returnM None
              | Some target \<Rightarrow> (case target of (status, billing_state, resolution) \<Rightarrow>
                  align_stale_reserved_task_terminal_state task status billing_state resolution stale_after_seconds)) (\<lambda>reconciled.
     case reconciled of None \<Rightarrow> returnM 0 | Some state \<Rightarrow>
       bindE (cache_reconciled_state state result_ttl_seconds) (\<lambda>_. returnM 1)))"

fun reconcile_tasks :: "'t TigerBeetleBilling \<Rightarrow> int \<Rightarrow> int \<Rightarrow> TaskCommand list \<Rightarrow> ('t, nat) app3" where
  "reconcile_tasks b stale ttl [] = returnM 0"
| "reconcile_tasks b stale ttl (task # tasks) =
     bindE (reconcile_task b stale ttl task) (\<lambda>n.
     bindE (reconcile_tasks b stale ttl tasks) (\<lambda>m. returnM (n + m)))"

definition reconcile_stale_reserved_tasks :: "'t TigerBeetleBilling \<Rightarrow> int \<Rightarrow> int \<Rightarrow> ('t, nat) app3" where
  "reconcile_stale_reserved_tasks b stale_after_seconds result_ttl_seconds =
     bindE (list_stale_reserved_tasks stale_after_seconds)
       (reconcile_tasks b stale_after_seconds result_ttl_seconds)"

section \<open>Its steps\<close>

lemma quiet_cache [quiet_rules]: "quiet h (cache_reconciled_state state ttl)"
  unfolding cache_reconciled_state_def reconciler_decrement_def by (intro quiet_rules)

lemma moves_expire:
  "moves b h (\<lambda>s. describes task s \<and> \<not> held_in (snd s) (hold_key task))
     (expire_stale_reserved_task (tc_task_id task) u n) (\<lambda>_ _. True)"
  unfolding expire_stale_reserved_task_def
proof (rule moves_update [where s = EXPIRED])
  show "active_status (tc_status c) \<and> may_become hh c EXPIRED \<and>
      (set_state EXPIRED BILLING_EXPIRED c)\<lparr>tc_updated_at := now\<rparr> = becomes EXPIRED now c"
    if "describes task (d, hh) \<and> \<not> held_in (snd (d, hh)) (hold_key task)"
      "find_command d (tc_task_id task) = Some c" "stale_reserved n now c" for d hh c now
    using that by (auto simp: describes_def becomes_def stale_reserved_def)
qed (intro keeps_rules db_rules)+

lemma bindE_liftE_Inr: "bindE (liftE (Inr a)) f = f a"
  by (simp add: fun_eq_iff bindE_def liftE_def)

lemma moves_align:
  assumes "st = COMPLETED \<or> st = FAILED \<or> st = CANCELLED"
  shows "moves b h (\<lambda>s. describes task s \<and> (st = CANCELLED \<or> settled_as st (tc_tb_pending_transfer_id task) s))
     (align_stale_reserved_task_terminal_state task st (billing_of st) res n) (\<lambda>_ _. True)"
proof -
  obtain et tp where ev: "terminal_event_for_status st = Inr (et, tp)" using assms by (cases st) auto
  show ?thesis
    unfolding align_stale_reserved_task_terminal_state_def ev bindE_liftE_Inr prod.case
  proof (rule moves_update [where s = st])
    show "active_status (tc_status c) \<and> may_become hh c st \<and>
        (set_state st (billing_of st) c)\<lparr>tc_updated_at := now\<rparr> = becomes st now c"
      if "describes task (d, hh) \<and> (st = CANCELLED \<or> settled_as st (tc_tb_pending_transfer_id task) (d, hh))"
        "find_command d (tc_task_id task) = Some c" "stale_reserved n now c" for d hh c now
      using that by (auto simp: describes_def settled_as_def becomes_def stale_reserved_def)
  qed (intro keeps_rules db_rules)+
qed

lemma describes_key: "describes task s \<Longrightarrow> s3_inv ledger s \<Longrightarrow> held_in (snd s) (hold_key task) \<and> hold_key task \<noteq> 0"
  using find_command_member by (fastforce simp: describes_def s3_inv_def aligned_def dest: held_key)

lemma moves_reconcile_task:
  assumes "tb_history (bl_client b) h"
  shows "moves b h (describes task) (reconcile_task b n ttl task) (\<lambda>_ _. True)"
  unfolding reconcile_task_def
proof (rule moves_bind [OF moves_hold_state [OF assms]])
  show "uuid_to_u128 (tc_tb_pending_transfer_id task) \<noteq> 0" if "describes task s" "s3_inv (bl_ledger_id b) s" for s
    using describes_key [OF that] by simp
next
  fix st :: PendingTransferState
  let ?P = "\<lambda>s. describes task s \<and> st = hold_state (snd s) (hold_key task)"
  have expire: "moves b h ?P (expire_stale_reserved_task (tc_task_id task) u n) (\<lambda>_ _. True)"
    if "st = HOLD_ABSENT" for u
    by (rule moves_weaken [OF moves_expire]) (use that in \<open>auto simp: hold_state_def split: if_splits\<close>)
  have align: "moves b h ?P (align_stale_reserved_task_terminal_state task s bs res n) (\<lambda>_ _. True)"
    if "terminal_alignment_target (tc_status task) st = Some (s, bs, res)" for s bs res
  proof -
    have cases: "s = COMPLETED \<or> s = FAILED \<or> s = CANCELLED" and bs: "bs = billing_of s"
      using that by (auto simp: terminal_alignment_target_def split: PendingTransferState.splits if_splits)
    have just: "s = CANCELLED \<or> settled_as s (tc_tb_pending_transfer_id task) x"
      if "st = hold_state (snd x) (hold_key task)" for x
      using \<open>terminal_alignment_target (tc_status task) st = Some (s, bs, res)\<close> that
      by (auto simp: terminal_alignment_target_def hold_state_def settled_as_def split: if_splits)
    show ?thesis unfolding bs
      by (rule moves_weaken [OF moves_align [OF cases]], rule conjI, erule conjunct1, rule just, erule conjunct2, rule TrueI)
  qed
  show "moves b h ?P (if st = HOLD_PENDING then returnM 0 else
     bindE (if st = HOLD_ABSENT
            then expire_stale_reserved_task (tc_task_id task) (tc_tb_pending_transfer_id task) n
            else case terminal_alignment_target (tc_status task) st of
                None \<Rightarrow> returnM None
              | Some target \<Rightarrow> (case target of (status, billing_state, resolution) \<Rightarrow>
                  align_stale_reserved_task_terminal_state task status billing_state resolution n)) (\<lambda>reconciled.
     case reconciled of None \<Rightarrow> returnM 0 | Some state \<Rightarrow>
       bindE (cache_reconciled_state state ttl) (\<lambda>_. returnM 1))) (\<lambda>_ _. True)"
  proof (rule moves_if, rule moves_stay, rule quiet_rules, rule moves_bind)
    show "moves b h ?P (if st = HOLD_ABSENT
            then expire_stale_reserved_task (tc_task_id task) (tc_tb_pending_transfer_id task) n
            else case terminal_alignment_target (tc_status task) st of
                None \<Rightarrow> returnM None
              | Some target \<Rightarrow> (case target of (status, billing_state, resolution) \<Rightarrow>
                  align_stale_reserved_task_terminal_state task status billing_state resolution n)) (\<lambda>_ _. True)"
    proof (rule moves_if [OF expire], assumption, rule moves_option, rule moves_stay, rule quiet_rules)
      fix target
      assume t: "terminal_alignment_target (tc_status task) st = Some target"
      obtain s bs res where "target = (s, bs, res)" by (cases target)
      with t align show "moves b h ?P (case target of (status, billing_state, resolution) \<Rightarrow>
          align_stale_reserved_task_terminal_state task status billing_state resolution n) (\<lambda>_ _. True)" by simp
    qed
  qed (intro moves_stay quiet_rules)
qed

lemma moves_reconcile_tasks:
  assumes "tb_history (bl_client b) h"
  shows "moves b h (\<lambda>s. \<forall>task\<in>set tasks. describes task s) (reconcile_tasks b n ttl tasks) (\<lambda>_ _. True)"
proof (induction tasks)
  case Nil
  show ?case by (simp add: moves_stay quiet_rules)
next
  case (Cons task tasks)
  have "moves b h (\<lambda>s. describes task s \<and> (\<forall>t\<in>set tasks. describes t s)) (reconcile_task b n ttl task)
      (\<lambda>_ s. True \<and> (\<forall>t\<in>set tasks. describes t s))"
    by (intro moves_frame moves_reconcile_task [OF assms] lasting_all lasting_describes)
  then have "moves b h (\<lambda>s. \<forall>t\<in>set (task # tasks). describes t s) (reconcile_task b n ttl task)
      (\<lambda>_ s. \<forall>t\<in>set tasks. describes t s)" by (rule moves_weaken) auto
  then show ?case
    unfolding reconcile_tasks.simps
    by (rule moves_bind) (rule moves_bind [OF Cons.IH], rule moves_stay, rule quiet_rules)
qed

lemma moves_reconcile:
  assumes "tb_history (bl_client b) h"
  shows "moves b h (\<lambda>_. True) (reconcile_stale_reserved_tasks b n ttl) (\<lambda>_ _. True)"
  unfolding reconcile_stale_reserved_tasks_def
proof (rule moves_bind [OF _ moves_reconcile_tasks [OF assms]], rule movesI)
  fix w w' :: "(s3db, 'a s3kv) world" and r
  assume inv: "s3_inv (bl_ledger_id b) (sys h w)" and run: "list_stale_reserved_tasks n w = (r, w')"
  then have same: "sys h w' = sys h w"
    using quiet_sql_read unfolding list_stale_reserved_tasks_def quiet_def by (metis snd_conv)
  have "\<forall>task\<in>set tasks. describes task (sys h w')" if "r = Inr tasks" for tasks
  proof
    fix task
    assume "task \<in> set tasks"
    moreover have "tasks = sort_key tc_created_at (sort_key (\<lambda>c. unat (tc_task_id c))
       (filter (stale_reserved n (clock w)) (task_commands (pg w))))"
      using run unfolding that list_stale_reserved_tasks_def by (rule sql_read_okE)
    ultimately have "task \<in> set (task_commands (pg w))" by simp
    moreover have "keyed tc_task_id (task_commands (pg w))" using inv by (simp add: s3_inv_def sys_def)
    ultimately have "find_command (pg w) (tc_task_id task) = Some task"
      unfolding find_command_def by (intro lookup_row_member)
    with same show "describes task (sys h w')" by (simp add: describes_def sys_def)
  qed
  with same show "(s3_step (bl_ledger_id b))\<^sup>*\<^sup>* (sys h w) (sys h w') \<and>
      (\<forall>a. r = Inr a \<longrightarrow> (\<forall>task\<in>set a. describes task (sys h w')))" by simp
qed

end
