(* ===== verification/S3_Handlers.thy ===== *)
theory S3_Handlers
  imports S3_Api S3_Worker S3_Reconciler
begin

text \<open>
  What the handlers of Solution 3 do to the system and what their answers mean.
\<close>

section \<open>The write of a submission\<close>

definition new_command :: "uuid \<Rightarrow> uuid \<Rightarrow> int \<Rightarrow> uuid \<Rightarrow> TaskCommand \<Rightarrow> bool" where
  "new_command task_id user_id cost transfer_id c \<longleftrightarrow> tc_task_id c = task_id \<and> tc_user_id c = user_id \<and> tc_cost c = cost \<and>
     tc_tb_pending_transfer_id c = transfer_id \<and> tc_status c = PENDING \<and> tc_billing_state c = RESERVED"

lemma insert_command_run:
  assumes "insert_command c w = (Inr a, w')"
  shows "find_command (pg w) (tc_task_id c) = None" "task_commands (pg w') = task_commands (pg w) @ [a]"
    "a = c\<lparr>tc_created_at := clock w, tc_updated_at := clock w\<rparr>"
proof -
  from assms obtain "Inr (a, pg w') = (let c = c\<lparr>tc_created_at := clock w, tc_updated_at := clock w\<rparr> in
     if \<not> (int4_ok (tc_x c) \<and> int4_ok (tc_y c) \<and> int4_ok (tc_cost c)) then Inl (Exn DataError [])
     else if tc_cost c < 0 then Inl (Exn CheckViolationError [])
     else if (case tc_idempotency_key c of None \<Rightarrow> False | Some k \<Rightarrow> 128 < length k) then Inl (Exn DataError [])
     else if find_command (pg w) (tc_task_id c) \<noteq> None then Inl (Exn UniqueViolationError [])
     else if (\<exists>e\<in>set (task_commands (pg w)). tc_user_id e = tc_user_id c \<and> tc_idempotency_key c \<noteq> None \<and>
         tc_idempotency_key e = tc_idempotency_key c) then Inl (Exn UniqueViolationError [])
     else if lookup_row us_user_id (tc_user_id c) (users (pg w)) = None then Inl (Exn ForeignKeyViolationError [])
     else Inr (c, (pg w)\<lparr>task_commands := task_commands (pg w) @ [c]\<rparr>))"
    unfolding insert_command_def by (rule sql_okE)
  then show "find_command (pg w) (tc_task_id c) = None" "task_commands (pg w') = task_commands (pg w) @ [a]"
    "a = c\<lparr>tc_created_at := clock w, tc_updated_at := clock w\<rparr>"
    by (auto simp: Let_def split: if_splits)
qed

lemma submit_body_run:
  assumes "submit_body c p w = (Inr (created, a), w')"
  shows "if created then find_command (pg w) (tc_task_id c) = None \<and> task_commands (pg w') = task_commands (pg w) @ [a] \<and>
      (\<exists>now. a = c\<lparr>tc_created_at := now, tc_updated_at := now\<rparr>)
    else task_commands (pg w') = task_commands (pg w)"
proof -
  from assms obtain ex w1 where ex: "find_by_idempotency (tc_user_id c) (tc_idempotency_key c) w = (Inr ex, w1)"
    and run: "(case ex of Some c \<Rightarrow> returnM (False, c)
     | None \<Rightarrow> bindE (insert_command c) (\<lambda>c'. bindE (insert_outbox (tc_task_id c) ''task.requested'' ''tasks.requested'' p)
         (\<lambda>_. returnM (True, c')))) w1 = (Inr (created, a), w')"
    unfolding submit_body_def by (elim bindE_okE)
  have w1: "pg w1 = pg w"
    using ex by (auto simp: find_by_idempotency_def split: option.splits elim: sql_read_okE)
  show ?thesis
  proof (cases ex)
    case None
    with run obtain w2 where ins: "insert_command c w1 = (Inr a, w2)" and created
      and out: "\<exists>w3. insert_outbox (tc_task_id c) ''task.requested'' ''tasks.requested'' p w2 = (Inr (), w3) \<and> w' = w3"
      by (auto simp: bindE_ok)
    have "task_commands (pg w') = task_commands (pg w2)"
      using out keepsD [OF keeps_commands(1) [where X = "task_commands (pg w2)"], of w2] by (metis snd_conv)
    with insert_command_run [OF ins] w1 \<open>created\<close> show ?thesis by auto
  next
    case (Some c')
    with run w1 show ?thesis by auto
  qed
qed

lemma db_only_submit [db_rules]: "db_only (submit_body c p)"
  unfolding submit_body_def find_by_idempotency_def insert_command_def by (intro db_rules)

lemma submit_cases:
  assumes "submit_task_command task_id u tier mode mc x y cost t url key p w = (r, w')"
  obtains (unchanged) "task_commands (pg w') = task_commands (pg w)" "kv w' = kv w" "\<And>c. r \<noteq> Inr (True, c)"
    | (admitted) c where "find_command (pg w) task_id = None" "task_commands (pg w') = task_commands (pg w) @ [c]"
      "new_command task_id u cost t c" "kv w' = kv w" "r = Inr (True, c) \<or> (\<exists>e. r = Inl e)"
proof -
  have kv: "kv w' = kv w"
    using assms unfolding submit_task_command_def by (rule db_only_run [rotated]) (intro db_rules)
  from assms show thesis unfolding submit_task_command_def
  proof (cases rule: in_transaction)
    case (undone e)
    with kv show ?thesis by (intro unchanged) auto
  next
    case (ran a fs w1)
    obtain created c where a: "a = (created, c)" by (cases a)
    note body = submit_body_run [OF ran(1) [unfolded a]]
    show ?thesis
    proof (cases created)
      case True
      with body ran(2,3) kv a show ?thesis by (intro admitted [of c]) (auto simp: new_command_def)
    next
      case False
      with body ran(2,3) kv a show ?thesis by (intro unchanged) auto
    qed
  qed
qed

lemma moves_submit_command:
  "moves b h (unused_hold t) (submit_task_command task_id u tier mode mc x y cost t url key p) (\<lambda>_ _. True)"
proof (rule movesI)
  fix w r w'
  assume un: "unused_hold t (sys h w)" and run: "submit_task_command task_id u tier mode mc x y cost t url key p w = (r, w')"
  from run have "s3_step (bl_ledger_id b) (sys h w) (sys h w')"
  proof (cases rule: submit_cases)
    case unchanged
    then show ?thesis unfolding sys_def by (simp add: s3_step.frame)
  next
    case (admitted c)
    show ?thesis unfolding sys_def admitted(4)
      using un admitted by (intro s3_step.admit [of _ c]) (auto simp: new_command_def unused_hold_def sys_def)
  qed
  then show "(s3_step (bl_ledger_id b))\<^sup>*\<^sup>* (sys h w) (sys h w') \<and> (\<forall>a. r = Inr a \<longrightarrow> True)" by blast
qed

section \<open>Every handler takes steps of the system\<close>

lemma quiet_api [quiet_rules]:
  "quiet h (require_scopes user scopes)" "quiet h (over_limit rt user)" "quiet h (cache_task_state rt c)"
  "quiet h (cache_cancelled rt c task_id)" "quiet h (get_task_command task_id)"
  "quiet h (fetch_active_user_by_api_key sha key)" "quiet h (derive_transfer_id uuid5 u a n reason k)"
  unfolding over_limit_def cache_task_state_def cache_cancelled_def get_task_command_def fetch_active_user_by_api_key_def
    derive_transfer_id_def
  by (auto intro!: quiet_rules simp: require_scopes_def split: list.split)

lemma moves_release:
  assumes "tb_history (bl_client b) h" "rt_billing_client rt = Some b"
  shows "moves b h P (release_pending_transfer rt t req) (\<lambda>_ _. True)"
  unfolding release_pending_transfer_def assms(2) option.case
  by (rule moves_weaken [OF moves_void [OF assms(1)]]) auto

lemma moves_then: "moves b h P m (\<lambda>_ _. True) \<Longrightarrow> (\<And>a. moves b h (\<lambda>_. True) (f a) (\<lambda>_ _. True)) \<Longrightarrow>
    moves b h P (bindE m f) (\<lambda>_ _. True)"
  by (rule moves_bind)

lemma moves_try: "moves b h P m (\<lambda>_ _. True) \<Longrightarrow> moves b h P (attempt m) (\<lambda>_ _. True)"
  by (rule moves_weaken [OF moves_attempt [where P = P and Q = "\<lambda>_ _. True", OF _ lasting_True]]) auto

lemma moves_quiet_first:
  "quiet h m \<Longrightarrow> (\<And>a. moves b h P (f a) Q) \<Longrightarrow> moves b h P (bindE m f) Q"
  by (rule moves_bind [OF moves_quiet])

lemma moves_persist:
  assumes "tb_history (bl_client b) h" "rt_billing_client rt = Some b"
  shows "moves b h (unused_hold t) (persist_submission rt payload user task_id t key cost) (\<lambda>_ _. True)"
  unfolding persist_submission_def Let_def
proof (rule moves_then [OF moves_try [OF moves_submit_command]], rule moves_sum)
  show "moves b h (\<lambda>_. True) (bindE (release_pending_transfer rt t True) (\<lambda>_. raiseM (exn_kind e) (exn_text e))) (\<lambda>_ _. True)" for e
    by (intro moves_then moves_release [OF assms] moves_stay quiet_rules)
next
  fix a :: "bool \<times> TaskCommand"
  obtain created c where a: "a = (created, c)" by (cases a)
  show "moves b h (\<lambda>_. True) (case a of (created, command) \<Rightarrow>
         if created then
           bindE (if rt_redis_client rt
             then bindE (redis_call (incr_by (active_counter_key (au_user_id user)) 1)) (\<lambda>_. returnM ())
             else returnM ()) (\<lambda>_. bindE (cache_task_state rt command) (\<lambda>_.
           returnM (JSONResponse (if created then 201 else 200)
             (submit_response_json (rt_show_time rt) command (st_task_result_ttl_seconds (rt_settings rt))))))
         else bindE (release_pending_transfer rt t True) (\<lambda>released.
           if \<not> released then degraded ''Billing backend unavailable''
           else if \<not> same_payload command payload cost
           then returnM (api_error_response 409 ''CONFLICT'' ''Idempotency key reused with different payload'')
           else bindE (cache_task_state rt command) (\<lambda>_.
           returnM (JSONResponse (if created then 201 else 200)
             (submit_response_json (rt_show_time rt) command (st_task_result_ttl_seconds (rt_settings rt))))))) (\<lambda>_ _. True)"
    unfolding a prod.case
    by (intro moves_if moves_then moves_release [OF assms]) (auto intro!: moves_stay quiet_rules)
qed

lemma moves_submit_task:
  assumes "tb_history (bl_client b) h" "rt_billing_client rt = Some b"
  shows "moves b h (\<lambda>_. True) (submit_task ip6 rt payload user key) (\<lambda>_ _. True)"
proof -
  let ?cost = "task_cost_for_model (st_task_cost (rt_settings rt)) (sq_model_class payload)"
  have reserved: "moves b h (\<lambda>_. True) (bindE (reserve_credits b (au_user_id user) t ?cost) (\<lambda>reserve_result.
     if reserve_result = INSUFFICIENT_CREDITS
     then returnM (api_error_response 402 ''INSUFFICIENT_CREDITS'' ''Insufficient credits'')
     else if reserve_result \<noteq> ACCEPTED then degraded ''Billing backend unavailable'' else
     bindE (over_limit rt user) (\<lambda>over.
     if over then bindE (release_pending_transfer rt t True) (\<lambda>_. too_many) else
     persist_submission rt payload user i t v ?cost))) (\<lambda>_ _. True)" for t i v
  proof (rule moves_bind [OF moves_reserve [OF assms(1)]])
    fix res
    show "moves b h (\<lambda>s. res = ACCEPTED \<longrightarrow> unused_hold t s) (if res = INSUFFICIENT_CREDITS
       then returnM (api_error_response 402 ''INSUFFICIENT_CREDITS'' ''Insufficient credits'')
       else if res \<noteq> ACCEPTED then degraded ''Billing backend unavailable'' else
       bindE (over_limit rt user) (\<lambda>over.
       if over then bindE (release_pending_transfer rt t True) (\<lambda>_. too_many) else
       persist_submission rt payload user i t v ?cost)) (\<lambda>_ _. True)"
    proof (rule moves_if, rule moves_stay, rule quiet_rules, rule moves_if, rule moves_stay, rule quiet_rules,
        rule moves_quiet_first, rule quiet_rules, rule moves_if)
      show "moves b h (\<lambda>s. res = ACCEPTED \<longrightarrow> unused_hold t s)
          (bindE (release_pending_transfer rt t True) (\<lambda>_. too_many)) (\<lambda>_ _. True)"
        by (intro moves_then moves_release [OF assms] moves_stay quiet_rules)
    next
      assume "\<not> res \<noteq> ACCEPTED"
      then show "moves b h (\<lambda>s. res = ACCEPTED \<longrightarrow> unused_hold t s) (persist_submission rt payload user i t v ?cost) (\<lambda>_ _. True)"
        by (intro moves_weaken [OF moves_persist [OF assms]]) auto
    qed
  qed
  show ?thesis
    unfolding submit_task_def assms(2) option.case Let_def
    by (intro moves_quiet_first moves_if moves_sum moves_stay quiet_rules reserved)
qed

lemma moves_cancel_task:
  assumes "tb_history (bl_client b) h" "rt_billing_client rt = Some b"
  shows "moves b h (\<lambda>_. True) (cancel_task rt task_id user) (\<lambda>_ _. True)"
  unfolding cancel_task_def Let_def
  by (intro moves_quiet_first quiet_rules moves_if moves_option moves_then [OF moves_cancel]
      moves_then [OF moves_try [OF moves_release [OF assms]]] moves_stay)

lemma moves_record_topup: "moves b h P (record_admin_credit_topup u n reason a k m t) (\<lambda>_ _. True)"
  unfolding record_admin_credit_topup_def by (intro moves_db_frame keeps_rules db_rules)

lemma moves_admin_credits:
  assumes "tb_history (bl_client b) h" "rt_billing_client rt = Some b"
  shows "moves b h (\<lambda>_. True) (admin_credits sha uuid5 rt payload user) (\<lambda>_ _. True)"
  unfolding admin_credits_def assms(2) option.case
  by (intro moves_quiet_first quiet_rules moves_if moves_option moves_then moves_try moves_ensure_user_account [OF assms(1)]
      moves_topup [OF assms(1)] moves_record_topup moves_sum moves_stay)

end
