(* ===== verification/S3_Demo.thy ===== *)
theory S3_Demo
  imports S3_Handlers
begin

text \<open>
  A concrete client that keeps the promises of \<open>S3_Billing\<close>, and worlds around it, for the witnesses: a ledger
  that records accepted transfers and keeps a balance per account, one client account with 100 credits, and one task of it.
\<close>

type_synonym demo_ledger = "tb_transfer list \<times> (int \<Rightarrow> int)"

definition posted_since_016 :: "int \<Rightarrow> int \<Rightarrow> int" where
  "posted_since_016 r p = (if r = 2 ^ 128 - 1 then p else r)"

definition demo_limited :: "int \<Rightarrow> bool" where
  "demo_limited a \<longleftrightarrow> a < 1000"

definition demo_recorded :: "tb_transfer list \<Rightarrow> tb_transfer \<Rightarrow> tb_transfer" where
  "demo_recorded h x = (if settles x then (case find (\<lambda>p. tr_id p = tr_pending_id x) h of None \<Rightarrow> x
     | Some p \<Rightarrow> x\<lparr>tr_debit_account_id := tr_debit_account_id p, tr_credit_account_id := tr_credit_account_id p\<rparr>) else x)"

definition demo_create :: "tb_transfer \<Rightarrow> demo_ledger \<Rightarrow> tb_result list \<times> demo_ledger" where
  "demo_create x t = (case t of (h, bal) \<Rightarrow>
     let bal' = (\<lambda>a. bal a + balance_change posted_since_016 h x a) in
     if \<not> admissible h x then ([OTHER_RESULT 1], t)
     else if \<not> settles x \<and> demo_limited (tr_debit_account_id x) \<and> bal' (tr_debit_account_id x) < 0 then ([EXCEEDS_CREDITS], t)
     else ([], (h @ [demo_recorded h x], bal')))"

fun demo_create_all :: "tb_transfer list \<Rightarrow> demo_ledger \<Rightarrow> tb_result list \<times> demo_ledger" where
  "demo_create_all [] t = ([], t)"
| "demo_create_all (x # xs) t = (case demo_create x t of (es, t1) \<Rightarrow>
     case demo_create_all xs t1 of (fs, t2) \<Rightarrow> (es @ fs, t2))"

definition demo_client :: "demo_ledger tb_client" where
  "demo_client = \<lparr>create_accounts = (\<lambda>_ t. ([], t)), create_transfers = (\<lambda>_. demo_create_all),
     query_transfers = (\<lambda>f t. take (qf_limit f)
       (filter (\<lambda>x. tr_user_data_128 x = qf_user_data_128 f \<and> tr_ledger x = qf_ledger f) (fst t))),
     lookup_accounts = (\<lambda>_ ids t. map (\<lambda>a. \<lparr>ta_id = a, ta_ledger = 1, ta_code = 10, ta_flags = [],
       ta_debits_pending = 0, ta_debits_posted = 0, ta_credits_posted = snd t a\<rparr>) ids)\<rparr>"

lemma demo_create_cases:
  assumes "create_transfers demo_client now [x] t = (es, t')"
  obtains (refused) "es \<noteq> []" "t' = t"
    | (accepted) "es = []" "admissible (fst t) x" "fst t' = fst t @ [demo_recorded (fst t) x]"
      "snd t' = (\<lambda>a. snd t a + balance_change posted_since_016 (fst t) x a)"
      "settles x \<or> \<not> demo_limited (tr_debit_account_id x) \<or> 0 \<le> snd t' (tr_debit_account_id x)"
  using assms by (cases t) (auto simp: demo_client_def demo_create_def Let_def split: if_splits)

lemma demo_recorded_as: "recorded_as x (demo_recorded h x)"
  by (auto simp: recorded_as_def demo_recorded_def split: option.split)

lemma demo_history: "tb_history demo_client fst"
proof -
  have "if es = [] then admissible (fst t) x \<and> (\<exists>y. recorded_as x y \<and> fst t' = fst t @ [y]) else fst t' = fst t"
    if "create_transfers demo_client now [x] t = (es, t')" for now x t es t'
    using that by (cases rule: demo_create_cases) (auto intro: demo_recorded_as)
  moreover have "fst (snd (create_accounts demo_client as t)) = fst t" for as t by (simp add: demo_client_def)
  moreover have "query_transfers demo_client f t = take (qf_limit f)
      (filter (\<lambda>x. tr_user_data_128 x = qf_user_data_128 f \<and> tr_ledger x = qf_ledger f) (fst t))" for f t
    by (simp add: demo_client_def)
  ultimately show ?thesis unfolding tb_history_def by blast
qed

lemma demo_money: "tb_money demo_client fst posted_since_016 demo_limited"
proof -
  have bal: "available demo_client now t a = snd t a" for now t a
    by (simp add: available_def demo_client_def)
  show ?thesis
    unfolding tb_money_def bal
  proof (intro allI impI)
    fix now x t t'
    assume "create_transfers demo_client now [x] t = ([], t')"
    then show "(\<forall>a. snd t' a = snd t a + balance_change posted_since_016 (fst t) x a) \<and>
        (demo_limited (tr_debit_account_id x) \<and> \<not> settles x \<longrightarrow> 0 \<le> snd t' (tr_debit_account_id x))"
      by (cases rule: demo_create_cases) auto
  qed
qed

definition demo_billing :: "demo_ledger TigerBeetleBilling" where
  "demo_billing = \<lparr>bl_client = demo_client, bl_ledger_id = 1, bl_revenue_account_id = 1000001,
     bl_escrow_account_id = 1000002, bl_pending_timeout_seconds = 600\<rparr>"

lemma demo_billing_history: "tb_history (bl_client demo_billing) fst"
  by (simp add: demo_billing_def demo_history)

definition demo_user :: UserRow where
  "demo_user = \<lparr>us_user_id = 5, us_name = ''alice'', us_role = USER, us_tier = PRO, us_initial_credits = 100,
     us_is_active = True, us_created_at = 0\<rparr>"

definition demo_task :: TaskCommand where
  "demo_task = \<lparr>tc_task_id = 7, tc_user_id = 5, tc_tier = PRO, tc_mode = ASYNC, tc_model_class = SMALL,
     tc_status = PENDING, tc_billing_state = RESERVED, tc_x = 2, tc_y = 3, tc_cost = 10,
     tc_tb_pending_transfer_id = 8, tc_callback_url = None, tc_idempotency_key = Some ''k'',
     tc_created_at = 0, tc_updated_at = 0\<rparr>"

definition demo_db :: "TaskCommand list \<Rightarrow> s3db" where
  "demo_db cs = \<lparr>users = [demo_user], api_keys = [], task_commands = cs, outbox_events = [], inbox_events = [],
     task_query_view = [], checkpoints = [], reconcile_jobs = []\<rparr>"

definition demo_hold :: tb_transfer where
  "demo_hold = hold_transfer demo_billing 5 8 10"

definition demo_kv :: "tb_transfer list \<Rightarrow> (int \<Rightarrow> int) \<Rightarrow> demo_ledger s3kv" where
  "demo_kv h bal = \<lparr>redis = \<lparr>hashes = [], ints = [], sets = [], expiry = []\<rparr>, topics = [], positions = [], commits = [], queues = [], hot_bindings = [],
     unacked = [], warm_model = None, consumers = [], tb_state = (h, bal)\<rparr>"

definition demo_world :: "TaskCommand list \<Rightarrow> tb_transfer list \<Rightarrow> fault list \<Rightarrow> (s3db, demo_ledger s3kv) world" where
  "demo_world cs h fs = \<lparr>pg = demo_db cs, kv = demo_kv h (\<lambda>_. 100), clock = 1700000000000000, faults = fs,
     entropy = [21, 22, 23, 24, 25, 26, 27, 28, 29]\<rparr>"

lemma demo_key: "uuid_to_u128 8 = 8" "uuid_to_u128 5 = 5"
  by code_simp+

lemma s3_demo_inv: "s3_inv 1 (sys fst (demo_world [demo_task] [demo_hold] fs))"
proof -
  have "labelled 1 demo_hold" by (simp add: demo_hold_def labelled_def settles_def has_flag_def hold_transfer_def demo_billing_def)
  moreover have "tr_id demo_hold = 8" "has_flag PENDING_TRANSFER demo_hold" "\<not> settles demo_hold"
    by (simp_all add: demo_hold_def hold_transfer_def demo_key has_flag_def settles_def)
  moreover have "hold_key demo_task = 8" by (simp add: demo_task_def demo_key)
  ultimately show ?thesis
    by (simp add: s3_inv_def sys_def demo_world_def demo_kv_def demo_db_def keyed_def aligned_def book_ok_def held_in_def)
       (simp add: demo_task_def)
qed

end
