(* ===== verification/S3_Relay.thy ===== *)
theory S3_Relay
  imports S3_Worker
begin

text \<open>
  Solution 3, \<open>workers/outbox_relay.py\<close> and \<open>workers/dispatcher.py\<close>: the way of an event from the outbox to a topic of
  Redpanda, and of a requested task from the topic to a queue of RabbitMQ.  An event is marked and an offset
  committed only after the delivery, so nothing is lost, whatever fails.
\<close>

section \<open>The outbox relay\<close>

definition outbox_message :: "OutboxEventRecord \<Rightarrow> (string \<times> string option) list \<times> jtext" where
  "outbox_message event = ([(''event_id'', Some (uuid_str (ob_event_id event)))], Decoded (JObj (ob_payload event)))"

text \<open>\<open>send\<close> may raise at once; otherwise the delivery goes on and its outcome is the future's.\<close>

definition produce :: "OutboxEventRecord \<Rightarrow> ('t, exn + unit) app3" where
  "produce event = bindE (broker_call (\<lambda>k. k)) (\<lambda>_.
     attempt (append_record (ob_topic event) (fst (outbox_message event)) (snd (outbox_message event))))"

fun produce_all :: "OutboxEventRecord list \<Rightarrow> ('t, (exn + unit) list) app3" where
  "produce_all [] = returnM []"
| "produce_all (event # events) = bindE (produce event) (\<lambda>f. bindE (produce_all events) (\<lambda>fs. returnM (f # fs)))"

text \<open>\<open>flush\<close>: waits for the buffer, then asks every future.\<close>

fun ask_futures :: "(exn + unit) list \<Rightarrow> exn + unit" where
  "ask_futures [] = Inr ()"
| "ask_futures (f # fs) = then_ok f (\<lambda>_. ask_futures fs)"

definition flush :: "(exn + unit) list \<Rightarrow> ('t, unit) app3" where
  "flush futures = bindE (broker_call (\<lambda>k. k)) (\<lambda>_. liftE (ask_futures futures))"

definition relay_once :: "nat \<Rightarrow> ('t, nat) app3" where
  "relay_once batch_size = bindE (fetch_unpublished_outbox_events batch_size) (\<lambda>events.
     if events = [] then returnM 0 else
     bindE (produce_all events) (\<lambda>futures.
     bindE (flush futures) (\<lambda>_.
     bindE (mark_outbox_events_published (map ob_event_id events)) (\<lambda>_. returnM (length events)))))"

section \<open>The dispatcher\<close>

definition encode_task_requested_event :: "dict \<Rightarrow> jtext" where
  "encode_task_requested_event event = Decoded (JObj event)"

text \<open>
  The headers exchange \<open>preloaded\<close> routes to the hot queue that is bound for the model class, its alternate exchange
  to the cold queue.
\<close>

definition dispatch_queue :: "dict \<Rightarrow> ModelClass list \<Rightarrow> string" where
  "dispatch_queue event bound = (case dict_get event ''model_class'' of
       Some (JStr s) \<Rightarrow> (case find (\<lambda>c. ModelClass_value c = s) bound of Some c \<Rightarrow> hot_queue_name c | None \<Rightarrow> ''cold'')
     | _ \<Rightarrow> ''cold'')"

definition dispatch_requested_task :: "dict \<Rightarrow> jtext \<Rightarrow> ('t, unit) app3" where
  "dispatch_requested_task event raw_payload =
     (if list_ex (\<lambda>key. \<not> truthy (dict_get_or event key JNull)) [''task_id'', ''model_class'', ''tier'']
      then raiseM ValueError ''task_id, model_class, and tier are required''
      else broker_call (\<lambda>k. push_back (dispatch_queue event (hot_bindings k)) raw_payload k))"

fun dispatch_messages :: "KafkaRecord list \<Rightarrow> ('t, unit) app3" where
  "dispatch_messages [] = returnM ()"
| "dispatch_messages (message # messages) = (case kr_value message of
      Undecodable \<Rightarrow> raiseM ValueError ''not a JSON document''
    | Decoded (JObj event) \<Rightarrow> bindE (dispatch_requested_task event (kr_value message)) (\<lambda>_. dispatch_messages messages)
    | Decoded _ \<Rightarrow> raiseM ValueError ''dispatcher message payload must decode to an object'')"

definition dispatcher_group :: string where
  "dispatcher_group = ''solution3-dispatcher''"

definition dispatch_polled_messages :: "nat \<Rightarrow> ('t, nat) app3" where
  "dispatch_polled_messages max_records =
     bindE (kafka_poll dispatcher_group [''tasks.requested''] max_records) (\<lambda>messages.
     if messages = [] then returnM 0 else
     bindE (dispatch_messages messages) (\<lambda>_.
     bindE (kafka_commit dispatcher_group [''tasks.requested'']) (\<lambda>_. returnM (length messages))))"

text \<open>One turn of the loop; after an exception the consumer is closed, and the next turn opens it anew.\<close>

definition dispatcher_turn :: "bool \<Rightarrow> nat \<Rightarrow> ('t, bool) app3" where
  "dispatcher_turn is_open max_records = bindE (attempt (
       bindE (if is_open then returnM () else open_consumer dispatcher_group [''tasks.requested'']) (\<lambda>_.
       dispatch_polled_messages max_records))) (\<lambda>outcome. returnM (case outcome of Inl _ \<Rightarrow> False | Inr _ \<Rightarrow> True))"

section \<open>Nothing leaves the outbox undelivered\<close>

definition in_topic :: "'t s3kv \<Rightarrow> OutboxEventRecord \<Rightarrow> bool" where
  "in_topic k e \<longleftrightarrow> (\<exists>r\<in>set (entry [] (topics k) (ob_topic e)). kr_headers r = fst (outbox_message e) \<and>
     kr_value r = snd (outbox_message e))"

definition logs_grow :: "'t s3kv \<Rightarrow> 't s3kv \<Rightarrow> bool" where
  "logs_grow k k' \<longleftrightarrow> (\<forall>topic. \<exists>l. entry [] (topics k') topic = entry [] (topics k) topic @ l)"

lemma logs_grow_refl [simp]: "logs_grow k k"
  by (simp add: logs_grow_def)

lemma logs_grow_trans: "logs_grow k k1 \<Longrightarrow> logs_grow k1 k2 \<Longrightarrow> logs_grow k k2"
  unfolding logs_grow_def by (metis append_assoc)

lemma in_topic_grow: "in_topic k e \<Longrightarrow> logs_grow k k' \<Longrightarrow> in_topic k' e"
  unfolding in_topic_def logs_grow_def by (metis Un_iff set_append)

lemma broker_call_cases:
  assumes "broker_call f w = (r, w')"
  obtains (undone) e where "r = Inl e" "kv w' = kv w" "pg w' = pg w"
    | (ran) "kv w' = (f (kv w))\<lparr>tb_state := tb_state (kv w)\<rparr>" "pg w' = pg w" "r = Inr () \<or> (\<exists>e. r = Inl e)"
proof -
  define g :: "int \<Rightarrow> 'a s3kv \<Rightarrow> exn + unit \<times> 'a s3kv" where
    "g = (\<lambda>_ k. Inr ((), (f k)\<lparr>tb_state := tb_state k\<rparr>))"
  have call: "remote g w = (r, w')" using assms by (simp add: broker_call_def g_def)
  then have pg: "pg w' = pg w" using remote_pg [of g w] by simp
  from call show thesis
  proof (cases rule: remote_cases)
    case (undone e)
    then show ?thesis using pg by (intro that(1) [of e]) simp_all
  next
    case (ran a)
    then show ?thesis using pg by (intro that(2)) (auto simp: g_def)
  qed
qed

lemma produce_run:
  assumes "produce e w = (r, w')"
  shows "pg w' = pg w \<and> logs_grow (kv w) (kv w') \<and> (r = Inr (Inr ()) \<longrightarrow> in_topic (kv w') e)"
  using assms unfolding produce_def
proof (cases rule: bindE_cases)
  case (raised x)
  from raised(1) show ?thesis by (cases rule: broker_call_cases) (use raised(2) in \<open>auto simp: logs_grow_def\<close>)
next
  case (ran u w1)
  from ran(1) have w1: "pg w1 = pg w" "topics (kv w1) = topics (kv w)"
    by (cases rule: broker_call_cases; simp)+
  define q where "q = fst (append_record (ob_topic e) (fst (outbox_message e)) (snd (outbox_message e)) w1)"
  have q: "append_record (ob_topic e) (fst (outbox_message e)) (snd (outbox_message e)) w1 = (q, w')" "r = Inr q"
    using ran(2) by (auto simp: attempt_def q_def)
  from q(1) show ?thesis unfolding append_record_def
  proof (cases rule: broker_call_cases)
    case (undone x)
    with w1 q(2) show ?thesis by (simp add: logs_grow_def)
  next
    case ran
    with w1 q(2) show ?thesis by (auto simp: logs_grow_def in_topic_def Let_def)
  qed
qed

lemma produce_all_run:
  "produce_all es w = (r, w') \<Longrightarrow> pg w' = pg w \<and> logs_grow (kv w) (kv w') \<and>
    (\<forall>fs. r = Inr fs \<longrightarrow> ask_futures fs = Inr () \<longrightarrow> (\<forall>e\<in>set es. in_topic (kv w') e))"
proof (induction es arbitrary: w r w')
  case (Cons e es)
  from Cons.prems show ?case unfolding produce_all.simps
  proof (cases rule: bindE_cases)
    case (raised x)
    with produce_run [OF raised(1)] show ?thesis by simp
  next
    case (ran f w1)
    note p = produce_run [OF ran(1)]
    from ran(2) show ?thesis
    proof (cases rule: bindE_cases)
      case (raised x)
      with p Cons.IH [OF raised(1)] show ?thesis by (auto intro: logs_grow_trans)
    next
      case (ran fs w2)
      note IH = Cons.IH [OF ran(1)]
      have "w2 = w'" "r = Inr (f # fs)" using ran(2) by (auto simp: returnM_def)
      with p IH show ?thesis by (cases f) (auto intro: logs_grow_trans in_topic_grow)
    qed
  qed
qed (simp add: returnM_def)

text \<open>An event of the outbox is waiting or was delivered.\<close>

definition relayed :: "s3db \<Rightarrow> 't s3kv \<Rightarrow> s3db \<Rightarrow> 't s3kv \<Rightarrow> bool" where
  "relayed d k d' k' \<longleftrightarrow> logs_grow k k' \<and> task_commands d' = task_commands d \<and>
     (\<forall>e\<in>set (outbox_events d). ob_published_at e = None \<longrightarrow> e \<in> set (outbox_events d') \<or>
        in_topic k' e \<and> (\<exists>t. e\<lparr>ob_published_at := Some t\<rparr> \<in> set (outbox_events d')))"

lemma flush_run:
  assumes "flush fs w = (r, w')"
  shows "pg w' = pg w \<and> topics (kv w') = topics (kv w) \<and> (\<forall>u. r = Inr u \<longrightarrow> ask_futures fs = Inr ())"
  using assms unfolding flush_def
proof (cases rule: bindE_cases)
  case (raised x)
  from raised(1) show ?thesis by (cases rule: broker_call_cases) (use raised(2) in auto)
next
  case (ran u w1)
  have "w' = w1" "r = ask_futures fs" using ran(2) by (auto simp: liftE_def)
  moreover from ran(1) have "pg w1 = pg w \<and> topics (kv w1) = topics (kv w)" by (cases rule: broker_call_cases) simp_all
  ultimately show ?thesis by simp
qed

definition mark_events :: "int \<Rightarrow> OutboxEventRecord list \<Rightarrow> OutboxEventRecord list \<Rightarrow> OutboxEventRecord list" where
  "mark_events now es t = update_rows (\<lambda>e. List.member (map ob_event_id es) (ob_event_id e)) (\<lambda>e. e\<lparr>ob_published_at := Some now\<rparr>) t"

lemma mark_run:
  assumes "es \<noteq> []" "bindE (mark_outbox_events_published (map ob_event_id es)) (\<lambda>_. returnM (length es)) w = (r, w')"
  shows "kv w' = kv w \<and> (pg w' = pg w \<or> pg w' = (pg w)\<lparr>outbox_events := mark_events (clock w) es (outbox_events (pg w))\<rparr>)"
proof -
  obtain q where q: "mark_outbox_events_published (map ob_event_id es) w = (q, w')"
    using assms(2) by (cases rule: bindE_cases) (auto simp: returnM_def)
  then have m: "sql (\<lambda>now d. Inr ((), d\<lparr>outbox_events := mark_events now es (outbox_events d)\<rparr>)) w = (q, w')"
    using assms(1) by (simp add: mark_outbox_events_published_def mark_events_def)
  have "kv w' = kv w" using sql_kv [of "\<lambda>now d. Inr ((), d\<lparr>outbox_events := mark_events now es (outbox_events d)\<rparr>)" w] m by simp
  moreover from m have "pg w' = pg w \<or> pg w' = (pg w)\<lparr>outbox_events := mark_events (clock w) es (outbox_events (pg w))\<rparr>"
    by (cases rule: sql_cases) simp_all
  ultimately show ?thesis by simp
qed

lemma mark_events_member:
  assumes "e \<in> set t" "keyed ob_event_id t" "set es \<subseteq> set t"
  shows "if e \<in> set es then e\<lparr>ob_published_at := Some now\<rparr> \<in> set (mark_events now es t) else e \<in> set (mark_events now es t)"
proof -
  have "ob_event_id e \<in> ob_event_id ` set es \<longleftrightarrow> e \<in> set es"
  proof
    assume "ob_event_id e \<in> ob_event_id ` set es"
    then obtain f where f: "f \<in> set es" "ob_event_id f = ob_event_id e" by auto
    then have "f \<in> set t" using assms(3) by auto
    with f lookup_row_member [OF assms(2) assms(1)] lookup_row_member [OF assms(2), of f] show "e \<in> set es" by simp
  qed simp
  with assms(1) show ?thesis by (auto simp: mark_events_def update_rows_def image_iff)
qed

lemma relay_once_run:
  assumes keyed: "keyed ob_event_id (outbox_events (pg w))" and run: "relay_once n w = (r, w')"
  shows "relayed (pg w) (kv w) (pg w') (kv w')"
  using run unfolding relay_once_def
proof (cases rule: bindE_cases)
  case (raised x)
  then have "pg w' = pg w \<and> kv w' = kv w"
    using sql_read_frame [of "\<lambda>_ d. oldest_rows (\<lambda>e. ob_published_at e = None) ob_created_at n (outbox_events d)" w]
    by (simp add: fetch_unpublished_outbox_events_def)
  then show ?thesis by (simp add: relayed_def)
next
  case (ran es w1)
  from ran(1) have es: "es = oldest_rows (\<lambda>e. ob_published_at e = None) ob_created_at n (outbox_events (pg w))"
    and w1: "pg w1 = pg w" "kv w1 = kv w"
    unfolding fetch_unpublished_outbox_events_def by (rule sql_read_okE, simp)+
  have sub: "set es \<subseteq> set (outbox_events (pg w))"
    unfolding es oldest_rows_def using set_take_subset by fastforce
  have waiting: "relayed (pg w) (kv w) (pg w2) (kv w2)" if "pg w2 = pg w" "logs_grow (kv w) (kv w2)" for w2 :: "(s3db, 'a s3kv) world"
    using that by (simp add: relayed_def)
  show ?thesis
  proof (cases "es = []")
    case True
    with ran(2) w1 waiting [of w1] show ?thesis by (auto simp: returnM_def)
  next
    case False
    with ran(2) have "bindE (produce_all es) (\<lambda>futures. bindE (flush futures) (\<lambda>_.
       bindE (mark_outbox_events_published (map ob_event_id es)) (\<lambda>_. returnM (length es)))) w1 = (r, w')" by simp
    then show ?thesis
    proof (cases rule: bindE_cases)
      case (raised x)
      with produce_all_run [OF raised(1)] w1 waiting [of w'] show ?thesis by simp
    next
      case (ran fs w2)
      note prod = produce_all_run [OF ran(1)]
      from ran(2) show ?thesis
      proof (cases rule: bindE_cases)
        case (raised x)
        from flush_run [OF raised(1)] prod w1 show ?thesis by (intro waiting) (simp_all add: logs_grow_def)
      next
        case (ran u w3)
        note fl = flush_run [OF ran(1)]
        note mk = mark_run [OF False ran(2)]
        have same: "pg w3 = pg w" using fl prod w1 by simp
        have grow: "logs_grow (kv w) (kv w')" and all: "\<forall>e\<in>set es. in_topic (kv w') e"
          using prod w1 fl mk by (simp_all add: logs_grow_def in_topic_def)
        from mk show ?thesis
        proof (elim conjE disjE)
          assume "pg w' = pg w3"
          with grow same show ?thesis by (intro waiting) simp_all
        next
          assume upd: "pg w' = (pg w3)\<lparr>outbox_events := mark_events (clock w3) es (outbox_events (pg w3))\<rparr>"
          have "e \<in> set (outbox_events (pg w')) \<or> in_topic (kv w') e \<and>
              (\<exists>t. e\<lparr>ob_published_at := Some t\<rparr> \<in> set (outbox_events (pg w')))"
            if e: "e \<in> set (outbox_events (pg w))" for e
            using mark_events_member [OF e keyed sub, of "clock w3"] all unfolding upd same by (auto split: if_splits)
          with grow same upd show ?thesis by (simp add: relayed_def)
        qed
      qed
    qed
  qed
qed

section \<open>Nothing is committed undispatched\<close>

abbreviation requested_log :: "'t s3kv \<Rightarrow> KafkaRecord list" where
  "requested_log k \<equiv> entry [] (topics k) ''tasks.requested''"

abbreviation dispatch_position :: "'t s3kv \<Rightarrow> nat" where
  "dispatch_position k \<equiv> entry 0 (positions k) (dispatcher_group, ''tasks.requested'')"

abbreviation dispatch_commit :: "'t s3kv \<Rightarrow> nat" where
  "dispatch_commit k \<equiv> entry 0 (commits k) (dispatcher_group, ''tasks.requested'')"

definition queued :: "'t s3kv \<Rightarrow> jtext \<Rightarrow> bool" where
  "queued k m \<longleftrightarrow> (\<exists>q. m \<in> set (entry [] (queues k) q))"

lemma queued_push [simp]: "queued (push_back q m k) x \<longleftrightarrow> queued k x \<or> x = m"
  by (auto simp: queued_def push_back_def split: if_splits)

definition same_consumer :: "'t s3kv \<Rightarrow> 't s3kv \<Rightarrow> bool" where
  "same_consumer k k' \<longleftrightarrow> topics k' = topics k \<and> positions k' = positions k \<and> commits k' = commits k \<and>
     (\<forall>m. queued k m \<longrightarrow> queued k' m)"

lemma same_consumer_refl [simp]: "same_consumer k k"
  by (simp add: same_consumer_def)

lemma same_consumer_trans: "same_consumer k k1 \<Longrightarrow> same_consumer k1 k2 \<Longrightarrow> same_consumer k k2"
  by (simp add: same_consumer_def)

lemma dispatch_task_run:
  assumes "dispatch_requested_task event m w = (r, w')"
  shows "same_consumer (kv w) (kv w') \<and> (\<forall>u. r = Inr u \<longrightarrow> queued (kv w') m)"
proof (cases "list_ex (\<lambda>key. \<not> truthy (dict_get_or event key JNull)) [''task_id'', ''model_class'', ''tier'']")
  case True
  with assms show ?thesis unfolding dispatch_requested_task_def by (auto simp: raiseM_def)
next
  case False
  then have "broker_call (\<lambda>k. push_back (dispatch_queue event (hot_bindings k)) m k) w = (r, w')"
    using assms unfolding dispatch_requested_task_def by simp
  then show ?thesis
  proof (cases rule: broker_call_cases)
    case ran
    have "queued (kv w') x \<longleftrightarrow> queued (kv w) x \<or> x = m" for x
      using queued_push [of "dispatch_queue event (hot_bindings (kv w))" m "kv w" x] ran(1) by (simp add: queued_def)
    with ran(1) show ?thesis by (auto simp: same_consumer_def push_back_def)
  qed simp
qed

lemma dispatch_messages_run:
  "dispatch_messages ms w = (r, w') \<Longrightarrow>
   same_consumer (kv w) (kv w') \<and> (\<forall>u. r = Inr u \<longrightarrow> (\<forall>m\<in>set ms. queued (kv w') (kr_value m)))"
proof (induction ms arbitrary: w r w')
  case (Cons m ms)
  show ?case
  proof (cases "\<exists>event. kr_value m = Decoded (JObj event)")
    case True
    then obtain event where ev: "kr_value m = Decoded (JObj event)" by blast
    with Cons.prems have "bindE (dispatch_requested_task event (kr_value m)) (\<lambda>_. dispatch_messages ms) w = (r, w')" by simp
    then show ?thesis
    proof (cases rule: bindE_cases)
      case (raised e)
      with dispatch_task_run [OF raised(1)] show ?thesis by simp
    next
      case (ran u w1)
      note 1 = dispatch_task_run [OF ran(1)] and 2 = Cons.IH [OF ran(2)]
      from 1 2 show ?thesis by (auto simp: same_consumer_def)
    qed
  next
    case False
    with Cons.prems show ?thesis by (auto simp: raiseM_def split: jtext.splits json.splits)
  qed
qed (simp add: returnM_def)

text \<open>Between two turns an open consumer stands at its committed offset.\<close>

definition dispatcher_ready :: "bool \<Rightarrow> 't s3kv \<Rightarrow> bool" where
  "dispatcher_ready is_open k \<longleftrightarrow> (is_open \<longrightarrow> dispatch_position k = dispatch_commit k)"

definition dispatched_between :: "'t s3kv \<Rightarrow> 't s3kv \<Rightarrow> bool" where
  "dispatched_between k k' \<longleftrightarrow> requested_log k' = requested_log k \<and> dispatch_commit k \<le> dispatch_commit k' \<and>
     (\<forall>m\<in>set (take (dispatch_commit k' - dispatch_commit k) (drop (dispatch_commit k) (requested_log k))). queued k' (kr_value m))"

lemma broker_read_cases:
  fixes f :: "'t s3kv \<Rightarrow> 'a \<times> 't s3kv" and w :: "(s3db, 't s3kv) world"
  assumes "broker_read f w = (r, w')"
  obtains (undone) e where "r = Inl e" "kv w' = kv w"
    | (ran) a k where "f (kv w) = (a, k)" "kv w' = k\<lparr>tb_state := tb_state (kv w)\<rparr>" "r = Inr a \<or> (\<exists>e. r = Inl e)"
proof -
  define g :: "int \<Rightarrow> 't s3kv \<Rightarrow> exn + 'a \<times> 't s3kv" where
    "g = (\<lambda>_ k. case f k of (a, k') \<Rightarrow> Inr (a, k'\<lparr>tb_state := tb_state k\<rparr>))"
  have "remote g w = (r, w')" using assms by (simp add: broker_read_def g_def)
  then show thesis
  proof (cases rule: remote_cases)
    case (undone e)
    then show ?thesis by (intro that(1) [of e]) simp_all
  next
    case (ran a)
    obtain b k where fk: "f (kv w) = (b, k)" by fastforce
    with ran show ?thesis by (intro that(2) [of b k]) (auto simp: g_def)
  qed
qed

lemma fetch_one:
  "fetch_from g [t] n k = (ms, k') \<Longrightarrow> ms = take n (drop (entry 0 (positions k) (g, t)) (entry [] (topics k) t)) \<and>
    topics k' = topics k \<and> commits k' = commits k \<and> queues k' = queues k \<and>
    entry 0 (positions k') (g, t) = entry 0 (positions k) (g, t) + length ms"
  by (auto simp: Let_def)

lemma dispatch_polled_run:
  assumes ready: "dispatch_position (kv w) = dispatch_commit (kv w)" and run: "dispatch_polled_messages n w = (r, w')"
  shows "dispatched_between (kv w) (kv w') \<and> (\<forall>m. r = Inr m \<longrightarrow> dispatch_position (kv w') = dispatch_commit (kv w'))"
  using run unfolding dispatch_polled_messages_def kafka_poll_def
proof (cases rule: bindE_cases)
  case (raised e)
  from raised(1) show ?thesis
  proof (cases rule: broker_read_cases)
    case (undone x)
    with raised(2) show ?thesis by (simp add: dispatched_between_def)
  next
    case (ran ms k)
    with fetch_one [OF ran(1)] raised(2) show ?thesis by (simp add: dispatched_between_def)
  qed
next
  case (ran ms w1)
  from ran(1) obtain k where f: "fetch_from dispatcher_group [''tasks.requested''] n (kv w) = (ms, k)"
    and w1: "kv w1 = k\<lparr>tb_state := tb_state (kv w)\<rparr>" by (cases rule: broker_read_cases) auto
  note ms = fetch_one [OF f]
  show ?thesis
  proof (cases "ms = []")
    case True
    with ran(2) w1 ms ready show ?thesis by (auto simp: dispatched_between_def returnM_def)
  next
    case False
    with ran(2) have "bindE (dispatch_messages ms) (\<lambda>_. bindE (kafka_commit dispatcher_group [''tasks.requested''])
      (\<lambda>_. returnM (length ms))) w1 = (r, w')" by simp
    then show ?thesis
    proof (cases rule: bindE_cases)
      case (raised e)
      with dispatch_messages_run [OF raised(1)] w1 ms show ?thesis by (simp add: same_consumer_def dispatched_between_def)
    next
      case (ran u w2)
      note d = dispatch_messages_run [OF ran(1)]
      from ran(2) obtain q where q: "kafka_commit dispatcher_group [''tasks.requested''] w2 = (q, w')" "\<And>m. r = Inr m \<Longrightarrow> \<exists>u. q = Inr u"
        by (cases rule: bindE_cases) (auto simp: returnM_def)
      have taken: "take (length ms) (drop (dispatch_commit (kv w)) (requested_log (kv w))) = ms"
        using ms ready by (metis append_eq_conv_conj append_take_drop_id)
      from q(1) show ?thesis unfolding kafka_commit_def
      proof (cases rule: broker_call_cases)
        case (undone e)
        with q d w1 ms show ?thesis by (auto simp: same_consumer_def dispatched_between_def)
      next
        case ran
        then have c: "dispatch_commit (kv w') = dispatch_commit (kv w) + length ms" "dispatch_position (kv w') = dispatch_commit (kv w')"
          "requested_log (kv w') = requested_log (kv w)" "queues (kv w') = queues (kv w2)"
          using d w1 ms ready by (simp_all add: commit_all_def same_consumer_def)
        with d taken show ?thesis by (simp add: dispatched_between_def queued_def)
      qed
    qed
  qed
qed

lemma dispatcher_turn_run:
  assumes ready: "dispatcher_ready is_open (kv w)" and run: "dispatcher_turn is_open n w = (r, w')"
  shows "dispatched_between (kv w) (kv w') \<and> (\<exists>is_open'. r = Inr is_open' \<and> dispatcher_ready is_open' (kv w'))"
proof -
  let ?open = "if is_open then returnM () else open_consumer dispatcher_group [''tasks.requested'']"
  obtain q where q: "bindE ?open (\<lambda>_. dispatch_polled_messages n) w = (q, w')"
    and r: "r = Inr (case q of Inl _ \<Rightarrow> False | Inr _ \<Rightarrow> True)"
    using run unfolding dispatcher_turn_def by (auto simp: bindE_attempt returnM_def) (metis prod.collapse)
  from q have "dispatched_between (kv w) (kv w') \<and> (\<forall>m. q = Inr m \<longrightarrow> dispatch_position (kv w') = dispatch_commit (kv w'))"
  proof (cases rule: bindE_cases)
    case (raised e)
    then have "\<not> is_open" by (auto simp: returnM_def split: if_splits)
    with raised(1) have "open_consumer dispatcher_group [''tasks.requested''] w = (Inl e, w')" by simp
    then have "dispatched_between (kv w) (kv w')" unfolding open_consumer_def
      by (cases rule: broker_call_cases) (simp_all add: dispatched_between_def rewind_def)
    with raised(2) show ?thesis by simp
  next
    case (ran u w1)
    have w1: "dispatch_position (kv w1) = dispatch_commit (kv w)" "commits (kv w1) = commits (kv w)" "topics (kv w1) = topics (kv w)"
      if "\<not> is_open"
    proof -
      from ran(1) that have "open_consumer dispatcher_group [''tasks.requested''] w = (Inr u, w1)" by simp
      then show "dispatch_position (kv w1) = dispatch_commit (kv w)" "commits (kv w1) = commits (kv w)" "topics (kv w1) = topics (kv w)"
        unfolding open_consumer_def by (cases rule: broker_call_cases; simp add: rewind_def)+
    qed
    have same: "w1 = w" if is_open using ran(1) that by simp
    have "dispatch_position (kv w1) = dispatch_commit (kv w1)"
      using w1 same ready by (cases is_open) (simp_all add: dispatcher_ready_def)
    from dispatch_polled_run [OF this ran(2)] w1 same show ?thesis
      by (cases is_open) (simp_all add: dispatched_between_def)
  qed
  with r show ?thesis by (auto simp: dispatcher_ready_def split: sum.split)
qed

end
