(* ===== verification/S3_Runs.thy ===== *)
theory S3_Runs
  imports S3_Demo S3_Relay
begin

text \<open>
  Runs of Solution 3 without faults, one equation per call, and a runtime, a user and worlds for the witnesses.
\<close>

lemma tb_call_nofault [nofault_simps]:
  "faults w = [] \<Longrightarrow> tb_call f w = (case f (clock w) (tb_state (kv w)) of (a, t) \<Rightarrow> (Inr a, w\<lparr>kv := (kv w)\<lparr>tb_state := t\<rparr>\<rparr>))"
  by (simp add: tb_call_def remote_nofault split: prod.split)

lemma bindE_tb_call_nofault [nofault_simps]:
  "faults w = [] \<Longrightarrow> bindE (tb_call f) g w = (case f (clock w) (tb_state (kv w)) of (a, t) \<Rightarrow> g a (w\<lparr>kv := (kv w)\<lparr>tb_state := t\<rparr>\<rparr>))"
  by (simp add: bindE_def tb_call_nofault split: prod.split)

lemma bindE_redis_call_nofault [nofault_simps]:
  "faults w = [] \<Longrightarrow> bindE (redis_call f) g w = (case f (clock w) (redis (kv w)) of (a, r) \<Rightarrow> g a (w\<lparr>kv := (kv w)\<lparr>redis := r\<rparr>\<rparr>))"
  by (simp add: bindE_def redis_call_nofault split: prod.split)

lemma broker_call_nofault [nofault_simps]:
  "faults w = [] \<Longrightarrow> broker_call f w = (Inr (), w\<lparr>kv := (f (kv w))\<lparr>tb_state := tb_state (kv w)\<rparr>\<rparr>)"
  by (simp add: broker_call_def remote_nofault)

lemma bindE_broker_call_nofault [nofault_simps]:
  "faults w = [] \<Longrightarrow> bindE (broker_call f) g w = g () (w\<lparr>kv := (f (kv w))\<lparr>tb_state := tb_state (kv w)\<rparr>\<rparr>)"
  by (simp add: bindE_def broker_call_nofault)

lemma bindE_memory [nofault_simps]:
  "bindE (memory f) g w = (case f (kv w) of (a, k) \<Rightarrow> g a (w\<lparr>kv := k\<lparr>tb_state := tb_state (kv w)\<rparr>\<rparr>))"
  by (simp add: bindE_def memory_def split: prod.split)

lemma bindE_if [nofault_simps]: "bindE (if c then m else n) f w = (if c then bindE m f w else bindE n f w)"
  by simp

section \<open>Transactions on a task\<close>

definition new_event :: "uuid \<Rightarrow> uuid \<Rightarrow> string \<Rightarrow> string \<Rightarrow> dict \<Rightarrow> int \<Rightarrow> OutboxEventRecord" where
  "new_event i t et topic p now = \<lparr>ob_event_id = i, ob_aggregate_id = t, ob_event_type = et, ob_topic = topic,
     ob_payload = p, ob_published_at = None, ob_created_at = now\<rparr>"

lemma insert_outbox_run:
  assumes "faults w = []" "entropy w = i # is" "lookup_row ob_event_id i (outbox_events (pg w)) = None"
    "length et \<le> 64" "length topic \<le> 128"
  shows "insert_outbox t et topic p w =
    (Inr (), w\<lparr>entropy := is, pg := (pg w)\<lparr>outbox_events := outbox_events (pg w) @ [new_event i t et topic p (clock w)]\<rparr>\<rparr>)"
  using assms by (simp add: insert_outbox_def nofault_simps new_event_def)

lemma update_command_run:
  assumes "faults w = []" "find_command (pg w) t = Some c" "G (clock w) c"
  shows "update_command t G f w = (Inr (Some ((f c)\<lparr>tc_updated_at := clock w\<rparr>)),
    w\<lparr>pg := (pg w)\<lparr>task_commands := update_rows (\<lambda>c. tc_task_id c = t) (\<lambda>c. (f c)\<lparr>tc_updated_at := clock w\<rparr>) (task_commands (pg w))\<rparr>\<rparr>)"
  using assms by (simp add: update_command_def nofault_simps Let_def)

text \<open>The transaction of a task and its event, as one change of the database.\<close>

definition task_and_event :: "uuid \<Rightarrow> (TaskCommand \<Rightarrow> TaskCommand) \<Rightarrow> OutboxEventRecord \<Rightarrow> s3db \<Rightarrow> s3db" where
  "task_and_event t g e d = d\<lparr>task_commands := update_rows (\<lambda>c. tc_task_id c = t) g (task_commands d),
     outbox_events := outbox_events d @ [e]\<rparr>"

lemma task_event_tx:
  assumes "faults w = []" "find_command (pg w) t = Some c" "G (clock w) c" "entropy w = i # is"
    "lookup_row ob_event_id i (outbox_events (pg w)) = None"
    and len: "length et \<le> 64" "length topic \<le> 128"
  shows "acquire (transaction (bindE (update_command t G f) (\<lambda>u. case u of None \<Rightarrow> returnM x | Some c \<Rightarrow>
      bindE (insert_outbox t et topic (p c)) (\<lambda>_. returnM y)))) w =
    (Inr y, w\<lparr>entropy := is, pg := task_and_event t (\<lambda>c. (f c)\<lparr>tc_updated_at := clock w\<rparr>)
       (new_event i t et topic (p ((f c)\<lparr>tc_updated_at := clock w\<rparr>)) (clock w)) (pg w)\<rparr>)"
    (is "acquire (transaction ?m) w = (Inr y, ?w)")
proof -
  have "?m w = (Inr y, ?w)"
    using assms by (simp add: bindE_ran [OF update_command_run] bindE_ran [OF insert_outbox_run] task_and_event_def returnM_def)
  from transaction_nofault [of ?m w, OF this] assms(1) show ?thesis by (simp add: nofault_simps)
qed

lemma find_task_and_event:
  assumes "\<And>c. tc_task_id (g c) = tc_task_id c"
  shows "find_command (task_and_event t g e d) t' = (if t' = t then map_option g (find_command d t') else find_command d t')"
  using assms by (simp add: find_command_def task_and_event_def lookup_row_update_key)

lemma outbox_task_and_event [simp]: "outbox_events (task_and_event t g e d) = outbox_events d @ [e]"
  by (simp add: task_and_event_def)

section \<open>A small deployment\<close>

definition demo_rt :: "demo_ledger RuntimeState" where
  "demo_rt = \<lparr>rt_settings = \<lparr>st_app_env = ''dev'', st_task_cost = 10, st_max_concurrent_free = 1, st_max_concurrent_pro = 3,
     st_max_concurrent_enterprise = 9, st_task_result_ttl_seconds = 3600\<rparr>, rt_db_pool = True, rt_redis_client = True,
     rt_billing_client = Some demo_billing, rt_show_time = str_of_int\<rparr>"

definition demo_owner :: AuthUser where
  "demo_owner = \<lparr>au_api_key = [], au_user_id = 5, au_name = ''alice'', au_role = USER, au_tier = PRO,
     au_scopes = [''task:submit'', ''task:cancel'']\<rparr>"

lemma demo_task_simps [simp]: "tc_task_id demo_task = 7" "tc_user_id demo_task = 5" "tc_cost demo_task = 10"
  "tc_tb_pending_transfer_id demo_task = 8" "tc_status demo_task = PENDING" "tc_billing_state demo_task = RESERVED"
  by (simp_all add: demo_task_def)

lemma demo_db_simps [simp]: "task_commands (demo_db cs) = cs" "outbox_events (demo_db cs) = []"
  by (simp_all add: demo_db_def)

lemma demo_world_simps [simp]:
  "faults (demo_world cs h fs) = fs" "kv (demo_world cs h fs) = demo_kv h (\<lambda>_. 100)" "pg (demo_world cs h fs) = demo_db cs"
  "entropy (demo_world cs h fs) = [21, 22, 23, 24, 25, 26, 27, 28, 29]" "clock (demo_world cs h fs) = 1700000000000000"
  "tb_state (demo_kv h bal) = (h, bal)"
  by (simp_all add: demo_world_def demo_kv_def)

text \<open>The id of a hold in TigerBeetle is the uuid as a number.\<close>

lemma uuid_to_u128_number: "uuid_to_u128 u = uint u"
proof -
  let ?h = "hex_digits 32 (unat u)"
  have "remove_all ''-'' (uuid_str u) = ?h" by (simp add: remove_all_char uuid_str_filter)
  moreover have "py_int_base 16 ?h = Some (int (unat u))"
  proof (rule py_int_digits [OF digit_string_hex])
    have "unat u < 2 ^ 128" using unsigned_less [of u, where 'a = nat] by simp
    then show "digits_val 16 True 0 ?h = Some (unat u)" by (intro digits_val_hex) simp
    show "?h \<noteq> []" using length_hex_digits [of 32 "unat u"] by fastforce
  qed simp
  ultimately show ?thesis by (simp add: uuid_to_u128_def)
qed

lemma demo_billing_simps [simp]: "bl_client demo_billing = demo_client" "bl_ledger_id demo_billing = 1"
   "bl_revenue_account_id demo_billing = 1000001" "bl_escrow_account_id demo_billing = 1000002" "bl_pending_timeout_seconds demo_billing = 600"
  by (simp_all add: demo_billing_def)

lemmas transfer_defs = hold_transfer_def settle_transfer_def topup_transfer_def settles_def has_flag_def admissible_def

lemmas demo_runs = nofault_simps demo_client_def demo_create_def transfer_defs uuid_to_u128_number demo_hold_def balance_change_def returnM_def

end
