(* ===== verification/S3_Messages.thy ===== *)
theory S3_Messages
  imports S3_Runs
begin

text \<open>
  The messages of Solution 3 that ask for a task: in the outbox, in the topic, in the queues and with the workers.  Each
  of them speaks of a task as it was admitted, whatever fails: only a submission makes a new one, in the transaction
  that writes its task, and the relay, the dispatcher and the workers pass them on unchanged.
\<close>

section \<open>Reading a message\<close>

text \<open>The payload that a submission writes is read back as the task.\<close>

lemma require_uuid:
  "dict_get ev k = Some (JStr (uuid_str u)) \<Longrightarrow> require_str ev k = Inr (uuid_str u)"
  by (cases "uuid_str u") (auto simp: require_str_def)

lemma require_value:
  "dict_get ev k = Some (JStr s) \<Longrightarrow> s \<noteq> [] \<Longrightarrow> require_str ev k = Inr s"
  by (cases s) (auto simp: require_str_def)

lemma parse_requested:
  "parse_delivery (Decoded (JObj (requested_payload t u tier mode mc x y cost hold))) now = Inr
    \<lparr>tc_task_id = t, tc_user_id = u, tc_tier = tier, tc_mode = mode, tc_model_class = mc, tc_status = PENDING,
     tc_billing_state = RESERVED, tc_x = x, tc_y = y, tc_cost = cost, tc_tb_pending_transfer_id = hold, tc_callback_url = None,
     tc_idempotency_key = None, tc_created_at = now, tc_updated_at = now\<rparr>"
proof -
  let ?ev = "requested_payload t u tier mode mc x y cost hold"
  have "require_str ?ev ''task_id'' = Inr (uuid_str t)" "require_str ?ev ''user_id'' = Inr (uuid_str u)"
    "require_str ?ev ''tb_pending_transfer_id'' = Inr (uuid_str hold)"
    by (simp_all add: requested_payload_def require_uuid)
  moreover have "require_str ?ev ''tier'' = Inr (SubscriptionTier_value tier)" "require_str ?ev ''mode'' = Inr (RequestMode_value mode)"
    "require_str ?ev ''model_class'' = Inr (ModelClass_value mc)"
    by (simp_all add: requested_payload_def require_value)
  moreover have "require_int ?ev ''x'' = Inr x" "require_int ?ev ''y'' = Inr y" "require_int ?ev ''cost'' = Inr cost"
    by (simp_all add: requested_payload_def require_int_def)
  ultimately show ?thesis by (simp add: parse_delivery_def task_command_from_event_def uuid_roundtrip)
qed

section \<open>All messages that ask for a task\<close>

definition outbox_messages :: "s3db \<Rightarrow> jtext set" where
  "outbox_messages d = (\<lambda>e. Decoded (JObj (ob_payload e))) ` {e \<in> set (outbox_events d). ob_topic e = ''tasks.requested''}"

definition moving_messages :: "'t s3kv \<Rightarrow> jtext set" where
  "moving_messages k = kr_value ` set (entry [] (topics k) ''tasks.requested'') \<union> {m. queued k m} \<union> (snd \<circ> snd) ` set (unacked k)"

definition speaks_of :: "jtext \<Rightarrow> s3db \<Rightarrow> bool" where
  "speaks_of body d \<longleftrightarrow> (\<forall>now task. parse_delivery body now = Inr task \<longrightarrow>
     (\<exists>c. find_command d (tc_task_id task) = Some c \<and> hold_key c = hold_key task))"

lemma genuine_iff: "genuine body s \<longleftrightarrow> speaks_of body (fst s)"
  by (simp add: genuine_def speaks_of_def describes_def)

definition all_genuine :: "s3db \<Rightarrow> 't s3kv \<Rightarrow> bool" where
  "all_genuine d k \<longleftrightarrow> (\<forall>m\<in>outbox_messages d \<union> moving_messages k. speaks_of m d)"

section \<open>Actions that keep them genuine\<close>

definition keeps_genuine :: "('t, 'a) app3 \<Rightarrow> bool" where
  "keeps_genuine m \<longleftrightarrow> (\<forall>w. all_genuine (pg w) (kv w) \<longrightarrow> all_genuine (pg (snd (m w))) (kv (snd (m w))))"

named_theorems genuine_rules

text \<open>A change of the database that keeps the holds of the rows and asks for no task.\<close>

definition passes :: "s3db \<Rightarrow> s3db \<Rightarrow> bool" where
  "passes d d' \<longleftrightarrow> outbox_messages d' \<subseteq> outbox_messages d \<and>
     (\<forall>t c. find_command d t = Some c \<longrightarrow> (\<exists>c'. find_command d' t = Some c' \<and> hold_key c' = hold_key c))"

lemma passes_refl [simp]: "passes d d"
  by (auto simp: passes_def)

lemma passes_trans: "passes d d1 \<Longrightarrow> passes d1 d2 \<Longrightarrow> passes d d2"
  unfolding passes_def by (metis subset_trans)

lemma speaks_of_passes: "speaks_of m d \<Longrightarrow> passes d d' \<Longrightarrow> speaks_of m d'"
  unfolding speaks_of_def passes_def by metis

lemma all_genuine_passes: "all_genuine d k \<Longrightarrow> passes d d' \<Longrightarrow> moving_messages k' \<subseteq> moving_messages k \<Longrightarrow> all_genuine d' k'"
proof -
  assume old: "all_genuine d k" and p: "passes d d'" and sub: "moving_messages k' \<subseteq> moving_messages k"
  have "speaks_of m d'" if "m \<in> outbox_messages d' \<union> moving_messages k'" for m
  proof -
    have "m \<in> outbox_messages d \<union> moving_messages k" using that p sub unfolding passes_def by blast
    with old have "speaks_of m d" unfolding all_genuine_def by blast
    then show ?thesis using p by (rule speaks_of_passes)
  qed
  then show ?thesis unfolding all_genuine_def by blast
qed

definition passing :: "('t, 'a) app3 \<Rightarrow> bool" where
  "passing m \<longleftrightarrow> (\<forall>w. passes (pg w) (pg (snd (m w))) \<and> moving_messages (kv (snd (m w))) \<subseteq> moving_messages (kv w))"

lemma genuine_passing: "passing m \<Longrightarrow> keeps_genuine m"
  unfolding passing_def keeps_genuine_def using all_genuine_passes by blast

lemma passing_pure [genuine_rules]:
  "passing (returnM a)" "passing (raiseM c s)" "passing (liftE r)" "passing get_clock" "passing (sleep_seconds x)" "passing fresh_uuid"
  by (auto simp: passing_def returnM_def raiseM_def liftE_def get_clock_def sleep_seconds_def sleepM_def fresh_uuid_def split: list.split)

lemma passing_bind [genuine_rules]:
  fixes m :: "('t, 'a) app3" and f :: "'a \<Rightarrow> ('t, 'b) app3"
  shows "passing m \<Longrightarrow> (\<And>a. passing (f a)) \<Longrightarrow> passing (bindE m f)"
  unfolding passing_def
proof (intro allI)
  fix w :: "(s3db, 't s3kv) world"
  assume m: "\<forall>w. passes (pg w) (pg (snd (m w))) \<and> moving_messages (kv (snd (m w))) \<subseteq> moving_messages (kv w)"
    and f: "\<And>a. \<forall>w. passes (pg w) (pg (snd (f a w))) \<and> moving_messages (kv (snd (f a w))) \<subseteq> moving_messages (kv w)"
  obtain r w1 where r: "m w = (r, w1)" by fastforce
  have 1: "passes (pg w) (pg w1)" "moving_messages (kv w1) \<subseteq> moving_messages (kv w)" using m [rule_format, of w] r by simp_all
  show "passes (pg w) (pg (snd (bindE m f w))) \<and> moving_messages (kv (snd (bindE m f w))) \<subseteq> moving_messages (kv w)"
  proof (cases r)
    case (Inl e)
    with 1 r show ?thesis by (simp add: bindE_def)
  next
    case (Inr a)
    with 1 r f [rule_format, of w1 a] show ?thesis by (simp add: bindE_def) (meson passes_trans subset_trans)
  qed
qed

lemma passing_attempt [genuine_rules]: "passing m \<Longrightarrow> passing (attempt m)"
  by (simp add: passing_def attempt_def)

lemma passing_if [genuine_rules]: "(c \<Longrightarrow> passing m) \<Longrightarrow> (\<not> c \<Longrightarrow> passing n) \<Longrightarrow> passing (if c then m else n)"
  by simp

lemma passing_option [genuine_rules]:
  "(x = None \<Longrightarrow> passing m) \<Longrightarrow> (\<And>a. x = Some a \<Longrightarrow> passing (f a)) \<Longrightarrow> passing (case x of None \<Rightarrow> m | Some a \<Rightarrow> f a)"
  by (cases x) auto

lemma passing_sum [genuine_rules]:
  "(\<And>e. x = Inl e \<Longrightarrow> passing (f e)) \<Longrightarrow> (\<And>a. x = Inr a \<Longrightarrow> passing (g a)) \<Longrightarrow> passing (case x of Inl e \<Rightarrow> f e | Inr a \<Rightarrow> g a)"
  by (cases x) auto

lemma passing_prod [genuine_rules]: "(\<And>a b. x = (a, b) \<Longrightarrow> passing (f a b)) \<Longrightarrow> passing (case x of (a, b) \<Rightarrow> f a b)"
  by (cases x) auto

lemma passing_Let [genuine_rules]: "passing (f x) \<Longrightarrow> passing (let y = x in f y)"
  by simp

lemma passing_ext: "(\<And>fs w. passes (pg w) (pg (snd (m (w\<lparr>faults := fs\<rparr>)))) \<and>
    moving_messages (kv (snd (m (w\<lparr>faults := fs\<rparr>)))) \<subseteq> moving_messages (kv w)) \<Longrightarrow> passing (ext m)"
  unfolding passing_def
proof (intro allI)
  fix w :: "(s3db, 'a s3kv) world"
  assume m: "\<And>fs w. passes (pg w) (pg (snd (m (w\<lparr>faults := fs\<rparr>)))) \<and>
    moving_messages (kv (snd (m (w\<lparr>faults := fs\<rparr>)))) \<subseteq> moving_messages (kv w)"
  have "w\<lparr>faults := faults w\<rparr> = w" by simp
  with m [of w "faults w"] m [of w] show "passes (pg w) (pg (snd (ext m w))) \<and> moving_messages (kv (snd (ext m w))) \<subseteq> moving_messages (kv w)"
    by (auto simp: ext_def split: list.split fault.split)
qed

lemma passing_sql:
  assumes "\<And>now d a d'. f now d = Inr (a, d') \<Longrightarrow> passes d d'"
  shows "passing (sql f)"
  unfolding sql_def by (rule passing_ext) (auto split: sum.split dest: assms)

lemma passing_sql_read [genuine_rules]: "passing (sql_read g)"
  unfolding sql_read_def by (rule passing_sql) auto

lemma passing_remote:
  assumes "\<And>now k a k'. f now k = Inr (a, k') \<Longrightarrow> moving_messages k' \<subseteq> moving_messages k"
  shows "passing (remote f)"
  unfolding remote_def by (rule passing_ext) (auto split: sum.split dest: assms)

lemma moving_cong: "topics k' = topics k \<Longrightarrow> queues k' = queues k \<Longrightarrow> unacked k' = unacked k \<Longrightarrow> moving_messages k' = moving_messages k"
  by (simp add: moving_messages_def queued_def)

lemma moving_tb [simp]: "moving_messages (k\<lparr>tb_state := t\<rparr>) = moving_messages k" "moving_messages (k\<lparr>redis := r\<rparr>) = moving_messages k"
  by (simp_all add: moving_messages_def queued_def)

lemma passing_calls [genuine_rules]: "passing (redis_call f)" "passing (tb_call g)"
  unfolding redis_call_def tb_call_def by (rule passing_remote; auto split: prod.splits)+

lemma passing_broker:
  assumes "\<And>k. moving_messages (f k) \<subseteq> moving_messages k"
  shows "passing (broker_call f)"
  unfolding broker_call_def by (rule passing_remote) (auto intro: assms [THEN subsetD])

lemma passing_memory: "(\<And>k. moving_messages (snd (f k)) \<subseteq> moving_messages k) \<Longrightarrow> passing (memory f)"
  unfolding passing_def memory_def by (simp split: prod.split) (metis snd_conv)

section \<open>The repository\<close>

lemma passing_transaction [genuine_rules]:
  assumes "passing m"
  shows "passing (transaction m)"
  unfolding passing_def
proof (intro allI)
  fix w :: "(s3db, 'a s3kv) world"
  obtain r w1 where r: "m w = (r, w1)" by fastforce
  with assms have "passes (pg w) (pg w1)" "moving_messages (kv w1) \<subseteq> moving_messages (kv w)"
    unfolding passing_def by (metis snd_conv)+
  then show "passes (pg w) (pg (snd (transaction m w))) \<and> moving_messages (kv (snd (transaction m w))) \<subseteq> moving_messages (kv w)"
    using r by (cases r) (auto simp: transaction_def split: list.split fault.split)
qed

lemma passing_acquire [genuine_rules]: "passing m \<Longrightarrow> passing (acquire m)"
proof -
  have "passing (ext (returnM ()) :: ('a, unit) app3)" by (rule passing_ext) (simp add: returnM_def)
  then show "passing m \<Longrightarrow> passing (acquire m)" unfolding acquire_def by (intro passing_bind)
qed

lemma passing_insert_outbox:
  assumes "topic \<noteq> ''tasks.requested''"
  shows "passing (insert_outbox a et topic p)"
proof -
  have "passing (sql (\<lambda>now d. if 64 < length et \<or> 128 < length topic then Inl (Exn DataError [])
      else if lookup_row ob_event_id event_id (outbox_events d) \<noteq> None then Inl (Exn UniqueViolationError [])
      else Inr ((), d\<lparr>outbox_events := outbox_events d @ [\<lparr>ob_event_id = event_id, ob_aggregate_id = a, ob_event_type = et,
        ob_topic = topic, ob_payload = p, ob_published_at = None, ob_created_at = now\<rparr>]\<rparr>)))" for event_id
    by (rule passing_sql) (use assms in \<open>auto simp: passes_def outbox_messages_def find_command_def split: if_splits\<close>)
  then show ?thesis unfolding insert_outbox_def by (intro passing_bind passing_pure)
qed

lemma passing_update_command:
  assumes "\<And>c. tc_task_id (f c) = tc_task_id c" "\<And>c. tc_tb_pending_transfer_id (f c) = tc_tb_pending_transfer_id c"
  shows "passing (update_command t P f)"
  unfolding update_command_def
proof (rule passing_sql)
  fix now d a d'
  assume run: "(case find_command d t of None \<Rightarrow> Inr (None, d)
    | Some c \<Rightarrow> if \<not> P now c then Inr (None, d) else
        let g = (\<lambda>c. (f c)\<lparr>tc_updated_at := now\<rparr>)
        in Inr (Some (g c), d\<lparr>task_commands := update_rows (\<lambda>c. tc_task_id c = t) g (task_commands d)\<rparr>)) = Inr (a, d')"
  let ?g = "\<lambda>c. (f c)\<lparr>tc_updated_at := now\<rparr>"
  have "find_command (d\<lparr>task_commands := update_rows (\<lambda>c. tc_task_id c = t) ?g (task_commands d)\<rparr>) t' =
      (if t' = t then map_option ?g (find_command d t') else find_command d t')" for t'
    by (simp add: find_command_def lookup_row_update_key assms)
  then have "passes d (d\<lparr>task_commands := update_rows (\<lambda>c. tc_task_id c = t) ?g (task_commands d)\<rparr>)"
    by (auto simp: passes_def outbox_messages_def assms)
  with run show "passes d d'" by (auto simp: Let_def split: option.splits if_splits)
qed

lemma passing_statements [genuine_rules]:
  "passing (update_view t g)" "passing (insert_reconcile_job t u res)" "passing (mark_outbox_events_published ids)"
  unfolding update_view_def insert_reconcile_job_def mark_outbox_events_published_def
  by (auto intro!: passing_sql passing_pure
      simp: passes_def outbox_messages_def find_command_def update_rows_def split: if_splits)

lemma passing_transactions [genuine_rules]:
  "passing (record_admin_credit_topup u n reason a k bal t)" "passing (cancel_task_command t)" "passing (update_task_running t)"
  "passing (finalize_task_command t u st bs cost r e)" "passing (expire_stale_reserved_task t x n)"
  unfolding record_admin_credit_topup_def cancel_task_command_def update_task_running_def finalize_task_command_def
    expire_stale_reserved_task_def Let_def
  by (intro genuine_rules passing_insert_outbox passing_update_command; simp add: set_state_def)+

lemma passing_liftE: "(\<And>a. r = Inr a \<Longrightarrow> passing (f a)) \<Longrightarrow> passing (bindE (liftE r) f)"
  by (cases r) (simp_all add: passing_def bindE_def liftE_def)

lemma passing_align [genuine_rules]: "passing (align_stale_reserved_task_terminal_state task st bs res n)"
  unfolding align_stale_reserved_task_terminal_state_def
proof (rule passing_liftE, clarify)
  fix et topic
  assume "terminal_event_for_status st = Inr (et, topic)"
  then have "topic \<noteq> ''tasks.requested''" by (cases st) auto
  then show "passing (acquire (transaction (
     bindE (update_command (tc_task_id task) (stale_reserved n) (set_state st bs)) (\<lambda>updated.
     case updated of None \<Rightarrow> returnM None | Some c \<Rightarrow>
       bindE (update_view (tc_task_id task) (\<lambda>v. v\<lparr>tv_status := st, tv_billing_state := bs, tv_result := None, tv_error := None\<rparr>)) (\<lambda>_.
       bindE (insert_reconcile_job (tc_task_id task) (tc_tb_pending_transfer_id task) res) (\<lambda>_.
       bindE (insert_outbox (tc_task_id task) et topic (state_payload c @ [(''result'', JNull), (''error'', JNull)])) (\<lambda>_.
       returnM (Some (reconciled_state c)))))))))"
    by (intro genuine_rules passing_insert_outbox passing_update_command) (simp_all add: set_state_def)
qed

section \<open>The services\<close>

lemma passing_ledger [genuine_rules]:
  "passing (reserve_credits b u t n)" "passing (post_pending_transfer b t)" "passing (void_pending_transfer b t)"
  "passing (topup_credits b u t n)" "passing (get_balance b u)" "passing (ensure_user_account b u n)"
  "passing (get_pending_transfer_state b t)"
  unfolding reserve_credits_def post_pending_transfer_def void_pending_transfer_def topup_credits_def get_balance_def
    ensure_user_account_def get_pending_transfer_state_def Let_def
  by (intro genuine_rules)+

lemma moving_push_front:
  assumes "map_of (unacked k) tag = Some (q, m)"
  shows "moving_messages (push_front q m k) \<subseteq> moving_messages k"
proof -
  have "m \<in> (snd \<circ> snd) ` set (unacked k)" using map_of_SomeD [OF assms] by force
  then show ?thesis by (auto simp: moving_messages_def push_front_def queued_def split: if_splits)
qed

lemma passing_acks [genuine_rules]: "passing (basic_ack tag :: ('t, unit) app3)" "passing (basic_nack tag req :: ('t, unit) app3)"
proof -
  have drop: "moving_messages (k\<lparr>unacked := filter P (unacked k)\<rparr>) \<subseteq> moving_messages k" for P and k :: "'x s3kv"
    by (auto simp: moving_messages_def queued_def)
  show "passing (basic_ack tag :: ('t, unit) app3)" unfolding basic_ack_def by (intro passing_broker drop)
  show "passing (basic_nack tag req :: ('t, unit) app3)" unfolding basic_nack_def
  proof (rule passing_broker)
    fix k :: "'t s3kv"
    show "moving_messages (case map_of (unacked k) tag of None \<Rightarrow> k
     | Some (q, m) \<Rightarrow> (if req then push_front q m k else k)\<lparr>unacked := filter (\<lambda>u. fst u \<noteq> tag) (unacked k)\<rparr>) \<subseteq> moving_messages k"
    proof (cases "map_of (unacked k) tag")
      case (Some x)
      obtain q m where x: "x = (q, m)" by (cases x)
      have "unacked (push_front q m k) = unacked k" by (simp add: push_front_def)
      then show ?thesis
        using drop [of "\<lambda>u. fst u \<noteq> tag" k] drop [of "\<lambda>u. fst u \<noteq> tag" "push_front q m k"] moving_push_front [of k tag q m] Some x
        by (auto split: if_splits)
    qed simp
  qed
qed

lemma passing_activate: "passing (broker_call (\<lambda>k. k\<lparr>hot_bindings := g k\<rparr>))" "passing (broker_call (\<lambda>k. k\<lparr>consumers := g' k\<rparr>))"
  "passing (broker_call (\<lambda>k. k))" "passing (memory (\<lambda>k. (x k, k)))" "passing (memory (\<lambda>k. (x k, k\<lparr>consumers := g' k\<rparr>)))"
  "passing (memory (\<lambda>k. ((), k\<lparr>warm_model := m\<rparr>)))"
  by (intro passing_broker passing_memory; simp add: moving_messages_def queued_def)+

lemma passing_worker [genuine_rules]: "passing (activate c)" "passing (deactivate c u)" "passing (go_warm i c)" "passing (execute i task)"
  unfolding activate_def deactivate_def go_warm_def drop_warm_registration_def execute_def
  by (intro genuine_rules passing_activate)+

lemma passing_delivery: "passing (handle_delivery b i tag body ttl)"
  unfolding handle_delivery_def process_task_event_def mark_task_running_def handle_task_completion_def Let_def
  by (intro genuine_rules)

lemma passing_reconcile: "passing (reconcile_stale_reserved_tasks b n ttl)"
proof -
  have task: "passing (reconcile_task b n ttl task)" for task
    unfolding reconcile_task_def cache_reconciled_state_def reconciler_decrement_def Let_def by (intro genuine_rules)
  have "passing (reconcile_tasks b n ttl tasks)" for tasks
    by (induction tasks) (auto intro!: genuine_rules task)
  then show ?thesis unfolding reconcile_stale_reserved_tasks_def list_stale_reserved_tasks_def by (intro genuine_rules)
qed

section \<open>Submission\<close>

lemma genuine_bind: "keeps_genuine m \<Longrightarrow> (\<And>a. keeps_genuine (f a)) \<Longrightarrow> keeps_genuine (bindE m f)"
  unfolding keeps_genuine_def
proof (intro allI impI)
  fix w :: "(s3db, 'a s3kv) world"
  assume m: "\<forall>w. all_genuine (pg w) (kv w) \<longrightarrow> all_genuine (pg (snd (m w))) (kv (snd (m w)))"
    and f: "\<And>a. \<forall>w. all_genuine (pg w) (kv w) \<longrightarrow> all_genuine (pg (snd (f a w))) (kv (snd (f a w)))"
    and g: "all_genuine (pg w) (kv w)"
  obtain r w1 where r: "m w = (r, w1)" by fastforce
  have "all_genuine (pg w1) (kv w1)" using m g r by (metis snd_conv)
  with f r show "all_genuine (pg (snd (bindE m f w))) (kv (snd (bindE m f w)))" by (cases r) (auto simp: bindE_def)
qed

lemma genuine_first: "passing m \<Longrightarrow> (\<And>a. keeps_genuine (f a)) \<Longrightarrow> keeps_genuine (bindE m f)"
  by (rule genuine_bind [OF genuine_passing])

lemma genuine_if: "keeps_genuine m \<Longrightarrow> keeps_genuine n \<Longrightarrow> keeps_genuine (if c then m else n)"
  by simp

lemma genuine_sum:
  "(\<And>e. keeps_genuine (f e)) \<Longrightarrow> (\<And>a. keeps_genuine (g a)) \<Longrightarrow> keeps_genuine (case x of Inl e \<Rightarrow> f e | Inr a \<Rightarrow> g a)"
  by (cases x) auto

lemma genuine_attempt: "keeps_genuine m \<Longrightarrow> keeps_genuine (attempt m)"
  by (simp add: keeps_genuine_def attempt_def)

lemma submit_body_messages:
  assumes "submit_body c p w = (Inr (created, a), w')"
  shows "outbox_messages (pg w') \<subseteq> outbox_messages (pg w) \<union> (if created then {Decoded (JObj p)} else {})"
proof -
  from assms obtain ex w1 where ex: "find_by_idempotency (tc_user_id c) (tc_idempotency_key c) w = (Inr ex, w1)"
    and run: "(case ex of Some c \<Rightarrow> returnM (False, c)
     | None \<Rightarrow> bindE (insert_command c) (\<lambda>c'. bindE (insert_outbox (tc_task_id c) ''task.requested'' ''tasks.requested'' p)
         (\<lambda>_. returnM (True, c')))) w1 = (Inr (created, a), w')"
    unfolding submit_body_def by (elim bindE_okE)
  have w1: "pg w1 = pg w"
    using ex by (auto simp: find_by_idempotency_def split: option.splits elim: sql_read_okE)
  show ?thesis
  proof (cases ex)
    case None
    with run obtain w2 where ins: "insert_command c w1 = (Inr a, w2)" and created
      and out: "insert_outbox (tc_task_id c) ''task.requested'' ''tasks.requested'' p w2 = (Inr (), w')"
      by (auto simp: bindE_ok)
    have "outbox_events (pg w2) = outbox_events (pg w1)"
      using ins unfolding insert_command_def by (elim sql_okE) (auto simp: Let_def split: if_splits)
    moreover from out have "outbox_messages (pg w') \<subseteq> outbox_messages (pg w2) \<union> {Decoded (JObj p)}"
      unfolding insert_outbox_def by (elim bindE_okE sql_okE fresh_uuid_okE) (auto simp: outbox_messages_def split: if_splits)
    ultimately show ?thesis using w1 \<open>created\<close> by (simp add: outbox_messages_def)
  next
    case (Some c')
    with run w1 show ?thesis by auto
  qed
qed

lemma speaks_of_requested:
  assumes "find_command d t = Some c" "tc_tb_pending_transfer_id c = hold"
  shows "speaks_of (Decoded (JObj (requested_payload t u tier mode mc x y cost hold))) d"
  using assms by (auto simp: speaks_of_def parse_requested)

lemma find_appended:
  assumes "task_commands d' = task_commands d @ [c]" "find_command d (tc_task_id c) = None"
  shows "find_command d' t = (if t = tc_task_id c then Some c else find_command d t)"
  using assms by (auto simp: find_command_def lookup_row_append split: option.split)

lemma genuine_submit_command:
  "keeps_genuine (submit_task_command t u tier mode mc x y cost hold url key (requested_payload t u tier mode mc x y cost hold))"
  unfolding keeps_genuine_def
proof (intro allI impI)
  fix w :: "(s3db, 'a s3kv) world"
  let ?p = "requested_payload t u tier mode mc x y cost hold"
  let ?m = "submit_task_command t u tier mode mc x y cost hold url key ?p"
  assume g: "all_genuine (pg w) (kv w)"
  obtain r w' where run: "?m w = (r, w')" by fastforce
  have kv: "kv w' = kv w"
    using run unfolding submit_task_command_def by (rule db_only_run [rotated]) (intro db_rules)
  from run have "all_genuine (pg w') (kv w')" unfolding submit_task_command_def
  proof (cases rule: in_transaction)
    case (undone e)
    with g kv show ?thesis by simp
  next
    case (ran a fs w1)
    obtain created c where a: "a = (created, c)" by (cases a)
    note rows = submit_body_run [OF ran(1) [unfolded a]] and out = submit_body_messages [OF ran(1) [unfolded a]]
    show ?thesis
    proof (cases created)
      case False
      with rows out ran(2) have "passes (pg w) (pg w')" by (auto simp: passes_def find_command_def)
      with g kv show ?thesis using all_genuine_passes by (metis subset_refl)
    next
      case True
      from rows obtain now where c: "c = \<lparr>tc_task_id = t, tc_user_id = u, tc_tier = tier, tc_mode = mode, tc_model_class = mc,
        tc_status = PENDING, tc_billing_state = RESERVED, tc_x = x, tc_y = y, tc_cost = cost, tc_tb_pending_transfer_id = hold,
        tc_callback_url = url, tc_idempotency_key = key, tc_created_at = now, tc_updated_at = now\<rparr>"
        unfolding if_P [OF True] by (elim conjE exE) simp
      have add: "task_commands (pg w') = task_commands (pg w) @ [c]" "find_command (pg w) t = None"
        using rows ran(2) unfolding if_P [OF True] by simp_all
      have ids: "tc_task_id c = t" "tc_tb_pending_transfer_id c = hold" by (simp_all add: c)
      then have find: "find_command (pg w') t' = (if t' = t then Some c else find_command (pg w) t')" for t'
        using find_appended [of "pg w'" "pg w" c] add ids by simp
      have keep: "find_command (pg w') t' = Some c'" if "find_command (pg w) t' = Some c'" for t' c'
        using that add(2) find [of t'] by (cases "t' = t") auto
      have "speaks_of m (pg w')" if "speaks_of m (pg w)" for m
        using that keep unfolding speaks_of_def by blast
      moreover have "speaks_of (Decoded (JObj ?p)) (pg w')" using find ids(2) by (intro speaks_of_requested) auto
      moreover have "outbox_messages (pg w') \<subseteq> outbox_messages (pg w) \<union> {Decoded (JObj ?p)}" using out True ran(2) by simp
      moreover have "speaks_of m (pg w)" if "m \<in> outbox_messages (pg w) \<union> moving_messages (kv w)" for m
        using g that unfolding all_genuine_def by blast
      ultimately show ?thesis unfolding all_genuine_def kv by blast
    qed
  qed
  then show "all_genuine (pg (snd (?m w))) (kv (snd (?m w)))" by (simp add: run)
qed

lemma passing_api [genuine_rules]:
  "passing (require_scopes user scopes)" "passing (over_limit rt user)" "passing (cache_task_state rt c)"
  "passing (cache_cancelled rt c t)" "passing (get_task_command t)" "passing (release_pending_transfer rt t req)"
  "passing (fetch_active_user_by_api_key sha key)" "passing (derive_transfer_id uuid5 u a n reason k)"
  unfolding over_limit_def cache_task_state_def cache_cancelled_def get_task_command_def release_pending_transfer_def
    fetch_active_user_by_api_key_def derive_transfer_id_def
  by (auto intro!: genuine_rules simp: require_scopes_def split: list.split)

lemma genuine_persist: "keeps_genuine (persist_submission rt payload user t hold key cost)"
  unfolding persist_submission_def Let_def
proof (rule genuine_bind [OF genuine_attempt [OF genuine_submit_command]], rule genuine_sum)
  show "keeps_genuine (bindE (release_pending_transfer rt hold True) (\<lambda>_. raiseM (exn_kind e) (exn_text e)))" for e
    by (intro genuine_passing genuine_rules)
next
  fix a :: "bool \<times> TaskCommand"
  show "keeps_genuine (case a of (created, command) \<Rightarrow>
         if created then
           bindE (if rt_redis_client rt
             then bindE (redis_call (incr_by (active_counter_key (au_user_id user)) 1)) (\<lambda>_. returnM ())
             else returnM ()) (\<lambda>_. bindE (cache_task_state rt command) (\<lambda>_.
           returnM (JSONResponse (if created then 201 else 200)
             (submit_response_json (rt_show_time rt) command (st_task_result_ttl_seconds (rt_settings rt))))))
         else bindE (release_pending_transfer rt hold True) (\<lambda>released.
           if \<not> released then degraded ''Billing backend unavailable''
           else if \<not> same_payload command payload cost
           then returnM (api_error_response 409 ''CONFLICT'' ''Idempotency key reused with different payload'')
           else bindE (cache_task_state rt command) (\<lambda>_.
           returnM (JSONResponse (if created then 201 else 200)
             (submit_response_json (rt_show_time rt) command (st_task_result_ttl_seconds (rt_settings rt)))))))"
    by (intro genuine_passing genuine_rules)
qed

lemma genuine_submit: "keeps_genuine (submit_task ip6 rt payload user key)"
proof (cases "rt_billing_client rt")
  case None
  then show ?thesis unfolding submit_task_def by (auto intro!: genuine_passing genuine_rules)
next
  case (Some b)
  show ?thesis
    unfolding submit_task_def Some option.case Let_def
    by (intro genuine_first passing_api passing_pure genuine_if genuine_sum genuine_passing [OF passing_pure(1)] passing_ledger
        genuine_persist genuine_passing [OF passing_bind [OF passing_api(6)]])
qed

lemma passing_cancel: "passing (cancel_task rt t user)"
  unfolding cancel_task_def Let_def by (intro genuine_rules)

lemma passing_admin: "passing (admin_credits sha uuid5 rt req user)"
  unfolding admin_credits_def by (intro genuine_rules)

section \<open>The relay and the dispatcher\<close>

definition asked :: "OutboxEventRecord list \<Rightarrow> jtext set" where
  "asked es = (\<lambda>e. Decoded (JObj (ob_payload e))) ` {e \<in> set es. ob_topic e = ''tasks.requested''}"

lemma produce_moving:
  assumes "produce e w = (r, w')"
  shows "pg w' = pg w \<and> moving_messages (kv w') \<subseteq> moving_messages (kv w) \<union> asked [e]"
proof -
  have send: "pg v' = pg v \<and> moving_messages (kv v') \<subseteq> moving_messages (kv v) \<union> asked [e]"
    if "append_record (ob_topic e) (fst (outbox_message e)) (snd (outbox_message e)) v = (q, v')" for v v' :: "(s3db, 'a s3kv) world" and q
    using that unfolding append_record_def
    by (cases rule: broker_call_cases) (auto simp: Let_def moving_messages_def queued_def asked_def outbox_message_def split: if_splits)
  show ?thesis
    using assms unfolding produce_def
  proof (cases rule: bindE_cases)
    case (raised x)
    from raised(1) show ?thesis by (cases rule: broker_call_cases) auto
  next
    case (ran u w1)
    from ran(1) have w1: "pg w1 = pg w" "moving_messages (kv w1) = moving_messages (kv w)" by (cases rule: broker_call_cases; auto)+
    have "append_record (ob_topic e) (fst (outbox_message e)) (snd (outbox_message e)) w1 =
        (fst (append_record (ob_topic e) (fst (outbox_message e)) (snd (outbox_message e)) w1), w')"
      using ran(2) by (auto simp: attempt_def)
    from send [OF this] w1 show ?thesis by simp
  qed
qed

lemma produce_all_moving:
  "produce_all es w = (r, w') \<Longrightarrow> pg w' = pg w \<and> moving_messages (kv w') \<subseteq> moving_messages (kv w) \<union> asked es"
proof (induction es arbitrary: w r w')
  case (Cons e es)
  have split: "asked (e # es) = asked [e] \<union> asked es" by (auto simp: asked_def)
  from Cons.prems show ?case unfolding produce_all.simps
  proof (cases rule: bindE_cases)
    case (raised x)
    with produce_moving [OF raised(1)] show ?thesis unfolding split by blast
  next
    case (ran f w1)
    obtain q where "produce_all es w1 = (q, w')" using ran(2) by (cases rule: bindE_cases) (auto simp: returnM_def)
    from Cons.IH [OF this] produce_moving [OF ran(1)] show ?thesis unfolding split by auto
  qed
qed (simp add: returnM_def)

lemma genuine_more:
  assumes "all_genuine d k" "moving_messages k' \<subseteq> moving_messages k \<union> outbox_messages d"
  shows "all_genuine d k'"
  using assms unfolding all_genuine_def by blast

lemma genuine_relay: "keeps_genuine (relay_once n)"
  unfolding keeps_genuine_def
proof (intro allI impI)
  fix w :: "(s3db, 'a s3kv) world"
  assume g: "all_genuine (pg w) (kv w)"
  obtain r w' where "relay_once n w = (r, w')" by fastforce
  then have "all_genuine (pg w') (kv w')" unfolding relay_once_def
  proof (cases rule: bindE_cases)
    case (raised e)
    then show ?thesis
      using g sql_read_frame [of "\<lambda>_ d. oldest_rows (\<lambda>e. ob_published_at e = None) ob_created_at n (outbox_events d)" w]
      by (simp add: fetch_unpublished_outbox_events_def)
  next
    case (ran es w1)
    from ran(1) have w1: "pg w1 = pg w" "kv w1 = kv w" and "set es \<subseteq> set (outbox_events (pg w))"
      unfolding fetch_unpublished_outbox_events_def
      by (auto elim!: sql_read_okE simp: oldest_rows_def dest!: in_set_takeD)
    then have asked: "asked es \<subseteq> outbox_messages (pg w)" by (auto simp: asked_def outbox_messages_def)
    show ?thesis
    proof (cases "es = []")
      case True
      with ran(2) w1 g show ?thesis by (simp add: returnM_def)
    next
      case False
      have rest: "passing (bindE (flush fs) (\<lambda>_. bindE (mark_outbox_events_published (map ob_event_id es)) (\<lambda>_. returnM (length es))) :: ('a, nat) app3)" for fs
        unfolding flush_def by (intro genuine_rules passing_activate)
      from False ran(2) have "bindE (produce_all es) (\<lambda>fs. bindE (flush fs) (\<lambda>_.
          bindE (mark_outbox_events_published (map ob_event_id es)) (\<lambda>_. returnM (length es)))) w1 = (r, w')" by simp
      then show ?thesis
      proof (cases rule: bindE_cases)
        case (raised e)
        with produce_all_moving [OF raised(1)] w1 asked genuine_more [OF g] show ?thesis by (auto intro: genuine_more)
      next
        case (ran fs w2)
        have "all_genuine (pg w2) (kv w2)"
          using produce_all_moving [OF ran(1)] w1 asked by (auto intro: genuine_more [OF g])
        with genuine_passing [OF rest] ran(2) show ?thesis unfolding keeps_genuine_def by (metis snd_conv)
      qed
    qed
  qed
  then show "all_genuine (pg (snd (relay_once n w))) (kv (snd (relay_once n w)))" using \<open>relay_once n w = (r, w')\<close> by simp
qed

lemma dispatch_messages_moving:
  "dispatch_messages ms w = (r, w') \<Longrightarrow> pg w' = pg w \<and> moving_messages (kv w') \<subseteq> moving_messages (kv w) \<union> kr_value ` set ms"
proof (induction ms arbitrary: w r w')
  case (Cons m ms)
  show ?case
  proof (cases "\<exists>event. kr_value m = Decoded (JObj event)")
    case True
    then obtain event where ev: "kr_value m = Decoded (JObj event)" by blast
    have push: "pg v' = pg v \<and> moving_messages (kv v') \<subseteq> moving_messages (kv v) \<union> {kr_value m}"
      if "dispatch_requested_task event (kr_value m) v = (q, v')" for v v' :: "(s3db, 'a s3kv) world" and q
    proof (cases "list_ex (\<lambda>key. \<not> truthy (dict_get_or event key JNull)) [''task_id'', ''model_class'', ''tier'']")
      case True
      with that show ?thesis unfolding dispatch_requested_task_def by (auto simp: raiseM_def)
    next
      case False
      then have "broker_call (\<lambda>k. push_back (dispatch_queue event (hot_bindings k)) (kr_value m) k) v = (q, v')"
        using that unfolding dispatch_requested_task_def by simp
      then show ?thesis
        by (cases rule: broker_call_cases) (auto simp: moving_messages_def push_back_def queued_def split: if_splits)
    qed
    from ev Cons.prems have "bindE (dispatch_requested_task event (kr_value m)) (\<lambda>_. dispatch_messages ms) w = (r, w')" by simp
    then show ?thesis
    proof (cases rule: bindE_cases)
      case (raised e)
      with push [OF raised(1)] show ?thesis by auto
    next
      case (ran u w1)
      from push [OF ran(1)] Cons.IH [OF ran(2)] show ?thesis by auto
    qed
  next
    case False
    with Cons.prems show ?thesis by (auto simp: raiseM_def split: jtext.splits json.splits)
  qed
qed (simp add: returnM_def)

lemma poll_moving:
  assumes "kafka_poll g [''tasks.requested''] n w = (r, w')"
  shows "pg w' = pg w \<and> moving_messages (kv w') = moving_messages (kv w) \<and>
    (\<forall>ms. r = Inr ms \<longrightarrow> kr_value ` set ms \<subseteq> moving_messages (kv w))"
proof -
  have "pg w' = pg w"
    using keeps_pgD [of "broker_read (fetch_from g [''tasks.requested''] n)"] assms keeps_broker_read unfolding kafka_poll_def by metis
  moreover from assms have "moving_messages (kv w') = moving_messages (kv w) \<and>
      (\<forall>ms. r = Inr ms \<longrightarrow> kr_value ` set ms \<subseteq> moving_messages (kv w))"
    unfolding kafka_poll_def
  proof (cases rule: broker_read_cases)
    case (ran ms k)
    from ran(1) have "set ms \<subseteq> set (entry [] (topics (kv w)) ''tasks.requested'')" and "topics k = topics (kv w)"
      "queues k = queues (kv w)" "unacked k = unacked (kv w)"
      by (auto simp: Let_def dest!: in_set_takeD in_set_dropD)
    then have "kr_value ` set ms \<subseteq> moving_messages (kv w)" "moving_messages k = moving_messages (kv w)"
      by (auto simp: moving_messages_def queued_def)
    with ran(2,3) show ?thesis by auto
  qed simp
  ultimately show ?thesis by simp
qed

lemma passing_consumer [genuine_rules]: "passing (kafka_commit g ts)" "passing (open_consumer g ts)"
  unfolding kafka_commit_def open_consumer_def
  by (intro passing_broker; simp add: moving_messages_def queued_def commit_all_def rewind_def)+

lemma genuine_polled: "keeps_genuine (dispatch_polled_messages n)"
  unfolding keeps_genuine_def
proof (intro allI impI)
  fix w :: "(s3db, 'a s3kv) world"
  assume g: "all_genuine (pg w) (kv w)"
  obtain r w' where run: "dispatch_polled_messages n w = (r, w')" by fastforce
  then have "all_genuine (pg w') (kv w')" unfolding dispatch_polled_messages_def
  proof (cases rule: bindE_cases)
    case (raised e)
    with poll_moving [OF raised(1)] g show ?thesis by (simp add: all_genuine_def)
  next
    case (ran ms w1)
    note poll = poll_moving [OF ran(1)]
    then have g1: "all_genuine (pg w1) (kv w1)" using g by (simp add: all_genuine_def)
    show ?thesis
    proof (cases "ms = []")
      case True
      with ran(2) g1 show ?thesis by (simp add: returnM_def)
    next
      case False
      have sent: "all_genuine (pg v) (kv v)" if "dispatch_messages ms w1 = (q, v)" for q v
      proof -
        have "moving_messages (kv v) \<subseteq> moving_messages (kv w1) \<union> outbox_messages (pg w1)" and same: "pg v = pg w1"
          using dispatch_messages_moving [OF that] poll by auto
        from genuine_more [OF g1 this(1)] same show ?thesis by simp
      qed
      have rest: "keeps_genuine (bindE (kafka_commit dispatcher_group [''tasks.requested'']) (\<lambda>_. returnM (length ms)) :: ('a, nat) app3)"
        by (intro genuine_passing genuine_rules)
      have "bindE (dispatch_messages ms) (\<lambda>_. bindE (kafka_commit dispatcher_group [''tasks.requested''])
          (\<lambda>_. returnM (length ms))) w1 = (r, w')" using ran(2) False by simp
      then show ?thesis
      proof (cases rule: bindE_cases)
        case (raised e)
        from sent [OF raised(1)] show ?thesis .
      next
        case (ran u w2)
        from sent [OF ran(1)] rest ran(2) show ?thesis unfolding keeps_genuine_def by (metis snd_conv)
      qed
    qed
  qed
  then show "all_genuine (pg (snd (dispatch_polled_messages n w))) (kv (snd (dispatch_polled_messages n w)))" by (simp add: run)
qed

lemma genuine_dispatcher: "keeps_genuine (dispatcher_turn is_open n)"
  unfolding dispatcher_turn_def
  by (intro genuine_bind [OF genuine_attempt] genuine_first genuine_polled genuine_rules genuine_passing [OF passing_pure(1)])

end
