(* ===== verification/Effects.thy ===== *)
theory Effects
  imports Prelude
begin

text \<open>
  What an action may change.  \<open>leads R m\<close> says that every run of \<open>m\<close>, with any faults, leads from a database and a store to
  a pair that \<open>R\<close> allows.  For a relation that holds of no change, of two changes one after the other and of a change whose database part
  is rolled back, there is one rule for each construct of the models.
\<close>

definition leads :: "('d \<Rightarrow> 'k \<Rightarrow> 'd \<Rightarrow> 'k \<Rightarrow> bool) \<Rightarrow> ('d, 'k, 'a) io \<Rightarrow> bool" where
  "leads R m \<longleftrightarrow> (\<forall>w. R (pg w) (kv w) (pg (snd (m w))) (kv (snd (m w))))"

lemma leadsD: "leads R m \<Longrightarrow> m w = (r, w') \<Longrightarrow> R (pg w) (kv w) (pg w') (kv w')"
  unfolding leads_def by (metis snd_conv)

locale effect =
  fixes R :: "'d \<Rightarrow> 'k \<Rightarrow> 'd \<Rightarrow> 'k \<Rightarrow> bool"
  assumes none: "R d k d k"
    and then_: "R d k d1 k1 \<Longrightarrow> R d1 k1 d2 k2 \<Longrightarrow> R d k d2 k2"
    and undone: "R d k d1 k1 \<Longrightarrow> R d k d k1"
begin

lemma pure: "leads R (returnM a)" "leads R (raiseM c s)" "leads R (liftE r)" "leads R get_clock" "leads R (sleep_seconds x)"
    "leads R fresh_uuid"
  by (auto simp: leads_def returnM_def raiseM_def liftE_def get_clock_def sleep_seconds_def sleepM_def fresh_uuid_def none split: list.split)

lemma bind:
  assumes m: "leads R m" and f: "\<And>a. leads R (f a)"
  shows "leads R (bindE m f)"
  unfolding leads_def
proof
  fix w :: "('d, 'k) world"
  obtain r w1 where run: "m w = (r, w1)" by fastforce
  note first = leadsD [OF m run]
  show "R (pg w) (kv w) (pg (snd (bindE m f w))) (kv (snd (bindE m f w)))"
  proof (cases r)
    case (Inl e)
    with first run show ?thesis by (simp add: bindE_def)
  next
    case (Inr a)
    have "R (pg w1) (kv w1) (pg (snd (f a w1))) (kv (snd (f a w1)))" using f [of a] by (simp add: leads_def)
    with first run Inr show ?thesis by (simp add: bindE_def then_)
  qed
qed

lemma caught: "leads R m \<Longrightarrow> leads R (attempt m)"
  by (simp add: leads_def attempt_def)

lemma branch: "(c \<Longrightarrow> leads R m) \<Longrightarrow> (\<not> c \<Longrightarrow> leads R n) \<Longrightarrow> leads R (if c then m else n)"
  by simp

lemma of_option: "(x = None \<Longrightarrow> leads R m) \<Longrightarrow> (\<And>a. x = Some a \<Longrightarrow> leads R (f a)) \<Longrightarrow> leads R (case x of None \<Rightarrow> m | Some a \<Rightarrow> f a)"
  by (cases x) auto

lemma of_sum: "(\<And>e. x = Inl e \<Longrightarrow> leads R (f e)) \<Longrightarrow> (\<And>a. x = Inr a \<Longrightarrow> leads R (g a)) \<Longrightarrow>
    leads R (case x of Inl e \<Rightarrow> f e | Inr a \<Rightarrow> g a)"
  by (cases x) auto

lemma of_prod: "(\<And>a b. x = (a, b) \<Longrightarrow> leads R (f a b)) \<Longrightarrow> leads R (case x of (a, b) \<Rightarrow> f a b)"
  by (cases x) auto

lemma of_let: "leads R (f x) \<Longrightarrow> leads R (let y = x in f y)"
  by simp

lemma ext_leads: "leads R m \<Longrightarrow> leads R (ext m)"
  unfolding leads_def
proof
  fix w :: "('d, 'k) world"
  assume m: "\<forall>w. R (pg w) (kv w) (pg (snd (m w))) (kv (snd (m w)))"
  show "R (pg w) (kv w) (pg (snd (ext m w))) (kv (snd (ext m w)))"
    using m [rule_format, of w] m [rule_format, of "w\<lparr>faults := tl (faults w)\<rparr>"] none
    by (auto simp: ext_def split: list.split fault.split)
qed

lemma statement:
  assumes "\<And>now d k a d'. f now d = Inr (a, d') \<Longrightarrow> R d k d' k"
  shows "leads R (sql f)"
  unfolding sql_def using assms by (intro ext_leads) (auto simp: leads_def none split: sum.split)

lemma reading: "leads R (sql_read g)"
  unfolding sql_read_def by (rule statement) (auto simp: none)

lemma command:
  assumes "\<And>now d k a k'. f now k = Inr (a, k') \<Longrightarrow> R d k d k'"
  shows "leads R (remote f)"
  unfolding remote_def using assms by (intro ext_leads) (auto simp: leads_def none split: sum.split)

lemma pooled: "leads R m \<Longrightarrow> leads R (acquire m)"
  unfolding acquire_def by (intro bind ext_leads pure)

lemma atomic:
  assumes "leads R m"
  shows "leads R (transaction m)"
  unfolding leads_def
proof
  fix w :: "('d, 'k) world"
  obtain r w1 where run: "m w = (r, w1)" by fastforce
  from leadsD [OF assms run] undone show "R (pg w) (kv w) (pg (snd (transaction m w))) (kv (snd (transaction m w)))"
    by (auto simp: transaction_def run split: sum.split list.split fault.split)
qed

end

end
