(* ===== verification/S3_Projector.thy ===== *)
theory S3_Projector
  imports S3_Messages Effects
begin

text \<open>
  Solution 3, \<open>workers/projector.py\<close>, \<open>workers/rebuilder.py\<close> and their repository functions: the query view is filled from
  the events of six topics.  A projected row copies the current command row; the event contributes the result and
  the error of a finished task.  The rebuilder empties the view and fills it from the command rows, or from the logs again.
\<close>

section \<open>The projection of one event\<close>

definition projected_view :: "bool \<Rightarrow> dict option \<Rightarrow> string option \<Rightarrow> int \<Rightarrow> TaskCommand \<Rightarrow> TaskQueryView option \<Rightarrow> TaskQueryView" where
  "projected_view overwrite result error version c old = \<lparr>tv_task_id = tc_task_id c, tv_user_id = tc_user_id c,
     tv_tier = tc_tier c, tv_mode = tc_mode c, tv_model_class = tc_model_class c, tv_status = tc_status c,
     tv_billing_state = tc_billing_state c,
     tv_result = (if overwrite then result else case old of None \<Rightarrow> None | Some v \<Rightarrow> tv_result v),
     tv_error = (if overwrite then error else case old of None \<Rightarrow> None | Some v \<Rightarrow> tv_error v),
     tv_runtime_ms = None,
     tv_projection_version = (case old of None \<Rightarrow> version | Some v \<Rightarrow> max (tv_projection_version v) version),
     tv_created_at = (case old of None \<Rightarrow> tc_created_at c | Some v \<Rightarrow> tv_created_at v),
     tv_updated_at = tc_updated_at c\<rparr>"

text \<open>\<open>INSERT INTO query.task_query_view SELECT ... FROM cmd.task_commands WHERE task_id=$1 ON CONFLICT (task_id) DO UPDATE ... RETURNING *\<close>.\<close>

definition upsert_view :: "uuid \<Rightarrow> bool \<Rightarrow> dict option \<Rightarrow> string option \<Rightarrow> int \<Rightarrow> (s3db, 'k, TaskQueryView option) io" where
  "upsert_view task_id overwrite result error version = sql (\<lambda>_ d. case find_command d task_id of
      None \<Rightarrow> Inr (None, d)
    | Some c \<Rightarrow>
        let v = projected_view overwrite result error version c (find_view d task_id)
        in Inr (Some v, d\<lparr>task_query_view := (case find_view d task_id of
             None \<Rightarrow> task_query_view d @ [v]
           | Some _ \<Rightarrow> update_rows (\<lambda>x. tv_task_id x = task_id) (\<lambda>_. v) (task_query_view d))\<rparr>))"

definition insert_inbox_event :: "uuid \<Rightarrow> string \<Rightarrow> (s3db, 'k, unit) io" where
  "insert_inbox_event event_id consumer_name = sql (\<lambda>_ d.
     if 64 < length consumer_name then Inl (Exn DataError [])
     else if List.member (inbox_events d) (event_id, consumer_name) then Inl (Exn UniqueViolationError [])
     else Inr ((), d\<lparr>inbox_events := inbox_events d @ [(event_id, consumer_name)]\<rparr>))"

definition upsert_checkpoint :: "string \<Rightarrow> string \<Rightarrow> int \<Rightarrow> int \<Rightarrow> (s3db, 'k, unit) io" where
  "upsert_checkpoint projector_name topic partition_id committed_offset = sql (\<lambda>_ d.
     if 64 < length projector_name \<or> 128 < length topic then Inl (Exn DataError [])
     else Inr ((), d\<lparr>checkpoints := AList.update projector_name (topic, partition_id, committed_offset) (checkpoints d)\<rparr>))"

text \<open>A result that is not an object reads as \<open>None\<close> again, so only objects are kept.\<close>

definition projected_result :: "string \<Rightarrow> dict \<Rightarrow> dict option" where
  "projected_result topic event = (if List.member TERMINAL_PROJECTION_TOPICS topic
     then (case dict_get event ''result'' of Some (JObj d) \<Rightarrow> Some d | _ \<Rightarrow> None) else None)"

definition projected_error :: "(json \<Rightarrow> string) \<Rightarrow> dict \<Rightarrow> string option" where
  "projected_error rp event = (case dict_get event ''error'' of
      None \<Rightarrow> None | Some JNull \<Rightarrow> None | Some v \<Rightarrow> Some (py_str rp v))"

definition apply_task_projection :: "(json \<Rightarrow> string) \<Rightarrow> string \<Rightarrow> string \<Rightarrow> string \<Rightarrow> int \<Rightarrow> int \<Rightarrow> uuid \<Rightarrow> dict \<Rightarrow>
    (s3db, 'k, TaskQueryView option) io" where
  "apply_task_projection rp consumer_name projector_name topic partition_id committed_offset event_id event =
     bindE (liftE (case dict_get event ''task_id'' of
         None \<Rightarrow> Inl (Exn KeyError ''task_id'') | Some v \<Rightarrow> uuid_of_str (py_str rp v))) (\<lambda>task_id.
     acquire (transaction (
       bindE (upsert_view task_id (List.member TERMINAL_PROJECTION_TOPICS topic) (projected_result topic event)
         (projected_error rp event) committed_offset) (\<lambda>projected. case projected of
         None \<Rightarrow> returnM None
       | Some v \<Rightarrow>
           bindE (insert_inbox_event event_id consumer_name) (\<lambda>_.
           bindE (upsert_checkpoint projector_name topic partition_id committed_offset) (\<lambda>_.
           returnM (Some v)))))))"

section \<open>The projector\<close>

definition decode_header_value :: "(string \<times> string option) list \<Rightarrow> string \<Rightarrow> string option" where
  "decode_header_value headers key = (case find (\<lambda>(k, v). k = key \<and> v \<noteq> None) headers of
      None \<Rightarrow> None | Some (_, v) \<Rightarrow> v)"

definition cache_projected_view :: "TaskQueryView \<Rightarrow> int \<Rightarrow> ('t, unit) app3" where
  "cache_projected_view task task_result_ttl_seconds =
     bindE (redis_call (hset (task_state_key (tv_task_id task))
       ([(''user_id'', Plain (uuid_str (tv_user_id task))), (''status'', Plain (TaskStatus_value (tv_status task))),
         (''billing_state'', Plain (BillingState_value (tv_billing_state task)))] @
        (case tv_result task of None \<Rightarrow> [] | Some d \<Rightarrow> [(''result'', Dumped (JObj d))]) @
        (case tv_error task of None \<Rightarrow> [] | Some e \<Rightarrow> [(''error'', Plain e)])))) (\<lambda>_.
     redis_call (expire_key (task_state_key (tv_task_id task)) task_result_ttl_seconds))"

definition project_message :: "(json \<Rightarrow> string) \<Rightarrow> string \<Rightarrow> string \<Rightarrow> int \<Rightarrow> KafkaRecord \<Rightarrow> ('t, bool) app3" where
  "project_message rp consumer_name projector_name ttl message = (case kr_value message of
      Undecodable \<Rightarrow> raiseM ValueError ''not a JSON document''
    | Decoded (JObj event) \<Rightarrow> (case decode_header_value (kr_headers message) ''event_id'' of
          None \<Rightarrow> raiseM ValueError ''event_id header is required''
        | Some event_id_value \<Rightarrow>
            bindE (liftE (uuid_of_str event_id_value)) (\<lambda>event_id.
            bindE (is_inbox_event_processed event_id consumer_name) (\<lambda>already_processed.
            if already_processed then returnM False else
            bindE (apply_task_projection rp consumer_name projector_name (kr_topic message) 0 (int (kr_offset message))
              event_id event) (\<lambda>projected. case projected of
              None \<Rightarrow> returnM False
            | Some task \<Rightarrow> bindE (cache_projected_view task ttl) (\<lambda>_. returnM True)))))
    | Decoded _ \<Rightarrow> raiseM ValueError ''projector payload must decode to an object'')"

text \<open>The number of messages that were applied.\<close>

fun project_messages :: "(json \<Rightarrow> string) \<Rightarrow> int \<Rightarrow> KafkaRecord list \<Rightarrow> ('t, nat) app3" where
  "project_messages rp ttl [] = returnM 0"
| "project_messages rp ttl (message # messages) =
     bindE (project_message rp ''projector'' ''projector'' ttl message) (\<lambda>projected.
     bindE (project_messages rp ttl messages) (\<lambda>n. returnM (if projected then Suc n else n)))"

definition projector_topics :: "string list" where
  "projector_topics = [''tasks.requested'', ''tasks.started'', ''tasks.completed'', ''tasks.failed'', ''tasks.cancelled'', ''tasks.expired'']"

definition projector_group :: string where
  "projector_group = ''solution3-projector''"

definition project_polled_messages :: "(json \<Rightarrow> string) \<Rightarrow> int \<Rightarrow> nat \<Rightarrow> ('t, nat) app3" where
  "project_polled_messages rp ttl max_records =
     bindE (kafka_poll projector_group projector_topics max_records) (\<lambda>messages.
     if messages = [] then returnM 0 else
     bindE (project_messages rp ttl messages) (\<lambda>_.
     bindE (kafka_commit projector_group projector_topics) (\<lambda>_. returnM (length messages))))"

text \<open>One turn of the loop, which keeps its consumer whatever happens.\<close>

definition projector_turn :: "(json \<Rightarrow> string) \<Rightarrow> int \<Rightarrow> nat \<Rightarrow> ('t, exn + nat) app3" where
  "projector_turn rp ttl max_records = attempt (project_polled_messages rp ttl max_records)"

section \<open>The rebuilder\<close>

fun delete_batches :: "nat \<Rightarrow> string list \<Rightarrow> ('t, nat) app3" where
  "delete_batches 0 keys = returnM 0"
| "delete_batches (Suc fuel) keys = (if keys = [] then returnM 0 else
     bindE (redis_call (delete_keys (take 500 keys))) (\<lambda>n.
     bindE (delete_batches fuel (drop 500 keys)) (\<lambda>m. returnM (n + m))))"

definition clear_task_cache :: "('t, nat) app3" where
  "clear_task_cache = bindE (redis_call (scan_prefix ''task:'')) (\<lambda>keys. delete_batches (length keys) keys)"

definition reset_projection_state :: "string list \<Rightarrow> string list \<Rightarrow> (s3db, 'k, unit) io" where
  "reset_projection_state consumer_names projector_names = acquire (transaction (
     bindE (sql (\<lambda>_ d. Inr ((), d\<lparr>task_query_view := []\<rparr>))) (\<lambda>_.
     bindE (if consumer_names = [] then returnM () else sql (\<lambda>_ d.
       Inr ((), d\<lparr>inbox_events := filter (\<lambda>e. \<not> List.member consumer_names (snd e)) (inbox_events d)\<rparr>))) (\<lambda>_.
     if projector_names = [] then returnM () else sql (\<lambda>_ d.
       Inr ((), d\<lparr>checkpoints := filter (\<lambda>e. \<not> List.member projector_names (fst e)) (checkpoints d)\<rparr>))))))"

text \<open>The row of a task in a view that is filled from the command rows: no result, no error.\<close>

definition view_of_command :: "TaskCommand \<Rightarrow> TaskQueryView" where
  "view_of_command c = projected_view True None None 0 c None"

definition rebuild_task_query_view_from_commands :: "(s3db, 'k, nat) io" where
  "rebuild_task_query_view_from_commands = acquire (transaction (sql (\<lambda>_ d.
     if \<exists>c\<in>set (task_commands d). find_view d (tc_task_id c) \<noteq> None then Inl (Exn UniqueViolationError [])
     else Inr (length (task_commands d), d\<lparr>task_query_view := task_query_view d @
       map view_of_command (sort_key tc_created_at (sort_key (\<lambda>c. unat (tc_task_id c)) (task_commands d)))\<rparr>))))"

definition PROJECTOR_NAMES :: "string list" where
  "PROJECTOR_NAMES = [''projector'', ''projector-rebuild'']"

definition rebuild_from_sql :: "('t, nat \<times> nat) app3" where
  "rebuild_from_sql =
     bindE clear_task_cache (\<lambda>deleted.
     bindE (reset_projection_state PROJECTOR_NAMES PROJECTOR_NAMES) (\<lambda>_.
     bindE rebuild_task_query_view_from_commands (\<lambda>rebuilt. returnM (rebuilt, deleted))))"

text \<open>The replay loop, with fuel: \<open>None\<close> means that it has not ended yet.\<close>

fun replay_events :: "(json \<Rightarrow> string) \<Rightarrow> int \<Rightarrow> nat \<Rightarrow> nat \<Rightarrow> string \<Rightarrow> nat \<Rightarrow> nat \<Rightarrow> nat \<Rightarrow> ('t, nat option) app3" where
  "replay_events rp ttl max_records max_empty_polls grp 0 empty_polls processed = returnM None"
| "replay_events rp ttl max_records max_empty_polls grp (Suc fuel) empty_polls processed =
     (if max_empty_polls \<le> empty_polls then returnM (Some processed) else
      bindE (kafka_poll grp projector_topics max_records) (\<lambda>messages.
      if messages = [] then replay_events rp ttl max_records max_empty_polls grp fuel (Suc empty_polls) processed else
      bindE (project_messages rp ttl messages) (\<lambda>n.
      bindE (kafka_commit grp projector_topics) (\<lambda>_.
      replay_events rp ttl max_records max_empty_polls grp fuel 0 (processed + n)))))"

definition rebuild_from_events :: "(json \<Rightarrow> string) \<Rightarrow> int \<Rightarrow> nat \<Rightarrow> nat \<Rightarrow> string \<Rightarrow> nat \<Rightarrow> ('t, (nat \<times> nat) option) app3" where
  "rebuild_from_events rp ttl max_records max_empty_polls grp fuel =
     bindE clear_task_cache (\<lambda>deleted.
     bindE (reset_projection_state PROJECTOR_NAMES PROJECTOR_NAMES) (\<lambda>_.
     bindE (replay_events rp ttl max_records max_empty_polls grp fuel 0 0) (\<lambda>processed.
     returnM (map_option (\<lambda>n. (n, deleted)) processed))))"

text \<open>The command: a replay reads with a group of its own, from the earliest record.\<close>

definition rebuilder_main :: "(json \<Rightarrow> string) \<Rightarrow> int \<Rightarrow> nat \<Rightarrow> nat \<Rightarrow> bool \<Rightarrow> nat \<Rightarrow> ('t, (nat \<times> nat) option) app3" where
  "rebuilder_main rp ttl max_records max_empty_polls from_beginning fuel = (if from_beginning
     then bindE fresh_uuid (\<lambda>u. let grp = ''solution3-projector-rebuild-'' @ uuid_str u in
       bindE (open_consumer grp projector_topics) (\<lambda>_. rebuild_from_events rp ttl max_records max_empty_polls grp fuel))
     else bindE rebuild_from_sql (\<lambda>r. returnM (Some r)))"

section \<open>What they leave alone\<close>

text \<open>Neither touches the command rows, the outbox, the ledger or the messages between the processes.\<close>

definition beside :: "s3db \<Rightarrow> 't s3kv \<Rightarrow> s3db \<Rightarrow> 't s3kv \<Rightarrow> bool" where
  "beside d k d' k' \<longleftrightarrow> task_commands d' = task_commands d \<and> outbox_events d' = outbox_events d \<and> users d' = users d \<and>
     reconcile_jobs d' = reconcile_jobs d \<and> tb_state k' = tb_state k \<and> moving_messages k' = moving_messages k"

interpretation beside: effect beside
  by unfold_locales (simp_all add: beside_def)

named_theorems beside_rules

lemmas [beside_rules] = beside.pure beside.bind beside.caught beside.branch beside.of_option beside.of_sum beside.of_prod
  beside.of_let beside.reading beside.pooled beside.atomic

lemma beside_calls [beside_rules]: "leads beside (redis_call f)" "leads beside (kafka_poll g ts n)" "leads beside (kafka_commit g ts)"
  "leads beside (open_consumer g ts)"
proof -
  have fetch: "topics (snd (fetch_from g ts n k)) = topics k \<and> queues (snd (fetch_from g ts n k)) = queues k \<and>
      unacked (snd (fetch_from g ts n k)) = unacked k" for g ts n and k :: "'t s3kv"
    by (induction g ts n k rule: fetch_from.induct) (auto simp: Let_def split: prod.split)
  have still: "beside d k d k'" if "topics k' = topics k" "queues k' = queues k" "unacked k' = unacked k" "tb_state k' = tb_state k"
    for d and k k' :: "'t s3kv"
    using that by (simp add: beside_def moving_cong [OF that(1-3)])
  show "leads beside (redis_call f)" "leads beside (kafka_commit g ts)" "leads beside (open_consumer g ts)" "leads beside (kafka_poll g ts n)"
    unfolding redis_call_def kafka_commit_def open_consumer_def broker_call_def kafka_poll_def broker_read_def
    by (auto simp: commit_all_def rewind_def split: prod.splits intro!: beside.command still) (use fetch in \<open>metis snd_conv\<close>)+
qed

lemma beside_statements [beside_rules]:
  "leads beside (upsert_view t ow res err v)" "leads beside (insert_inbox_event e c)" "leads beside (upsert_checkpoint p topic i n)"
  "leads beside (is_inbox_event_processed e c)"
  unfolding upsert_view_def insert_inbox_event_def upsert_checkpoint_def is_inbox_event_processed_def
  by (auto simp: beside_def Let_def split: option.splits if_splits intro!: beside.statement beside.reading)

lemma beside_project [beside_rules]: "leads beside (project_message rp c p ttl m)"
  unfolding project_message_def apply_task_projection_def cache_projected_view_def
  by (auto intro!: beside_rules split: jtext.split json.split)

lemma beside_project_all [beside_rules]: "leads beside (project_messages rp ttl ms)"
  by (induction ms) (auto intro!: beside_rules)

lemma beside_projector: "leads beside (projector_turn rp ttl n)"
  unfolding projector_turn_def project_polled_messages_def by (intro beside_rules)

lemma beside_clear [beside_rules]: "leads beside clear_task_cache"
proof -
  have "leads beside (delete_batches n keys)" for n keys
    by (induction n arbitrary: keys) (auto intro!: beside_rules)
  then show ?thesis unfolding clear_task_cache_def by (intro beside_rules)
qed

lemma beside_reset [beside_rules]: "leads beside (reset_projection_state cs ps)" "leads beside rebuild_task_query_view_from_commands"
  unfolding reset_projection_state_def rebuild_task_query_view_from_commands_def
  by (intro beside_rules beside.statement; auto simp: beside_def split: if_splits)+

lemma beside_replay [beside_rules]: "leads beside (replay_events rp ttl n m grp fuel e p)"
  by (induction fuel arbitrary: e p) (auto intro!: beside_rules)

lemma beside_rebuilder: "leads beside (rebuilder_main rp ttl n m fb fuel)"
  unfolding rebuilder_main_def rebuild_from_events_def rebuild_from_sql_def by (intro beside_rules)

lemma beside_genuine: "leads beside m \<Longrightarrow> keeps_genuine m"
  unfolding keeps_genuine_def leads_def beside_def all_genuine_def speaks_of_def outbox_messages_def find_command_def by simp

lemma beside_moves:
  assumes "leads beside m"
  shows "moves b h P m (\<lambda>_ _. True)"
proof (rule movesI)
  fix w w' :: "(s3db, 'a s3kv) world" and r
  assume "m w = (r, w')"
  from leadsD [OF assms this] have "s3_step (bl_ledger_id b) (sys h w) (sys h w')"
    unfolding sys_def beside_def by (simp add: s3_step.frame)
  then show "(s3_step (bl_ledger_id b))\<^sup>*\<^sup>* (sys h w) (sys h w') \<and> (\<forall>a. r = Inr a \<longrightarrow> True)" by blast
qed

end
