(* ===== verification/S3_Truth.thy ===== *)
theory S3_Truth
  imports S3_Projector
begin

text \<open>
  What Solution 3 promises about money and tasks, stated over its handlers: every run of every handler, with any
  faults, moves the pair of Postgres and TigerBeetle by the steps of \<open>S3_System\<close>; what the two records then agree on;
  what a hold, a post and a void do to a balance; and where the two records part.
\<close>

section \<open>Runs of the system\<close>

lemma moves_relay: "moves b h P (relay_once n) (\<lambda>_ _. True)"
proof -
  have q: "quiet h (produce_all es)" for es :: "OutboxEventRecord list"
    by (induction es) (auto simp: produce_def append_record_def intro!: quiet_rules)
  have flushed: "quiet h (flush fs)" for fs unfolding flush_def by (intro quiet_rules)
  have "moves b h P (mark_outbox_events_published ids) (\<lambda>_ _. True)" for P ids
    by (intro moves_db_frame keeps_rules) (auto simp: mark_outbox_events_published_def intro!: db_rules)
  then have marked: "moves b h P (bindE (mark_outbox_events_published ids) (\<lambda>_. returnM n)) (\<lambda>_ _. True)" for P ids and n :: nat
    by (rule moves_then) (intro moves_stay quiet_rules)
  show ?thesis
    unfolding relay_once_def fetch_unpublished_outbox_events_def
    by (rule moves_quiet_first [OF quiet_sql_read], rule moves_if, rule moves_stay, rule quiet_rules,
        rule moves_quiet_first [OF q], rule moves_quiet_first [OF flushed], rule marked)
qed

lemma quiet_dispatch: "quiet h (dispatch_messages ms)"
proof (induction ms)
  case (Cons m ms)
  have "quiet h (dispatch_requested_task ev raw)" for ev raw
    unfolding dispatch_requested_task_def by (intro quiet_rules)
  with Cons show ?case by (auto intro!: quiet_rules split: jtext.split json.split)
qed (simp add: quiet_rules)

lemma quiet_dispatcher: "quiet h (dispatcher_turn is_open n)"
  unfolding dispatcher_turn_def dispatch_polled_messages_def kafka_poll_def kafka_commit_def open_consumer_def
  by (intro quiet_rules quiet_dispatch)

text \<open>
  One run of a process: a request to the API, a delivery of an unacknowledged message to a worker, a pass of the
  reconciler, a turn of the relay, of the dispatcher or of the projector, a rebuild of the view.  Between runs time passes, faults are drawn, the broker hands out
  messages and the other stores change.
\<close>

inductive s3_turn :: "'t TigerBeetleBilling \<Rightarrow> ('t \<Rightarrow> tb_transfer list) \<Rightarrow> (s3db, 't s3kv) world \<Rightarrow> (s3db, 't s3kv) world \<Rightarrow> bool"
  for b h where
  submit: "rt_billing_client rt = Some b \<Longrightarrow> submit_task ip6 rt payload user key w = (r, w') \<Longrightarrow> s3_turn b h w w'"
| cancel: "rt_billing_client rt = Some b \<Longrightarrow> cancel_task rt t user w = (r, w') \<Longrightarrow> s3_turn b h w w'"
| topup: "rt_billing_client rt = Some b \<Longrightarrow> admin_credits sha uuid5 rt req user w = (r, w') \<Longrightarrow> s3_turn b h w w'"
| deliver: "(tag, q, body) \<in> set (unacked (kv w)) \<Longrightarrow> handle_delivery b i tag body ttl w = (r, w') \<Longrightarrow> s3_turn b h w w'"
| reconcile: "reconcile_stale_reserved_tasks b n ttl w = (r, w') \<Longrightarrow> s3_turn b h w w'"
| relay: "relay_once n w = (r, w') \<Longrightarrow> s3_turn b h w w'"
| dispatch: "dispatcher_turn is_open n w = (r, w') \<Longrightarrow> s3_turn b h w w'"
| project: "projector_turn rp ttl n w = (outcome, w') \<Longrightarrow> s3_turn b h w w'"
| rebuild: "rebuilder_main rp ttl n m from_events fuel w = (result, w') \<Longrightarrow> s3_turn b h w w'"
| elsewhere: "sys h w' = sys h w \<Longrightarrow> moving_messages (kv w') \<subseteq> moving_messages (kv w) \<Longrightarrow> s3_turn b h w w'"

lemma genuine_step: "keeps_genuine m \<Longrightarrow> all_genuine (pg w) (kv w) \<Longrightarrow> m w = (r, w') \<Longrightarrow> all_genuine (pg w') (kv w')"
  unfolding keeps_genuine_def by (metis snd_conv)

lemma turn_genuine:
  assumes "s3_turn b h w w'" "all_genuine (pg w) (kv w)"
  shows "all_genuine (pg w') (kv w')"
  using assms(1)
proof cases
  case (submit rt ip6 payload user key r)
  show ?thesis by (rule genuine_step [OF genuine_submit assms(2) submit(2)])
next
  case (cancel rt t user r)
  show ?thesis by (rule genuine_step [OF genuine_passing [OF passing_cancel] assms(2) cancel(2)])
next
  case (topup rt sha uuid5 req user r)
  show ?thesis by (rule genuine_step [OF genuine_passing [OF passing_admin] assms(2) topup(2)])
next
  case (deliver tag q body i ttl r)
  show ?thesis by (rule genuine_step [OF genuine_passing [OF passing_delivery] assms(2) deliver(2)])
next
  case (reconcile n ttl r)
  show ?thesis by (rule genuine_step [OF genuine_passing [OF passing_reconcile] assms(2) reconcile])
next
  case (relay n r)
  show ?thesis by (rule genuine_step [OF genuine_relay assms(2) relay])
next
  case (dispatch is_open n r)
  show ?thesis by (rule genuine_step [OF genuine_dispatcher assms(2) dispatch])
next
  case (project rp ttl n outcome)
  show ?thesis by (rule genuine_step [OF beside_genuine [OF beside_projector] assms(2) project])
next
  case (rebuild rp ttl n m fb fuel result)
  show ?thesis by (rule genuine_step [OF beside_genuine [OF beside_rebuilder] assms(2) rebuild])
next
  case elsewhere
  then have "pg w' = pg w" by (simp add: sys_def)
  with elsewhere(2) show ?thesis using genuine_more [OF assms(2), of "kv w'"] by auto
qed

lemma turn_steps:
  assumes hist: "tb_history (bl_client b) h" and turn: "s3_turn b h w w'" and inv: "s3_inv (bl_ledger_id b) (sys h w)"
    and msgs: "all_genuine (pg w) (kv w)"
  shows "(s3_step (bl_ledger_id b))\<^sup>*\<^sup>* (sys h w) (sys h w')"
  using turn
proof cases
  case (submit rt ip6 payload user key r)
  show ?thesis by (rule movesD(1) [OF moves_submit_task [OF hist submit(1)] inv TrueI submit(2)])
next
  case (cancel rt t user r)
  show ?thesis by (rule movesD(1) [OF moves_cancel_task [OF hist cancel(1)] inv TrueI cancel(2)])
next
  case (topup rt sha uuid5 req user r)
  show ?thesis by (rule movesD(1) [OF moves_admin_credits [OF hist topup(1)] inv TrueI topup(2)])
next
  case (deliver tag q body i ttl r)
  have "body \<in> moving_messages (kv w)" using deliver(1) by (force simp: moving_messages_def)
  then have "genuine body (sys h w)" using msgs by (simp add: all_genuine_def genuine_iff sys_def)
  from movesD(1) [OF moves_handle_delivery [OF hist] inv this deliver(2)] show ?thesis .
next
  case (reconcile n ttl r)
  show ?thesis by (rule movesD(1) [OF moves_reconcile [OF hist] inv TrueI reconcile])
next
  case (relay n r)
  show ?thesis by (rule movesD(1) [OF moves_relay inv TrueI relay])
next
  case (dispatch is_open n r)
  then have "sys h w' = sys h w" using quiet_dispatcher unfolding quiet_def by (metis snd_conv)
  then show ?thesis by simp
next
  case (project rp ttl n outcome)
  show ?thesis by (rule movesD(1) [OF beside_moves [OF beside_projector] inv TrueI project])
next
  case (rebuild rp ttl n m fb fuel result)
  show ?thesis by (rule movesD(1) [OF beside_moves [OF beside_rebuilder] inv TrueI rebuild])
next
  case elsewhere
  then show ?thesis by simp
qed

lemma turns_steps:
  assumes hist: "tb_history (bl_client b) h" and turns: "(s3_turn b h)\<^sup>*\<^sup>* w w'"
    and inv: "s3_inv (bl_ledger_id b) (sys h w)" "all_genuine (pg w) (kv w)"
  shows "(s3_step (bl_ledger_id b))\<^sup>*\<^sup>* (sys h w) (sys h w') \<and> all_genuine (pg w') (kv w')"
  using turns
proof (induction rule: rtranclp_induct)
  case (step x y)
  with s3_run_inv inv(1) have "s3_inv (bl_ledger_id b) (sys h x)" by blast
  with step turn_steps [OF hist] turn_genuine show ?case by (meson rtranclp_trans)
qed (simp add: inv)

section \<open>The two records agree\<close>

definition records_agree :: "tb_transfer list \<Rightarrow> TaskCommand \<Rightarrow> bool" where
  "records_agree h c \<longleftrightarrow> (case tc_status c of
       PENDING \<Rightarrow> tc_billing_state c = RESERVED
     | RUNNING \<Rightarrow> tc_billing_state c = RESERVED
     | COMPLETED \<Rightarrow> tc_billing_state c = CAPTURED \<and> hold_state h (hold_key c) = HOLD_POSTED
     | FAILED \<Rightarrow> tc_billing_state c = RELEASED \<and> hold_state h (hold_key c) = HOLD_VOIDED
     | CANCELLED \<Rightarrow> tc_billing_state c = RELEASED
     | EXPIRED \<Rightarrow> False) \<and> hold_state h (hold_key c) \<noteq> HOLD_ABSENT"

lemma aligned_agree: "aligned h c \<Longrightarrow> book_ok ledger h \<Longrightarrow> records_agree h c"
  using settled_once [of ledger h "hold_key c"]
  by (cases "tc_status c") (auto simp: aligned_def records_agree_def hold_state_def)

text \<open>C26. Start where the two records agree and every message that asks for a task speaks of a task as it was admitted, and let any processes of Solution 3 run any number of times, with any faults.
  Then they agree still: a task is reserved exactly while it is active, a completed task is captured and its hold is posted, a failed
  one is released and its hold is voided, none has expired, every task has a hold of its own, and a task keeps its
  owner, its price and its hold, and once it has ended everything.\<close>

theorem books_agree:
  assumes hist: "tb_history (bl_client b) h" and inv: "s3_inv (bl_ledger_id b) (sys h w)"
    and msgs: "all_genuine (pg w) (kv w)"
    and turns: "(s3_turn b h)\<^sup>*\<^sup>* w w'" and c: "find_command (pg w') t = Some c"
  shows "s3_inv (bl_ledger_id b) (sys h w') \<and> all_genuine (pg w') (kv w') \<and> records_agree (h (tb_state (kv w'))) c \<and>
    (\<forall>t' c'. find_command (pg w') t' = Some c' \<and> hold_key c' = hold_key c \<longrightarrow> t' = t) \<and>
    (\<forall>c0. find_command (pg w) t = Some c0 \<longrightarrow> same_task c0 c)"
proof -
  have steps: "(s3_step (bl_ledger_id b))\<^sup>*\<^sup>* (sys h w) (sys h w')" and msgs': "all_genuine (pg w') (kv w')"
    using turns_steps [OF hist turns inv msgs] by simp_all
  have inv': "s3_inv (bl_ledger_id b) (sys h w')" by (rule s3_run_inv [OF steps inv])
  have mem: "c \<in> set (task_commands (pg w'))" "tc_task_id c = t" using find_command_member [OF c] by auto
  have "t' = t" if "find_command (pg w') t' = Some c'" "hold_key c' = hold_key c" for t' c'
    using inv' find_command_member [OF that(1)] mem that(2) lookup_row_member [of hold_key]
    unfolding s3_inv_def sys_def by (metis fst_conv option.inject)
  moreover have "records_agree (h (tb_state (kv w'))) c"
    using inv' mem(1) by (auto simp: s3_inv_def sys_def intro: aligned_agree)
  moreover have "same_task c0 c" if "find_command (pg w) t = Some c0" for c0
    using run_task [OF steps, of t c0] that c by (auto simp: sys_def)
  ultimately show ?thesis using inv' msgs' by blast
qed

section \<open>What a hold, a post and a void do to a balance\<close>

lemma sent_money:
  assumes money: "tb_money (bl_client b) h posted limited"
    and run: "tb_call (\<lambda>now. create_transfers (bl_client b) now [x]) w = (Inr [], w')"
  shows "(\<forall>a. available (bl_client b) (clock w) (tb_state (kv w')) a =
      available (bl_client b) (clock w) (tb_state (kv w)) a + balance_change posted (h (tb_state (kv w))) x a) \<and>
    (limited (tr_debit_account_id x) \<and> \<not> settles x \<longrightarrow>
      0 \<le> available (bl_client b) (clock w) (tb_state (kv w')) (tr_debit_account_id x))"
  using run
proof (cases rule: remote_tb)
  case (ran es)
  then have "create_transfers (bl_client b) (clock w) [x] (tb_state (kv w)) = ([], tb_state (kv w'))" by simp
  with money show ?thesis unfolding tb_money_def by blast
qed simp

lemma sent_when:
  assumes "bindE (tb_call g) (\<lambda>errors. returnM (f errors)) w = (Inr a, w')"
  obtains es where "tb_call g w = (Inr es, w')" "a = f es"
  using assms by (auto elim!: bindE_okE)

text \<open>C27. A hold that TigerBeetle accepts takes its amount from what the user can spend and leaves no debt; a void gives
  the whole hold back; a post, which the code sends with the amount 0, gives back the hold but for what the server takes for that amount.\<close>

theorem balance_of_a_hold:
  assumes money: "tb_money (bl_client b) h posted limited" and lim: "limited (uuid_to_u128 u)"
    and other: "bl_escrow_account_id b \<noteq> uuid_to_u128 u"
    and p: "find (\<lambda>p. tr_id p = uuid_to_u128 t) (h (tb_state (kv w))) = Some p" "tr_debit_account_id p = uuid_to_u128 u"
      "tr_credit_account_id p = bl_escrow_account_id b"
  defines "credits \<equiv> \<lambda>v. available (bl_client b) (clock w) (tb_state (kv v)) (uuid_to_u128 u)"
  shows "(reserve_credits b u t' n w = (Inr ACCEPTED, w1) \<longrightarrow> credits w1 = credits w - n \<and> 0 \<le> credits w1) \<and>
    (void_pending_transfer b t w = (Inr True, w2) \<longrightarrow> credits w2 = credits w + tr_amount p) \<and>
    (post_pending_transfer b t w = (Inr True, w3) \<longrightarrow> credits w3 = credits w + tr_amount p - posted 0 (tr_amount p))"
proof (intro conjI impI)
  assume "reserve_credits b u t' n w = (Inr ACCEPTED, w1)"
  then have "tb_call (\<lambda>now. create_transfers (bl_client b) now [hold_transfer b u t' n]) w = (Inr [], w1)"
    unfolding reserve_credits_def by (elim sent_when) (auto split: list.splits if_splits)
  from sent_money [OF money this] show "credits w1 = credits w - n" "0 \<le> credits w1"
    using lim other by (auto simp: credits_def balance_change_def hold_transfer_def settles_def has_flag_def)
next
  assume run: "void_pending_transfer b t w = (Inr True, w2)"
  then obtain i v where v: "fresh_uuid w = (Inr i, v)"
    "tb_call (\<lambda>now. create_transfers (bl_client b) now [settle_transfer b VOID_PENDING_TRANSFER i t]) v = (Inr [], w2)"
    unfolding void_pending_transfer_def by (auto elim!: bindE_okE)
  from v(1) have same: "kv v = kv w" "clock v = clock w" by (auto elim: fresh_uuid_okE)
  show "credits w2 = credits w + tr_amount p"
    using sent_money [OF money v(2)] p other unfolding same credits_def
    by (auto simp: balance_change_def settle_transfer_def settles_def has_flag_def Let_def)
next
  assume run: "post_pending_transfer b t w = (Inr True, w3)"
  then obtain i v where v: "fresh_uuid w = (Inr i, v)"
    "tb_call (\<lambda>now. create_transfers (bl_client b) now [settle_transfer b POST_PENDING_TRANSFER i t]) v = (Inr [], w3)"
    unfolding post_pending_transfer_def by (auto elim!: bindE_okE)
  from v(1) have same: "kv v = kv w" "clock v = clock w" by (auto elim: fresh_uuid_okE)
  show "credits w3 = credits w + tr_amount p - posted 0 (tr_amount p)"
    using sent_money [OF money v(2)] p other unfolding same credits_def
    by (auto simp: balance_change_def settle_transfer_def settles_def has_flag_def Let_def)
qed

section \<open>What a transaction on a task returned\<close>

lemma command_tx_cases:
  assumes "acquire (transaction (bindE (update_command t G f) (\<lambda>u. case u of None \<Rightarrow> returnM x | Some c \<Rightarrow> rest c))) w = (Inr a, w')"
    and rest: "\<And>c X. keeps (\<lambda>d. task_commands d = X) (rest c)" and key: "\<And>c. tc_task_id (f c) = tc_task_id c"
  obtains (missed) "a = x" "pg w' = pg w"
    | (hit) c now v v' where "find_command (pg w) t = Some c" "G now c"
      "find_command (pg w') t = Some ((f c)\<lparr>tc_updated_at := now\<rparr>)" "rest ((f c)\<lparr>tc_updated_at := now\<rparr>) v = (Inr a, v')"
      "\<And>t'. t' \<noteq> t \<Longrightarrow> find_command (pg w') t' = find_command (pg w) t'"
proof -
  from assms(1) obtain fs u w1 w2 where up: "update_command t G f (w\<lparr>faults := fs\<rparr>) = (Inr u, w1)"
    and run: "(case u of None \<Rightarrow> returnM x | Some c \<Rightarrow> rest c) w1 = (Inr a, w2)" and pg: "pg w' = pg w2"
    by (elim acquire_okE transaction_okE bindE_okE) auto
  from up show thesis
  proof (cases rule: update_command_cases)
    case missed
    with run pg show thesis by (intro that(1)) auto
  next
    case (hit c)
    let ?now = "clock (w\<lparr>faults := fs\<rparr>)"
    from run hit(3) have ran: "rest ((f c)\<lparr>tc_updated_at := ?now\<rparr>) w1 = (Inr a, w2)" by simp
    have "task_commands (pg w2) = task_commands (pg w1)"
      using keepsD [OF rest [of "task_commands (pg w1)"], of w1] ran by (metis snd_conv)
    then have tab: "task_commands (pg w') = update_rows (\<lambda>c. tc_task_id c = t) (\<lambda>c. (f c)\<lparr>tc_updated_at := ?now\<rparr>) (task_commands (pg w))"
      using hit(4) pg by simp
    have look: "find_command (pg w') t' = (if t' = t then map_option (\<lambda>c. (f c)\<lparr>tc_updated_at := ?now\<rparr>) (find_command (pg w) t')
        else find_command (pg w) t')" for t'
      unfolding find_command_def tab by (rule lookup_row_update_key) (simp add: key)
    show thesis by (rule that(2) [OF _ hit(2) _ ran]) (use hit(1) look in auto)
  qed
qed

lemma finalize_ok:
  assumes "finalize_task_command t u st bs cost res err w = (Inr True, w')"
  shows "kv w' = kv w \<and> (\<exists>c. find_command (pg w') t = Some c \<and> tc_status c = st \<and> tc_billing_state c = bs)"
proof -
  have "kv w' = kv w"
    using assms unfolding finalize_task_command_def Let_def by (rule db_only_run [rotated]) (intro db_rules)
  moreover have "\<exists>c. find_command (pg w') t = Some c \<and> tc_status c = st \<and> tc_billing_state c = bs"
    using assms unfolding finalize_task_command_def Let_def
    by (cases rule: command_tx_cases) (auto simp: set_state_def intro!: keeps_rules)
  ultimately show ?thesis by simp
qed

lemma redis_call_frame:
  "redis_call f w = (r, w') \<Longrightarrow> pg w' = pg w \<and> tb_state (kv w') = tb_state (kv w)"
  using redis_call_tb [of f w] keeps_pg [of "redis_call f" w] keeps_redis_call by (metis snd_conv)

lemma completion_ok:
  assumes "handle_task_completion b task True ttl res err w = (Inr True, w')"
  obtains w1 c where "post_pending_transfer b (tc_tb_pending_transfer_id task) w = (Inr True, w1)"
    "tb_state (kv w') = tb_state (kv w1)" "find_command (pg w') (tc_task_id task) = Some c" "tc_status c = COMPLETED"
    "tc_billing_state c = CAPTURED"
proof -
  from assms obtain w1 w2 w3 w4 n m where post: "post_pending_transfer b (tc_tb_pending_transfer_id task) w = (Inr True, w1)"
    and fin: "finalize_task_command (tc_task_id task) (tc_user_id task) COMPLETED CAPTURED (tc_cost task) res err w1 = (Inr True, w2)"
    and cache: "redis_call (incr_by (active_counter_key (tc_user_id task)) (-1)) w2 = (Inr n, w3)"
      "redis_call (hset (task_state_key (tc_task_id task)) m) w3 = (Inr (), w4)"
      "redis_call (expire_key (task_state_key (tc_task_id task)) ttl) w4 = (Inr (), w')"
    unfolding handle_task_completion_def Let_def by (auto elim!: bindE_okE split: if_splits)
  from cache have "pg w' = pg w2" "tb_state (kv w') = tb_state (kv w2)" by (auto dest!: redis_call_frame)
  with finalize_ok [OF fin] post that show thesis by auto
qed

text \<open>C28. With a server that posts the amount it is asked for, as TigerBeetle does since release 0.16, a task that the worker
  completes and captures gives its whole price back to the user: nothing is ever charged.\<close>

theorem completed_task_is_not_charged:
  assumes money: "tb_money (bl_client b) h posted limited" and posts: "posts_requested_amount posted"
    and p: "find (\<lambda>p. tr_id p = hold_key task) (h (tb_state (kv w))) = Some p" "tr_debit_account_id p = a"
      "tr_credit_account_id p \<noteq> a"
    and run: "handle_task_completion b task True ttl res err w = (Inr True, w')"
  shows "available (bl_client b) (clock w) (tb_state (kv w')) a =
      available (bl_client b) (clock w) (tb_state (kv w)) a + tr_amount p \<and>
    (\<exists>c. find_command (pg w') (tc_task_id task) = Some c \<and> tc_status c = COMPLETED \<and> tc_billing_state c = CAPTURED)"
proof -
  from run obtain w1 c where post: "post_pending_transfer b (tc_tb_pending_transfer_id task) w = (Inr True, w1)"
    and fin: "tb_state (kv w') = tb_state (kv w1)" "find_command (pg w') (tc_task_id task) = Some c"
      "tc_status c = COMPLETED" "tc_billing_state c = CAPTURED" by (rule completion_ok)
  from post obtain i v where v: "fresh_uuid w = (Inr i, v)"
    "tb_call (\<lambda>now. create_transfers (bl_client b) now
       [settle_transfer b POST_PENDING_TRANSFER i (tc_tb_pending_transfer_id task)]) v = (Inr [], w1)"
    unfolding post_pending_transfer_def by (auto elim!: bindE_okE)
  from v(1) have same: "kv v = kv w" "clock v = clock w" by (auto elim: fresh_uuid_okE)
  have "posted 0 n = 0" for n using posts by (simp add: posts_requested_amount_def)
  then have "available (bl_client b) (clock w) (tb_state (kv w1)) a =
      available (bl_client b) (clock w) (tb_state (kv w)) a + tr_amount p"
    using sent_money [OF money v(2)] p unfolding same
    by (auto simp: balance_change_def settle_transfer_def settles_def has_flag_def Let_def)
  with fin show ?thesis by auto
qed

section \<open>A cancellation that comes too late\<close>

lemma cancel_command_run:
  assumes "faults w = []" "find_command (pg w) t = Some c" "active_status (tc_status c)" "entropy w = i # is"
    "lookup_row ob_event_id i (outbox_events (pg w)) = None"
  shows "\<exists>e. cancel_task_command t w = (Inr True, w\<lparr>entropy := is,
     pg := task_and_event t (\<lambda>c. (set_state CANCELLED RELEASED c)\<lparr>tc_updated_at := clock w\<rparr>) e (pg w)\<rparr>)"
  unfolding cancel_task_command_def
  by (subst task_event_tx [OF assms(1,2) _ assms(4,5)]) (use assms(3) in auto)

lemma bindE_mono: "\<lbrakk>m w = (Inr a, w1); f a w1 = (r, w')\<rbrakk> \<Longrightarrow> bindE m f w = (r, w')"
  by (simp add: bindE_def)

lemma void_history:
  assumes hist: "tb_history (bl_client b) h" and run: "void_pending_transfer b t w = (r, w')"
  shows "pg w' = pg w \<and> (\<exists>ys. h (tb_state (kv w')) = h (tb_state (kv w)) @ ys) \<and> (faults w = [] \<longrightarrow> faults w' = [])"
  using run unfolding void_pending_transfer_def
proof (cases rule: bindE_cases)
  case (raised e)
  then show ?thesis by (simp add: fresh_uuid_def split: list.splits)
next
  case (ran i w1)
  then have w1: "pg w1 = pg w" "kv w1 = kv w" "faults w1 = faults w" by (auto simp: fresh_uuid_def split: list.splits)
  obtain q where q: "tb_call (\<lambda>now. create_transfers (bl_client b) now [settle_transfer b VOID_PENDING_TRANSFER i t]) w1 = (q, w')"
    using ran(2) by (cases rule: bindE_cases) (auto simp: returnM_def)
  have "faults w' = []" if "faults w1 = []" using q that by (auto simp: tb_call_nofault split: prod.splits)
  moreover from q have "pg w' = pg w1 \<and> (\<exists>ys. h (tb_state (kv w')) = h (tb_state (kv w1)) @ ys)"
  proof (cases rule: remote_tb)
    case (ran es)
    with hist show ?thesis unfolding tb_history_def by (metis append_Nil2)
  qed simp
  ultimately show ?thesis using w1 by simp
qed

lemma cache_cancelled_run:
  assumes "faults w = []"
  shows "\<exists>v. cache_cancelled rt c t w = (Inr (), v) \<and> pg v = pg w \<and> tb_state (kv v) = tb_state (kv w)"
  using assms by (simp add: cache_cancelled_def nofault_simps returnM_def split: prod.split)

lemma cancel_run:
  assumes hist: "tb_history (bl_client b) h" and rt: "rt_billing_client rt = Some b" "rt_db_pool rt"
    and user: "List.member (au_scopes user) ''task:cancel''" "au_role user = ADMIN \<or> tc_user_id c = au_user_id user"
    and w: "faults w = []" "entropy w = i # is" "lookup_row ob_event_id i (outbox_events (pg w)) = None"
    and c: "find_command (pg w) t = Some c" "active_status (tc_status c)" "tc_billing_state c = RESERVED"
  shows "\<exists>w' c'. cancel_task rt t user w = (Inr (JSONResponse 200 (cancel_response_json t)), w') \<and>
    find_command (pg w') t = Some c' \<and> tc_status c' = CANCELLED \<and> tc_billing_state c' = RELEASED \<and> hold_key c' = hold_key c \<and>
    (\<exists>ys. h (tb_state (kv w')) = h (tb_state (kv w)) @ ys)"
proof -
  from cancel_command_run [OF w(1) c(1,2) w(2,3)] obtain v where v: "cancel_task_command t w = (Inr True, v)"
    "faults v = []" "kv v = kv w" "\<exists>e. pg v = task_and_event t (\<lambda>c. (set_state CANCELLED RELEASED c)\<lparr>tc_updated_at := clock w\<rparr>) e (pg w)"
    using w(1) by fastforce
  obtain q u where u: "void_pending_transfer b (tc_tb_pending_transfer_id c) v = (q, u)" by fastforce
  note hu = void_history [OF hist u]
  from cache_cancelled_run [of u rt c t] hu v(2) obtain w' where w': "cache_cancelled rt c t u = (Inr (), w')"
    "pg w' = pg u" "tb_state (kv w') = tb_state (kv u)" by auto
  have "cancel_task rt t user w = (Inr (JSONResponse 200 (cancel_response_json t)), w')"
    using user c rt u w' v
    by (auto simp: cancel_task_def Let_def TASK_CANCELLABLE_STATUSES_def require_scopes_def nofault_simps w(1) get_task_command_def release_pending_transfer_def
        bindE_attempt bindE_ran [of "cancel_task_command t", OF v(1)] bindE_ran [of "cache_cancelled rt c t", OF w'(1)] returnM_def)
  moreover have "find_command (pg w') t = Some ((set_state CANCELLED RELEASED c)\<lparr>tc_updated_at := clock w\<rparr>)"
    using v(4) w'(2) hu c(1) by (auto simp: find_task_and_event set_state_def)
  moreover have "\<exists>ys. h (tb_state (kv w')) = h (tb_state (kv w)) @ ys" using hu v(3) w'(3) by simp
  ultimately show ?thesis by (simp add: set_state_def)
qed

text \<open>C29. A cancellation between the post of the hold and the final write of the worker answers 200 and says RELEASED,
  and the task ends cancelled and released, while its hold stays posted.\<close>

theorem late_cancellation:
  assumes hist: "tb_history (bl_client b) h" and rt: "rt_billing_client rt = Some b" "rt_db_pool rt"
    and user: "List.member (au_scopes user) ''task:cancel''" "au_role user = ADMIN \<or> tc_user_id c = au_user_id user"
    and w: "faults w = []" "entropy w = i # is" "lookup_row ob_event_id i (outbox_events (pg w)) = None"
    and c: "find_command (pg w) t = Some c" "active_status (tc_status c)" "tc_billing_state c = RESERVED"
    and posted: "hold_state (h (tb_state (kv w))) (hold_key c) = HOLD_POSTED"
  shows "\<exists>w' c'. cancel_task rt t user w = (Inr (JSONResponse 200 (cancel_response_json t)), w') \<and>
    find_command (pg w') t = Some c' \<and> tc_status c' = CANCELLED \<and> tc_billing_state c' = RELEASED \<and> hold_key c' = hold_key c \<and>
    hold_state (h (tb_state (kv w'))) (hold_key c) = HOLD_POSTED"
  using cancel_run [OF hist rt user w c] posted settled_by_extend [of POST_PENDING_TRANSFER "h (tb_state (kv w))" "hold_key c"]
  by (fastforce simp: hold_state_def split: if_splits)

section \<open>Witnesses\<close>

lemma demo_reserve: "\<exists>v. reserve_credits demo_billing 5 9 10 (demo_world [demo_task] [demo_hold] []) = (Inr ACCEPTED, v)"
  by (simp add: reserve_credits_def demo_runs)

lemma demo_void: "\<exists>v. void_pending_transfer demo_billing 8 (demo_world [demo_task] [demo_hold] []) = (Inr True, v)"
  by (simp add: void_pending_transfer_def demo_runs)

lemma demo_post: "\<exists>v. post_pending_transfer demo_billing 8 (demo_world [demo_task] [demo_hold] []) = (Inr True, v)"
  by (simp add: post_pending_transfer_def demo_runs)

definition demo_credits :: "(s3db, demo_ledger s3kv) world \<Rightarrow> int" where
  "demo_credits v = available demo_client 1700000000000000 (tb_state (kv v)) 5"

theorem balance_of_a_hold_witness:
  "\<exists>w w1 w2 w3. reserve_credits demo_billing 5 9 10 w = (Inr ACCEPTED, w1) \<and> demo_credits w1 = demo_credits w - 10 \<and> 0 \<le> demo_credits w1 \<and>
     void_pending_transfer demo_billing 8 w = (Inr True, w2) \<and> demo_credits w2 = demo_credits w + 10 \<and>
     post_pending_transfer demo_billing 8 w = (Inr True, w3) \<and> demo_credits w3 = demo_credits w + 10"
proof -
  let ?w = "demo_world [demo_task] [demo_hold] []"
  have money: "tb_money (bl_client demo_billing) fst posted_since_016 demo_limited" by (simp add: demo_money)
  have p: "find (\<lambda>p. tr_id p = uuid_to_u128 8) (fst (tb_state (kv ?w))) = Some demo_hold"
    "tr_debit_account_id demo_hold = uuid_to_u128 5" "tr_credit_account_id demo_hold = bl_escrow_account_id demo_billing"
    by (simp_all add: demo_hold_def hold_transfer_def uuid_to_u128_number)
  have lim: "demo_limited (uuid_to_u128 5)" and other: "bl_escrow_account_id demo_billing \<noteq> uuid_to_u128 5"
    by (simp_all add: demo_limited_def uuid_to_u128_number)
  obtain w1 w2 w3 where 1: "reserve_credits demo_billing 5 9 10 ?w = (Inr ACCEPTED, w1)"
    and 2: "void_pending_transfer demo_billing 8 ?w = (Inr True, w2)" and 3: "post_pending_transfer demo_billing 8 ?w = (Inr True, w3)"
    using demo_reserve demo_void demo_post by blast
  have "tr_amount demo_hold = 10" by (simp add: demo_hold_def hold_transfer_def)
  then have "demo_credits w1 = demo_credits ?w - 10 \<and> 0 \<le> demo_credits w1 \<and> demo_credits w2 = demo_credits ?w + 10 \<and>
      demo_credits w3 = demo_credits ?w + 10"
    using balance_of_a_hold [OF money lim other p, where t' = 9 and n = 10 and ?w1.0 = w1 and ?w2.0 = w2 and ?w3.0 = w3] 1 2 3
    by (simp add: demo_credits_def uuid_to_u128_number posted_since_016_def)
  with 1 2 3 show ?thesis by blast
qed

text \<open>A hold is settled and its task finalized.\<close>

lemma finalize_run:
  assumes "faults w = []" "find_command (pg w) t = Some c" "active_status (tc_status c)" "entropy w = i # is"
    "lookup_row ob_event_id i (outbox_events (pg w)) = None"
  shows "\<exists>e. finalize_task_command t u st bs cost res err w = (Inr True, w\<lparr>entropy := is,
     pg := task_and_event t (\<lambda>c. (set_state st bs c)\<lparr>tc_updated_at := clock w\<rparr>) e (pg w)\<rparr>)"
  unfolding finalize_task_command_def Let_def
  by (subst task_event_tx [OF assms(1,2) _ assms(4,5)]) (use assms(3) in auto)

lemma demo_complete: "\<exists>v. handle_task_completion demo_billing demo_task True 3600 None None
    (demo_world [demo_task] [demo_hold] []) = (Inr True, v)"
proof -
  let ?w = "demo_world [demo_task] [demo_hold] []" and ?fin = "finalize_task_command 7 5 COMPLETED CAPTURED 10 None None"
  have "\<exists>u. post_pending_transfer demo_billing 8 ?w = (Inr True, u) \<and> faults u = [] \<and> pg u = demo_db [demo_task] \<and>
      entropy u = [22, 23, 24, 25, 26, 27, 28, 29]"
    by (simp add: post_pending_transfer_def demo_runs)
  then obtain u where post: "post_pending_transfer demo_billing 8 ?w = (Inr True, u)"
    and u: "faults u = []" "pg u = demo_db [demo_task]" "entropy u = 22 # [23, 24, 25, 26, 27, 28, 29]" by auto
  have "find_command (pg u) 7 = Some demo_task" "active_status (tc_status demo_task)"
    "lookup_row ob_event_id 22 (outbox_events (pg u)) = None" by (simp_all add: find_command_def u(2))
  from finalize_run [OF u(1) this(1,2) u(3) this(3)] obtain v where fin: "?fin u = (Inr True, v)" and v: "faults v = []"
    using u(1) by fastforce
  show ?thesis
    by (simp add: handle_task_completion_def bindE_ran [of "post_pending_transfer demo_billing 8", OF post]
        bindE_ran [of ?fin, OF fin] v nofault_simps returnM_def split: prod.split)
qed

theorem completed_task_is_not_charged_witness:
  "\<exists>w w' c. handle_task_completion demo_billing demo_task True 3600 None None w = (Inr True, w') \<and>
     demo_credits w' = demo_credits w + 10 \<and> find_command (pg w') 7 = Some c \<and> tc_status c = COMPLETED \<and> tc_billing_state c = CAPTURED"
proof -
  let ?w = "demo_world [demo_task] [demo_hold] []"
  obtain v where run: "handle_task_completion demo_billing demo_task True 3600 None None ?w = (Inr True, v)"
    using demo_complete by blast
  have money: "tb_money (bl_client demo_billing) fst posted_since_016 demo_limited" by (simp add: demo_money)
  have p: "find (\<lambda>p. tr_id p = hold_key demo_task) (fst (tb_state (kv ?w))) = Some demo_hold" "tr_debit_account_id demo_hold = 5"
    "tr_credit_account_id demo_hold \<noteq> 5" and n: "tr_amount demo_hold = 10"
    by (simp_all add: demo_hold_def hold_transfer_def uuid_to_u128_number)
  have "posts_requested_amount posted_since_016" by (simp add: posts_requested_amount_def posted_since_016_def)
  from completed_task_is_not_charged [OF money this p run] n run show ?thesis
    by (intro exI [of _ ?w] exI [of _ v]) (auto simp: demo_credits_def)
qed

lemma demo_authorised:
  "tb_history (bl_client demo_billing) fst" "rt_billing_client demo_rt = Some demo_billing" "rt_db_pool demo_rt"
  "List.member (au_scopes demo_owner) ''task:cancel''" "au_role demo_owner = ADMIN \<or> tc_user_id demo_task = au_user_id demo_owner"
  by (rule demo_billing_history) (simp_all add: demo_rt_def demo_owner_def)

lemma demo_ready:
  "faults (demo_world [demo_task] h []) = []" "entropy (demo_world [demo_task] h []) = 21 # [22, 23, 24, 25, 26, 27, 28, 29]"
  "lookup_row ob_event_id 21 (outbox_events (pg (demo_world [demo_task] h []))) = None"
  "find_command (pg (demo_world [demo_task] h [])) 7 = Some demo_task"
  by (simp_all add: find_command_def)

lemma demo_active: "active_status (tc_status demo_task)" "tc_billing_state demo_task = RESERVED"
  by simp_all

theorem late_cancellation_witness:
  "\<exists>w w' c. cancel_task demo_rt 7 demo_owner w = (Inr (JSONResponse 200 (cancel_response_json 7)), w') \<and>
     find_command (pg w') 7 = Some c \<and> tc_billing_state c = RELEASED \<and> hold_state (fst (tb_state (kv w'))) (hold_key c) = HOLD_POSTED"
proof -
  let ?h = "[demo_hold, settle_transfer demo_billing POST_PENDING_TRANSFER 30 8]"
  have "hold_state (fst (tb_state (kv (demo_world [demo_task] ?h [])))) (hold_key demo_task) = HOLD_POSTED"
    by (simp add: hold_state_def settled_by_def transfer_defs)
  from late_cancellation [OF demo_authorised demo_ready demo_active this] obtain v c where
    "cancel_task demo_rt 7 demo_owner (demo_world [demo_task] ?h []) = (Inr (JSONResponse 200 (cancel_response_json 7)), v)"
    "find_command (pg v) 7 = Some c" "tc_billing_state c = RELEASED" "hold_key c = hold_key demo_task"
    "hold_state (fst (tb_state (kv v))) (hold_key demo_task) = HOLD_POSTED" by blast
  then show ?thesis by (intro exI [of _ "demo_world [demo_task] ?h []"] exI [of _ v] exI [of _ c]) simp
qed

theorem books_agree_witness:
  "\<exists>w' c. (s3_turn demo_billing fst)\<^sup>*\<^sup>* (demo_world [demo_task] [demo_hold] []) w' \<and> find_command (pg w') 7 = Some c \<and>
     tc_status c = CANCELLED \<and> s3_inv 1 (sys fst w') \<and> records_agree (fst (tb_state (kv w'))) c \<and> same_task demo_task c"
proof -
  let ?w = "demo_world [demo_task] [demo_hold] []"
  from cancel_run [OF demo_authorised demo_ready [of "[demo_hold]"] demo_active] obtain v c where
    run: "cancel_task demo_rt 7 demo_owner ?w = (Inr (JSONResponse 200 (cancel_response_json 7)), v)"
    and c: "find_command (pg v) 7 = Some c" "tc_status c = CANCELLED" by blast
  have turns: "(s3_turn demo_billing fst)\<^sup>*\<^sup>* ?w v"
    by (rule r_into_rtranclp, rule s3_turn.cancel [OF demo_authorised(2) run])
  have "s3_inv (bl_ledger_id demo_billing) (sys fst ?w)" using s3_demo_inv by simp
  moreover have "all_genuine (pg ?w) (kv ?w)"
    by (simp add: all_genuine_def outbox_messages_def moving_messages_def queued_def demo_kv_def entry_def)
  ultimately have "s3_inv 1 (sys fst v) \<and> records_agree (fst (tb_state (kv v))) c \<and> same_task demo_task c"
    using books_agree [OF demo_authorised(1) _ _ turns c(1)] demo_ready(4) [of "[demo_hold]"] by auto
  with turns c show ?thesis by blast
qed

end
