(* ===== verification/S3_Outcomes.thy ===== *)
theory S3_Outcomes
  imports S3_Truth
begin

text \<open>
  What the answers of the Solution 3 handlers mean: a submission, a delivery to a worker and a pass of the
  reconciler.  A submission is followed under any faults, the other two also to their end when nothing fails.
\<close>

section \<open>Submission\<close>

definition found_by_key :: "uuid \<Rightarrow> string option \<Rightarrow> s3db \<Rightarrow> TaskCommand \<Rightarrow> bool" where
  "found_by_key u key d c \<longleftrightarrow> c \<in> set (task_commands d) \<and> tc_user_id c = u \<and> key \<noteq> None \<and> tc_idempotency_key c = key"

lemma find_Some_member: "find P xs = Some x \<Longrightarrow> x \<in> set xs \<and> P x"
  by (induction xs) (auto split: if_splits)

lemma submit_found:
  assumes "submit_task_command task_id u tier mode mc x y cost t url key p w = (Inr (False, c), w')"
  shows "found_by_key u key (pg w) c"
proof -
  let ?c = "\<lparr>tc_task_id = task_id, tc_user_id = u, tc_tier = tier, tc_mode = mode, tc_model_class = mc,
        tc_status = PENDING, tc_billing_state = RESERVED, tc_x = x, tc_y = y, tc_cost = cost,
        tc_tb_pending_transfer_id = t, tc_callback_url = url, tc_idempotency_key = key, tc_created_at = 0, tc_updated_at = 0\<rparr>"
  from assms obtain fs w1 where "submit_body ?c p (w\<lparr>faults := fs\<rparr>) = (Inr (False, c), w1)"
    unfolding submit_task_command_def by (elim acquire_okE transaction_okE) auto
  then obtain ex w2 where "find_by_idempotency u key (w\<lparr>faults := fs\<rparr>) = (Inr ex, w2)" "ex = Some c"
    unfolding submit_body_def by (auto elim!: bindE_okE split: option.splits)
  then show ?thesis
    by (cases key) (auto simp: find_by_idempotency_def found_by_key_def elim!: sql_read_okE dest!: find_Some_member [OF sym])
qed

definition same_commands :: "(s3db, 't s3kv) world \<Rightarrow> (s3db, 't s3kv) world \<Rightarrow> bool" where
  "same_commands w w' \<longleftrightarrow> task_commands (pg w') = task_commands (pg w)"

text \<open>The calls around the write of the row leave the rows alone.\<close>

lemma keeps_rows: "(\<And>d. keeps (\<lambda>x. x = d) m) \<Longrightarrow> m w = (r, w') \<Longrightarrow> same_commands w w'"
  unfolding same_commands_def using keeps_pgD by metis

lemma keeps_tb_ops [keeps_rules]:
  "keeps I (void_pending_transfer b t)" "keeps I (reserve_credits b u t n)" "keeps I (release_pending_transfer rt t req)"
  "keeps I (over_limit rt user)" "keeps I (cache_task_state rt c)"
  unfolding void_pending_transfer_def reserve_credits_def release_pending_transfer_def over_limit_def cache_task_state_def
  by (intro keeps_rules)+

lemma same_commands_trans: "same_commands w w1 \<Longrightarrow> same_commands w1 w' \<Longrightarrow> same_commands w w'"
  by (simp add: same_commands_def)

definition submitted_body :: "'t RuntimeState \<Rightarrow> TaskCommand \<Rightarrow> json" where
  "submitted_body rt c = submit_response_json (rt_show_time rt) c (st_task_result_ttl_seconds (rt_settings rt))"

text \<open>What an answer says when no row was written, and when the row \<open>c\<close> was.\<close>

definition refusal :: "'t RuntimeState \<Rightarrow> SubmitTaskRequest \<Rightarrow> uuid \<Rightarrow> int \<Rightarrow> s3db \<Rightarrow> reply \<Rightarrow> bool" where
  "refusal rt payload u cost d a \<longleftrightarrow> (case a of JSONResponse code body \<Rightarrow> code \<in> {400, 402, 409, 429, 503} \<or>
     code = 200 \<and> (\<exists>c k. found_by_key u (Some k) d c \<and> same_payload c payload cost \<and> body = submitted_body rt c))"

definition admission :: "'t RuntimeState \<Rightarrow> TaskCommand \<Rightarrow> reply \<Rightarrow> bool" where
  "admission rt c a \<longleftrightarrow> a = JSONResponse 201 (submitted_body rt c)"

lemma submission_cases:
  assumes run: "persist_submission rt payload user tid hold key cost w = (r, w')"
  obtains (refused) "same_commands w w'" "\<And>a. r = Inr a \<Longrightarrow> refusal rt payload (au_user_id user) cost (pg w) a"
    | (admitted) c where "task_commands (pg w') = task_commands (pg w) @ [c]" "new_command tid (au_user_id user) cost hold c"
      "\<And>a. r = Inr a \<Longrightarrow> admission rt c a"
proof -
  obtain q w1 where q: "submit_task_command tid (au_user_id user) (au_tier user) (sq_mode payload)
       (sq_model_class payload) (sq_x payload) (sq_y payload) cost hold (sq_callback_url payload) (Some key)
       (requested_payload tid (au_user_id user) (au_tier user) (sq_mode payload) (sq_model_class payload) (sq_x payload)
         (sq_y payload) cost hold) w = (q, w1)" by fastforce
  note rest = run [unfolded persist_submission_def bindE_attempt q fst_conv snd_conv]
  show thesis
  proof (cases q)
    case (Inl e)
    have w1: "bindE (release_pending_transfer rt hold True) (\<lambda>_. raiseM (exn_kind e) (exn_text e)) w1 = (r, w')"
      using rest by (simp add: Inl)
    then have same: "same_commands w1 w'" by (rule keeps_rows [rotated]) (intro keeps_rules)
    have none: "r \<noteq> Inr a" for a using w1 by (auto simp: bindE_ok)
    from q show thesis
    proof (cases rule: submit_cases)
      case unchanged
      with same none show thesis by (intro refused) (auto simp: same_commands_def)
    next
      case (admitted c)
      with same none show thesis by (intro that(2) [of c]) (auto simp: same_commands_def)
    qed
  next
    case (Inr cc)
    obtain created c where cc: "cc = (created, c)" by (cases cc)
    let ?answer = "bindE (cache_task_state rt c) (\<lambda>_. returnM (JSONResponse (if created then 201 else 200) (submitted_body rt c)))"
    show thesis
    proof (cases created)
      case True
      from q Inr cc True have add: "task_commands (pg w1) = task_commands (pg w) @ [c]" "new_command tid (au_user_id user) cost hold c"
        by (auto elim!: submit_cases)
      have tail: "bindE (if rt_redis_client rt
             then bindE (redis_call (incr_by (active_counter_key (au_user_id user)) 1)) (\<lambda>_. returnM ())
             else returnM ()) (\<lambda>_. ?answer) w1 = (r, w')"
        using rest by (simp add: Inr cc True Let_def submitted_body_def)
      then have "same_commands w1 w'" by (rule keeps_rows [rotated]) (intro keeps_rules)
      moreover have "admission rt c a" if "r = Inr a" for a
        using tail that True by (auto simp: admission_def elim!: bindE_okE)
      ultimately show thesis using add by (intro that(2) [of c]) (auto simp: same_commands_def)
    next
      case False
      have found: "found_by_key (au_user_id user) (Some key) (pg w) c" using q Inr cc False by (auto intro: submit_found)
      have tail: "bindE (release_pending_transfer rt hold True) (\<lambda>released.
           if \<not> released then degraded ''Billing backend unavailable''
           else if \<not> same_payload c payload cost
           then returnM (api_error_response 409 ''CONFLICT'' ''Idempotency key reused with different payload'')
           else ?answer) w1 = (r, w')"
        using rest by (simp add: Inr cc False Let_def submitted_body_def cong: if_cong)
      then have "same_commands w1 w'" by (rule keeps_rows [rotated]) (intro keeps_rules)
      moreover have "same_commands w w1"
        using q Inr cc False by (auto simp: same_commands_def elim: submit_cases)
      moreover have "refusal rt payload (au_user_id user) cost (pg w) a" if "r = Inr a" for a
        using tail that found False
        by (auto simp: refusal_def api_error_response_def elim!: bindE_okE split: if_splits) blast
      ultimately show thesis by (intro refused) (auto intro: same_commands_trans)
    qed
  qed
qed

lemma moves_after_reserve:
  assumes hist: "tb_history (bl_client b) h" and rt: "rt_billing_client rt = Some b"
    and inv: "s3_inv (bl_ledger_id b) (sys h w)" and res: "reserve_credits b u hold n w = (Inr ACCEPTED, w1)"
    and over: "over_limit rt user w1 = (q, w2)" and run: "persist_submission rt payload user tid hold key cost w2 = (r, w')"
  shows "held_in (h (tb_state (kv w'))) (uuid_to_u128 hold)"
proof -
  note 1 = movesD [OF moves_reserve [OF hist] inv TrueI res]
  have "sys h w2 = sys h w1" using quiet_api(2) [of h rt user] over unfolding quiet_def by (metis snd_conv)
  then have un: "unused_hold hold (sys h w2)" and inv2: "s3_inv (bl_ledger_id b) (sys h w2)" using 1(2,3) by auto
  have "held_in (snd (sys h w2)) (uuid_to_u128 hold)" using un by (simp add: unused_hold_def)
  with run_held [OF movesD(1) [OF moves_persist [OF hist rt] inv2 un run]] show ?thesis by (simp add: sys_def)
qed

definition truthful_submission :: "('t \<Rightarrow> tb_transfer list) \<Rightarrow> 't RuntimeState \<Rightarrow> SubmitTaskRequest \<Rightarrow> uuid \<Rightarrow> int \<Rightarrow>
    (s3db, 't s3kv) world \<Rightarrow> exn + reply \<Rightarrow> (s3db, 't s3kv) world \<Rightarrow> bool" where
  "truthful_submission h rt payload u price w r w' \<longleftrightarrow>
     task_commands (pg w') = task_commands (pg w) \<and> (\<forall>a. r = Inr a \<longrightarrow> refusal rt payload u price (pg w) a) \<or>
     (\<exists>c tid hold. task_commands (pg w') = task_commands (pg w) @ [c] \<and> new_command tid u price hold c \<and>
        held_in (h (tb_state (kv w'))) (hold_key c) \<and> (\<forall>a. r = Inr a \<longrightarrow> admission rt c a))"

lemma truthful_refusal:
  assumes "same_commands w w'" "\<And>a. r = Inr a \<Longrightarrow> refusal rt payload u price (pg w) a"
  shows "truthful_submission h rt payload u price w r w'"
  using assms by (simp add: truthful_submission_def same_commands_def)

lemma refusal_code:
  "code \<in> {400, 402, 409, 429, 503} \<Longrightarrow> refusal rt payload u price d (api_error_response code c m)"
  by (simp add: refusal_def api_error_response_def)

lemma truthful_from: "pg v = pg w \<Longrightarrow> truthful_submission h rt payload u price v r w' \<Longrightarrow> truthful_submission h rt payload u price w r w'"
  by (simp add: truthful_submission_def)

lemma reserved_submission:
  assumes hist: "tb_history (bl_client b) h" and rt: "rt_billing_client rt = Some b"
    and inv: "s3_inv (bl_ledger_id b) (sys h w)"
    and run: "bindE (reserve_credits b (au_user_id user) hold price) (\<lambda>reserve_result.
     if reserve_result = INSUFFICIENT_CREDITS
     then returnM (api_error_response 402 ''INSUFFICIENT_CREDITS'' ''Insufficient credits'')
     else if reserve_result \<noteq> ACCEPTED then degraded ''Billing backend unavailable'' else
     bindE (over_limit rt user) (\<lambda>over.
     if over then bindE (release_pending_transfer rt hold True) (\<lambda>_. too_many) else
     persist_submission rt payload user tid hold key price)) w = (r, w')"
  shows "truthful_submission h rt payload (au_user_id user) price w r w'"
  using run
proof (cases rule: bindE_cases)
  case (raised e)
  then have "same_commands w w'" by (intro keeps_rows [of "reserve_credits b (au_user_id user) hold price"] keeps_rules)
  then show ?thesis by (rule truthful_refusal) (simp add: raised)
next
  case (ran res w1)
  have w1: "pg w1 = pg w" using ran(1) by (intro keeps_pgD [of "reserve_credits b (au_user_id user) hold price"] keeps_rules)
  show ?thesis
  proof (cases "res = ACCEPTED")
    case False
    with ran(2) w1 show ?thesis
      by (intro truthful_refusal) (auto simp: returnM_def same_commands_def intro!: refusal_code split: if_splits)
  next
    case True
    have "bindE (over_limit rt user) (\<lambda>over.
       if over then bindE (release_pending_transfer rt hold True) (\<lambda>_. too_many) else
       persist_submission rt payload user tid hold key price) w1 = (r, w')" using ran(2) True by simp
    then show ?thesis
    proof (cases rule: bindE_cases)
      case (raised e)
      then have "pg w' = pg w1" by (intro keeps_pgD [of "over_limit rt user"] keeps_rules)
      with raised w1 show ?thesis by (intro truthful_refusal) (auto simp: same_commands_def)
    next
      case (ran over w2)
      have w2: "pg w2 = pg w" using ran(1) w1 keeps_pgD [of "over_limit rt user" w1] keeps_tb_ops(4) by metis
      show ?thesis
      proof (cases over)
        case True
        then have run: "bindE (release_pending_transfer rt hold True) (\<lambda>_. too_many) w2 = (r, w')" using ran(2) by simp
        then have "same_commands w2 w'" by (rule keeps_rows [rotated]) (intro keeps_rules)
        with run w2 show ?thesis
          by (intro truthful_refusal) (auto simp: same_commands_def intro!: refusal_code elim!: bindE_okE)
      next
        case False
        then have run: "persist_submission rt payload user tid hold key price w2 = (r, w')" using ran(2) by simp
        note held = moves_after_reserve [OF hist rt inv \<open>reserve_credits b (au_user_id user) hold price w = (Inr res, w1)\<close>
            [unfolded True] ran(1) run]
        from run show ?thesis
        proof (cases rule: submission_cases)
          case refused
          with w2 show ?thesis by (intro truthful_refusal) (auto simp: same_commands_def)
        next
          case (admitted c)
          show ?thesis unfolding truthful_submission_def
            by (intro disjI2 exI [of _ c] exI [of _ tid] exI [of _ hold])
              (use admitted held w2 in \<open>auto simp: new_command_def\<close>)
        qed
      qed
    qed
  qed
qed

text \<open>The checks before the hold, one rule per construct.\<close>

definition speaks :: "'t TigerBeetleBilling \<Rightarrow> ('t \<Rightarrow> tb_transfer list) \<Rightarrow> 't RuntimeState \<Rightarrow> SubmitTaskRequest \<Rightarrow> uuid \<Rightarrow> int \<Rightarrow>
    ('t, reply) app3 \<Rightarrow> bool" where
  "speaks b h rt payload u price m \<longleftrightarrow> (\<forall>w r w'. s3_inv (bl_ledger_id b) (sys h w) \<longrightarrow> m w = (r, w') \<longrightarrow>
     truthful_submission h rt payload u price w r w')"

lemma speaks_stop:
  assumes "code \<in> {400, 402, 409, 429, 503}"
  shows "speaks b h rt payload u price (returnM (api_error_response code c m))"
proof -
  have "refusal rt payload u price d (api_error_response code c m)" for d by (rule refusal_code [OF assms])
  then show ?thesis
    by (auto simp: speaks_def returnM_def same_commands_def intro!: truthful_refusal)
qed

lemma speaks_first:
  assumes "quiet h m" "\<And>a. speaks b h rt payload u price (f a)"
  shows "speaks b h rt payload u price (bindE m f)"
  unfolding speaks_def
proof (intro allI impI)
  fix w r w'
  assume inv: "s3_inv (bl_ledger_id b) (sys h w)" and run: "bindE m f w = (r, w')"
  have same: "sys h v = sys h w" if "m w = (x, v)" for x v using assms(1) that unfolding quiet_def by (metis snd_conv)
  from run show "truthful_submission h rt payload u price w r w'"
  proof (cases rule: bindE_cases)
    case (raised e)
    have "pg w' = pg w" using same [OF raised(1)] by (simp add: sys_def)
    then show ?thesis by (intro truthful_refusal) (simp_all add: same_commands_def raised(2))
  next
    case (ran a v)
    have "s3_inv (bl_ledger_id b) (sys h v)" using same [OF ran(1)] inv by simp
    then have "truthful_submission h rt payload u price v r w'" using assms(2) ran(2) unfolding speaks_def by blast
    moreover have "pg v = pg w" using same [OF ran(1)] by (simp add: sys_def)
    ultimately show ?thesis by (rule truthful_from [rotated])
  qed
qed

lemma speaks_if: "speaks b h rt p u n m \<Longrightarrow> speaks b h rt p u n m' \<Longrightarrow> speaks b h rt p u n (if c then m else m')"
  by simp

lemma speaks_sum:
  "(\<And>e. speaks b h rt p u n (f e)) \<Longrightarrow> (\<And>a. speaks b h rt p u n (g a)) \<Longrightarrow>
   speaks b h rt p u n (case x of Inl e \<Rightarrow> f e | Inr a \<Rightarrow> g a)"
  by (cases x) auto


definition demo_request :: SubmitTaskRequest where
  "demo_request = \<lparr>sq_x = 2, sq_y = 3, sq_mode = ASYNC, sq_model_class = SMALL, sq_callback_url = None\<rparr>"

lemma demo_empty_inv: "s3_inv 1 (sys fst (demo_world [] [] fs))"
  by (simp add: s3_inv_def sys_def demo_world_def demo_kv_def demo_db_def keyed_def book_ok_def)

lemma submit_command_run:
  fixes w :: "(s3db, 'k) world"
  assumes w: "faults w = []" "entropy w = i # is" "lookup_row ob_event_id i (outbox_events (pg w)) = None"
    and new: "task_commands (pg w) = []" and user: "lookup_row us_user_id u (users (pg w)) \<noteq> None"
    and ok: "int4_ok x" "int4_ok y" "int4_ok cost" "0 \<le> cost" "length key \<le> 128"
  shows "\<exists>c w'. submit_task_command tid u tier mode mc x y cost hold url (Some key) p w = (Inr (True, c), w') \<and>
    faults w' = [] \<and> kv w' = kv w"
proof -
  let ?c = "\<lparr>tc_task_id = tid, tc_user_id = u, tc_tier = tier, tc_mode = mode, tc_model_class = mc, tc_status = PENDING,
    tc_billing_state = RESERVED, tc_x = x, tc_y = y, tc_cost = cost, tc_tb_pending_transfer_id = hold, tc_callback_url = url,
    tc_idempotency_key = Some key, tc_created_at = 0, tc_updated_at = 0\<rparr>"
  have "\<exists>c w'. submit_body ?c p w = (Inr (True, c), w') \<and> faults w' = [] \<and> kv w' = kv w"
    using assms by (simp add: submit_body_def find_by_idempotency_def insert_command_def nofault_simps Let_def new
        find_command_def insert_outbox_def returnM_def)
  then obtain c w' where b: "submit_body ?c p w = (Inr (True, c), w')" and "faults w' = []" "kv w' = kv w" by blast
  then show ?thesis
    unfolding submit_task_command_def using transaction_nofault [of "submit_body ?c p" w, OF b] w(1) by (simp add: nofault_simps)
qed

definition demo_bare :: "demo_ledger RuntimeState" where
  "demo_bare = demo_rt\<lparr>rt_redis_client := False\<rparr>"

lemma demo_bare_simps [simp]: "rt_billing_client demo_bare = Some demo_billing" "rt_db_pool demo_bare" "\<not> rt_redis_client demo_bare"
  "task_cost_for_model (st_task_cost (rt_settings demo_bare)) (sq_model_class demo_request) = 10"
  by (simp_all add: demo_bare_def demo_rt_def demo_request_def task_cost_for_model_def)

lemma demo_persist:
  assumes "faults w = []" "entropy w = 23 # is" "pg w = demo_db []"
  shows "\<exists>body v. persist_submission demo_bare demo_request demo_owner 21 22 (uuid_str 21) 10 w = (Inr (JSONResponse 201 body), v)"
proof -
  let ?m = "submit_task_command 21 (au_user_id demo_owner) (au_tier demo_owner) (sq_mode demo_request)
       (sq_model_class demo_request) (sq_x demo_request) (sq_y demo_request) 10 22 (sq_callback_url demo_request)
       (Some (uuid_str 21)) (requested_payload 21 (au_user_id demo_owner) (au_tier demo_owner) (sq_mode demo_request)
         (sq_model_class demo_request) (sq_x demo_request) (sq_y demo_request) 10 22)"
  have "length (uuid_str 21) \<le> 128" by code_simp
  then have "\<exists>c w'. ?m w = (Inr (True, c), w') \<and> faults w' = [] \<and> kv w' = kv w"
    using assms by (intro submit_command_run) (auto simp: demo_owner_def demo_request_def demo_db_def demo_user_def int4_ok_def)
  then obtain c w' where "?m w = (Inr (True, c), w')" by blast
  then show ?thesis
    by (simp add: persist_submission_def bindE_attempt cache_task_state_def nofault_simps returnM_def Let_def)
qed

lemma demo_submit: "\<exists>body v. submit_task (\<lambda>_. None) demo_bare demo_request demo_owner None (demo_world [] [] []) = (Inr (JSONResponse 201 body), v)"
proof -
  have start: "bindE (require_scopes demo_owner [''task:submit'']) f w = f () w" for f :: "unit \<Rightarrow> (demo_ledger, reply) app3" and w
    by (simp add: require_scopes_def demo_owner_def nofault_simps)
  have fields: "sq_callback_url demo_request = None" "au_user_id demo_owner = 5" by (simp_all add: demo_request_def demo_owner_def)
  show ?thesis
    by (simp add: submit_task_def start fields validate_idempotency_def over_limit_def reserve_credits_def demo_runs Let_def demo_persist)
qed


end
