(* ===== verification/S3_Progress.thy ===== *)
theory S3_Progress
  imports S3_Truth
begin

text \<open>
  Progress of Solution 3 when nothing fails: a delivered task completes, and a pass of the reconciler decides every
  overdue task whose hold was settled, and leaves the others alone.
\<close>

section \<open>Actions that only touch caches, queues and the clock\<close>

definition untouched :: "(s3db, 't s3kv) world \<Rightarrow> (s3db, 't s3kv) world \<Rightarrow> bool" where
  "untouched w v \<longleftrightarrow> faults v = [] \<and> pg v = pg w \<and> tb_state (kv v) = tb_state (kv w) \<and> entropy v = entropy w \<and>
     clock w \<le> clock v"

definition smooth :: "('t, 'a) app3 \<Rightarrow> ('a \<Rightarrow> bool) \<Rightarrow> bool" where
  "smooth m Q \<longleftrightarrow> (\<forall>w. faults w = [] \<longrightarrow> (\<exists>a v. m w = (Inr a, v) \<and> Q a \<and> untouched w v))"

named_theorems smooth_rules

lemma smoothD: "smooth m Q \<Longrightarrow> faults w = [] \<Longrightarrow> \<exists>a v. m w = (Inr a, v) \<and> Q a \<and> untouched w v"
  by (simp add: smooth_def)

lemma smooth_bind:
  assumes "smooth m P" "\<And>a. P a \<Longrightarrow> smooth (f a) Q"
  shows "smooth (bindE m f) Q"
  unfolding smooth_def
proof (intro allI impI)
  fix w :: "(s3db, 'a s3kv) world"
  assume "faults w = []"
  with assms(1) obtain a w1 where 1: "m w = (Inr a, w1)" "P a" "untouched w w1" unfolding smooth_def by blast
  with assms(2) obtain c w2 where 2: "f a w1 = (Inr c, w2)" "Q c" "untouched w1 w2"
    unfolding smooth_def untouched_def by blast
  from 1 2 have "bindE m f w = (Inr c, w2)" "untouched w w2" by (simp_all add: bindE_def untouched_def)
  with 2(2) show "\<exists>a v. bindE m f w = (Inr a, v) \<and> Q a \<and> untouched w v" by blast
qed

lemma smooth_seq [smooth_rules]: "smooth m (\<lambda>_. True) \<Longrightarrow> (\<And>a. smooth (f a) Q) \<Longrightarrow> smooth (bindE m f) Q"
  by (rule smooth_bind)

lemma smooth_return [smooth_rules]: "Q a \<Longrightarrow> smooth (returnM a) Q"
  by (simp add: smooth_def returnM_def untouched_def)

lemma smooth_calls [smooth_rules]:
  "smooth (redis_call f) (\<lambda>_. True)" "smooth (broker_call g) (\<lambda>_. True)" "smooth (memory k) (\<lambda>_. True)" "smooth (sleep_seconds s) (\<lambda>_. True)"
  by (simp_all add: smooth_def untouched_def redis_call_nofault broker_call_nofault memory_def sleep_seconds_def sleepM_def split: prod.split)

lemma smooth_if [smooth_rules]: "(c \<Longrightarrow> smooth m Q) \<Longrightarrow> (\<not> c \<Longrightarrow> smooth n Q) \<Longrightarrow> smooth (if c then m else n) Q"
  by simp

lemma smooth_option [smooth_rules]:
  "smooth m Q \<Longrightarrow> (\<And>a. smooth (f a) Q) \<Longrightarrow> smooth (case x of None \<Rightarrow> m | Some a \<Rightarrow> f a) Q"
  by (cases x) auto

lemma smooth_runtime [smooth_rules]:
  "smooth (activate c) (\<lambda>_. True)" "smooth (deactivate c u) (\<lambda>_. True)" "smooth (go_warm i c) (\<lambda>_. True)"
  unfolding activate_def deactivate_def go_warm_def drop_warm_registration_def
  by (intro smooth_rules TrueI)+

lemma smooth_execute: "smooth (execute i task) (\<lambda>r. r = [(''sum'', JInt (tc_x task + tc_y task))])"
  unfolding execute_def by (intro smooth_rules refl TrueI)

section \<open>A delivered task completes\<close>

lemma running_exact:
  assumes "faults w = []" "find_command (pg w) t = Some c" "tc_status c = PENDING" "entropy w = i # is"
    "lookup_row ob_event_id i (outbox_events (pg w)) = None"
  shows "update_task_running t w = (Inr True, w\<lparr>entropy := is,
     pg := task_and_event t (\<lambda>c. c\<lparr>tc_status := RUNNING, tc_updated_at := clock w\<rparr>)
       (new_event i t ''task.started'' ''tasks.started''
         [(''task_id'', JStr (uuid_str t)), (''status'', JStr (TaskStatus_value RUNNING))] (clock w)) (pg w)\<rparr>)"
  unfolding update_task_running_def
  by (subst task_event_tx [OF assms(1,2) _ assms(4,5)]) (simp_all add: assms(3))

lemma running_run:
  assumes "faults w = []" "find_command (pg w) (tc_task_id task) = Some c" "tc_status c = PENDING" "entropy w = i # is"
    "lookup_row ob_event_id i (outbox_events (pg w)) = None"
  obtains v c' e where "mark_task_running task ttl w = (Inr True, v)" "faults v = []" "entropy v = is" "tb_state (kv v) = tb_state (kv w)"
    "find_command (pg v) (tc_task_id task) = Some c'" "tc_status c' = RUNNING" "hold_key c' = hold_key c"
    "outbox_events (pg v) = outbox_events (pg w) @ [e]" "ob_event_id e = i"
proof -
  let ?t = "tc_task_id task"
  let ?e = "new_event i ?t ''task.started'' ''tasks.started'' [(''task_id'', JStr (uuid_str ?t)), (''status'', JStr (TaskStatus_value RUNNING))] (clock w)"
  obtain w1 where w1: "update_task_running ?t w = (Inr True, w1)" "faults w1 = []" "entropy w1 = is" "kv w1 = kv w"
    "pg w1 = task_and_event ?t (\<lambda>c. c\<lparr>tc_status := RUNNING, tc_updated_at := clock w\<rparr>) ?e (pg w)"
    using running_exact [OF assms] assms(1) by simp
  have "smooth (bindE (redis_call (hset (task_state_key ?t) (state_mapping task RUNNING (tc_billing_state task)))) (\<lambda>_.
      bindE (redis_call (expire_key (task_state_key ?t) ttl)) (\<lambda>_. returnM True))) (\<lambda>a. a)"
    by (intro smooth_rules TrueI)
  from smoothD [OF this w1(2)] obtain v where v: "mark_task_running task ttl w = (Inr True, v)" "untouched w1 v"
    unfolding mark_task_running_def by (auto simp: bindE_ran [of "update_task_running ?t", OF w1(1)])
  show thesis
    by (rule that [of v "c\<lparr>tc_status := RUNNING, tc_updated_at := clock w\<rparr>" ?e])
      (use v w1 assms(2) in \<open>auto simp: untouched_def find_task_and_event new_event_def\<close>)
qed

lemma post_run:
  assumes hist: "tb_history (bl_client b) h" and w: "faults w = []" "entropy w = i # is"
    and ok: "fst (create_transfers (bl_client b) (clock w) [settle_transfer b POST_PENDING_TRANSFER i t] (tb_state (kv w))) = []"
  obtains v where "post_pending_transfer b t w = (Inr True, v)" "faults v = []" "entropy v = is" "pg v = pg w"
    "posted_in (h (tb_state (kv v))) (uuid_to_u128 t)" "\<exists>y. h (tb_state (kv v)) = h (tb_state (kv w)) @ [y]"
proof -
  let ?x = "settle_transfer b POST_PENDING_TRANSFER i t"
  obtain s where s: "create_transfers (bl_client b) (clock w) [?x] (tb_state (kv w)) = ([], s)"
    using ok by (metis prod.collapse)
  with hist obtain y where y: "recorded_as ?x y" "h s = h (tb_state (kv w)) @ [y]" unfolding tb_history_def by metis
  let ?v = "w\<lparr>entropy := is, kv := (kv w)\<lparr>tb_state := s\<rparr>\<rparr>"
  have "post_pending_transfer b t w = (Inr True, ?v)"
    using w s by (simp add: post_pending_transfer_def nofault_simps returnM_def)
  moreover have "posted_in (h s) (uuid_to_u128 t)"
    using y by (simp add: recorded_flags(1) recorded_as_def) (simp add: settle_transfer_def has_flag_def)
  ultimately show thesis using w(1) y(2) by (intro that [of ?v]) auto
qed

lemma finalize_exact:
  assumes "faults w = []" "find_command (pg w) t = Some c" "active_status (tc_status c)" "entropy w = i # is"
    "lookup_row ob_event_id i (outbox_events (pg w)) = None"
  shows "finalize_task_command t u COMPLETED bs cost res err w = (Inr True, w\<lparr>entropy := is,
     pg := task_and_event t (\<lambda>c. (set_state COMPLETED bs c)\<lparr>tc_updated_at := clock w\<rparr>)
       (new_event i t ''task.completed'' ''tasks.completed''
         [(''task_id'', JStr (uuid_str t)), (''user_id'', JStr (uuid_str u)),
          (''status'', JStr (TaskStatus_value COMPLETED)), (''billing_state'', JStr (BillingState_value bs)),
          (''cost'', JInt cost), (''result'', opt_obj res), (''error'', opt_str err)] (clock w)) (pg w)\<rparr>)"
  unfolding finalize_task_command_def Let_def
  by (subst task_event_tx [OF assms(1,2) _ assms(4,5)]) (use assms(3) in auto)

definition completed_event :: "TaskCommand \<Rightarrow> OutboxEventRecord \<Rightarrow> bool" where
  "completed_event task e \<longleftrightarrow> ob_topic e = ''tasks.completed'' \<and> ob_aggregate_id e = tc_task_id task \<and> ob_published_at e = None \<and>
     dict_get (ob_payload e) ''task_id'' = Some (JStr (uuid_str (tc_task_id task))) \<and> dict_get (ob_payload e) ''error'' = Some JNull \<and>
     dict_get (ob_payload e) ''result'' = Some (JObj [(''sum'', JInt (tc_x task + tc_y task))])"

lemma completion_run:
  assumes hist: "tb_history (bl_client b) h" and w: "faults w = []" "entropy w = i # j # is"
    and c: "find_command (pg w) (tc_task_id task) = Some c" "active_status (tc_status c)"
    and j: "lookup_row ob_event_id j (outbox_events (pg w)) = None"
    and ok: "fst (create_transfers (bl_client b) (clock w) [settle_transfer b POST_PENDING_TRANSFER i (tc_tb_pending_transfer_id task)] (tb_state (kv w))) = []"
  obtains v c' e where "handle_task_completion b task True ttl (Some [(''sum'', JInt (tc_x task + tc_y task))]) None w = (Inr True, v)"
    "faults v = []" "find_command (pg v) (tc_task_id task) = Some c'" "tc_status c' = COMPLETED" "tc_billing_state c' = CAPTURED"
    "posted_in (h (tb_state (kv v))) (hold_key task)" "completed_event task e" "outbox_events (pg v) = outbox_events (pg w) @ [e]"
proof -
  let ?t = "tc_task_id task" and ?res = "Some [(''sum'', JInt (tc_x task + tc_y task))]"
  obtain w1 where w1: "post_pending_transfer b (tc_tb_pending_transfer_id task) w = (Inr True, w1)" "faults w1 = []" "entropy w1 = j # is"
    "pg w1 = pg w" "posted_in (h (tb_state (kv w1))) (hold_key task)"
    using post_run [OF hist w ok] by blast
  obtain w2 e where fin: "finalize_task_command ?t (tc_user_id task) COMPLETED CAPTURED (tc_cost task) ?res None w1 = (Inr True, w2)"
    and w2: "faults w2 = []" "kv w2 = kv w1" "pg w2 = task_and_event ?t (\<lambda>c. (set_state COMPLETED CAPTURED c)\<lparr>tc_updated_at := clock w1\<rparr>) e (pg w)"
      "completed_event task e"
    using finalize_exact [of w1 ?t c j "is" "tc_user_id task" CAPTURED "tc_cost task" ?res None] w1 c j
    by (auto simp: completed_event_def new_event_def opt_obj_def opt_str_def)
  have "smooth (bindE (redis_call (incr_by (active_counter_key (tc_user_id task)) (-1))) (\<lambda>_.
     bindE (redis_call (hset (task_state_key ?t) (state_mapping task COMPLETED CAPTURED @
       (case ?res of None \<Rightarrow> [] | Some r \<Rightarrow> [(''result'', Dumped (JObj r))]) @
       (case None of None \<Rightarrow> [] | Some e \<Rightarrow> [(''error'', Plain e)])))) (\<lambda>_.
     bindE (redis_call (expire_key (task_state_key ?t) ttl)) (\<lambda>_. returnM True)))) (\<lambda>a. a)"
    by (intro smooth_rules TrueI)
  from smoothD [OF this w2(1)] obtain v where v: "handle_task_completion b task True ttl ?res None w = (Inr True, v)" "untouched w2 v"
    unfolding handle_task_completion_def Let_def
    by (auto simp: bindE_ran [of "post_pending_transfer b (tc_tb_pending_transfer_id task)", OF w1(1)]
        bindE_ran [of "finalize_task_command ?t (tc_user_id task) COMPLETED CAPTURED (tc_cost task) ?res None", OF fin])
  show thesis
    by (rule that [of v "(set_state COMPLETED CAPTURED c)\<lparr>tc_updated_at := clock w1\<rparr>" e])
      (use v w2 w1 c in \<open>auto simp: untouched_def find_task_and_event set_state_def\<close>)
qed

lemma ack_run:
  assumes "faults w = []"
  shows "\<exists>v. basic_ack tag w = (Inr (), v) \<and> pg v = pg w \<and> tb_state (kv v) = tb_state (kv w) \<and> tag \<notin> fst ` set (unacked (kv v))"
  using assms by (auto simp: basic_ack_def broker_call_nofault)

text \<open>C31. When nothing fails, a delivery of a pending task completes it: the row is completed and captured, the hold is
  posted, an event with the sum waits in the outbox, and the message is acknowledged.  TigerBeetle must still accept a post of the
  hold, which it does until the hold times out.\<close>

theorem worker_completes_task:
  assumes hist: "tb_history (bl_client b) h" and w: "faults w = []" "entropy w = i # j # k # is" "i \<noteq> k"
    and fresh: "lookup_row ob_event_id i (outbox_events (pg w)) = None" "lookup_row ob_event_id k (outbox_events (pg w)) = None"
    and body: "parse_delivery body (clock w) = Inr task"
    and c: "find_command (pg w) (tc_task_id task) = Some c" "tc_status c = PENDING"
    and ok: "\<And>now. fst (create_transfers (bl_client b) now
        [settle_transfer b POST_PENDING_TRANSFER j (tc_tb_pending_transfer_id task)] (tb_state (kv w))) = []"
  shows "\<exists>w' c' e. handle_delivery b me tag body ttl w = (Inr (), w') \<and> find_command (pg w') (tc_task_id task) = Some c' \<and>
    tc_status c' = COMPLETED \<and> tc_billing_state c' = CAPTURED \<and> posted_in (h (tb_state (kv w'))) (hold_key task) \<and>
    e \<in> set (outbox_events (pg w')) \<and> completed_event task e \<and> tag \<notin> fst ` set (unacked (kv w'))"
proof -
  obtain w1 c1 e1 where w1: "mark_task_running task ttl w = (Inr True, w1)" "faults w1 = []" "entropy w1 = j # k # is"
    "tb_state (kv w1) = tb_state (kv w)" "find_command (pg w1) (tc_task_id task) = Some c1" "tc_status c1 = RUNNING"
    "outbox_events (pg w1) = outbox_events (pg w) @ [e1]" "ob_event_id e1 = i"
    using running_run [OF w(1) c w(2) fresh(1)] by metis
  obtain w2 where exec: "execute me task w1 = (Inr [(''sum'', JInt (tc_x task + tc_y task))], w2)" and w2: "untouched w1 w2"
    using smoothD [OF smooth_execute w1(2), of me task] by auto
  have "lookup_row ob_event_id k (outbox_events (pg w1)) = None"
    using fresh(2) w(3) w1(7,8) by (simp add: lookup_row_append)
  then have pre: "faults w2 = []" "entropy w2 = j # k # is" "find_command (pg w2) (tc_task_id task) = Some c1"
    "active_status (tc_status c1)" "lookup_row ob_event_id k (outbox_events (pg w2)) = None"
    "fst (create_transfers (bl_client b) (clock w2) [settle_transfer b POST_PENDING_TRANSFER j (tc_tb_pending_transfer_id task)]
      (tb_state (kv w2))) = []"
    using w1 w2 ok by (auto simp: untouched_def)
  obtain w3 c3 e where w3: "handle_task_completion b task True ttl (Some [(''sum'', JInt (tc_x task + tc_y task))]) None w2 = (Inr True, w3)"
    "faults w3 = []" "find_command (pg w3) (tc_task_id task) = Some c3" "tc_status c3 = COMPLETED" "tc_billing_state c3 = CAPTURED"
    "posted_in (h (tb_state (kv w3))) (hold_key task)" "completed_event task e" "outbox_events (pg w3) = outbox_events (pg w2) @ [e]"
    using completion_run [OF hist pre] by metis
  have "process_task_event b me task ttl w = (Inr True, w3)"
    by (simp add: process_task_event_def bindE_ran [of "mark_task_running task ttl", OF w1(1)] bindE_attempt exec w3(1))
  then have run: "bindE get_clock (\<lambda>now. bindE (liftE (parse_delivery body now)) (\<lambda>task. process_task_event b me task ttl)) w = (Inr True, w3)"
    by (simp add: nofault_simps body)
  obtain v where v: "basic_ack tag w3 = (Inr (), v)" "pg v = pg w3" "tb_state (kv v) = tb_state (kv w3)" "tag \<notin> fst ` set (unacked (kv v))"
    using ack_run [OF w3(2)] by blast
  have "handle_delivery b me tag body ttl w = (Inr (), v)"
    unfolding handle_delivery_def bindE_attempt run by (simp add: v(1))
  with v w3 show ?thesis by (intro exI [of _ v] exI [of _ c3] exI [of _ e]) auto
qed

lemma demo_accepts_post:
  "fst (create_transfers demo_client now [settle_transfer demo_billing POST_PENDING_TRANSFER 22 8] ([demo_hold], bal)) = []"
  by (simp add: demo_runs)

theorem worker_completes_task_witness:
  "\<exists>body w w' c e. handle_delivery demo_billing ''me'' 1 body 3600 w = (Inr (), w') \<and> find_command (pg w) 7 = Some demo_task \<and>
    find_command (pg w') 7 = Some c \<and> tc_status c = COMPLETED \<and> tc_billing_state c = CAPTURED \<and>
    posted_in (fst (tb_state (kv w'))) 8 \<and> e \<in> set (outbox_events (pg w')) \<and> dict_get (ob_payload e) ''result'' = Some (JObj [(''sum'', JInt 5)])"
proof -
  let ?w = "demo_world [demo_task] [demo_hold] []" and ?body = "Decoded (JObj (requested_payload 7 5 PRO ASYNC SMALL 2 3 10 8))"
  note task = parse_requested [of 7 5 PRO ASYNC SMALL 2 3 10 8 "clock ?w"]
  have "\<exists>w' c' e. handle_delivery demo_billing ''me'' 1 ?body 3600 ?w = (Inr (), w') \<and> find_command (pg w') 7 = Some c' \<and>
    tc_status c' = COMPLETED \<and> tc_billing_state c' = CAPTURED \<and> posted_in (fst (tb_state (kv w'))) 8 \<and>
    e \<in> set (outbox_events (pg w')) \<and> dict_get (ob_payload e) ''result'' = Some (JObj [(''sum'', JInt 5)])"
    using worker_completes_task [OF demo_billing_history demo_ready(1) demo_ready(2) _ demo_ready(3) _ task, of demo_task "''me''" 1 3600]
      demo_accepts_post
    by (auto simp: find_command_def completed_event_def uuid_to_u128_number)
  moreover have "find_command (pg ?w) 7 = Some demo_task" by (rule demo_ready(4))
  ultimately show ?thesis by blast
qed

section \<open>A pass of the reconciler\<close>

lemma hold_state_run:
  assumes hist: "tb_history (bl_client b) h" and ok: "book_ok (bl_ledger_id b) (h (tb_state (kv w)))"
    and k: "uuid_to_u128 t \<noteq> 0" and w: "faults w = []"
  shows "get_pending_transfer_state b t w = (Inr (hold_state (h (tb_state (kv w))) (uuid_to_u128 t)), w)"
proof -
  let ?k = "uuid_to_u128 t" and ?h = "h (tb_state (kv w))"
  have "query_transfers (bl_client b) \<lparr>qf_user_data_128 = ?k, qf_ledger = bl_ledger_id b, qf_limit = 16\<rparr> (tb_state (kv w)) =
      filter (\<lambda>x. tr_user_data_128 x = ?k \<and> tr_ledger x = bl_ledger_id b) ?h"
    using hist book_few [OF ok k] k unfolding tb_history_def by simp
  then show ?thesis
    using w by (simp add: get_pending_transfer_state_def nofault_simps state_of_transfers_book [OF ok] returnM_def Let_def)
qed

text \<open>The transaction that aligns a task: the row, the view, the job and the event.\<close>

lemma align_run:
  assumes w: "faults w = []" "entropy w = i # is" "lookup_row ob_event_id i (outbox_events (pg w)) = None"
    and c: "find_command (pg w) (tc_task_id c) = Some c" "stale_reserved n (clock w) c"
    and st: "terminal_event_for_status st = Inr (et, topic)" "length res \<le> 24"
  obtains s v e where "align_stale_reserved_task_terminal_state c st bs res n w = (Inr (Some s), v)" "faults v = []" "kv v = kv w"
    "clock v = clock w" "entropy v = is" "outbox_events (pg v) = outbox_events (pg w) @ [e]" "ob_event_id e = i"
    "task_commands (pg v) = update_rows (\<lambda>x. tc_task_id x = tc_task_id c) (\<lambda>x. (set_state st bs x)\<lparr>tc_updated_at := clock w\<rparr>) (task_commands (pg w))"
proof -
  let ?t = "tc_task_id c" and ?c = "(set_state st bs c)\<lparr>tc_updated_at := clock w\<rparr>"
  let ?m = "bindE (update_command ?t (stale_reserved n) (set_state st bs)) (\<lambda>updated. case updated of None \<Rightarrow> returnM None | Some c' \<Rightarrow>
       bindE (update_view ?t (\<lambda>v. v\<lparr>tv_status := st, tv_billing_state := bs, tv_result := None, tv_error := None\<rparr>)) (\<lambda>_.
       bindE (insert_reconcile_job ?t (tc_tb_pending_transfer_id c) res) (\<lambda>_.
       bindE (insert_outbox ?t et topic (state_payload c' @ [(''result'', JNull), (''error'', JNull)])) (\<lambda>_.
       returnM (Some (reconciled_state c'))))))"
  have len: "length et \<le> 64" "length topic \<le> 128" using st(1) by (cases st; auto)+
  have "\<exists>v e. ?m w = (Inr (Some (reconciled_state ?c)), v) \<and> faults v = [] \<and> kv v = kv w \<and> clock v = clock w \<and> entropy v = is \<and>
      outbox_events (pg v) = outbox_events (pg w) @ [e] \<and> ob_event_id e = i \<and>
      task_commands (pg v) = update_rows (\<lambda>x. tc_task_id x = ?t) (\<lambda>x. (set_state st bs x)\<lparr>tc_updated_at := clock w\<rparr>) (task_commands (pg w))"
    using assms len
    by (simp add: bindE_ran [OF update_command_run] update_view_def insert_reconcile_job_def nofault_simps find_command_def
        lookup_row_update_key set_state_def bindE_ran [OF insert_outbox_run] returnM_def new_event_def)
  then obtain v e where m: "?m w = (Inr (Some (reconciled_state ?c)), v)" and v: "faults v = []" "kv v = kv w" "clock v = clock w"
      "entropy v = is" "outbox_events (pg v) = outbox_events (pg w) @ [e]" "ob_event_id e = i"
      "task_commands (pg v) = update_rows (\<lambda>x. tc_task_id x = ?t) (\<lambda>x. (set_state st bs x)\<lparr>tc_updated_at := clock w\<rparr>) (task_commands (pg w))"
    by blast
  have "align_stale_reserved_task_terminal_state c st bs res n w = (Inr (Some (reconciled_state ?c)), v)"
    using transaction_nofault [of ?m w, OF m v(1)] w(1)
    by (simp add: align_stale_reserved_task_terminal_state_def st(1) bindE_liftE_Inr nofault_simps)
  with v show thesis by (intro that [of "reconciled_state ?c" v e])
qed

definition fresh_ids :: "nat \<Rightarrow> (s3db, 't s3kv) world \<Rightarrow> bool" where
  "fresh_ids n w \<longleftrightarrow> n \<le> length (entropy w) \<and> distinct (entropy w) \<and>
     (\<forall>i\<in>set (entropy w). lookup_row ob_event_id i (outbox_events (pg w)) = None)"

lemma fresh_ids_Suc:
  fixes w :: "(s3db, 't s3kv) world"
  assumes "fresh_ids (Suc n) w"
  obtains i "is" where "entropy w = i # is" "lookup_row ob_event_id i (outbox_events (pg w)) = None"
    "\<And>(v :: (s3db, 't s3kv) world) e. entropy v = is \<Longrightarrow> outbox_events (pg v) = outbox_events (pg w) @ [e] \<Longrightarrow> ob_event_id e = i \<Longrightarrow> fresh_ids n v"
proof -
  from assms obtain i "is" where e: "entropy w = i # is" by (cases "entropy w") (auto simp: fresh_ids_def)
  show thesis by (rule that [OF e]) (use assms e in \<open>auto simp: fresh_ids_def lookup_row_append\<close>)
qed

text \<open>What the state of its hold decides for an overdue task.\<close>

definition decided :: "tb_transfer list \<Rightarrow> TaskCommand \<Rightarrow> TaskCommand \<Rightarrow> bool" where
  "decided h c c' \<longleftrightarrow> (case hold_state h (hold_key c) of
       HOLD_POSTED \<Rightarrow> tc_status c' = COMPLETED \<and> tc_billing_state c' = CAPTURED
     | HOLD_VOIDED \<Rightarrow> tc_status c' = (if tc_status c = PENDING then CANCELLED else FAILED) \<and> tc_billing_state c' = RELEASED
     | _ \<Rightarrow> c' = c)"

lemma reconcile_task_run:
  fixes w :: "(s3db, 't s3kv) world"
  assumes hist: "tb_history (bl_client b) h" and ok: "book_ok (bl_ledger_id b) (h (tb_state (kv w)))"
    and w: "faults w = []" "fresh_ids (Suc m) w" and held: "held_in (h (tb_state (kv w))) (hold_key c)"
    and c: "find_command (pg w) (tc_task_id c) = Some c" "stale_reserved n (clock w) c"
  obtains k v c' where "reconcile_task b n ttl c w = (Inr k, v)" "faults v = []" "tb_state (kv v) = tb_state (kv w)" "clock w \<le> clock v"
    "fresh_ids m v" "find_command (pg v) (tc_task_id c) = Some c'" "decided (h (tb_state (kv w))) c c'"
    "\<And>t. t \<noteq> tc_task_id c \<Longrightarrow> find_command (pg v) t = find_command (pg w) t"
proof -
  let ?st = "hold_state (h (tb_state (kv w))) (hold_key c)" and ?t = "tc_task_id c"
  have look: "get_pending_transfer_state b (tc_tb_pending_transfer_id c) w = (Inr ?st, w)"
    by (rule hold_state_run [OF hist ok held_key [OF ok held] w(1)])
  have here: "?st \<noteq> HOLD_ABSENT" using held by (simp add: hold_state_def)
  show thesis
  proof (cases "?st = HOLD_PENDING")
    case True
    then have "reconcile_task b n ttl c w = (Inr 0, w)"
      by (simp add: reconcile_task_def bindE_ran [of "get_pending_transfer_state b (tc_tb_pending_transfer_id c)", OF look] returnM_def)
    moreover have "fresh_ids m w" using w(2) by (auto simp: fresh_ids_def)
    ultimately show thesis using True w(1) c(1) by (intro that [of 0 w c]) (auto simp: decided_def)
  next
    case False
    then obtain st bs res where target: "terminal_alignment_target (tc_status c) ?st = Some (st, bs, res)"
      using here by (cases ?st) (auto simp: terminal_alignment_target_def)
    then have dec: "decided (h (tb_state (kv w))) c ((set_state st bs c)\<lparr>tc_updated_at := clock w\<rparr>)"
      by (auto simp: terminal_alignment_target_def decided_def set_state_def split: PendingTransferState.splits)
    from target obtain et topic where ev: "terminal_event_for_status st = Inr (et, topic)" "length res \<le> 24"
      by (auto simp: terminal_alignment_target_def split: PendingTransferState.splits if_splits)
    from w(2) obtain i "is" where i: "entropy w = i # is" "lookup_row ob_event_id i (outbox_events (pg w)) = None"
      and next_ids: "\<And>(v :: (s3db, 't s3kv) world) e. entropy v = is \<Longrightarrow> outbox_events (pg v) = outbox_events (pg w) @ [e] \<Longrightarrow> ob_event_id e = i \<Longrightarrow> fresh_ids m v"
      by (rule fresh_ids_Suc) blast
    obtain s v e where v: "align_stale_reserved_task_terminal_state c st bs res n w = (Inr (Some s), v)" "faults v = []" "kv v = kv w"
      "clock v = clock w" "entropy v = is" "outbox_events (pg v) = outbox_events (pg w) @ [e]" "ob_event_id e = i"
      "task_commands (pg v) = update_rows (\<lambda>x. tc_task_id x = ?t) (\<lambda>x. (set_state st bs x)\<lparr>tc_updated_at := clock w\<rparr>) (task_commands (pg w))"
      using align_run [OF w(1) i c ev] by metis
    have "smooth (bindE (cache_reconciled_state s ttl) (\<lambda>_. returnM (1 :: nat))) (\<lambda>_. True)"
      unfolding cache_reconciled_state_def reconciler_decrement_def Let_def by (intro smooth_rules TrueI)
    from smoothD [OF this v(2)] obtain k :: nat and v' where cache: "bindE (cache_reconciled_state s ttl) (\<lambda>_. returnM 1) v = (Inr k, v')" "untouched v v'"
      by blast
    have run: "reconcile_task b n ttl c w = (Inr k, v')"
      using False here target cache(1)
      by (simp add: reconcile_task_def bindE_ran [of "get_pending_transfer_state b (tc_tb_pending_transfer_id c)", OF look]
          bindE_ran [of "align_stale_reserved_task_terminal_state c st bs res n", OF v(1)])
    have find: "find_command (pg v') t = (if t = ?t then map_option (\<lambda>x. (set_state st bs x)\<lparr>tc_updated_at := clock w\<rparr>) (find_command (pg w) t)
        else find_command (pg w) t)" for t
      using cache(2) v(8) by (simp add: untouched_def find_command_def lookup_row_update_key set_state_def)
    have "fresh_ids m v'" by (rule next_ids [of v' e]) (use cache(2) v in \<open>auto simp: untouched_def\<close>)
    with run find dec c(1) cache(2) v show thesis
      by (intro that [of k v' "(set_state st bs c)\<lparr>tc_updated_at := clock w\<rparr>"]) (auto simp: untouched_def)
  qed
qed

lemma reconcile_tasks_run:
  assumes hist: "tb_history (bl_client b) h"
  shows "faults w = [] \<Longrightarrow> book_ok (bl_ledger_id b) (h (tb_state (kv w))) \<Longrightarrow> fresh_ids (length cs) w \<Longrightarrow>
    distinct (map tc_task_id cs) \<Longrightarrow>
    (\<forall>c\<in>set cs. find_command (pg w) (tc_task_id c) = Some c \<and> stale_reserved n (clock w) c \<and> held_in (h (tb_state (kv w))) (hold_key c)) \<Longrightarrow>
    \<exists>k v. reconcile_tasks b n ttl cs w = (Inr k, v) \<and> tb_state (kv v) = tb_state (kv w) \<and>
      (\<forall>c\<in>set cs. \<exists>c'. find_command (pg v) (tc_task_id c) = Some c' \<and> decided (h (tb_state (kv w))) c c') \<and>
      (\<forall>t. t \<notin> tc_task_id ` set cs \<longrightarrow> find_command (pg v) t = find_command (pg w) t)"
proof (induction cs arbitrary: w)
  case Nil
  show ?case by (simp add: returnM_def)
next
  case (Cons c cs)
  let ?h = "h (tb_state (kv w))"
  have c: "find_command (pg w) (tc_task_id c) = Some c" "stale_reserved n (clock w) c" "held_in ?h (hold_key c)"
    and ids: "fresh_ids (Suc (length cs)) w" using Cons.prems by auto
  obtain k v c' where v: "reconcile_task b n ttl c w = (Inr k, v)" "faults v = []" "tb_state (kv v) = tb_state (kv w)" "clock w \<le> clock v"
    "fresh_ids (length cs) v" "find_command (pg v) (tc_task_id c) = Some c'" "decided ?h c c'"
    "\<And>t. t \<noteq> tc_task_id c \<Longrightarrow> find_command (pg v) t = find_command (pg w) t"
    using reconcile_task_run [OF hist Cons.prems(2,1) ids c(3,1,2)] by metis
  have "\<forall>e\<in>set cs. find_command (pg v) (tc_task_id e) = Some e \<and> stale_reserved n (clock v) e \<and> held_in (h (tb_state (kv v))) (hold_key e)"
  proof
    fix e
    assume e: "e \<in> set cs"
    then have "tc_task_id e \<noteq> tc_task_id c" using Cons.prems(4) by (auto simp: image_iff)
    then have "find_command (pg v) (tc_task_id e) = find_command (pg w) (tc_task_id e)" by (rule v(8))
    with e Cons.prems(5) v(3,4) show "find_command (pg v) (tc_task_id e) = Some e \<and> stale_reserved n (clock v) e \<and> held_in (h (tb_state (kv v))) (hold_key e)"
      by (auto simp: stale_reserved_def)
  qed
  with Cons.IH [of v] v Cons.prems(2,4) obtain l u where u: "reconcile_tasks b n ttl cs v = (Inr l, u)" "tb_state (kv u) = tb_state (kv v)"
    "\<forall>c\<in>set cs. \<exists>c'. find_command (pg u) (tc_task_id c) = Some c' \<and> decided (h (tb_state (kv v))) c c'"
    "\<forall>t. t \<notin> tc_task_id ` set cs \<longrightarrow> find_command (pg u) t = find_command (pg v) t" by auto
  have run: "reconcile_tasks b n ttl (c # cs) w = (Inr (k + l), u)"
    by (simp add: bindE_ran [of "reconcile_task b n ttl c", OF v(1)] bindE_ran [of "reconcile_tasks b n ttl cs", OF u(1)] returnM_def)
  have "tc_task_id c \<notin> tc_task_id ` set cs" using Cons.prems(4) by simp
  then have "find_command (pg u) (tc_task_id c) = Some c'" using u(4) v(6) by simp
  with run u v show ?case by auto
qed

text \<open>C32. When nothing fails, a pass of the reconciler decides every overdue reserved task whose hold was settled, as the hold says,
  and changes nothing else: a task whose hold is only pending stays reserved however old it is.\<close>

theorem reconciler_decides_settled:
  assumes hist: "tb_history (bl_client b) h" and inv: "s3_inv (bl_ledger_id b) (sys h w)" and w: "faults w = []"
    and ids: "fresh_ids (length (task_commands (pg w))) w"
  shows "\<exists>k w'. reconcile_stale_reserved_tasks b n ttl w = (Inr k, w') \<and> tb_state (kv w') = tb_state (kv w) \<and>
    (\<forall>t. case find_command (pg w) t of None \<Rightarrow> find_command (pg w') t = None
      | Some c \<Rightarrow> \<exists>c'. find_command (pg w') t = Some c' \<and>
          (if stale_reserved n (clock w) c then decided (h (tb_state (kv w))) c c' else c' = c))"
proof -
  let ?stale = "filter (stale_reserved n (clock w)) (task_commands (pg w))"
  let ?cs = "sort_key tc_created_at (sort_key (\<lambda>c. unat (tc_task_id c)) ?stale)"
  have keys: "keyed tc_task_id (task_commands (pg w))" using inv by (simp add: s3_inv_def sys_def)
  have list: "list_stale_reserved_tasks n w = (Inr ?cs, w)" using w by (simp add: list_stale_reserved_tasks_def nofault_simps)
  have "distinct (map tc_task_id ?stale)" using keyed_filter [OF keys] by (simp add: keyed_def)
  then have dis: "distinct (map tc_task_id ?cs)" by (simp add: distinct_map)
  have all: "\<forall>c\<in>set ?cs. find_command (pg w) (tc_task_id c) = Some c \<and> stale_reserved n (clock w) c \<and> held_in (h (tb_state (kv w))) (hold_key c)"
    using inv lookup_row_member [OF keys] by (auto simp: find_command_def s3_inv_def sys_def aligned_def)
  have "length ?cs \<le> length (task_commands (pg w))" by (simp add: length_filter_le)
  then have enough: "fresh_ids (length ?cs) w" using ids unfolding fresh_ids_def by (meson order_trans)
  have book: "book_ok (bl_ledger_id b) (h (tb_state (kv w)))" using inv by (simp add: s3_inv_def sys_def)
  obtain k v where
    v: "reconcile_tasks b n ttl ?cs w = (Inr k, v)" "tb_state (kv v) = tb_state (kv w)"
      "\<forall>c\<in>set ?cs. \<exists>c'. find_command (pg v) (tc_task_id c) = Some c' \<and> decided (h (tb_state (kv w))) c c'"
      "\<forall>t. t \<notin> tc_task_id ` set ?cs \<longrightarrow> find_command (pg v) t = find_command (pg w) t"
    using reconcile_tasks_run [OF hist w book enough dis all, of ttl] by (elim exE conjE) (rule that)
  have run: "reconcile_stale_reserved_tasks b n ttl w = (Inr k, v)"
    by (simp add: reconcile_stale_reserved_tasks_def bindE_ran [of "list_stale_reserved_tasks n", OF list] v(1))
  have "case find_command (pg w) t of None \<Rightarrow> find_command (pg v) t = None
      | Some c \<Rightarrow> \<exists>c'. find_command (pg v) t = Some c' \<and>
          (if stale_reserved n (clock w) c then decided (h (tb_state (kv w))) c c' else c' = c)" for t
  proof (cases "find_command (pg w) t")
    case None
    then have "t \<noteq> tc_task_id c" if "c \<in> set ?cs" for c using bspec [OF all that] by auto
    then have "t \<notin> tc_task_id ` set ?cs" by blast
    with v(4) have "find_command (pg v) t = find_command (pg w) t" by simp
    with None show ?thesis by simp
  next
    case (Some c)
    note mem = find_command_member [OF Some]
    show ?thesis
    proof (cases "stale_reserved n (clock w) c")
      case True
      with mem have "c \<in> set ?cs" by simp
      from bspec [OF v(3) this] mem True Some show ?thesis by simp
    next
      case False
      have "t \<noteq> tc_task_id e" if "e \<in> set ?cs" for e using bspec [OF all that] Some False by auto
      then have "t \<notin> tc_task_id ` set ?cs" by blast
      with v(4) have "find_command (pg v) t = find_command (pg w) t" by simp
      with Some False show ?thesis by simp
    qed
  qed
  with run v(2) show ?thesis by blast
qed

text \<open>Two overdue tasks, one whose hold was posted and one whose hold is pending.\<close>

definition demo_second :: TaskCommand where
  "demo_second = demo_task\<lparr>tc_task_id := 9, tc_tb_pending_transfer_id := 10, tc_idempotency_key := None\<rparr>"

definition demo_book :: "tb_transfer list" where
  "demo_book = [demo_hold, hold_transfer demo_billing 5 10 10, settle_transfer demo_billing POST_PENDING_TRANSFER 30 8]"

lemma demo_book_inv: "s3_inv 1 (sys fst (demo_world [demo_task, demo_second] demo_book []))"
proof -
  have "book_ok 1 demo_book"
    by (simp add: book_ok_def demo_book_def demo_hold_def labelled_def transfer_defs uuid_to_u128_number)
  moreover have "held_in demo_book 8" "held_in demo_book 10"
    by (simp_all add: demo_book_def held_in_def demo_hold_def transfer_defs uuid_to_u128_number)
  ultimately show ?thesis
    by (simp add: s3_inv_def sys_def keyed_def aligned_def uuid_to_u128_number demo_second_def)
qed

theorem reconciler_decides_settled_witness:
  "\<exists>w w' k c. reconcile_stale_reserved_tasks demo_billing 720 3600 w = (Inr k, w') \<and>
     find_command (pg w) 7 = Some demo_task \<and> find_command (pg w') 7 = Some c \<and> tc_status c = COMPLETED \<and>
     tc_billing_state c = CAPTURED \<and> find_command (pg w) 9 = Some demo_second \<and> find_command (pg w') 9 = Some demo_second"
proof -
  let ?w = "demo_world [demo_task, demo_second] demo_book []"
  have ids: "fresh_ids (length (task_commands (pg ?w))) ?w" by (simp add: fresh_ids_def)
  have inv: "s3_inv (bl_ledger_id demo_billing) (sys fst ?w)" using demo_book_inv by simp
  obtain k v where v: "reconcile_stale_reserved_tasks demo_billing 720 3600 ?w = (Inr k, v)"
    "\<And>t. case find_command (pg ?w) t of None \<Rightarrow> find_command (pg v) t = None
      | Some c \<Rightarrow> \<exists>c'. find_command (pg v) t = Some c' \<and>
          (if stale_reserved 720 (clock ?w) c then decided (fst (tb_state (kv ?w))) c c' else c' = c)"
    using reconciler_decides_settled [OF demo_billing_history inv demo_world_simps(1) ids, of 720 3600] by auto
  have rows: "find_command (pg ?w) 7 = Some demo_task" "find_command (pg ?w) 9 = Some demo_second"
    by (simp_all add: find_command_def demo_second_def)
  have stale: "stale_reserved 720 (clock ?w) demo_task" "stale_reserved 720 (clock ?w) demo_second"
    by (simp_all add: stale_reserved_def demo_second_def demo_task_def seconds_def)
  have "hold_state demo_book 8 = HOLD_POSTED" "hold_state demo_book 10 = HOLD_PENDING"
    by (simp_all add: hold_state_def settled_by_def held_in_def demo_book_def demo_hold_def transfer_defs uuid_to_u128_number)
  then have "\<exists>c. find_command (pg v) 7 = Some c \<and> tc_status c = COMPLETED \<and> tc_billing_state c = CAPTURED"
      "find_command (pg v) 9 = Some demo_second"
    using v(2) [of 7] v(2) [of 9] rows stale by (auto simp: decided_def uuid_to_u128_number demo_second_def)
  with v(1) rows show ?thesis by blast
qed

end
