(* ===== verification/S3_Stuck.thy ===== *)
theory S3_Stuck
  imports S3_Progress
begin

text \<open>
  Solution 3, a worker that dies or meets an error after it has marked its task as running: the message comes back, but
  the redelivery and the reconciler both leave the task alone.
\<close>

lemma running_missed:
  assumes "find_command (pg w) t = Some c" "tc_status c \<noteq> PENDING" and run: "update_task_running t w = (r, w')"
  shows "pg w' = pg w \<and> kv w' = kv w \<and> (r = Inr False \<or> (\<exists>e. r = Inl e)) \<and> (faults w = [] \<longrightarrow> r = Inr False \<and> faults w' = [])"
proof -
  have kv: "kv w' = kv w" using run unfolding update_task_running_def by (rule db_only_run [rotated]) (intro db_rules)
  have "pg w' = pg w \<and> (r = Inr False \<or> (\<exists>e. r = Inl e))"
    using run unfolding update_task_running_def
  proof (cases rule: in_transaction)
    case (ran a fs w1)
    from ran(1) obtain u w2 where "update_command t (\<lambda>_ c. tc_status c = PENDING) (\<lambda>c. c\<lparr>tc_status := RUNNING\<rparr>) (w\<lparr>faults := fs\<rparr>) = (Inr u, w2)"
      and rest: "(case u of None \<Rightarrow> returnM False | Some _ \<Rightarrow>
       bindE (insert_outbox t ''task.started'' ''tasks.started''
         [(''task_id'', JStr (uuid_str t)), (''status'', JStr (TaskStatus_value RUNNING))]) (\<lambda>_. returnM True)) w2 = (Inr a, w1)"
      by (elim bindE_okE)
    from this(1) have "u = None \<and> pg w2 = pg w" by (cases rule: update_command_cases) (use assms(1,2) in auto)
    with rest ran(2,3) show ?thesis by auto
  qed simp
  moreover have "r = Inr False \<and> faults w' = []" if "faults w = []"
  proof -
    let ?m = "bindE (update_command t (\<lambda>_ c. tc_status c = PENDING) (\<lambda>c. c\<lparr>tc_status := RUNNING\<rparr>)) (\<lambda>u. case u of None \<Rightarrow> returnM False | Some _ \<Rightarrow>
       bindE (insert_outbox t ''task.started'' ''tasks.started''
         [(''task_id'', JStr (uuid_str t)), (''status'', JStr (TaskStatus_value RUNNING))]) (\<lambda>_. returnM True)) :: (s3db, 'a, bool) io"
    have "?m w = (Inr False, w)" using that assms(1,2) by (simp add: update_command_def nofault_simps returnM_def)
    from transaction_nofault [of ?m w, OF this that] run that show ?thesis
      by (simp add: update_task_running_def nofault_simps)
  qed
  ultimately show ?thesis using kv by simp
qed

text \<open>C33. A task that is running with its hold pending, because its worker died or met an error, stays like that: a further delivery of
  its message leaves the row and the hold alone, whatever fails, and when nothing fails the message is acknowledged and gone; the reconciler leaves
  the task alone too, however old it is.\<close>

theorem interrupted_task_stays:
  assumes hist: "tb_history (bl_client b) h" and inv: "s3_inv (bl_ledger_id b) (sys h w)"
    and c: "find_command (pg w) t = Some c" "tc_status c = RUNNING"
    and hold: "hold_state (h (tb_state (kv w))) (hold_key c) = HOLD_PENDING"
    and body: "parse_delivery body (clock w) = Inr task" "tc_task_id task = t"
  shows "sys h (snd (handle_delivery b me tag body ttl w)) = sys h w \<and>
    (faults w = [] \<longrightarrow> fst (handle_delivery b me tag body ttl w) = Inr () \<and>
       tag \<notin> fst ` set (unacked (kv (snd (handle_delivery b me tag body ttl w))))) \<and>
    sys h (snd (reconcile_task b n ttl c w)) = sys h w"
proof (intro conjI impI)
  let ?event = "bindE get_clock (\<lambda>now. bindE (liftE (parse_delivery body now)) (\<lambda>task. process_task_event b me task ttl))"
  obtain q w1 where q: "update_task_running t w = (q, w1)" by fastforce
  note miss = running_missed [OF c(1) _ q, unfolded c(2), simplified]
  have "process_task_event b me task ttl w = ((case q of Inl e \<Rightarrow> Inl e | Inr _ \<Rightarrow> Inr True), w1)"
    using miss q body(2) by (auto simp: process_task_event_def mark_task_running_def bindE_def returnM_def)
  then have ev: "?event w = ((case q of Inl e \<Rightarrow> Inl e | Inr _ \<Rightarrow> Inr True), w1)"
    by (simp add: bindE_pure body(1))
  have "sys h w1 = sys h w" using miss by (simp add: sys_def)
  moreover have "sys h (snd (basic_ack tag w1)) = sys h w1" "sys h (snd (basic_nack tag req w1)) = sys h w1" for req
    using quiet_acks(1) [of h tag] quiet_acks(2) [of h tag req] unfolding quiet_def by auto
  moreover have run: "handle_delivery b me tag body ttl w = (case q of Inl e \<Rightarrow> basic_nack tag (exn_kind e \<noteq> ValueError) | Inr _ \<Rightarrow> basic_ack tag) w1"
    unfolding handle_delivery_def bindE_attempt ev by (cases q) simp_all
  ultimately show "sys h (snd (handle_delivery b me tag body ttl w)) = sys h w" by (cases q) simp_all
  assume "faults w = []"
  with miss have "q = Inr False" "faults w1 = []" by auto
  with run ack_run [of w1 tag] show "fst (handle_delivery b me tag body ttl w) = Inr ()"
    "tag \<notin> fst ` set (unacked (kv (snd (handle_delivery b me tag body ttl w))))" by auto
next
  have mem: "c \<in> set (task_commands (pg w))" using find_command_member [OF c(1)] by simp
  then have key: "hold_key c \<noteq> 0" using inv held_key by (auto simp: s3_inv_def sys_def aligned_def)
  obtain r w' where run: "reconcile_task b n ttl c w = (r, w')" by fastforce
  then have "sys h w' = sys h w" unfolding reconcile_task_def
  proof (cases rule: bindE_cases)
    case (raised e)
    have "quiet h (get_pending_transfer_state b (tc_tb_pending_transfer_id c))"
      unfolding get_pending_transfer_state_def Let_def by (intro quiet_rules quiet_tb_read)
    with raised(1) show ?thesis unfolding quiet_def by (metis snd_conv)
  next
    case (ran st w1)
    have q: "quiet h (get_pending_transfer_state b (tc_tb_pending_transfer_id c))"
      unfolding get_pending_transfer_state_def Let_def by (intro quiet_rules quiet_tb_read)
    then have same: "sys h w1 = sys h w" using ran(1) unfolding quiet_def by (metis snd_conv)
    have "st = hold_state (snd (sys h w1)) (hold_key c)"
      using movesD(2) [OF moves_hold_state [OF hist, where P = "\<lambda>_. True" and t = "tc_tb_pending_transfer_id c"] inv TrueI ran(1)] key by auto
    then have "st = HOLD_PENDING" using hold same by (simp add: sys_def)
    with ran(2) same show ?thesis by (simp add: returnM_def)
  qed
  with run show "sys h (snd (reconcile_task b n ttl c w)) = sys h w" by simp
qed

definition demo_running :: TaskCommand where
  "demo_running = demo_task\<lparr>tc_status := RUNNING\<rparr>"

theorem interrupted_task_stays_witness:
  "\<exists>w body. find_command (pg w) 7 = Some demo_running \<and> sys fst (snd (handle_delivery demo_billing ''me'' 1 body 3600 w)) = sys fst w \<and>
     fst (handle_delivery demo_billing ''me'' 1 body 3600 w) = Inr () \<and> sys fst (snd (reconcile_task demo_billing 720 3600 demo_running w)) = sys fst w"
proof -
  let ?w = "demo_world [demo_running] [demo_hold] []" and ?body = "Decoded (JObj (requested_payload 7 5 PRO ASYNC SMALL 2 3 10 8))"
  note task = parse_requested [of 7 5 PRO ASYNC SMALL 2 3 10 8 "clock ?w"]
  have inv: "s3_inv (bl_ledger_id demo_billing) (sys fst ?w)"
    using s3_demo_inv [of "[]"] by (simp add: s3_inv_def sys_def keyed_def aligned_def demo_running_def)
  have c: "find_command (pg ?w) 7 = Some demo_running" "tc_status demo_running = RUNNING"
    by (simp_all add: find_command_def demo_running_def)
  have hold: "hold_state (fst (tb_state (kv ?w))) (hold_key demo_running) = HOLD_PENDING"
    by (simp add: hold_state_def settled_by_def held_in_def demo_hold_def transfer_defs uuid_to_u128_number demo_running_def)
  have "faults ?w = []" by simp
  with interrupted_task_stays [OF demo_billing_history inv c hold task, where me = "''me''" and tag = 1 and ttl = 3600 and n = 720] c(1) show ?thesis
    by (intro exI [of _ ?w] exI [of _ ?body]) simp
qed

end
