(* ===== verification/S3_Delivery.thy ===== *)
theory S3_Delivery
  imports S3_Progress
begin

text \<open>
  Solution 3, the hand-over of events: from the outbox to the log, and of requested tasks from the log to a queue.
\<close>


text \<open>An event of the outbox is relayed and its request dispatched.\<close>

definition demo_event :: OutboxEventRecord where
  "demo_event = new_event 30 7 ''task.requested'' ''tasks.requested'' (requested_payload 7 5 PRO ASYNC SMALL 2 3 10 8) 0"

definition demo_waiting :: "(s3db, demo_ledger s3kv) world" where
  "demo_waiting = (demo_world [demo_task] [demo_hold] [])\<lparr>pg := (demo_db [demo_task])\<lparr>outbox_events := [demo_event]\<rparr>\<rparr>"

definition demo_record :: KafkaRecord where
  "demo_record = \<lparr>kr_topic = ''tasks.requested'', kr_offset = 0, kr_headers = fst (outbox_message demo_event), kr_value = snd (outbox_message demo_event)\<rparr>"

definition demo_logged :: "(s3db, demo_ledger s3kv) world" where
  "demo_logged = demo_waiting\<lparr>kv := (kv demo_waiting)\<lparr>topics := [(''tasks.requested'', [demo_record])]\<rparr>\<rparr>"

lemma demo_relay: "\<exists>w. relay_once 10 demo_waiting = (Inr 1, w) \<and> outbox_events (pg w) = [demo_event\<lparr>ob_published_at := Some 1700000000000000\<rparr>]"
  by (simp add: relay_once_def fetch_unpublished_outbox_events_def oldest_rows_def demo_waiting_def nofault_simps demo_event_def
      new_event_def produce_def bindE_attempt append_record_def flush_def mark_outbox_events_published_def update_rows_def returnM_def)

lemma broker_read_nofault:
  "faults w = [] \<Longrightarrow> broker_read f w = (case f (kv w) of (a, k) \<Rightarrow> (Inr a, w\<lparr>kv := k\<lparr>tb_state := tb_state (kv w)\<rparr>\<rparr>))"
  "faults w = [] \<Longrightarrow> bindE (broker_read f) g w = (case f (kv w) of (a, k) \<Rightarrow> g a (w\<lparr>kv := k\<lparr>tb_state := tb_state (kv w)\<rparr>\<rparr>))"
  by (simp_all add: broker_read_def remote_nofault bindE_def split: prod.split)

lemma demo_dispatched: "\<exists>w. dispatcher_turn False 10 demo_logged = (Inr True, w) \<and> dispatch_commit (kv w) = 1"
proof -
  have ev: "kr_value demo_record = Decoded (JObj (requested_payload 7 5 PRO ASYNC SMALL 2 3 10 8))"
    by (simp add: demo_record_def outbox_message_def demo_event_def new_event_def)
  have has: "\<not> list_ex (\<lambda>key. \<not> truthy (dict_get_or (requested_payload 7 5 PRO ASYNC SMALL 2 3 10 8) key JNull)) [''task_id'', ''model_class'', ''tier'']"
    by (simp add: requested_payload_def dict_get_or_def)
  have send: "dispatch_requested_task (requested_payload 7 5 PRO ASYNC SMALL 2 3 10 8) raw =
      broker_call (\<lambda>k. push_back (dispatch_queue (requested_payload 7 5 PRO ASYNC SMALL 2 3 10 8) (hot_bindings k)) raw k)" for raw
    unfolding dispatch_requested_task_def if_not_P [OF has] ..
  show ?thesis
    by (simp add: dispatcher_turn_def bindE_attempt dispatch_polled_messages_def kafka_poll_def kafka_commit_def open_consumer_def nofault_simps
        broker_read_nofault demo_logged_def demo_waiting_def ev send returnM_def rewind_def commit_all_def
        dispatcher_group_def entry_def demo_kv_def push_back_def)
qed


end
