(* ===== verification/S3_View.thy ===== *)
theory S3_View
  imports S3_Outcomes
begin

text \<open>
  Invariants of the database of Solution 3 that hold in every run of its processes.  An interface states what an
  invariant must be kept by, the transactions of the repository; inside it every handler and process is shown to keep the invariant.
  Two invariants are instances: the rows satisfy the schema, and the query view follows the command rows.
\<close>

section \<open>Calls that leave the database alone\<close>

lemma keeps_more_tb_ops [keeps_rules]:
  "keeps I (post_pending_transfer b t)" "keeps I (topup_credits b u t n)" "keeps I (get_balance b u)"
  "keeps I (get_pending_transfer_state b t)"
  unfolding post_pending_transfer_def topup_credits_def get_balance_def get_pending_transfer_state_def Let_def
  by (intro keeps_rules)+

lemma s3_keeps_ensure [keeps_rules]: "keeps I (ensure_user_account b u n)"
  unfolding ensure_user_account_def by (intro keeps_rules)

lemma keeps_worker_ops [keeps_rules]:
  "keeps I (activate c)" "keeps I (deactivate c u)" "keeps I (go_warm i c)" "keeps I (execute i task)"
  "keeps I (basic_ack tag)" "keeps I (basic_nack tag req)"
  unfolding execute_def go_warm_def drop_warm_registration_def activate_def deactivate_def basic_ack_def basic_nack_def
  by (intro keeps_rules)+

lemma s3_keeps_reads [keeps_rules]: "keeps I (get_task_command t)" "keeps I (list_stale_reserved_tasks n)"
  "keeps I (is_inbox_event_processed e c)" "keeps I (fetch_unpublished_outbox_events batch)"
  unfolding get_task_command_def list_stale_reserved_tasks_def is_inbox_event_processed_def fetch_unpublished_outbox_events_def
  by (intro keeps_rules)+

lemma keeps_caches [keeps_rules]: "keeps I (cache_cancelled rt c t)" "keeps I (cache_reconciled_state st ttl)" "keeps I (cache_projected_view v ttl)"
  unfolding cache_cancelled_def cache_reconciled_state_def reconciler_decrement_def cache_projected_view_def Let_def
  by (intro keeps_rules)+

lemma keeps_broker_ops [keeps_rules]: "keeps I (kafka_poll g ts n)" "keeps I (kafka_commit g ts)" "keeps I (open_consumer g ts)"
  "keeps I (append_record topic hs p)" "keeps I (flush fs)"
  unfolding kafka_poll_def kafka_commit_def open_consumer_def append_record_def flush_def by (intro keeps_rules)+

lemma keeps_produce [keeps_rules]: "keeps I (produce_all es)"
  by (induction es) (auto simp: produce_def intro!: keeps_rules)

lemma s3_keeps_dispatch [keeps_rules]: "keeps I (dispatch_messages ms)"
  by (induction ms) (auto simp: dispatch_requested_task_def intro!: keeps_rules split: jtext.split json.split)

lemma keeps_clear [keeps_rules]: "keeps I clear_task_cache"
proof -
  have "keeps I (delete_batches n keys)" for n keys by (induction n arbitrary: keys) (auto intro!: keeps_rules)
  then show ?thesis unfolding clear_task_cache_def by (intro keeps_rules)
qed

section \<open>Invariants of the repository\<close>

locale store_invariant =
  fixes I :: "s3db \<Rightarrow> bool" and b :: "'t TigerBeetleBilling"
  assumes submitted: "keeps I (submit_task_command t u ti mo mc x y cost tr cb key payload :: ('t, bool \<times> TaskCommand) app3)"
    and topped: "keeps I (record_admin_credit_topup u amount reason admin masked balance tr :: ('t, unit) app3)"
    and cancelled: "keeps I (cancel_task_command t :: ('t, bool) app3)"
    and started: "keeps I (update_task_running t :: ('t, bool) app3)"
    and finalized: "s = COMPLETED \<or> s = FAILED \<Longrightarrow> keeps I (finalize_task_command t u s (billing_of s) cost res err :: ('t, bool) app3)"
    and expired: "keeps I (expire_stale_reserved_task t tr n :: ('t, ReconciledTaskState option) app3)"
    and aligned_to: "s = COMPLETED \<or> s = FAILED \<or> s = CANCELLED \<Longrightarrow>
      keeps I (align_stale_reserved_task_terminal_state task s (billing_of s) resolution n :: ('t, ReconciledTaskState option) app3)"
    and marked: "keeps I (mark_outbox_events_published ids :: ('t, unit) app3)"
    and projected: "keeps I (apply_task_projection rp cn pn topic i v e event :: ('t, TaskQueryView option) app3)"
    and was_reset: "keeps I (reset_projection_state cns pns :: ('t, unit) app3)"
    and refilled: "keeps I (rebuild_task_query_view_from_commands :: ('t, nat) app3)"
begin

lemmas kept = keeps_rules submitted topped cancelled started expired marked projected was_reset refilled

lemma submit_keeps: "keeps I (submit_task ip6 (rt :: 't RuntimeState) payload user key)"
  unfolding submit_task_def persist_submission_def require_scopes_def
  by (auto intro!: kept split: list.split)

lemma cancel_keeps: "keeps I (cancel_task (rt :: 't RuntimeState) t user)"
  unfolding cancel_task_def require_scopes_def by (auto intro!: kept split: list.split)

lemma admin_keeps: "keeps I (admin_credits sha uuid5 (rt :: 't RuntimeState) req user)"
  unfolding admin_credits_def require_scopes_def fetch_active_user_by_api_key_def derive_transfer_id_def
  by (auto intro!: kept split: list.split option.split sum.split)

lemma completion_keeps: "keeps I (handle_task_completion b task success ttl res err)"
  using finalized [of COMPLETED] finalized [of FAILED]
  unfolding handle_task_completion_def Let_def by (auto intro!: kept)

lemma delivery_keeps: "keeps I (handle_delivery b i tag body ttl)"
  unfolding handle_delivery_def process_task_event_def mark_task_running_def
  by (intro kept completion_keeps)

lemma reconcile_task_keeps: "keeps I (reconcile_task b n ttl task)"
  unfolding reconcile_task_def using aligned_to [of COMPLETED] aligned_to [of FAILED] aligned_to [of CANCELLED]
  by (auto intro!: kept simp: terminal_alignment_target_def split: PendingTransferState.splits if_splits)

lemma reconcile_keeps: "keeps I (reconcile_stale_reserved_tasks b n ttl)"
proof -
  have "keeps I (reconcile_tasks b n ttl tasks)" for tasks
    by (induction tasks) (auto intro!: kept reconcile_task_keeps)
  then show ?thesis unfolding reconcile_stale_reserved_tasks_def by (intro kept)
qed

lemma relay_keeps: "keeps I (relay_once n :: ('t, nat) app3)"
  unfolding relay_once_def by (intro kept)

lemma dispatcher_keeps: "keeps I (dispatcher_turn is_open n :: ('t, bool) app3)"
  unfolding dispatcher_turn_def dispatch_polled_messages_def by (intro kept)

lemma project_keeps: "keeps I (project_messages rp ttl ms :: ('t, nat) app3)"
  by (induction ms) (auto simp: project_message_def intro!: kept split: jtext.split json.split)

lemma projector_keeps: "keeps I (projector_turn rp ttl n :: ('t, exn + nat) app3)"
  unfolding projector_turn_def project_polled_messages_def by (intro kept project_keeps)

lemma rebuilder_keeps: "keeps I (rebuilder_main rp ttl n m fb fuel :: ('t, (nat \<times> nat) option) app3)"
proof -
  have "keeps I (replay_events rp ttl n m grp fuel e p :: ('t, nat option) app3)" for grp fuel e p
    by (induction fuel arbitrary: e p) (auto intro!: kept project_keeps)
  then show ?thesis unfolding rebuilder_main_def rebuild_from_sql_def rebuild_from_events_def by (intro kept)
qed

lemma turn_keeps:
  assumes "s3_turn b h w w'" "I (pg w)"
  shows "I (pg w')"
  using assms(1)
proof cases
  case elsewhere
  then show ?thesis using assms(2) by (simp add: sys_def)
qed (metis assms(2) keepsD snd_conv submit_keeps cancel_keeps admin_keeps delivery_keeps reconcile_keeps relay_keeps
    dispatcher_keeps projector_keeps rebuilder_keeps)+

lemma turns_keep: "(s3_turn b h)\<^sup>*\<^sup>* w w' \<Longrightarrow> I (pg w) \<Longrightarrow> I (pg w')"
  by (induction rule: rtranclp_induct) (auto intro: turn_keeps)

end

section \<open>The rows satisfy the schema\<close>

definition command_ok :: "s3db \<Rightarrow> TaskCommand \<Rightarrow> bool" where
  "command_ok d c \<longleftrightarrow> int4_ok (tc_x c) \<and> int4_ok (tc_y c) \<and> int4_ok (tc_cost c) \<and> 0 \<le> tc_cost c \<and>
     (\<forall>k. tc_idempotency_key c = Some k \<longrightarrow> length k \<le> 128) \<and> lookup_row us_user_id (tc_user_id c) (users d) \<noteq> None"

definition idem_keys :: "TaskCommand list \<Rightarrow> (uuid \<times> string option) list" where
  "idem_keys t = map (\<lambda>c. (tc_user_id c, tc_idempotency_key c)) (filter (\<lambda>c. tc_idempotency_key c \<noteq> None) t)"

definition schema_ok :: "s3db \<Rightarrow> bool" where
  "schema_ok d \<longleftrightarrow> keyed tc_task_id (task_commands d) \<and> distinct (idem_keys (task_commands d)) \<and>
     (\<forall>c\<in>set (task_commands d). command_ok d c) \<and>
     keyed ob_event_id (outbox_events d) \<and>
     (\<forall>e\<in>set (outbox_events d). length (ob_event_type e) \<le> 64 \<and> length (ob_topic e) \<le> 128) \<and>
     distinct (inbox_events d) \<and> list_all (\<lambda>e. length (snd e) \<le> 64) (inbox_events d) \<and>
     keyed tv_task_id (task_query_view d) \<and> keyed fst (checkpoints d) \<and>
     list_all (\<lambda>p. length (fst p) \<le> 64 \<and> length (fst (snd p)) \<le> 128) (checkpoints d) \<and>
     (\<forall>j\<in>set (reconcile_jobs d). length (rj_resolution j) \<le> 24 \<and> find_command d (rj_task_id j) \<noteq> None)"

lemma set_update_rows: "x \<in> set (update_rows P f t) \<Longrightarrow> x \<in> set t \<or> (\<exists>y\<in>set t. P y \<and> x = f y)"
  by (auto simp: update_rows_def)

lemma idem_update:
  "(\<And>c. tc_user_id (g c) = tc_user_id c \<and> tc_idempotency_key (g c) = tc_idempotency_key c) \<Longrightarrow>
   idem_keys (update_rows P g t) = idem_keys t"
  by (induction t) (auto simp: idem_keys_def update_rows_def)

lemma schema_outbox [keeps_rules]: "keeps schema_ok (insert_outbox a e topic p)"
  unfolding insert_outbox_def
  by (intro keeps_rules keeps_sql) (auto simp: schema_ok_def command_ok_def keyed_append find_command_def split: if_splits)

lemma schema_append:
  assumes "schema_ok d" "command_ok d c" "find_command d (tc_task_id c) = None"
    "\<not> (\<exists>e\<in>set (task_commands d). tc_user_id e = tc_user_id c \<and> tc_idempotency_key c \<noteq> None \<and>
       tc_idempotency_key e = tc_idempotency_key c)"
  shows "schema_ok (d\<lparr>task_commands := task_commands d @ [c]\<rparr>)"
proof -
  have "distinct (idem_keys (task_commands d @ [c]))"
    using assms(1,4) by (auto simp: idem_keys_def schema_ok_def)
  moreover have "find_command (d\<lparr>task_commands := task_commands d @ [c]\<rparr>) t \<noteq> None" if "find_command d t \<noteq> None" for t
    using that by (auto simp: find_command_def lookup_row_append)
  ultimately show ?thesis
    using assms by (auto simp: schema_ok_def command_ok_def keyed_append find_command_def)
qed

lemma schema_insert [keeps_rules]: "keeps schema_ok (insert_command c)"
  unfolding insert_command_def
  by (rule keeps_sql) (auto simp: Let_def command_ok_def split: if_splits option.splits intro!: schema_append)

lemma schema_update [keeps_rules]:
  assumes f: "\<And>c. tc_task_id (f c) = tc_task_id c \<and> tc_user_id (f c) = tc_user_id c \<and> tc_x (f c) = tc_x c \<and> tc_y (f c) = tc_y c \<and>
      tc_cost (f c) = tc_cost c \<and> tc_idempotency_key (f c) = tc_idempotency_key c"
  shows "keeps schema_ok (update_command t P f)"
  unfolding update_command_def
proof (rule keeps_sql, goal_cases)
  case (1 now d a d')
  define g where "g = (\<lambda>c. (f c)\<lparr>tc_updated_at := now\<rparr>)"
  have g: "tc_task_id (g c) = tc_task_id c" "tc_user_id (g c) = tc_user_id c" "tc_idempotency_key (g c) = tc_idempotency_key c"
    "command_ok d c \<Longrightarrow> command_ok d (g c)" for c using f by (auto simp: g_def command_ok_def)
  have found: "find_command (d\<lparr>task_commands := update_rows (\<lambda>c. tc_task_id c = t) g (task_commands d)\<rparr>) x \<noteq> None"
    if "find_command d x \<noteq> None" for x
    using that lookup_row_update_key [of tc_task_id g x t] g(1) by (auto simp: find_command_def)
  have "schema_ok (d\<lparr>task_commands := update_rows (\<lambda>c. tc_task_id c = t) g (task_commands d)\<rparr>)"
    using 1(1) g idem_update [of g "\<lambda>c. tc_task_id c = t"] found
    by (auto simp: schema_ok_def command_ok_def dest!: set_update_rows)
  with 1 show ?case by (auto simp: g_def Let_def split: option.splits if_splits)
qed

lemma schema_states [keeps_rules]: "keeps schema_ok (update_command t P (set_state s b))"
  by (rule schema_update) (simp add: set_state_def)

lemma schema_views [keeps_rules]:
  assumes "\<And>v. tv_task_id (f v) = tv_task_id v"
  shows "keeps schema_ok (update_view t f)"
  unfolding update_view_def using assms
  by (intro keeps_sql) (auto simp: schema_ok_def command_ok_def find_command_def)

lemma keyed_update_row:
  assumes "\<And>r. P r \<Longrightarrow> key (f r) = key r"
  shows "keyed key (update_rows P f t) = keyed key t"
proof -
  have "map key (update_rows P f t) = map key t" using assms by (induction t) (auto simp: update_rows_def)
  then show ?thesis by (simp add: keyed_def)
qed

lemma schema_statements [keeps_rules]:
  "keeps schema_ok (insert_reconcile_job t tr res)" "keeps schema_ok (mark_outbox_events_published ids)"
  "keeps schema_ok (insert_inbox_event e c)"
  unfolding insert_reconcile_job_def mark_outbox_events_published_def insert_inbox_event_def
  by (auto simp: schema_ok_def command_ok_def find_command_def dest!: set_update_rows split: if_splits
      intro!: keeps_rules keeps_sql)

lemma list_all_filter: "list_all P xs \<Longrightarrow> list_all P (filter Q xs)"
  by (induction xs) auto

lemma list_all_update: "list_all P xs \<Longrightarrow> P (k, v) \<Longrightarrow> list_all P (AList.update k v xs)"
  by (induction xs) auto

lemma schema_checkpoint [keeps_rules]: "keeps schema_ok (upsert_checkpoint p topic i n)"
proof -
  have "keyed fst (AList.update p v xs)" if "keyed fst xs" for v and xs :: "(string \<times> string \<times> int \<times> int) list"
    using that by (simp add: keyed_def distinct_update)
  then show ?thesis
    unfolding upsert_checkpoint_def
    by (intro keeps_sql) (auto simp: schema_ok_def command_ok_def find_command_def intro!: list_all_update split: if_splits)
qed

lemma projected_id [simp]: "tv_task_id (projected_view ow res err v c old) = tc_task_id c"
  by (simp add: projected_view_def)

lemma schema_upsert [keeps_rules]: "keeps schema_ok (upsert_view t ow res err v)"
  unfolding upsert_view_def
proof (rule keeps_sql, goal_cases)
  case (1 now d a d')
  then show ?case
    by (auto simp: schema_ok_def command_ok_def find_command_def find_view_def keyed_append keyed_update_row Let_def
        dest: lookup_row_Some split: option.splits)
qed

lemma schema_reset [keeps_rules]: "keeps schema_ok (reset_projection_state cs ps)"
  unfolding reset_projection_state_def
  by (intro keeps_rules keeps_sql) (auto simp: schema_ok_def command_ok_def find_command_def keyed_filter list_all_filter)

lemma view_of_id [simp]: "tv_task_id (view_of_command c) = tc_task_id c"
  by (simp add: view_of_command_def)

lemma map_view_ids: "map (tv_task_id \<circ> view_of_command) cs = map tc_task_id cs"
  by simp

lemma schema_refill [keeps_rules]: "keeps schema_ok rebuild_task_query_view_from_commands"
  unfolding rebuild_task_query_view_from_commands_def
proof (intro keeps_rules, rule keeps_sql, goal_cases)
  case (1 now d a d')
  let ?cs = "sort_key tc_created_at (sort_key (\<lambda>c. unat (tc_task_id c)) (task_commands d))"
  have "keyed tc_task_id (task_commands d)" using 1(1) by (simp add: schema_ok_def)
  then have "distinct (map tc_task_id ?cs)" by (simp add: keyed_def distinct_map)
  moreover have "tc_task_id ` set (task_commands d) \<inter> tv_task_id ` set (task_query_view d) = {}"
    using 1(2) by (fastforce simp: find_view_def lookup_row_None split: if_splits)
  ultimately have "keyed tv_task_id (task_query_view d @ map view_of_command ?cs)"
    using 1(1) by (simp add: keyed_def schema_ok_def map_view_ids Int_commute)
  with 1 show ?case by (auto simp: schema_ok_def command_ok_def find_command_def split: if_splits)
qed

interpretation s3_schema: store_invariant schema_ok b for b :: "'t TigerBeetleBilling"
  by unfold_locales (auto simp: submit_task_command_def submit_body_def find_by_idempotency_def record_admin_credit_topup_def
      cancel_task_command_def update_task_running_def finalize_task_command_def expire_stale_reserved_task_def
      align_stale_reserved_task_terminal_state_def apply_task_projection_def Let_def intro!: keeps_rules)

section \<open>The view follows the command rows\<close>

text \<open>\<open>follows s s'\<close>: a task of status \<open>s\<close> can have status \<open>s'\<close> later.\<close>

definition follows :: "TaskStatus \<Rightarrow> TaskStatus \<Rightarrow> bool" where
  "follows s s' \<longleftrightarrow> s = s' \<or> s = PENDING \<or> s = RUNNING \<and> s' \<noteq> PENDING"

lemma follows_refl [simp]: "follows s s"
  by (simp add: follows_def)

lemma follows_trans: "follows s t \<Longrightarrow> follows t u \<Longrightarrow> follows s u"
  by (auto simp: follows_def)

lemma follows_ended: "follows s t \<Longrightarrow> \<not> active_status s \<Longrightarrow> t = s"
  by (auto simp: follows_def)

definition shows_task :: "TaskQueryView \<Rightarrow> TaskCommand \<Rightarrow> bool" where
  "shows_task v c \<longleftrightarrow> tv_user_id v = tc_user_id c \<and> tv_tier v = tc_tier c \<and> tv_mode v = tc_mode c \<and>
     tv_model_class v = tc_model_class c \<and> tv_created_at v = tc_created_at c \<and>
     tv_billing_state v = billing_of (tv_status v) \<and> follows (tv_status v) (tc_status c)"

definition view_ok :: "TaskCommand list \<Rightarrow> TaskQueryView list \<Rightarrow> bool" where
  "view_ok cs vs \<longleftrightarrow> keyed tc_task_id cs \<and> keyed tv_task_id vs \<and> (\<forall>c\<in>set cs. tc_billing_state c = billing_of (tc_status c)) \<and>
     (\<forall>v\<in>set vs. \<exists>c. lookup_row tc_task_id (tv_task_id v) cs = Some c \<and> shows_task v c)"

abbreviation view_inv :: "s3db \<Rightarrow> bool" where
  "view_inv \<equiv> (\<lambda>d. view_ok (task_commands d) (task_query_view d))"

lemma keeps_unrelated [keeps_rules]:
  "keeps (\<lambda>d. Q (task_commands d) (task_query_view d)) (insert_outbox a e topic p)"
  "keeps (\<lambda>d. Q (task_commands d) (task_query_view d)) (insert_reconcile_job t tr res)"
  "keeps (\<lambda>d. Q (task_commands d) (task_query_view d)) (mark_outbox_events_published ids)"
  "keeps (\<lambda>d. Q (task_commands d) (task_query_view d)) (insert_inbox_event ev c)"
  "keeps (\<lambda>d. Q (task_commands d) (task_query_view d)) (upsert_checkpoint pn topic i n)"
  unfolding insert_outbox_def insert_reconcile_job_def mark_outbox_events_published_def insert_inbox_event_def upsert_checkpoint_def
  by (auto intro!: keeps_rules keeps_sql split: if_splits)

lemma view_append: "view_ok cs vs \<Longrightarrow> lookup_row tc_task_id (tc_task_id c) cs = None \<Longrightarrow>
    tc_billing_state c = billing_of (tc_status c) \<Longrightarrow> view_ok (cs @ [c]) vs"
  by (fastforce simp: view_ok_def keyed_append lookup_row_append split: option.split)

lemma view_forward:
  assumes old: "view_ok cs vs" "lookup_row tc_task_id t cs = Some c"
    and g: "\<And>c. tc_task_id (g c) = tc_task_id c \<and> tc_user_id (g c) = tc_user_id c \<and> tc_tier (g c) = tc_tier c \<and>
      tc_mode (g c) = tc_mode c \<and> tc_model_class (g c) = tc_model_class c \<and> tc_created_at (g c) = tc_created_at c"
    and new: "follows (tc_status c) (tc_status (g c))" "tc_billing_state (g c) = billing_of (tc_status (g c))"
  shows "view_ok (update_rows (\<lambda>c. tc_task_id c = t) g cs) vs"
proof -
  have look: "lookup_row tc_task_id x (update_rows (\<lambda>c. tc_task_id c = t) g cs) =
      (if x = t then map_option g (lookup_row tc_task_id x cs) else lookup_row tc_task_id x cs)" for x
    using lookup_row_update_key [of tc_task_id g x t cs] g by simp
  have one: "e = c" if "e \<in> set cs" "tc_task_id e = t" for e
    using old lookup_row_member [of tc_task_id cs e] that by (simp add: view_ok_def)
  have "shows_task v (g c)" if "shows_task v c" for v
    using that g new(1) by (auto simp: shows_task_def intro: follows_trans)
  then have "\<exists>e. lookup_row tc_task_id (tv_task_id v) (update_rows (\<lambda>c. tc_task_id c = t) g cs) = Some e \<and> shows_task v e"
    if "v \<in> set vs" for v
    using old that look [of "tv_task_id v"] by (auto simp: view_ok_def)
  moreover have "tc_billing_state e = billing_of (tc_status e)" if "e \<in> set (update_rows (\<lambda>c. tc_task_id c = t) g cs)" for e
    using set_update_rows [OF that] old(1) one new(2) by (auto simp: view_ok_def)
  ultimately show ?thesis using old(1) g by (simp add: view_ok_def)
qed

lemma view_rewrite:
  assumes old: "view_ok cs vs" "lookup_row tc_task_id t cs = Some c"
    and f: "\<And>v. tv_task_id v = t \<Longrightarrow> tv_task_id (f v) = t"
      "\<And>v. v \<in> set vs \<Longrightarrow> shows_task v c \<Longrightarrow> shows_task (f v) c"
  shows "view_ok cs (update_rows (\<lambda>v. tv_task_id v = t) f vs)"
proof -
  have "\<exists>e. lookup_row tc_task_id (tv_task_id v) cs = Some e \<and> shows_task v e"
    if "v \<in> set (update_rows (\<lambda>v. tv_task_id v = t) f vs)" for v
    using set_update_rows [OF that] old f by (auto simp: view_ok_def)
  then show ?thesis using old(1) f(1) by (simp add: view_ok_def keyed_update_row)
qed

lemma view_of_row:
  assumes "view_ok cs vs" "lookup_row tc_task_id t cs = Some c"
  shows "shows_task (projected_view ow res err n c (lookup_row tv_task_id t vs)) c"
proof -
  have c: "c \<in> set cs" "tc_task_id c = t" using lookup_row_Some [OF assms(2)] by auto
  have "tv_created_at v = tc_created_at c" if "lookup_row tv_task_id t vs = Some v" for v
    using assms lookup_row_Some [OF that] by (auto simp: view_ok_def shows_task_def)
  with c assms(1) show ?thesis by (auto simp: shows_task_def projected_view_def view_ok_def split: option.split)
qed

lemma bind_establishes:
  assumes "\<And>r w'. m w = (r, w') \<Longrightarrow> (case r of Inl e \<Rightarrow> I (pg w') | Inr a \<Rightarrow> J a w')"
    and "\<And>a w'. J a w' \<Longrightarrow> I (pg (snd (f a w')))"
  shows "I (pg (snd (bindE m f w)))"
proof -
  obtain r w1 where run: "m w = (r, w1)" by fastforce
  show ?thesis using assms(1) [OF run] assms(2) by (cases r) (auto simp: bindE_def run)
qed

lemma view_insert [keeps_rules]:
  "tc_billing_state c = billing_of (tc_status c) \<Longrightarrow> keeps view_inv (insert_command c)"
  unfolding insert_command_def
  by (rule keeps_sql) (auto simp: Let_def find_command_def split: if_splits intro!: view_append)

lemma view_update_run:
  assumes old: "view_inv (pg w)" and run: "update_command t P f w = (r, w')"
    and f: "\<And>c. tc_task_id (f c) = tc_task_id c \<and> tc_user_id (f c) = tc_user_id c \<and> tc_tier (f c) = tc_tier c \<and>
      tc_mode (f c) = tc_mode c \<and> tc_model_class (f c) = tc_model_class c \<and> tc_created_at (f c) = tc_created_at c"
    and P: "\<And>now c. P now c \<Longrightarrow> tc_billing_state c = billing_of (tc_status c) \<Longrightarrow>
      follows (tc_status c) (tc_status (f c)) \<and> tc_billing_state (f c) = billing_of (tc_status (f c))"
  shows "view_inv (pg w') \<and> (\<forall>c. r = Inr (Some c) \<longrightarrow> (\<exists>c0 now. c = (f c0)\<lparr>tc_updated_at := now\<rparr>) \<and>
    lookup_row tc_task_id t (task_commands (pg w')) = Some c)"
  using run unfolding update_command_def
proof (cases rule: sql_cases)
  case (undone e)
  with old show ?thesis by simp
next
  case (ran a)
  show ?thesis
  proof (cases "find_command (pg w) t")
    case None
    with ran old show ?thesis by auto
  next
    case (Some c)
    define g where "g = (\<lambda>c. (f c)\<lparr>tc_updated_at := clock w\<rparr>)"
    show ?thesis
    proof (cases "P (clock w) c")
      case False
      with ran Some old show ?thesis by auto
    next
      case True
      have c: "c \<in> set (task_commands (pg w))" using find_command_member [OF Some] by simp
      with old have "tc_billing_state c = billing_of (tc_status c)" by (simp add: view_ok_def)
      then have "view_ok (update_rows (\<lambda>c. tc_task_id c = t) g (task_commands (pg w))) (task_query_view (pg w))"
        using P [OF True] f Some by (intro view_forward [OF old]) (auto simp: g_def find_command_def)
      moreover have "lookup_row tc_task_id t (update_rows (\<lambda>c. tc_task_id c = t) g (task_commands (pg w))) = Some (g c)"
        using lookup_row_update_key [of tc_task_id g t t] f Some by (simp add: g_def find_command_def)
      moreover have "pg w' = (pg w)\<lparr>task_commands := update_rows (\<lambda>c. tc_task_id c = t) g (task_commands (pg w))\<rparr>" "a = Some (g c)"
        using ran(1) Some True by (auto simp: g_def Let_def)
      ultimately have "view_inv (pg w')" "lookup_row tc_task_id t (task_commands (pg w')) = Some (g c)" "r = Inr (Some (g c)) \<or> (\<exists>e. r = Inl e)"
        using ran(2) by simp_all
      then show ?thesis unfolding g_def by blast
    qed
  qed
qed

lemma view_update [keeps_rules]:
  assumes "\<And>c. tc_task_id (f c) = tc_task_id c \<and> tc_user_id (f c) = tc_user_id c \<and> tc_tier (f c) = tc_tier c \<and>
      tc_mode (f c) = tc_mode c \<and> tc_model_class (f c) = tc_model_class c \<and> tc_created_at (f c) = tc_created_at c"
    and "\<And>now c. P now c \<Longrightarrow> tc_billing_state c = billing_of (tc_status c) \<Longrightarrow>
      follows (tc_status c) (tc_status (f c)) \<and> tc_billing_state (f c) = billing_of (tc_status (f c))"
  shows "keeps view_inv (update_command t P f)"
proof (rule keepsI)
  fix w :: "(s3db, 'a) world"
  assume "view_inv (pg w)"
  from view_update_run [OF this surjective_pairing assms] show "view_inv (pg (snd (update_command t P f w)))" by simp
qed

lemma follows_active: "active_status s \<Longrightarrow> \<not> active_status s' \<Longrightarrow> follows s s'"
  by (auto simp: follows_def)

lemma view_settle [keeps_rules]:
  "\<not> active_status s \<Longrightarrow> bs = billing_of s \<Longrightarrow> keeps view_inv (update_command t (\<lambda>_ c. active_status (tc_status c)) (set_state s bs))"
  by (rule view_update) (auto simp: set_state_def follows_active)

lemma update_view_run:
  assumes "update_view t f w = (r, w')"
  shows "pg w' = pg w \<or> (\<exists>now. pg w' = (pg w)\<lparr>task_query_view :=
    update_rows (\<lambda>v. tv_task_id v = t) (\<lambda>v. (f v)\<lparr>tv_updated_at := now\<rparr>) (task_query_view (pg w))\<rparr>)"
  using assms unfolding update_view_def
proof (cases rule: sql_cases)
  case (ran a)
  then have "pg w' = (pg w)\<lparr>task_query_view :=
    update_rows (\<lambda>v. tv_task_id v = t) (\<lambda>v. (f v)\<lparr>tv_updated_at := clock w\<rparr>) (task_query_view (pg w))\<rparr>" by simp
  then show ?thesis by blast
qed simp

text \<open>The reconciler moves the row and the view in one transaction.\<close>

lemma view_decided:
  assumes s: "\<not> active_status s" and f: "\<And>v. tv_task_id (f v) = tv_task_id v \<and> tv_user_id (f v) = tv_user_id v \<and>
      tv_tier (f v) = tv_tier v \<and> tv_mode (f v) = tv_mode v \<and> tv_model_class (f v) = tv_model_class v \<and>
      tv_created_at (f v) = tv_created_at v \<and> tv_status (f v) = s \<and> tv_billing_state (f v) = billing_of s"
    and rest: "\<And>c. keeps view_inv (rest c)"
  shows "keeps view_inv (bindE (update_command t (stale_reserved n) (set_state s (billing_of s))) (\<lambda>updated. case updated of
      None \<Rightarrow> returnM None | Some c \<Rightarrow> bindE (update_view t f) (\<lambda>_. rest c)))"
proof (rule keepsI, rule bind_establishes [where J = "\<lambda>u w. view_inv (pg w) \<and>
    (\<forall>c. u = Some c \<longrightarrow> lookup_row tc_task_id t (task_commands (pg w)) = Some c \<and> tc_status c = s)"], goal_cases)
  case (1 w r w')
  have "view_inv (pg w') \<and> (\<forall>c. r = Inr (Some c) \<longrightarrow> (\<exists>c0 now. c = (set_state s (billing_of s) c0)\<lparr>tc_updated_at := now\<rparr>) \<and>
    lookup_row tc_task_id t (task_commands (pg w')) = Some c)"
    by (rule view_update_run [OF 1]) (auto simp: set_state_def stale_reserved_def follows_active s)
  then show ?case by (auto simp: set_state_def split: sum.split)
next
  case (2 w u w')
  show ?case
  proof (cases u)
    case None
    with 2 show ?thesis by (simp add: returnM_def)
  next
    case (Some c)
    with 2 have c: "view_inv (pg w')" "lookup_row tc_task_id t (task_commands (pg w')) = Some c" "tc_status c = s" by auto
    have "view_inv (pg (snd (bindE (update_view t f) (\<lambda>_. rest c) w')))"
    proof (rule bind_establishes [where J = "\<lambda>_ w. view_inv (pg w)"], goal_cases)
      case (1 r w'')
      have "view_ok (task_commands (pg w')) (update_rows (\<lambda>v. tv_task_id v = t) (\<lambda>v. (f v)\<lparr>tv_updated_at := now\<rparr>) (task_query_view (pg w')))"
        for now using f c(3) by (intro view_rewrite [OF c(1,2)]) (auto simp: shows_task_def)
      then show ?case using c(1) update_view_run [OF 1] by (auto split: sum.split)
    next
      case (2 u w'')
      with keepsD [OF rest] show ?case by blast
    qed
    with Some show ?thesis by simp
  qed
qed

lemma view_upsert [keeps_rules]: "keeps view_inv (upsert_view t ow res err n)"
  unfolding upsert_view_def
proof (rule keeps_sql, goal_cases)
  case (1 now d a d')
  show ?case
  proof (cases "find_command d t")
    case None
    with 1 show ?thesis by simp
  next
    case (Some c)
    let ?v = "projected_view ow res err n c (find_view d t)"
    have look: "lookup_row tc_task_id t (task_commands d) = Some c" and id: "tc_task_id c = t"
      using Some find_command_member [OF Some] by (simp_all add: find_command_def)
    have row: "shows_task ?v c" using view_of_row [OF 1(1) look] by (simp add: find_view_def)
    show ?thesis
    proof (cases "find_view d t")
      case None
      with 1 Some look id row show ?thesis by (auto simp: view_ok_def keyed_append find_view_def Let_def)
    next
      case (Some old)
      have "view_ok (task_commands d) (update_rows (\<lambda>x. tv_task_id x = t) (\<lambda>_. ?v) (task_query_view d))"
        using id row by (intro view_rewrite [OF 1(1) look]) auto
      with 1 Some \<open>find_command d t = Some c\<close> show ?thesis by (auto simp: Let_def)
    qed
  qed
qed

lemma view_reset [keeps_rules]: "keeps view_inv (reset_projection_state cs ps)"
  unfolding reset_projection_state_def by (intro keeps_rules keeps_sql) (auto simp: view_ok_def)

lemma view_refill [keeps_rules]: "keeps view_inv rebuild_task_query_view_from_commands"
  unfolding rebuild_task_query_view_from_commands_def
proof (intro keeps_rules, rule keeps_sql, goal_cases)
  case (1 now d a d')
  let ?cs = "sort_key tc_created_at (sort_key (\<lambda>c. unat (tc_task_id c)) (task_commands d))"
  have keys: "keyed tc_task_id (task_commands d)" using 1(1) by (simp add: view_ok_def)
  then have "distinct (map tc_task_id ?cs)" by (simp add: keyed_def distinct_map)
  moreover have "tc_task_id ` set (task_commands d) \<inter> tv_task_id ` set (task_query_view d) = {}"
    using 1(2) by (fastforce simp: find_view_def lookup_row_None split: if_splits)
  ultimately have "keyed tv_task_id (task_query_view d @ map view_of_command ?cs)"
    using 1(1) by (simp add: keyed_def view_ok_def map_view_ids Int_commute)
  moreover have "\<exists>e. lookup_row tc_task_id (tc_task_id c) (task_commands d) = Some e \<and> shows_task (view_of_command c) e"
    if "c \<in> set (task_commands d)" for c
    using lookup_row_member [OF keys that] 1(1) that by (auto simp: view_of_command_def shows_task_def projected_view_def view_ok_def)
  ultimately show ?case using 1 by (auto simp: view_ok_def split: if_splits)
qed

interpretation s3_view: store_invariant view_inv b for b :: "'t TigerBeetleBilling"
proof
  fix t tr n
  show "keeps view_inv (expire_stale_reserved_task t tr n :: ('t, ReconciledTaskState option) app3)"
    unfolding expire_stale_reserved_task_def
    by (rule keeps_acquire, rule keeps_transaction_body, rule view_decided [where s = EXPIRED, simplified])
      (auto intro!: keeps_rules)
next
  fix s task resolution n
  assume "s = COMPLETED \<or> s = FAILED \<or> s = CANCELLED"
  then have s: "\<not> active_status s" by auto
  show "keeps view_inv (align_stale_reserved_task_terminal_state task s (billing_of s) resolution n :: ('t, ReconciledTaskState option) app3)"
    unfolding align_stale_reserved_task_terminal_state_def
    by (rule keeps_bindE, rule keeps_liftE, rule keeps_prod, rule keeps_acquire, rule keeps_transaction_body,
        rule view_decided [OF s]) (auto intro!: keeps_rules)
qed (auto simp: submit_task_command_def submit_body_def find_by_idempotency_def record_admin_credit_topup_def
      cancel_task_command_def update_task_running_def finalize_task_command_def follows_def
      apply_task_projection_def Let_def intro!: keeps_rules)

section \<open>In every run\<close>


text \<open>C36. The query view never runs ahead of the command rows, however the processes interleave and whatever fails: a row of the view belongs to a task
  that exists, with its owner, tier, mode, class and time of admission; its status is one that the task has or had, its billing
  state is the one of that status, and when it shows an ended task, it shows the status and the billing state that the task has for ever.\<close>

theorem view_follows_commands:
  assumes start: "view_inv (pg w)" and turns: "(s3_turn b h)\<^sup>*\<^sup>* w w'" and v: "find_view (pg w') t = Some v"
  shows "view_inv (pg w') \<and> (\<exists>c. find_command (pg w') t = Some c \<and> shows_task v c \<and>
    (\<not> active_status (tv_status v) \<longrightarrow> tc_status c = tv_status v \<and> tc_billing_state c = tv_billing_state v))"
proof -
  have inv: "view_inv (pg w')" by (rule s3_view.turns_keep [OF turns start])
  have "v \<in> set (task_query_view (pg w'))" "tv_task_id v = t" using v lookup_row_Some unfolding find_view_def by fast+
  with inv obtain c where c: "find_command (pg w') t = Some c" "shows_task v c" by (auto simp: view_ok_def find_command_def)
  have "tc_status c = tv_status v \<and> tc_billing_state c = tv_billing_state v" if "\<not> active_status (tv_status v)"
  proof -
    have "tc_status c = tv_status v" using c(2) that follows_ended [of "tv_status v" "tc_status c"] by (simp add: shows_task_def)
    moreover have "tc_billing_state c = billing_of (tc_status c)" using inv find_command_member [OF c(1)] by (auto simp: view_ok_def)
    ultimately show ?thesis using c(2) by (simp add: shows_task_def)
  qed
  with inv c show ?thesis by blast
qed

section \<open>Witnesses\<close>

text \<open>The demo task with its row in the view, before a cancellation.\<close>

definition demo_viewed :: "(s3db, demo_ledger s3kv) world" where
  "demo_viewed = (demo_world [demo_task] [demo_hold] [])\<lparr>pg := (demo_db [demo_task])\<lparr>task_query_view := [view_of_command demo_task]\<rparr>\<rparr>"

lemma demo_viewed_simps [simp]: "faults demo_viewed = []" "entropy demo_viewed = 21 # [22, 23, 24, 25, 26, 27, 28, 29]"
  "task_commands (pg demo_viewed) = [demo_task]" "outbox_events (pg demo_viewed) = []" "find_command (pg demo_viewed) 7 = Some demo_task"
  "task_query_view (pg demo_viewed) = [view_of_command demo_task]"
  by (simp_all add: demo_viewed_def find_command_def)

lemma view_unchanged: "keeps (\<lambda>d. task_query_view d = X) (cancel_task rt t user)"
proof -
  have "keeps (\<lambda>d. task_query_view d = X) (update_command t P f)" for t P f
    unfolding update_command_def by (rule keeps_sql) (auto simp: Let_def split: option.splits if_splits)
  moreover have "keeps (\<lambda>d. task_query_view d = X) (insert_outbox a e topic p)" for a e topic p
    by (rule keeps_unrelated(1) [where Q = "\<lambda>_ v. v = X"])
  ultimately have "keeps (\<lambda>d. task_query_view d = X) (cancel_task_command t)" for t
    unfolding cancel_task_command_def by (intro keeps_rules)
  then show ?thesis unfolding cancel_task_def require_scopes_def by (auto intro!: keeps_rules split: list.split)
qed

lemma demo_cancelled:
  obtains w c where "s3_turn demo_billing fst demo_viewed w" "find_command (pg w) 7 = Some c" "tc_status c = CANCELLED"
    "find_view (pg w) 7 = Some (view_of_command demo_task)"
proof -
  from cancel_run [OF demo_authorised _ _ _ demo_viewed_simps(5) demo_active, of 21 "[22, 23, 24, 25, 26, 27, 28, 29]"] obtain v c where
    run: "cancel_task demo_rt 7 demo_owner demo_viewed = (Inr (JSONResponse 200 (cancel_response_json 7)), v)"
    and c: "find_command (pg v) 7 = Some c" "tc_status c = CANCELLED" by auto
  have "task_query_view (pg v) = [view_of_command demo_task]"
    using keepsD [OF view_unchanged, of demo_viewed "[view_of_command demo_task]" demo_rt 7 demo_owner] run by simp
  then have "find_view (pg v) 7 = Some (view_of_command demo_task)" by (simp add: find_view_def)
  with c s3_turn.cancel [OF demo_authorised(2) run] that show thesis by blast
qed


theorem view_follows_commands_witness:
  "\<exists>w c. s3_turn demo_billing fst demo_viewed w \<and> find_command (pg w) 7 = Some c \<and> tc_status c = CANCELLED \<and>
    shows_task (view_of_command demo_task) c"
proof -
  obtain w c where w: "s3_turn demo_billing fst demo_viewed w" "find_command (pg w) 7 = Some c" "tc_status c = CANCELLED"
    "find_view (pg w) 7 = Some (view_of_command demo_task)" using demo_cancelled by blast
  have "view_inv (pg demo_viewed)"
    by (simp add: view_ok_def keyed_def shows_task_def view_of_command_def projected_view_def)
  from view_follows_commands [OF this r_into_rtranclp [of "s3_turn demo_billing fst", OF w(1)] w(4)] w show ?thesis by auto
qed

end
