(* ===== verification/S3_Reads.thy ===== *)
theory S3_Reads
  imports S3_Projector S3_Api
begin

text \<open>
  Solution 3, \<open>api/task_read_routes.py\<close>: a poll answers from the hash in Redis, else from the query view, else from the
  command row.  \<open>dumps\<close> and \<open>loads\<close> are the text form of JSON and its parser.
\<close>

section \<open>Polling\<close>

record PollTaskResponse =
  pr_task_id :: uuid
  pr_status :: string
  pr_billing_state :: string
  pr_result :: "dict option"
  pr_error :: "string option"
  pr_expires_at :: "int option"

definition poll_response_json :: "(int \<Rightarrow> string) \<Rightarrow> PollTaskResponse \<Rightarrow> json" where
  "poll_response_json show_time r = JObj [(''task_id'', JStr (uuid_str (pr_task_id r))), (''status'', JStr (pr_status r)),
     (''billing_state'', JStr (pr_billing_state r)), (''result'', opt_obj (pr_result r)), (''error'', opt_str (pr_error r)),
     (''expires_at'', case pr_expires_at r of None \<Rightarrow> JNull | Some t \<Rightarrow> JStr (show_time t))]"

definition authorized :: "AuthUser \<Rightarrow> string \<Rightarrow> bool" where
  "authorized current_user user_id \<longleftrightarrow> au_role current_user = ADMIN \<or> user_id = uuid_str (au_user_id current_user)"

text \<open>A field of a hash as the text that the client library returns.\<close>

fun field_text :: "(json \<Rightarrow> string) \<Rightarrow> rval \<Rightarrow> string" where
  "field_text dumps (Plain s) = s"
| "field_text dumps (Dumped v) = dumps v"

definition state_field :: "(json \<Rightarrow> string) \<Rightarrow> (string \<times> rval) list \<Rightarrow> string \<Rightarrow> string option" where
  "state_field dumps task_state k = map_option (field_text dumps) (map_of task_state k)"

definition cached_result :: "(string \<Rightarrow> json option) \<Rightarrow> (string \<times> rval) list \<Rightarrow> dict option" where
  "cached_result loads task_state = (case map_of task_state ''result'' of
      None \<Rightarrow> None
    | Some (Dumped v) \<Rightarrow> (case v of JObj d \<Rightarrow> Some d | _ \<Rightarrow> None)
    | Some (Plain s) \<Rightarrow> (case loads s of Some (JObj d) \<Rightarrow> Some d | _ \<Rightarrow> None))"

definition command_poll_response :: "TaskCommand \<Rightarrow> int \<Rightarrow> PollTaskResponse" where
  "command_poll_response task ttl_seconds = \<lparr>pr_task_id = tc_task_id task, pr_status = TaskStatus_value (tc_status task),
     pr_billing_state = BillingState_value (tc_billing_state task), pr_result = None, pr_error = None,
     pr_expires_at = Some (tc_updated_at task + seconds ttl_seconds)\<rparr>"

definition query_poll_response :: "TaskQueryView \<Rightarrow> int \<Rightarrow> PollTaskResponse" where
  "query_poll_response task ttl_seconds = \<lparr>pr_task_id = tv_task_id task, pr_status = TaskStatus_value (tv_status task),
     pr_billing_state = BillingState_value (tv_billing_state task), pr_result = tv_result task, pr_error = tv_error task,
     pr_expires_at = Some (tv_updated_at task + seconds ttl_seconds)\<rparr>"

definition cached_poll_response :: "(json \<Rightarrow> string) \<Rightarrow> (string \<Rightarrow> json option) \<Rightarrow> uuid \<Rightarrow> (string \<times> rval) list \<Rightarrow> PollTaskResponse" where
  "cached_poll_response dumps loads task_id task_state =
     \<lparr>pr_task_id = task_id,
      pr_status = (case state_field dumps task_state ''status'' of None \<Rightarrow> TaskStatus_value PENDING | Some s \<Rightarrow> s),
      pr_billing_state = (case state_field dumps task_state ''billing_state'' of None \<Rightarrow> ''RESERVED'' | Some s \<Rightarrow> s),
      pr_result = cached_result loads task_state, pr_error = state_field dumps task_state ''error'', pr_expires_at = None\<rparr>"

abbreviation poll_not_found :: reply where
  "poll_not_found \<equiv> api_error_response 404 ''NOT_FOUND'' ''Task not found''"

text \<open>The answer from the stores when Redis has no hash for the task.\<close>

definition poll_from_stores :: "'t RuntimeState \<Rightarrow> uuid \<Rightarrow> AuthUser \<Rightarrow> ('t, reply) app3" where
  "poll_from_stores rt task_id current_user =
     (let ttl = st_task_result_ttl_seconds (rt_settings rt);
          shown = (\<lambda>r. returnM (JSONResponse 200 (poll_response_json (rt_show_time rt) r))) in
      if \<not> rt_db_pool rt then degraded ''Command store unavailable'' else
      bindE (get_task_query_view task_id) (\<lambda>query_view. case query_view of
        Some v \<Rightarrow> if \<not> authorized current_user (uuid_str (tv_user_id v)) then returnM poll_not_found
          else shown (query_poll_response v ttl)
      | None \<Rightarrow> bindE (get_task_command task_id) (\<lambda>command. case command of
          None \<Rightarrow> returnM poll_not_found
        | Some c \<Rightarrow> if \<not> authorized current_user (uuid_str (tc_user_id c)) then returnM poll_not_found
            else shown (command_poll_response c ttl))))"

definition poll_task :: "(json \<Rightarrow> string) \<Rightarrow> (string \<Rightarrow> json option) \<Rightarrow> 't RuntimeState \<Rightarrow> uuid \<Rightarrow> AuthUser \<Rightarrow> ('t, reply) app3" where
  "poll_task dumps loads rt task_id current_user =
     bindE (require_scopes current_user [''task:poll'']) (\<lambda>_.
     bindE (if rt_redis_client rt then redis_call (hgetall (task_state_key task_id)) else returnM []) (\<lambda>task_state.
     if task_state = [] then poll_from_stores rt task_id current_user
     else if (case state_field dumps task_state ''user_id'' of None \<Rightarrow> True | Some u \<Rightarrow> \<not> authorized current_user u)
       then returnM poll_not_found
     else returnM (JSONResponse 200 (poll_response_json (rt_show_time rt)
       (cached_poll_response dumps loads task_id task_state)))))"

end
