(* ===== verification/S3_Poll.thy ===== *)
theory S3_Poll
  imports S3_View S3_Reads S3_Progress
begin

text \<open>
  What a client of Solution 3 sees of its task: the answers of a poll against the command rows, and the way of a result
  from the event of the worker through the projector to the client.
\<close>

section \<open>The answers of a poll\<close>

definition owner_or_admin :: "AuthUser \<Rightarrow> uuid \<Rightarrow> bool" where
  "owner_or_admin user u \<longleftrightarrow> au_role user = ADMIN \<or> u = au_user_id user"

lemma authorized_owner: "authorized user (uuid_str u) \<longleftrightarrow> owner_or_admin user u"
  by (auto simp: authorized_def owner_or_admin_def uuid_str_inject)

text \<open>An answer taken from the hash of the task in Redis, and one taken from a row of the database.\<close>

definition answer_of_cache :: "(json \<Rightarrow> string) \<Rightarrow> (string \<Rightarrow> json option) \<Rightarrow> 't RuntimeState \<Rightarrow> uuid \<Rightarrow> AuthUser \<Rightarrow> (s3db, 't s3kv) world \<Rightarrow> json \<Rightarrow> bool" where
  "answer_of_cache dumps loads rt t user w body \<longleftrightarrow> (\<exists>hash u. hash = fst (hgetall (task_state_key t) (clock w) (redis (kv w))) \<and>
     state_field dumps hash ''user_id'' = Some u \<and> authorized user u \<and>
     body = poll_response_json (rt_show_time rt) (cached_poll_response dumps loads t hash))"

definition answer_of_row :: "'t RuntimeState \<Rightarrow> AuthUser \<Rightarrow> TaskCommand \<Rightarrow> json \<Rightarrow> bool" where
  "answer_of_row rt user c body \<longleftrightarrow> owner_or_admin user (tc_user_id c) \<and> (\<exists>p s. body = poll_response_json (rt_show_time rt) p \<and>
     pr_task_id p = tc_task_id c \<and> pr_status p = TaskStatus_value s \<and> pr_billing_state p = BillingState_value (billing_of s) \<and>
     follows s (tc_status c))"

lemma row_of_command: "view_inv d \<Longrightarrow> find_command d t = Some c \<Longrightarrow> authorized user (uuid_str (tc_user_id c)) \<Longrightarrow>
    answer_of_row rt user c (poll_response_json (rt_show_time rt) (command_poll_response c ttl))"
  using find_command_member [of d t c]
  by (auto simp: answer_of_row_def authorized_owner command_poll_response_def view_ok_def intro!: exI [of _ "tc_status c"])

lemma row_of_view:
  assumes "view_inv d" "find_view d t = Some v" "authorized user (uuid_str (tv_user_id v))"
  obtains c where "find_command d t = Some c" "answer_of_row rt user c (poll_response_json (rt_show_time rt) (query_poll_response v ttl))"
proof -
  have "v \<in> set (task_query_view d)" "tv_task_id v = t" using assms(2) lookup_row_Some unfolding find_view_def by fast+
  with assms(1) obtain c where c: "find_command d t = Some c" "shows_task v c" by (auto simp: view_ok_def find_command_def)
  have "tc_task_id c = t" using find_command_member [OF c(1)] by simp
  with c assms(3) \<open>tv_task_id v = t\<close> have "answer_of_row rt user c (poll_response_json (rt_show_time rt) (query_poll_response v ttl))"
    by (auto simp: answer_of_row_def authorized_owner query_poll_response_def shows_task_def intro!: exI [of _ "tv_status v"])
  with c that show thesis by blast
qed

definition poll_outcome :: "(json \<Rightarrow> string) \<Rightarrow> (string \<Rightarrow> json option) \<Rightarrow> 't RuntimeState \<Rightarrow> uuid \<Rightarrow> AuthUser \<Rightarrow> (s3db, 't s3kv) world \<Rightarrow> reply \<Rightarrow> bool" where
  "poll_outcome dumps loads rt t user w a \<longleftrightarrow> (case a of JSONResponse code body \<Rightarrow> code = 404 \<or> code = 503 \<or>
     code = 200 \<and> (answer_of_cache dumps loads rt t user w body \<or> (\<exists>c. find_command (pg w) t = Some c \<and> answer_of_row rt user c body)))"

lemma poll_stores_outcome:
  assumes inv: "view_inv (pg v)" and run: "poll_from_stores rt t user v = (Inr a, w')" and same: "pg v = pg w"
  shows "poll_outcome dumps loads rt t user w a"
proof (cases "rt_db_pool rt")
  case False
  with run show ?thesis by (auto simp: poll_from_stores_def poll_outcome_def returnM_def api_error_response_def)
next
  case True
  obtain q v1 where q: "get_task_query_view t v = (q, v1)" by fastforce
  from q have pg: "pg v1 = pg v" unfolding get_task_query_view_def by (metis sql_read_frame(1) snd_conv)
  from run True obtain x where x: "q = Inr x" by (cases q) (auto simp: poll_from_stores_def Let_def bindE_def q)
  then have look: "x = find_view (pg v) t" using q unfolding get_task_query_view_def by (auto elim: sql_read_okE)
  show ?thesis
  proof (cases x)
    case (Some row)
    from run True q x Some have ans: "(if \<not> authorized user (uuid_str (tv_user_id row)) then returnM poll_not_found
        else returnM (JSONResponse 200 (poll_response_json (rt_show_time rt)
          (query_poll_response row (st_task_result_ttl_seconds (rt_settings rt)))))) v1 = (Inr a, w')"
      by (simp add: poll_from_stores_def Let_def bindE_def)
    show ?thesis
    proof (cases "authorized user (uuid_str (tv_user_id row))")
      case False
      with ans show ?thesis by (auto simp: returnM_def poll_outcome_def api_error_response_def)
    next
      case True
      have "find_view (pg v) t = Some row" using look Some by simp
      from row_of_view [OF inv this True, of rt "st_task_result_ttl_seconds (rt_settings rt)"] obtain c where
        "find_command (pg v) t = Some c"
        "answer_of_row rt user c (poll_response_json (rt_show_time rt) (query_poll_response row (st_task_result_ttl_seconds (rt_settings rt))))" .
      with ans True same show ?thesis by (auto simp: returnM_def poll_outcome_def)
    qed
  next
    case None
    obtain y v2 where y: "get_task_command t v1 = (y, v2)" by fastforce
    from run True x q None y obtain z where z: "y = Inr z" by (cases y) (auto simp: poll_from_stores_def Let_def bindE_def)
    then have "z = find_command (pg v) t" using y pg unfolding get_task_command_def by (auto elim: sql_read_okE)
    with run True x q None y z row_of_command [OF inv, of t _ user rt] same show ?thesis
      by (auto simp: poll_from_stores_def Let_def bindE_def returnM_def poll_outcome_def api_error_response_def
          split: option.splits if_splits)
  qed
qed


section \<open>A projected event is shown\<close>

lemma apply_run:
  assumes w: "faults w = []" and t: "dict_get event ''task_id'' = Some (JStr (uuid_str t))" and c: "find_command (pg w) t = Some c"
    and new: "(ev, ''projector'') \<notin> set (inbox_events (pg w))" and len: "length topic \<le> 128"
  obtains v w' where "apply_task_projection rp ''projector'' ''projector'' topic i n ev event w = (Inr (Some v), w')"
    "v = projected_view (topic \<in> set TERMINAL_PROJECTION_TOPICS) (projected_result topic event) (projected_error rp event) n c (find_view (pg w) t)"
    "find_view (pg w') t = Some v" "task_commands (pg w') = task_commands (pg w)" "faults w' = []" "kv w' = kv w" "clock w' = clock w"
    "inbox_events (pg w') = inbox_events (pg w) @ [(ev, ''projector'')]" "\<And>x. x \<noteq> t \<Longrightarrow> find_view (pg w') x = find_view (pg w) x"
proof -
  let ?v = "projected_view (topic \<in> set TERMINAL_PROJECTION_TOPICS) (projected_result topic event) (projected_error rp event) n c (find_view (pg w) t)"
  let ?vs = "case find_view (pg w) t of None \<Rightarrow> task_query_view (pg w) @ [?v]
     | Some _ \<Rightarrow> update_rows (\<lambda>x. tv_task_id x = t) (\<lambda>_. ?v) (task_query_view (pg w))"
  let ?d = "(pg w)\<lparr>task_query_view := ?vs, inbox_events := inbox_events (pg w) @ [(ev, ''projector'')],
     checkpoints := AList.update ''projector'' (topic, i, n) (checkpoints (pg w))\<rparr>"
  let ?body = "bindE (upsert_view t (topic \<in> set TERMINAL_PROJECTION_TOPICS) (projected_result topic event)
         (projected_error rp event) n) (\<lambda>projected. case projected of
         None \<Rightarrow> returnM None
       | Some v \<Rightarrow>
           bindE (insert_inbox_event ev ''projector'') (\<lambda>_.
           bindE (upsert_checkpoint ''projector'' topic i n) (\<lambda>_. returnM (Some v))))"
  have id: "tc_task_id c = t" using find_command_member [OF c] by simp
  have run: "?body w = (Inr (Some ?v), w\<lparr>pg := ?d\<rparr>)"
    using w c new len by (simp add: upsert_view_def insert_inbox_event_def upsert_checkpoint_def nofault_simps Let_def returnM_def)
  have "lookup_row tv_task_id t ?vs = Some ?v"
  proof (cases "find_view (pg w) t")
    case None
    then show ?thesis using id by (simp add: find_view_def lookup_row_append)
  next
    case (Some old)
    have "lookup_row tv_task_id t (update_rows (\<lambda>x. tv_task_id x = t) (\<lambda>_. y) vs) = Some y"
      if "lookup_row tv_task_id t vs = Some old" "tv_task_id y = t" for y vs
      using that by (induction vs) (auto simp: update_rows_def split: if_splits)
    then show ?thesis using Some id by (simp add: find_view_def)
  qed
  moreover have "lookup_row tv_task_id x ?vs = lookup_row tv_task_id x (task_query_view (pg w))" if "x \<noteq> t" for x
  proof -
    have still: "lookup_row tv_task_id x (update_rows (\<lambda>r. tv_task_id r = t) (\<lambda>_. y) vs) = lookup_row tv_task_id x vs"
      if "tv_task_id y = t" for y vs
      using that \<open>x \<noteq> t\<close> by (induction vs) (auto simp: update_rows_def)
    show ?thesis
    proof (cases "find_view (pg w) t")
      case None
      then show ?thesis using id that by (simp add: lookup_row_append split: option.split)
    next
      case (Some old)
      then show ?thesis using still [of ?v] id by simp
    qed
  qed
  moreover have "apply_task_projection rp ''projector'' ''projector'' topic i n ev event w = (Inr (Some ?v), w\<lparr>pg := ?d\<rparr>)"
    unfolding apply_task_projection_def using transaction_nofault [of ?body w, OF run] w t
    by (simp add: nofault_simps uuid_roundtrip)
  ultimately show thesis using w by (intro that [of ?v "w\<lparr>pg := ?d\<rparr>"]) (simp_all add: find_view_def)
qed

lemma lapse_fresh: "map_of (expiry (lapse now key r)) key = Some t \<Longrightarrow> now < t"
  by (auto simp: lapse_def remove_key_def AList.delete_conv' split: option.splits if_splits)

lemma lapse_same: "expiry r' = expiry (lapse now key r) \<Longrightarrow> lapse now key r' = r'"
  using lapse_fresh [of now key r] by (force simp: lapse_def [of now key r'] split: option.splits)

lemma lapse_twice [simp]: "lapse now key (lapse now key r) = lapse now key r"
  by (rule lapse_same) simp

lemma hset_hash: "fst (hgetall key now (snd (hset key m now r))) = fold (\<lambda>(f, v). AList.update f v) m (fst (hgetall key now r))"
  using lapse_same [of "snd (hset key m now r)" now key r] by (simp add: hset_def hgetall_def Let_def)

lemma expire_hash:
  assumes "0 < ttl" "fst (hgetall key now r) \<noteq> []"
  shows "fst (hgetall key now (snd (expire_key key ttl now r))) = fst (hgetall key now r)"
proof -
  let ?r = "lapse now key r"
  have "key_present key ?r" using assms(2) by (simp add: hgetall_def Let_def key_present_def)
  then have e: "snd (expire_key key ttl now r) = ?r\<lparr>expiry := AList.update key (now + seconds ttl) (expiry ?r)\<rparr>"
    using assms(1) by (simp add: expire_key_def Let_def)
  have "\<not> now + seconds ttl \<le> now" using assms(1) by (simp add: seconds_def)
  then show ?thesis by (simp add: e hgetall_def Let_def lapse_def [of now key "?r\<lparr>expiry := _\<rparr>"] AList.update_conv')
qed

text \<open>The hash of a task after its view was cached.\<close>

definition caches_view :: "TaskQueryView \<Rightarrow> dict \<Rightarrow> (string \<times> rval) list \<Rightarrow> bool" where
  "caches_view v res hash \<longleftrightarrow> hash \<noteq> [] \<and> map_of hash ''user_id'' = Some (Plain (uuid_str (tv_user_id v))) \<and>
     map_of hash ''status'' = Some (Plain (TaskStatus_value (tv_status v))) \<and>
     map_of hash ''billing_state'' = Some (Plain (BillingState_value (tv_billing_state v))) \<and>
     map_of hash ''result'' = Some (Dumped (JObj res)) \<and> map_of hash ''error'' = None"

abbreviation hash_of :: "uuid \<Rightarrow> (s3db, 't s3kv) world \<Rightarrow> (string \<times> rval) list" where
  "hash_of t w \<equiv> fst (hgetall (task_state_key t) (clock w) (redis (kv w)))"

lemma cache_run:
  assumes w: "faults w = []" and ttl: "0 < ttl" and clean: "map_of (hash_of (tv_task_id v) w) ''error'' = None"
    and v: "tv_result v = Some res" "tv_error v = None"
  obtains w' where "cache_projected_view v ttl w = (Inr (), w')" "pg w' = pg w" "faults w' = []" "clock w' = clock w"
    "caches_view v res (hash_of (tv_task_id v) w')"
proof -
  let ?key = "task_state_key (tv_task_id v)" and ?m = "[(''user_id'', Plain (uuid_str (tv_user_id v))),
    (''status'', Plain (TaskStatus_value (tv_status v))), (''billing_state'', Plain (BillingState_value (tv_billing_state v))),
    (''result'', Dumped (JObj res))]"
  let ?r1 = "snd (hset ?key ?m (clock w) (redis (kv w)))"
  let ?r2 = "snd (expire_key ?key ttl (clock w) ?r1)"
  have hash: "fst (hgetall ?key (clock w) ?r1) = fold (\<lambda>(f, v). AList.update f v) ?m (hash_of (tv_task_id v) w)" by (rule hset_hash)
  have "caches_view v res (fst (hgetall ?key (clock w) ?r1))"
    unfolding hash caches_view_def using clean by (auto simp: AList.update_conv' dest: arg_cong [of _ "[]" map_of])
  moreover from this have "fst (hgetall ?key (clock w) ?r2) = fst (hgetall ?key (clock w) ?r1)"
    by (intro expire_hash ttl) (simp add: caches_view_def)
  moreover have "cache_projected_view v ttl w = (Inr (), w\<lparr>kv := (kv w)\<lparr>redis := ?r2\<rparr>\<rparr>)"
    using w v by (simp add: cache_projected_view_def nofault_simps split: prod.split)
  ultimately show thesis using w by (intro that [of "w\<lparr>kv := (kv w)\<lparr>redis := ?r2\<rparr>\<rparr>"]) simp_all
qed

lemma cached_answer:
  assumes "rt_redis_client rt" "List.member (au_scopes user) ''task:poll''" "owner_or_admin user (tv_user_id v)" "faults w = []"
    and hash: "caches_view v res (hash_of t w)"
  shows "\<exists>w'. poll_task dumps loads rt t user w = (Inr (JSONResponse 200 (poll_response_json (rt_show_time rt)
    \<lparr>pr_task_id = t, pr_status = TaskStatus_value (tv_status v), pr_billing_state = BillingState_value (tv_billing_state v),
     pr_result = Some res, pr_error = None, pr_expires_at = None\<rparr>)), w')"
proof -
  obtain x r where x: "hgetall (task_state_key t) (clock w) (redis (kv w)) = (x, r)" by fastforce
  with hash have "caches_view v res x" by simp
  then show ?thesis
    using assms(1-4) x
    by (auto simp: poll_task_def require_scopes_def nofault_simps returnM_def caches_view_def state_field_def cached_poll_response_def
        cached_result_def authorized_owner)
qed

lemma stored_answer:
  assumes "rt_db_pool rt" "List.member (au_scopes user) ''task:poll''" "owner_or_admin user (tv_user_id v)" "faults w = []"
    and "hash_of t w = []" "find_view (pg w) t = Some v"
  shows "\<exists>w'. poll_task dumps loads rt t user w =
    (Inr (JSONResponse 200 (poll_response_json (rt_show_time rt) (query_poll_response v (st_task_result_ttl_seconds (rt_settings rt))))), w')"
proof -
  obtain x r where x: "hgetall (task_state_key t) (clock w) (redis (kv w)) = (x, r)" by fastforce
  with assms(5) have "x = []" by simp
  then show ?thesis
    using assms(1-4,6) x
    by (auto simp: poll_task_def require_scopes_def nofault_simps returnM_def poll_from_stores_def get_task_query_view_def
        authorized_owner Let_def)
qed

text \<open>The answer that tells the sum.\<close>

definition sum_answer :: "TaskCommand \<Rightarrow> int option \<Rightarrow> PollTaskResponse" where
  "sum_answer task expires = \<lparr>pr_task_id = tc_task_id task, pr_status = ''COMPLETED'', pr_billing_state = ''CAPTURED'',
     pr_result = Some [(''sum'', JInt (tc_x task + tc_y task))], pr_error = None, pr_expires_at = expires\<rparr>"

lemma completion_projected:
  assumes e: "completed_event task e" and m: "kr_topic m = ob_topic e" "kr_headers m = fst (outbox_message e)" "kr_value m = snd (outbox_message e)"
    and w: "faults w = []" "(ob_event_id e, ''projector'') \<notin> set (inbox_events (pg w))"
    and c: "find_command (pg w) (tc_task_id task) = Some c" "tc_status c = COMPLETED" "tc_billing_state c = CAPTURED"
    and clean: "map_of (hash_of (tc_task_id task) w) ''error'' = None" and ttl: "0 < ttl"
  obtains v w' where "project_message rp ''projector'' ''projector'' ttl m w = (Inr True, w')" "faults w' = []"
    "find_view (pg w') (tc_task_id task) = Some v" "caches_view v [(''sum'', JInt (tc_x task + tc_y task))] (hash_of (tc_task_id task) w')"
    "tv_task_id v = tc_task_id task" "tv_user_id v = tc_user_id c" "tv_status v = COMPLETED" "tv_billing_state v = CAPTURED"
    "tv_result v = Some [(''sum'', JInt (tc_x task + tc_y task))]" "tv_error v = None"
proof -
  let ?t = "tc_task_id task" and ?sum = "[(''sum'', JInt (tc_x task + tc_y task))]"
  have topic: "ob_topic e = ''tasks.completed''" and ev: "dict_get (ob_payload e) ''task_id'' = Some (JStr (uuid_str ?t))"
    "dict_get (ob_payload e) ''error'' = Some JNull" "dict_get (ob_payload e) ''result'' = Some (JObj ?sum)"
    using e by (simp_all add: completed_event_def)
  have len: "length (ob_topic e) \<le> 128" by (simp add: topic)
  obtain v w1 where v: "apply_task_projection rp ''projector'' ''projector'' (ob_topic e) 0 (int (kr_offset m)) (ob_event_id e) (ob_payload e) w = (Inr (Some v), w1)"
    "v = projected_view (ob_topic e \<in> set TERMINAL_PROJECTION_TOPICS) (projected_result (ob_topic e) (ob_payload e)) (projected_error rp (ob_payload e))
       (int (kr_offset m)) c (find_view (pg w) ?t)" "find_view (pg w1) ?t = Some v" "faults w1 = []" "kv w1 = kv w" "clock w1 = clock w"
    using apply_run [OF w(1) ev(1) c(1) w(2) len] by metis
  have id: "tc_task_id c = ?t" using find_command_member [OF c(1)] by simp
  have fields: "tv_task_id v = ?t" "tv_user_id v = tc_user_id c" "tv_status v = COMPLETED" "tv_billing_state v = CAPTURED"
    "tv_result v = Some ?sum" "tv_error v = None"
    using id c ev by (simp_all add: v(2) projected_view_def topic TERMINAL_PROJECTION_TOPICS_def projected_result_def projected_error_def)
  have "map_of (hash_of (tv_task_id v) w1) ''error'' = None" using clean fields(1) v(5,6) by simp
  from cache_run [OF v(4) ttl this fields(5,6)] obtain w2 where w2: "cache_projected_view v ttl w1 = (Inr (), w2)" "pg w2 = pg w1"
    "faults w2 = []" "caches_view v ?sum (hash_of ?t w2)" using fields(1) by metis
  have header: "decode_header_value (kr_headers m) ''event_id'' = Some (uuid_str (ob_event_id e))"
    by (simp add: m outbox_message_def decode_header_value_def)
  have seen: "is_inbox_event_processed (ob_event_id e) ''projector'' w = (Inr False, w)"
    using w by (simp add: is_inbox_event_processed_def nofault_simps)
  have run: "project_message rp ''projector'' ''projector'' ttl m w = (Inr True, w2)"
    using header by (simp add: project_message_def m(1,3) outbox_message_def nofault_simps uuid_roundtrip returnM_def
        bindE_ran [of "is_inbox_event_processed (ob_event_id e) ''projector''", OF seen]
        bindE_ran [of "apply_task_projection rp ''projector'' ''projector'' (ob_topic e) 0 (int (kr_offset m)) (ob_event_id e) (ob_payload e)", OF v(1)]
        bindE_ran [of "cache_projected_view v ttl", OF w2(1)])
  show thesis by (rule that [OF run w2(3) _ w2(4) fields]) (simp add: w2(2) v(3))
qed

text \<open>C38. The result reaches the client.  When nothing fails, the projector takes the event that a worker writes for a completed task; from then on a poll of the owner
  answers that the task is completed and captured, with the sum, whether Redis still has the hash or the view
  must answer.\<close>

theorem completed_result_is_shown:
  fixes rt :: "'t RuntimeState" and w :: "(s3db, 't s3kv) world"
  assumes e: "completed_event task e" and m: "kr_topic m = ob_topic e" "kr_headers m = fst (outbox_message e)" "kr_value m = snd (outbox_message e)"
    and w: "faults w = []" "(ob_event_id e, ''projector'') \<notin> set (inbox_events (pg w))"
    and c: "find_command (pg w) (tc_task_id task) = Some c" "tc_status c = COMPLETED" "tc_billing_state c = CAPTURED"
    and clean: "map_of (hash_of (tc_task_id task) w) ''error'' = None" and ttl: "0 < ttl"
    and rt: "rt_redis_client rt" "rt_db_pool rt" and user: "List.member (au_scopes user) ''task:poll''" "owner_or_admin user (tc_user_id c)"
  shows "\<exists>w' expires. project_message rp ''projector'' ''projector'' ttl m w = (Inr True, w') \<and>
    fst (poll_task dumps loads rt (tc_task_id task) user w') = Inr (JSONResponse 200 (poll_response_json (rt_show_time rt) (sum_answer task None))) \<and>
    (\<forall>u. pg u = pg w' \<and> faults u = [] \<and> hash_of (tc_task_id task) u = [] \<longrightarrow>
      fst (poll_task dumps loads rt (tc_task_id task) user u) = Inr (JSONResponse 200 (poll_response_json (rt_show_time rt) (sum_answer task expires))))"
proof -
  let ?t = "tc_task_id task"
  obtain v w2 where run: "project_message rp ''projector'' ''projector'' ttl m w = (Inr True, w2)" and w2: "faults w2 = []"
    "find_view (pg w2) ?t = Some v" "caches_view v [(''sum'', JInt (tc_x task + tc_y task))] (hash_of ?t w2)" and
    fields: "tv_task_id v = ?t" "tv_user_id v = tc_user_id c" "tv_status v = COMPLETED" "tv_billing_state v = CAPTURED"
    "tv_result v = Some [(''sum'', JInt (tc_x task + tc_y task))]" "tv_error v = None"
    by (rule completion_projected [OF e m w c clean ttl])
  have owner: "owner_or_admin user (tv_user_id v)" using user(2) fields(2) by simp
  have "fst (poll_task dumps loads rt ?t user w2) = Inr (JSONResponse 200 (poll_response_json (rt_show_time rt) (sum_answer task None)))"
    using cached_answer [OF rt(1) user(1) owner w2(1,3), of dumps loads] fields by (auto simp: sum_answer_def)
  moreover have "fst (poll_task dumps loads rt ?t user u) = Inr (JSONResponse 200 (poll_response_json (rt_show_time rt)
      (sum_answer task (Some (tv_updated_at v + seconds (st_task_result_ttl_seconds (rt_settings rt)))))))"
    if "pg u = pg w2" "faults u = []" "hash_of ?t u = []" for u
    using stored_answer [OF rt(2) user(1) owner that(2,3), of dumps loads] that(1) w2(2) fields
    by (auto simp: sum_answer_def query_poll_response_def)
  ultimately show ?thesis using run by blast
qed

section \<open>Witnesses\<close>

definition demo_reader :: AuthUser where
  "demo_reader = demo_owner\<lparr>au_scopes := [''task:poll'']\<rparr>"

lemma demo_reader_simps [simp]: "au_scopes demo_reader = [''task:poll'']" "au_user_id demo_reader = 5" "rt_redis_client demo_rt" "rt_db_pool demo_rt"
  by (simp_all add: demo_reader_def demo_owner_def demo_rt_def)

lemma demo_no_hash [simp]: "hash_of t (demo_world cs h fs) = []" "hash_of t demo_viewed = []"
  by (simp_all add: hgetall_def Let_def lapse_def entry_def demo_kv_def demo_viewed_def)


definition demo_done :: TaskCommand where
  "demo_done = set_state COMPLETED CAPTURED demo_task"

definition demo_completion :: OutboxEventRecord where
  "demo_completion = new_event 30 7 ''task.completed'' ''tasks.completed''
     [(''task_id'', JStr (uuid_str 7)), (''user_id'', JStr (uuid_str 5)), (''status'', JStr ''COMPLETED''), (''billing_state'', JStr ''CAPTURED''),
      (''cost'', JInt 10), (''result'', JObj [(''sum'', JInt 5)]), (''error'', JNull)] 0"

definition demo_completion_record :: KafkaRecord where
  "demo_completion_record = \<lparr>kr_topic = ''tasks.completed'', kr_offset = 0, kr_headers = fst (outbox_message demo_completion),
     kr_value = snd (outbox_message demo_completion)\<rparr>"

theorem completed_result_is_shown_witness:
  "\<exists>w. project_message (\<lambda>_. []) ''projector'' ''projector'' 3600 demo_completion_record (demo_world [demo_done] [demo_hold] []) = (Inr True, w) \<and>
    fst (poll_task (\<lambda>_. []) (\<lambda>_. None) demo_rt 7 demo_reader w) =
      Inr (JSONResponse 200 (poll_response_json str_of_int (sum_answer demo_task None)))"
proof -
  let ?w = "demo_world [demo_done] [demo_hold] []"
  have e: "completed_event demo_task demo_completion"
    by (simp add: completed_event_def demo_completion_def new_event_def demo_task_def)
  have m: "kr_topic demo_completion_record = ob_topic demo_completion" "kr_headers demo_completion_record = fst (outbox_message demo_completion)"
    "kr_value demo_completion_record = snd (outbox_message demo_completion)"
    by (simp_all add: demo_completion_record_def) (simp add: demo_completion_def new_event_def)
  have w: "faults ?w = []" "(ob_event_id demo_completion, ''projector'') \<notin> set (inbox_events (pg ?w))" by (simp_all add: demo_db_def)
  have c: "find_command (pg ?w) (tc_task_id demo_task) = Some demo_done" "tc_status demo_done = COMPLETED" "tc_billing_state demo_done = CAPTURED"
    by (simp_all add: find_command_def demo_done_def set_state_def)
  have clean: "map_of (hash_of (tc_task_id demo_task) ?w) ''error'' = None" by (simp only: demo_no_hash) simp
  have user: "List.member (au_scopes demo_reader) ''task:poll''" "owner_or_admin demo_reader (tc_user_id demo_done)"
    by (simp_all add: owner_or_admin_def demo_done_def set_state_def)
  have "rt_show_time demo_rt = str_of_int" by (simp add: demo_rt_def)
  with completed_result_is_shown [OF e m w c clean _ demo_reader_simps(3,4) user, of 3600 "\<lambda>_. []" "\<lambda>_. []" "\<lambda>_. None"]
  show ?thesis by (auto simp del: demo_world_simps)
qed

end
