(* ===== verification/S3_Replay.thy ===== *)
theory S3_Replay
  imports S3_Poll S3_Delivery
begin

text \<open>
  The loops of the projector and the rebuilder of Solution 3 over the logs: what a poll takes, what the loop of the projector passes over
  after an error, and that a replay ends and shows every task that a record tells of.
\<close>

section \<open>What a poll takes\<close>

abbreviation log_of :: "'t s3kv \<Rightarrow> string \<Rightarrow> KafkaRecord list" where
  "log_of k topic \<equiv> entry [] (topics k) topic"

abbreviation pos_of :: "string \<Rightarrow> 't s3kv \<Rightarrow> string \<Rightarrow> nat" where
  "pos_of grp k topic \<equiv> entry 0 (positions k) (grp, topic)"

abbreviation commit_of :: "string \<Rightarrow> 't s3kv \<Rightarrow> string \<Rightarrow> nat" where
  "commit_of grp k topic \<equiv> entry 0 (commits k) (grp, topic)"

definition pending_records :: "string \<Rightarrow> string list \<Rightarrow> 't s3kv \<Rightarrow> nat" where
  "pending_records grp ts k = sum_list (map (\<lambda>topic. length (log_of k topic) - pos_of grp k topic) ts)"

lemma fetch_steps:
  "fetch_from grp ts n k = (ms, k') \<Longrightarrow> topics k' = topics k \<and> commits k' = commits k \<and>
     (topic \<notin> set ts \<longrightarrow> pos_of grp k' topic = pos_of grp k topic)"
proof (induction ts arbitrary: n k ms k')
  case (Cons t ts)
  let ?ms = "take n (drop (pos_of grp k t) (log_of k t))"
  let ?k = "k\<lparr>positions := AList.update (grp, t) (pos_of grp k t + length ?ms) (positions k)\<rparr>"
  obtain ms' where "fetch_from grp ts (n - length ?ms) ?k = (ms', k')"
    using Cons.prems by (auto simp: Let_def split: prod.splits)
  from Cons.IH [OF this] show ?case by simp
qed simp

lemma fetch_frame:
  assumes "fetch_from grp ts n k = (ms, k')"
  shows "topics k' = topics k" "commits k' = commits k" "topic \<notin> set ts \<Longrightarrow> pos_of grp k' topic = pos_of grp k topic"
  using fetch_steps [OF assms] by simp_all

text \<open>The positions move over exactly the records that are returned.\<close>

lemma fetch_takes:
  assumes "fetch_from grp ts n k = (ms, k')" "distinct ts"
  shows "(\<forall>topic. pos_of grp k topic \<le> pos_of grp k' topic) \<and>
    set ms = (\<Union>topic\<in>set ts. set (take (pos_of grp k' topic - pos_of grp k topic) (drop (pos_of grp k topic) (log_of k topic)))) \<and>
    pending_records grp ts k' + length ms = pending_records grp ts k \<and>
    (ms = [] \<longrightarrow> 0 < n \<longrightarrow> pending_records grp ts k = 0)"
  using assms
proof (induction ts arbitrary: n k ms k')
  case (Cons topic ts)
  let ?p = "pos_of grp k topic"
  let ?ms = "take n (drop ?p (log_of k topic))"
  let ?k = "k\<lparr>positions := AList.update (grp, topic) (?p + length ?ms) (positions k)\<rparr>"
  obtain ms' where rest: "fetch_from grp ts (n - length ?ms) ?k = (ms', k')" and ms: "ms = ?ms @ ms'"
    using Cons.prems(1) by (auto simp: Let_def split: prod.splits)
  note IH = Cons.IH [OF rest] and frame = fetch_frame [OF rest]
  have d: "distinct ts" "topic \<notin> set ts" using Cons.prems(2) by auto
  have same: "pos_of grp ?k x = pos_of grp k x" if "x \<noteq> topic" for x using that by simp
  have here: "pos_of grp k' topic = ?p + length ?ms" using frame(3) d(2) by simp
  have eq: "pending_records grp ts ?k = pending_records grp ts k"
    using d(2) by (auto simp: pending_records_def intro!: arg_cong [of _ _ sum_list] map_cong)
  have upd: "pending_records grp (topic # ts) k' + length ms = pending_records grp (topic # ts) k"
    using IH [OF d(1)] eq here ms frame(1) by (simp add: pending_records_def) linarith
  have "pos_of grp ?k x \<le> pos_of grp k' x" for x using IH [OF d(1)] by blast
  then have mono: "pos_of grp k x \<le> pos_of grp k' x" for x
    using same [of x] here by (cases "x = topic") (simp_all only: le_add1, metis)
  have first: "set (take (pos_of grp k' topic - ?p) (drop ?p (log_of k topic))) = set ?ms"
    unfolding here diff_add_inverse by (metis append_eq_conv_conj append_take_drop_id)
  have "(\<Union>x\<in>set ts. set (take (pos_of grp k' x - pos_of grp ?k x) (drop (pos_of grp ?k x) (log_of ?k x)))) =
      (\<Union>x\<in>set ts. set (take (pos_of grp k' x - pos_of grp k x) (drop (pos_of grp k x) (log_of k x))))"
    using d(2) same by (intro SUP_cong refl) auto
  then have all: "set ms = (\<Union>x\<in>set (topic # ts). set (take (pos_of grp k' x - pos_of grp k x) (drop (pos_of grp k x) (log_of k x))))"
    using IH [OF d(1)] first ms by simp
  have "pending_records grp (topic # ts) k = 0" if "ms = []" "0 < n"
  proof -
    from that ms have m: "?ms = []" "ms' = []" by auto
    then have "length (log_of k topic) \<le> ?p" using that(2) by simp
    moreover have "pending_records grp ts k = 0" using IH [OF d(1)] m that(2) eq by simp
    ultimately show ?thesis by (simp add: pending_records_def)
  qed
  with upd mono all show ?case by blast
qed (simp add: pending_records_def)

lemma poll_takes:
  assumes "kafka_poll grp ts n w = (Inr ms, w')" "distinct ts"
  shows "\<forall>x\<in>set ms. \<exists>topic\<in>set ts. x \<in> set (drop (pos_of grp (kv w) topic) (log_of (kv w) topic))"
proof -
  obtain ms' k' where fetch: "fetch_from grp ts n (kv w) = (ms', k')" by fastforce
  then have "ms = ms'" using assms(1) unfolding kafka_poll_def broker_read_def by (auto elim!: remote_okE)
  with fetch_takes [OF fetch assms(2)] show ?thesis by (auto dest: in_set_takeD)
qed

section \<open>One record\<close>

text \<open>A record tells of the event \<open>i\<close> of a task, as the outbox relay writes it.\<close>

definition tells :: "KafkaRecord \<Rightarrow> uuid \<Rightarrow> uuid \<Rightarrow> bool" where
  "tells x i t \<longleftrightarrow> (\<exists>ev. kr_value x = Decoded (JObj ev) \<and> decode_header_value (kr_headers x) ''event_id'' = Some (uuid_str i) \<and>
     dict_get ev ''task_id'' = Some (JStr (uuid_str t)) \<and> length (kr_topic x) \<le> 128)"

lemma tells_one: "tells x i t \<Longrightarrow> tells x i' t' \<Longrightarrow> i' = i \<and> t' = t"
  by (auto simp: tells_def uuid_str_inject)

definition task_shown :: "s3db \<Rightarrow> uuid \<Rightarrow> bool" where
  "task_shown d t \<longleftrightarrow> (\<forall>c. find_command d t = Some c \<longrightarrow> (\<exists>v. find_view d t = Some v \<and> tv_status v = tc_status c \<and>
     tv_billing_state v = tc_billing_state c))"

lemma message_start:
  assumes w: "faults w = []" and ev: "kr_value x = Decoded (JObj ev)" "decode_header_value (kr_headers x) ''event_id'' = Some (uuid_str i)"
  shows "project_message rp c p ttl x w = (if (i, c) \<in> set (inbox_events (pg w)) then (Inr False, w) else
      bindE (apply_task_projection rp c p (kr_topic x) 0 (int (kr_offset x)) i ev)
        (\<lambda>p. case p of None \<Rightarrow> returnM False | Some v \<Rightarrow> bindE (cache_projected_view v ttl) (\<lambda>_. returnM True)) w)"
proof -
  have seen: "is_inbox_event_processed i c w = (Inr ((i, c) \<in> set (inbox_events (pg w))), w)"
    using w by (simp add: is_inbox_event_processed_def nofault_simps)
  show ?thesis
    using ev by (simp add: project_message_def nofault_simps uuid_roundtrip bindE_ran [of "is_inbox_event_processed i c", OF seen] returnM_def)
qed

lemma gone_run:
  assumes w: "faults w = []" and c: "find_command (pg w) t = None"
    and ev: "kr_value x = Decoded (JObj ev)" "decode_header_value (kr_headers x) ''event_id'' = Some (uuid_str i)"
    "dict_get ev ''task_id'' = Some (JStr (uuid_str t))"
  shows "project_message rp ''projector'' ''projector'' ttl x w = (Inr False, w)"
proof -
  let ?body = "bindE (upsert_view t (kr_topic x \<in> set TERMINAL_PROJECTION_TOPICS) (projected_result (kr_topic x) ev)
     (projected_error rp ev) (int (kr_offset x))) (\<lambda>projected. case projected of
     None \<Rightarrow> returnM None
   | Some v \<Rightarrow>
       bindE (insert_inbox_event i ''projector'') (\<lambda>_.
       bindE (upsert_checkpoint ''projector'' (kr_topic x) 0 (int (kr_offset x))) (\<lambda>_. returnM (Some v))))"
  have "?body w = (Inr None, w)" using w c by (simp add: upsert_view_def nofault_simps returnM_def)
  then have "apply_task_projection rp ''projector'' ''projector'' (kr_topic x) 0 (int (kr_offset x)) i ev w = (Inr None, w)"
    unfolding apply_task_projection_def using transaction_nofault [of ?body w] w ev(3)
    by (simp add: nofault_simps uuid_roundtrip)
  then show ?thesis using message_start [OF w ev(1,2)] by (simp add: bindE_def returnM_def)
qed

section \<open>The positions of the projector\<close>

definition moves_on :: "string \<Rightarrow> s3db \<Rightarrow> 't s3kv \<Rightarrow> s3db \<Rightarrow> 't s3kv \<Rightarrow> bool" where
  "moves_on grp d k d' k' \<longleftrightarrow> topics k' = topics k \<and> (\<forall>topic. pos_of grp k topic \<le> pos_of grp k' topic)"

interpretation moves_on: effect "moves_on grp" for grp
  by unfold_locales (auto simp: moves_on_def intro: le_trans)

definition keeps_place :: "s3db \<Rightarrow> 't s3kv \<Rightarrow> s3db \<Rightarrow> 't s3kv \<Rightarrow> bool" where
  "keeps_place d k d' k' \<longleftrightarrow> topics k' = topics k \<and> positions k' = positions k \<and> commits k' = commits k"

interpretation keeps_place: effect keeps_place
  by unfold_locales (auto simp: keeps_place_def)

named_theorems place_rules

lemmas [place_rules] = keeps_place.pure keeps_place.bind keeps_place.caught keeps_place.branch keeps_place.of_option
  keeps_place.of_sum keeps_place.of_prod keeps_place.of_let keeps_place.reading keeps_place.pooled keeps_place.atomic

lemma place_redis [place_rules]: "leads keeps_place (redis_call f)"
  unfolding redis_call_def by (rule keeps_place.command) (auto simp: keeps_place_def split: prod.splits)

lemma place_sql [place_rules]: "leads keeps_place (sql f)"
  by (rule keeps_place.statement) (simp add: keeps_place_def)

lemma place_message [place_rules]: "leads keeps_place (project_message rp c p ttl m)"
  unfolding project_message_def apply_task_projection_def upsert_view_def insert_inbox_event_def upsert_checkpoint_def
    is_inbox_event_processed_def cache_projected_view_def
  by (auto intro!: place_rules split: jtext.split json.split)

lemma place_messages [place_rules]: "leads keeps_place (project_messages rp ttl ms)"
  by (induction ms) (auto intro!: place_rules)

lemma place_moves: "leads keeps_place m \<Longrightarrow> leads (moves_on grp) m"
  by (simp add: leads_def keeps_place_def moves_on_def)

lemma distinct_topics: "distinct projector_topics"
  by (simp add: projector_topics_def)

lemma poll_moves: "leads (moves_on grp) (kafka_poll grp projector_topics n)"
  unfolding kafka_poll_def broker_read_def
proof (rule moves_on.command, goal_cases)
  case (1 now d k a k')
  obtain ms k1 where fetch: "fetch_from grp projector_topics n k = (ms, k1)" by fastforce
  with 1 have "topics k' = topics k1" "positions k' = positions k1" by auto
  then show ?case using fetch_takes [OF fetch distinct_topics] fetch_frame(1) [OF fetch] by (simp add: moves_on_def)
qed

lemma commit_moves: "leads (moves_on grp) (kafka_commit grp' ts)"
  unfolding kafka_commit_def broker_call_def by (rule moves_on.command) (auto simp: moves_on_def commit_all_def)

lemma turn_moves: "leads (moves_on projector_group) (projector_turn rp ttl n)"
  unfolding projector_turn_def project_polled_messages_def
  by (intro moves_on.caught moves_on.bind moves_on.branch moves_on.pure poll_moves commit_moves place_moves [OF place_messages])

lemma entry_fold: "entry d (fold (\<lambda>t. AList.update (g, t) (f t)) ts xs) (g, x) = (if x \<in> set ts then f x else entry d xs (g, x))"
  by (induction ts arbitrary: xs) auto

lemma turn_commits:
  assumes "projector_turn rp ttl n w = (Inr (Inr taken), w')" "0 < taken" "topic \<in> set projector_topics"
  shows "commit_of projector_group (kv w') topic = pos_of projector_group (kv w') topic"
proof -
  from assms(1) have "project_polled_messages rp ttl n w = (Inr taken, w')"
    by (cases "project_polled_messages rp ttl n w") (auto simp: projector_turn_def attempt_def)
  then obtain v where "kafka_commit projector_group projector_topics v = (Inr (), w')"
    using assms(2) unfolding project_polled_messages_def by (auto elim!: bindE_okE split: if_splits)
  then have "kv w' = (commit_all projector_group projector_topics (kv v))\<lparr>tb_state := tb_state (kv v)\<rparr>"
    unfolding kafka_commit_def broker_call_def by (auto elim!: remote_okE)
  with assms(3) show ?thesis by (simp add: commit_all_def entry_fold)
qed


lemma fetch_none: "(\<forall>t\<in>set ts. log_of k t = []) \<or> n = 0 \<Longrightarrow> fst (fetch_from grp ts n k) = []"
  by (induction ts arbitrary: n k) (auto simp: split_beta Let_def)

lemma fetch_only:
  assumes "c \<in> set ts" "distinct ts" "\<forall>t\<in>set ts. t \<noteq> c \<longrightarrow> log_of k t = []"
  shows "fst (fetch_from grp ts n k) = take n (drop (pos_of grp k c) (log_of k c)) \<and>
    pos_of grp (snd (fetch_from grp ts n k)) c = pos_of grp k c + length (take n (drop (pos_of grp k c) (log_of k c)))"
  using assms
proof (induction ts arbitrary: n k)
  case (Cons t ts)
  let ?ms = "take n (drop (pos_of grp k t) (log_of k t))"
  let ?k = "k\<lparr>positions := AList.update (grp, t) (pos_of grp k t + length ?ms) (positions k)\<rparr>"
  have step: "fetch_from grp (t # ts) n k = (?ms @ fst (fetch_from grp ts (n - length ?ms) ?k), snd (fetch_from grp ts (n - length ?ms) ?k))"
    by (simp add: split_beta Let_def)
  show ?case
  proof (cases "t = c")
    case True
    then have "c \<notin> set ts" "\<forall>t\<in>set ts. log_of ?k t = []" using Cons.prems(2,3) by auto
    then show ?thesis using step True fetch_none [of ts ?k "n - length ?ms" grp] fetch_frame(3) [of grp ts "n - length ?ms" ?k, OF prod.collapse [symmetric]]
      by simp
  next
    case False
    then have "log_of k t = []" using Cons.prems(3) by simp
    then show ?thesis using step False Cons.IH [of ?k n] Cons.prems by simp
  qed
qed simp

text \<open>A turn that takes the record of the demo task and fails on the database, and a turn after it that takes a record of a task that is gone.\<close>

definition lost_record :: KafkaRecord where
  "lost_record = demo_completion_record\<lparr>kr_offset := 1, kr_value := Decoded (JObj [(''task_id'', JStr (uuid_str 9))])\<rparr>"

definition demo_failing :: "fault list \<Rightarrow> (s3db, demo_ledger s3kv) world" where
  "demo_failing fs = (demo_world [demo_done] [demo_hold] fs)\<lparr>kv := (demo_kv [demo_hold] (\<lambda>_. 100))\<lparr>
     topics := [(''tasks.completed'', [demo_completion_record, lost_record])]\<rparr>\<rparr>"

lemma demo_poll:
  assumes w: "topics (kv w) = [(''tasks.completed'', [demo_completion_record, lost_record])]" "faults w = fs" "fs \<in> {[], Fine # gs}"
  obtains w' where "kafka_poll projector_group projector_topics n w =
      (Inr (take n (drop (pos_of projector_group (kv w) ''tasks.completed'') [demo_completion_record, lost_record])), w')"
    "pg w' = pg w" "faults w' = tl fs" "topics (kv w') = topics (kv w)"
    "pos_of projector_group (kv w') ''tasks.completed'' = pos_of projector_group (kv w) ''tasks.completed'' +
       length (take n (drop (pos_of projector_group (kv w) ''tasks.completed'') [demo_completion_record, lost_record]))"
proof -
  let ?f = "fetch_from projector_group projector_topics n (kv w)"
  have c: "''tasks.completed'' \<in> set projector_topics" by (simp add: projector_topics_def)
  have logs: "log_of (kv w) ''tasks.completed'' = [demo_completion_record, lost_record]"
    "\<forall>t\<in>set projector_topics. t \<noteq> ''tasks.completed'' \<longrightarrow> log_of (kv w) t = []" by (simp_all add: w(1) entry_def)
  note fetch = fetch_only [OF c distinct_topics logs(2), of projector_group n, unfolded logs(1)]
  have frame: "topics (snd ?f) = topics (kv w)" using fetch_frame(1) [of projector_group projector_topics n "kv w" "fst ?f" "snd ?f"] by simp
  show thesis
    by (rule that [of "w\<lparr>faults := tl fs, kv := (snd ?f)\<lparr>tb_state := tb_state (kv w)\<rparr>\<rparr>"])
      (use w(2,3) fetch frame in \<open>auto simp: kafka_poll_def broker_read_def remote_def ext_def split_beta\<close>)
qed

lemma message_refused:
  assumes "faults w = [FailBefore e]" "kr_value x = Decoded (JObj ev)" "decode_header_value (kr_headers x) ''event_id'' = Some (uuid_str i)"
  shows "project_message rp c p ttl x w = (Inl e, w\<lparr>faults := []\<rparr>)"
  using assms by (simp add: project_message_def uuid_roundtrip liftE_def bindE_def is_inbox_event_processed_def sql_read_def sql_def ext_def)


section \<open>A replay\<close>

lemma message_run:
  assumes w: "faults w = []" and x: "tells x i t"
  shows "\<exists>b w'. project_message rp ''projector'' ''projector'' ttl x w = (Inr b, w') \<and> faults w' = [] \<and>
    task_commands (pg w') = task_commands (pg w) \<and>
    ((i, ''projector'') \<in> set (inbox_events (pg w)) \<longrightarrow> pg w' = pg w) \<and>
    ((i, ''projector'') \<notin> set (inbox_events (pg w)) \<longrightarrow> task_shown (pg w') t) \<and>
    (\<forall>t'. task_shown (pg w) t' \<longrightarrow> task_shown (pg w') t') \<and>
    set (inbox_events (pg w')) \<subseteq> insert (i, ''projector'') (set (inbox_events (pg w)))"
proof -
  from x obtain ev where ev: "kr_value x = Decoded (JObj ev)" "decode_header_value (kr_headers x) ''event_id'' = Some (uuid_str i)"
    "dict_get ev ''task_id'' = Some (JStr (uuid_str t))" "length (kr_topic x) \<le> 128" by (auto simp: tells_def)
  let ?rest = "\<lambda>v. bindE (cache_projected_view v ttl) (\<lambda>_. returnM True)"
  note run = message_start [OF w ev(1,2), of rp "''projector''" "''projector''" ttl]
  show ?thesis
  proof (cases "(i, ''projector'') \<in> set (inbox_events (pg w))")
    case True
    then show ?thesis using run w by auto
  next
    case new: False
    show ?thesis
    proof (cases "find_command (pg w) t")
      case None
      from gone_run [OF w None ev(1-3)]
      show ?thesis using new w None by (intro exI [of _ False] exI [of _ w]) (auto simp: task_shown_def)
    next
      case (Some c)
      obtain v w1 where v: "apply_task_projection rp ''projector'' ''projector'' (kr_topic x) 0 (int (kr_offset x)) i ev w = (Inr (Some v), w1)"
        "v = projected_view (kr_topic x \<in> set TERMINAL_PROJECTION_TOPICS) (projected_result (kr_topic x) ev) (projected_error rp ev)
           (int (kr_offset x)) c (find_view (pg w) t)" "find_view (pg w1) t = Some v" "task_commands (pg w1) = task_commands (pg w)"
        "faults w1 = []" "inbox_events (pg w1) = inbox_events (pg w) @ [(i, ''projector'')]"
        "\<And>t'. t' \<noteq> t \<Longrightarrow> find_view (pg w1) t' = find_view (pg w) t'"
        using apply_run [OF w ev(3) Some new ev(4)] by metis
      have "smooth (?rest v) (\<lambda>a. a)" unfolding cache_projected_view_def by (intro smooth_rules TrueI)
      from smoothD [OF this v(5)] obtain w2 where w2: "?rest v w1 = (Inr True, w2)" "untouched w1 w2" by auto
      have same: "find_command (pg w1) t' = find_command (pg w) t'" for t' by (simp add: find_command_def v(4))
      have here: "task_shown (pg w1) t" using v(2,3) Some same by (simp add: task_shown_def projected_view_def)
      have "task_shown (pg w1) t'" if "task_shown (pg w) t'" for t'
        using that here v(7) same by (cases "t' = t") (auto simp: task_shown_def)
      then show ?thesis using run new v w2 here by (auto simp: bindE_def untouched_def)
    qed
  qed
qed


subsection \<open>The records of the logs\<close>

definition records :: "string list \<Rightarrow> 't s3kv \<Rightarrow> KafkaRecord set" where
  "records ts k = (\<Union>topic\<in>set ts. set (log_of k topic))"

text \<open>Every record tells of a task, and two records of one event of the same task.\<close>

definition well_told :: "KafkaRecord set \<Rightarrow> bool" where
  "well_told L \<longleftrightarrow> (\<forall>x\<in>L. \<exists>i t. tells x i t) \<and> (\<forall>x\<in>L. \<forall>y\<in>L. \<forall>i t t'. tells x i t \<longrightarrow> tells y i t' \<longrightarrow> t' = t)"

definition shown_by :: "s3db \<Rightarrow> KafkaRecord \<Rightarrow> bool" where
  "shown_by d x \<longleftrightarrow> (\<forall>i t. tells x i t \<longrightarrow> task_shown d t)"

definition inbox_shown :: "KafkaRecord set \<Rightarrow> s3db \<Rightarrow> bool" where
  "inbox_shown L d \<longleftrightarrow> (\<forall>x\<in>L. \<forall>i t. tells x i t \<longrightarrow> (i, ''projector'') \<in> set (inbox_events d) \<longrightarrow> task_shown d t)"

lemma shown_mono: "(\<And>t. task_shown d t \<Longrightarrow> task_shown d' t) \<Longrightarrow> shown_by d x \<Longrightarrow> shown_by d' x"
  by (simp add: shown_by_def)

lemma one_shown:
  assumes w: "faults w = []" and L: "well_told L" "x \<in> L" "inbox_shown L (pg w)"
  obtains b w' where "project_message rp ''projector'' ''projector'' ttl x w = (Inr b, w')" "faults w' = []" "inbox_shown L (pg w')"
    "shown_by (pg w') x" "\<And>t. task_shown (pg w) t \<Longrightarrow> task_shown (pg w') t"
proof -
  obtain i t where x: "tells x i t" using L(1,2) by (auto simp: well_told_def)
  obtain b w' where run: "project_message rp ''projector'' ''projector'' ttl x w = (Inr b, w')" "faults w' = []"
    and old: "(i, ''projector'') \<in> set (inbox_events (pg w)) \<Longrightarrow> pg w' = pg w"
    and new: "(i, ''projector'') \<notin> set (inbox_events (pg w)) \<Longrightarrow> task_shown (pg w') t"
    and mono: "\<And>t'. task_shown (pg w) t' \<Longrightarrow> task_shown (pg w') t'"
    and inbox: "set (inbox_events (pg w')) \<subseteq> insert (i, ''projector'') (set (inbox_events (pg w)))"
    using message_run [OF w x] by metis
  have here: "task_shown (pg w') t"
    using old new x L(2,3) by (cases "(i, ''projector'') \<in> set (inbox_events (pg w))") (auto simp: inbox_shown_def)
  then have shown: "shown_by (pg w') x" using tells_one [OF x] by (auto simp: shown_by_def)
  have "task_shown (pg w') t'" if y: "y \<in> L" "tells y i' t'" "(i', ''projector'') \<in> set (inbox_events (pg w'))" for y i' t'
  proof (cases "i' = i")
    case True
    then have "t' = t" using L(1,2) x y(1,2) unfolding well_told_def by blast
    then show ?thesis using here by simp
  next
    case False
    then have "(i', ''projector'') \<in> set (inbox_events (pg w))" using inbox y(3) by auto
    then show ?thesis using mono L(3) y(1,2) by (auto simp: inbox_shown_def)
  qed
  then have "inbox_shown L (pg w')" by (auto simp: inbox_shown_def)
  then show thesis using that [OF run _ shown mono] by blast
qed

lemma all_shown:
  assumes "faults w = []" "well_told L" "set ms \<subseteq> L" "inbox_shown L (pg w)"
  shows "\<exists>n w'. project_messages rp ttl ms w = (Inr n, w') \<and> faults w' = [] \<and> inbox_shown L (pg w') \<and>
    (\<forall>x\<in>set ms. shown_by (pg w') x) \<and> (\<forall>t. task_shown (pg w) t \<longrightarrow> task_shown (pg w') t)"
  using assms
proof (induction ms arbitrary: w)
  case Nil
  then show ?case by (simp add: returnM_def)
next
  case (Cons x ms)
  obtain b w1 where one: "project_message rp ''projector'' ''projector'' ttl x w = (Inr b, w1)" "faults w1 = []" "inbox_shown L (pg w1)"
    "shown_by (pg w1) x" "\<And>t. task_shown (pg w) t \<Longrightarrow> task_shown (pg w1) t"
    using one_shown [OF Cons.prems(1,2) _ Cons.prems(4), of x rp ttl thesis] Cons.prems(3) by simp
  obtain n w2 where rest: "project_messages rp ttl ms w1 = (Inr n, w2)" "faults w2 = []" "inbox_shown L (pg w2)"
    "\<forall>x\<in>set ms. shown_by (pg w2) x" "\<forall>t. task_shown (pg w1) t \<longrightarrow> task_shown (pg w2) t"
    using Cons.IH [OF one(2) Cons.prems(2) _ one(3)] Cons.prems(3) by auto
  have "shown_by (pg w2) x" using rest(5) by (intro shown_mono [OF _ one(4)]) simp
  moreover have "project_messages rp ttl (x # ms) w = (Inr (if b then Suc n else n), w2)"
    using one(1) rest(1) by (simp add: bindE_def returnM_def)
  ultimately show ?case using rest one(5) by auto
qed

lemma records_taken:
  assumes "distinct ts" "pending_records grp ts k = 0" "x \<in> records ts k"
  shows "\<exists>topic\<in>set ts. x \<in> set (take (pos_of grp k topic) (log_of k topic))"
proof -
  obtain topic where t: "topic \<in> set ts" "x \<in> set (log_of k topic)" using assms(3) by (auto simp: records_def)
  have "length (log_of k topic) - pos_of grp k topic = 0" using assms(2) t(1) by (simp add: pending_records_def)
  then show ?thesis using t by (intro bexI [of _ topic]) simp_all
qed

lemma poll_run:
  assumes w: "faults w = []" and n: "0 < n"
  obtains ms w' where "kafka_poll grp projector_topics n w = (Inr ms, w')" "faults w' = []" "pg w' = pg w" "topics (kv w') = topics (kv w)"
    "pending_records grp projector_topics (kv w') + length ms = pending_records grp projector_topics (kv w)"
    "ms = [] \<Longrightarrow> pending_records grp projector_topics (kv w) = 0" "set ms \<subseteq> records projector_topics (kv w)"
    "\<And>x topic. topic \<in> set projector_topics \<Longrightarrow> x \<in> set (take (pos_of grp (kv w') topic) (log_of (kv w) topic)) \<Longrightarrow>
       x \<in> set ms \<or> x \<in> set (take (pos_of grp (kv w) topic) (log_of (kv w) topic))"
proof -
  let ?ts = projector_topics
  obtain ms k where fetch: "fetch_from grp ?ts n (kv w) = (ms, k)" by fastforce
  let ?w = "w\<lparr>kv := k\<lparr>tb_state := tb_state (kv w)\<rparr>\<rparr>"
  have run: "kafka_poll grp ?ts n w = (Inr ms, ?w)" unfolding kafka_poll_def using w fetch by (simp add: broker_read_nofault)
  note takes = fetch_takes [OF fetch distinct_topics] and frame = fetch_frame [OF fetch]
  have kv: "log_of (kv ?w) t = log_of k t" "pos_of grp (kv ?w) t = pos_of grp k t" for t by simp_all
  have pend: "pending_records grp ?ts (kv ?w) = pending_records grp ?ts k" by (simp add: pending_records_def)
  have set: "set ms = (\<Union>t\<in>set ?ts. set (take (pos_of grp k t - pos_of grp (kv w) t) (drop (pos_of grp (kv w) t) (log_of (kv w) t))))"
    using takes by blast
  have sub: "set ms \<subseteq> records ?ts (kv w)"
    unfolding set records_def by (intro UN_mono subset_refl) (meson in_set_takeD in_set_dropD subsetI)
  have split: "x \<in> set ms \<or> x \<in> set (take (pos_of grp (kv w) t) (log_of (kv w) t))"
    if t: "t \<in> set ?ts" and x: "x \<in> set (take (pos_of grp k t) (log_of (kv w) t))" for x t
  proof -
    have "pos_of grp k t = pos_of grp (kv w) t + (pos_of grp k t - pos_of grp (kv w) t)" using takes by (simp add: le_add_diff_inverse)
    then have "x \<in> set (take (pos_of grp (kv w) t) (log_of (kv w) t)) \<or>
        x \<in> set (take (pos_of grp k t - pos_of grp (kv w) t) (drop (pos_of grp (kv w) t) (log_of (kv w) t)))"
      using x by (metis Un_iff set_append take_add)
    then show ?thesis using t unfolding set by blast
  qed
  show thesis
    by (rule that [OF run]) (use w takes n frame(1) sub split pend kv in simp_all)
qed

lemma replay_run:
  assumes "faults w = []" "well_told (records projector_topics (kv w))" "inbox_shown (records projector_topics (kv w)) (pg w)"
    "0 < n" "0 < empties" "pending_records grp projector_topics (kv w) + (empties - e) < fuel" "0 < e \<Longrightarrow> pending_records grp projector_topics (kv w) = 0"
    "\<And>topic x. topic \<in> set projector_topics \<Longrightarrow> x \<in> set (take (pos_of grp (kv w) topic) (log_of (kv w) topic)) \<Longrightarrow> shown_by (pg w) x"
  shows "\<exists>m w'. replay_events rp ttl n empties grp fuel e p w = (Inr (Some m), w') \<and>
    (\<forall>x\<in>records projector_topics (kv w). shown_by (pg w') x)"
  using assms
proof (induction fuel arbitrary: e p w)
  case (Suc fuel)
  let ?ts = projector_topics and ?L = "records projector_topics (kv w)"
  show ?case
  proof (cases "empties \<le> e")
    case True
    then have "pending_records grp ?ts (kv w) = 0" using Suc.prems(5,7) by simp
    then have "shown_by (pg w) x" if "x \<in> ?L" for x
      using records_taken [OF distinct_topics _ that] Suc.prems(8) by blast
    then show ?thesis using True by (simp add: returnM_def)
  next
    case False
    obtain ms w1 where poll: "kafka_poll grp ?ts n w = (Inr ms, w1)" "faults w1 = []" "pg w1 = pg w" "topics (kv w1) = topics (kv w)"
      "pending_records grp ?ts (kv w1) + length ms = pending_records grp ?ts (kv w)"
      "ms = [] \<Longrightarrow> pending_records grp ?ts (kv w) = 0" "set ms \<subseteq> ?L"
      "\<And>x topic. topic \<in> set ?ts \<Longrightarrow> x \<in> set (take (pos_of grp (kv w1) topic) (log_of (kv w) topic)) \<Longrightarrow>
         x \<in> set ms \<or> x \<in> set (take (pos_of grp (kv w) topic) (log_of (kv w) topic))"
      using poll_run [OF Suc.prems(1,4), where grp = grp] by blast
    have L1: "records ?ts (kv w1) = ?L" using poll(4) by (simp add: records_def)
    show ?thesis
    proof (cases "ms = []")
      case True
      have "\<exists>m w'. replay_events rp ttl n empties grp fuel (Suc e) p w1 = (Inr (Some m), w') \<and> (\<forall>x\<in>records ?ts (kv w1). shown_by (pg w') x)"
      proof (rule Suc.IH)
        show "shown_by (pg w1) x" if "topic \<in> set ?ts" "x \<in> set (take (pos_of grp (kv w1) topic) (log_of (kv w1) topic))" for topic x
          using poll(8) [OF that(1), of x] that Suc.prems(8) [OF that(1)] True poll(3,4) by auto
      qed (use Suc.prems poll True False L1 in simp_all)
      then show ?thesis using poll(1) True False L1 by (simp add: bindE_def)
    next
      case ms: False
      then have e: "e = 0" using Suc.prems(7) poll(5) by (cases e) auto
      obtain a w2 where all: "project_messages rp ttl ms w1 = (Inr a, w2)" "faults w2 = []" "inbox_shown ?L (pg w2)"
        "\<forall>x\<in>set ms. shown_by (pg w2) x" "\<forall>t. task_shown (pg w1) t \<longrightarrow> task_shown (pg w2) t"
        using all_shown [OF poll(2) Suc.prems(2) poll(7), of rp ttl] Suc.prems(3) poll(3) by auto
      have keep: "topics (kv w2) = topics (kv w1)" "positions (kv w2) = positions (kv w1)"
        using leadsD [OF place_messages all(1)] by (simp_all add: keeps_place_def)
      obtain w3 where commit: "kafka_commit grp ?ts w2 = (Inr (), w3)" "faults w3 = []" "pg w3 = pg w2" "topics (kv w3) = topics (kv w2)"
        "positions (kv w3) = positions (kv w2)"
        unfolding kafka_commit_def using all(2) by (simp add: broker_call_nofault commit_all_def)
      have L3: "records ?ts (kv w3) = ?L" using commit(4) keep(1) L1 by (simp add: records_def)
      have p3: "pending_records grp ?ts (kv w3) = pending_records grp ?ts (kv w1)"
        using commit(4,5) keep by (simp add: pending_records_def)
      have "\<exists>m w'. replay_events rp ttl n empties grp fuel 0 (p + a) w3 = (Inr (Some m), w') \<and> (\<forall>x\<in>records ?ts (kv w3). shown_by (pg w') x)"
      proof (rule Suc.IH)
        show "shown_by (pg w3) x" if t: "topic \<in> set ?ts" "x \<in> set (take (pos_of grp (kv w3) topic) (log_of (kv w3) topic))" for topic x
        proof -
          have "x \<in> set (take (pos_of grp (kv w1) topic) (log_of (kv w) topic))" using t(2) commit(4,5) keep poll(4) by simp
          from poll(8) [OF t(1) this] have "x \<in> set ms \<or> shown_by (pg w1) x" using Suc.prems(8) [OF t(1)] poll(3) by auto
          then show ?thesis using all(4,5) commit(3) shown_mono [of "pg w1" "pg w2" x] by auto
        qed
        show "pending_records grp ?ts (kv w3) + (empties - 0) < fuel"
          using Suc.prems(6) p3 poll(5) ms e by (cases ms) auto
      qed (use Suc.prems all commit L3 in simp_all)
      then show ?thesis using poll(1) all(1) commit(1) ms False L3 by (simp add: bindE_def)
    qed
  qed
qed simp

lemma clear_run:
  assumes "faults w = []"
  obtains n w' where "clear_task_cache w = (Inr n, w')" "faults w' = []" "pg w' = pg w" "entropy w' = entropy w"
    "topics (kv w') = topics (kv w)" "positions (kv w') = positions (kv w)"
proof -
  have "smooth (delete_batches n keys :: ('t, nat) app3) (\<lambda>_. True)" for n keys
    by (induction n arbitrary: keys) (auto intro!: smooth_rules)
  then have "smooth (clear_task_cache :: ('t, nat) app3) (\<lambda>_. True)" unfolding clear_task_cache_def by (intro smooth_rules)
  from smoothD [OF this assms] obtain n w' where run: "clear_task_cache w = (Inr n, w')" "untouched w w'" by blast
  have "leads keeps_place (delete_batches n keys :: ('t, nat) app3)" for n keys
    by (induction n arbitrary: keys) (auto intro!: place_rules)
  then have "leads keeps_place (clear_task_cache :: ('t, nat) app3)" unfolding clear_task_cache_def by (intro place_rules)
  from leadsD [OF this run(1)] run show thesis by (intro that [OF run(1)]) (simp_all add: keeps_place_def untouched_def)
qed

lemma reset_run:
  assumes "faults w = []"
  obtains w' where "reset_projection_state PROJECTOR_NAMES PROJECTOR_NAMES w = (Inr (), w')" "faults w' = []" "kv w' = kv w"
    "\<And>i. (i, ''projector'') \<notin> set (inbox_events (pg w'))"
proof -
  let ?d = "(pg w)\<lparr>task_query_view := [], inbox_events := filter (\<lambda>e. \<not> List.member PROJECTOR_NAMES (snd e)) (inbox_events (pg w)),
     checkpoints := filter (\<lambda>e. \<not> List.member PROJECTOR_NAMES (fst e)) (checkpoints (pg w))\<rparr>"
  let ?body = "bindE (sql (\<lambda>_ d. Inr ((), d\<lparr>task_query_view := []\<rparr>))) (\<lambda>_.
     bindE (if PROJECTOR_NAMES = [] then returnM () else sql (\<lambda>_ d.
       Inr ((), d\<lparr>inbox_events := filter (\<lambda>e. \<not> List.member PROJECTOR_NAMES (snd e)) (inbox_events d)\<rparr>))) (\<lambda>_.
     if PROJECTOR_NAMES = [] then returnM () else sql (\<lambda>_ d.
       Inr ((), d\<lparr>checkpoints := filter (\<lambda>e. \<not> List.member PROJECTOR_NAMES (fst e)) (checkpoints d)\<rparr>))))"
  have "?body w = (Inr (), w\<lparr>pg := ?d\<rparr>)" using assms by (simp add: PROJECTOR_NAMES_def nofault_simps)
  then have "reset_projection_state PROJECTOR_NAMES PROJECTOR_NAMES w = (Inr (), w\<lparr>pg := ?d\<rparr>)"
    unfolding reset_projection_state_def using transaction_nofault [of ?body w] assms by (simp add: nofault_simps)
  then show thesis by (rule that) (use assms in \<open>auto simp: PROJECTOR_NAMES_def\<close>)
qed

lemma rebuild_run:
  assumes w: "faults w = []" "0 < n" "0 < empties" and L: "well_told (records projector_topics (kv w))"
    and start: "\<And>topic. topic \<in> set projector_topics \<Longrightarrow> pos_of grp (kv w) topic = 0"
    and fuel: "pending_records grp projector_topics (kv w) + empties < fuel"
  obtains m deleted w' where "rebuild_from_events rp ttl n empties grp fuel w = (Inr (Some (m, deleted)), w')"
    "\<And>x. x \<in> records projector_topics (kv w) \<Longrightarrow> shown_by (pg w') x"
proof -
  obtain deleted w1 where clear: "clear_task_cache w = (Inr deleted, w1)" "faults w1 = []" "topics (kv w1) = topics (kv w)"
    "positions (kv w1) = positions (kv w)" using clear_run [OF w(1)] by metis
  obtain w2 where reset: "reset_projection_state PROJECTOR_NAMES PROJECTOR_NAMES w1 = (Inr (), w2)" "faults w2 = []" "kv w2 = kv w1"
    "\<And>i. (i, ''projector'') \<notin> set (inbox_events (pg w2))" using reset_run [OF clear(2)] by metis
  have eq: "records projector_topics (kv w2) = records projector_topics (kv w)"
    "pending_records grp projector_topics (kv w2) = pending_records grp projector_topics (kv w)"
    using clear(3,4) reset(3) by (simp_all add: records_def pending_records_def)
  have "\<exists>m w'. replay_events rp ttl n empties grp fuel 0 0 w2 = (Inr (Some m), w') \<and>
      (\<forall>x\<in>records projector_topics (kv w2). shown_by (pg w') x)"
  proof (rule replay_run [OF reset(2)])
    show "inbox_shown (records projector_topics (kv w2)) (pg w2)" using reset(4) by (simp add: inbox_shown_def)
    show "shown_by (pg w2) x" if "topic \<in> set projector_topics" "x \<in> set (take (pos_of grp (kv w2) topic) (log_of (kv w2) topic))" for topic x
      using that start [OF that(1)] clear(4) reset(3) by simp
  qed (use w L fuel eq in simp_all)
  then show thesis
    using that clear(1) reset(1) eq by (auto simp: rebuild_from_events_def bindE_def returnM_def)
qed


definition demo_logs :: "(s3db, demo_ledger s3kv) world" where
  "demo_logs = (demo_world [demo_done] [demo_hold] [])\<lparr>kv := (demo_kv [demo_hold] (\<lambda>_. 100))\<lparr>
     topics := [(''tasks.completed'', [demo_completion_record])]\<rparr>\<rparr>"

lemma demo_tells: "tells demo_completion_record 30 7"
  by (simp add: tells_def demo_completion_record_def outbox_message_def demo_completion_def new_event_def decode_header_value_def)


end
